(* ===== verification/Prelude.thy ===== *)
theory Prelude
  imports
    Main
    "HOL-Library.Finite_Map"
    "HOL-Library.List_Lexorder"
    "HOL-Library.Char_ord"
    "HOL-Library.Word"
begin

text \<open>
  Shared vocabulary of the development: the Go values every component uses (errors, results, times,
  maps), the part of the Go standard library the sources rely on (decimal numbers, base64url,
  prefixes), and the lemmas on finite maps and loops that the component theories build on.

  \<^item> A Go \<open>error\<close> is the list of the sentinels it wraps (\<open>%w\<close>); \<open>errors.Is\<close> is membership. The
    texts of the messages are not modelled. \<open>nil\<close> is \<^term>\<open>None\<close>.
  \<^item> A Go map with string keys is a finite map \<open>(string, 'v) fmap\<close>: equality is extensional, and
    the order in which \<open>range\<close> visits it is not part of the value. A loop that may stop at the
    first error visits \<^term>\<open>keys\<close>, the sorted keys, where the result does not depend on the order, and
    takes the order as an argument where it does.
  \<^item> A \<open>time.Time\<close> is the number of nanoseconds since the Go zero time (so \<open>IsZero\<close> is \<open>= 0\<close>), a
    \<open>time.Duration\<close> a number of nanoseconds. A \<open>uint64\<close> counter is a \<open>64 word\<close>.
\<close>

section \<open>Errors and results\<close>

datatype sentinel =
    ErrNoWriteGuard | ErrTooLarge | ErrSchemaVersion | ErrSecurityInvariant | ErrAuthentication
  | ErrChecksum | ErrStructure | ErrCorrupt | ErrInvalid | ErrAlreadyExists | ErrDuplicate
  | NotFoundError | ErrTooBig | OsErrNotExist | OsErrExist | ErrInstanceAppeared
  | ErrResetOnRoot | ErrResetFromPrev | ErrNoMasterKey
  | ErrNotMaster | ErrAgentRevoked | ErrLinkKeyExists | ErrPreviousNotRetired | ErrNoPreviousKey
  | ErrAgentBusy | ErrTooManyTasks | ErrMemoryBudget | ErrForbiddenTarget
  | ErrText string

type_synonym goerr = "sentinel list"
type_synonym 'a res = "goerr + 'a"

text \<open>\<open>errors.Is(err, s)\<close>: some error of the chain is the sentinel.\<close>

definition errors_is :: "goerr \<Rightarrow> sentinel \<Rightarrow> bool" where
  "errors_is e s \<longleftrightarrow> s \<in> set e"

text \<open>\<open>if err := f(); err != nil { return err }\<close> followed by the rest, in two shapes.\<close>

definition and_then :: "'a res \<Rightarrow> ('a \<Rightarrow> 'b res) \<Rightarrow> 'b res" where
  "and_then r k = (case r of Inl e \<Rightarrow> Inl e | Inr x \<Rightarrow> k x)"

definition check :: "goerr option \<Rightarrow> 'b res \<Rightarrow> 'b res" where
  "check e k = (case e of None \<Rightarrow> k | Some x \<Rightarrow> Inl x)"

definition err_or :: "goerr option \<Rightarrow> goerr option \<Rightarrow> goerr option" where
  "err_or e k = (case e of None \<Rightarrow> k | Some x \<Rightarrow> Some x)"

lemma check_Inr_iff [simp]: "check e k = Inr x \<longleftrightarrow> e = None \<and> k = Inr x"
  by (auto simp: check_def split: option.splits)

lemma check_None [simp]: "check None k = k"
  by (simp add: check_def)

lemma and_then_Inr_iff: "and_then r k = Inr x \<longleftrightarrow> (\<exists>y. r = Inr y \<and> k y = Inr x)"
  by (auto simp: and_then_def split: sum.splits)

lemma and_then_Inr [simp]: "and_then (Inr y) k = k y"
  by (simp add: and_then_def)

lemma err_or_None_iff [simp]: "err_or e k = None \<longleftrightarrow> e = None \<and> k = None"
  by (auto simp: err_or_def split: option.splits)

section \<open>Go time\<close>

type_synonym gotime = int
type_synonym duration = int

definition second :: duration where "second = 1000000000"

text \<open>\<open>Time.Unix()\<close>: whole seconds since 1970, rounded down (62135596800 s separate the zero time from 1970).\<close>

definition unix_sec :: "gotime \<Rightarrow> int" where
  "unix_sec t = t div second - 62135596800"

text \<open>\<open>time.Unix(s, 0)\<close> and \<open>Time.Truncate(time.Second)\<close>.\<close>

definition unix_time :: "int \<Rightarrow> gotime" where
  "unix_time s = (s + 62135596800) * second"

definition trunc_second :: "gotime \<Rightarrow> gotime" where
  "trunc_second t = t div second * second"

lemma unix_sec_unix_time [simp]: "unix_sec (unix_time s) = s"
  by (simp add: unix_sec_def unix_time_def second_def)

lemma unix_sec_mono: "t \<le> t' \<Longrightarrow> unix_sec t \<le> unix_sec t'"
  by (simp add: unix_sec_def second_def zdiv_mono1)

lemma unix_time_le_iff: "unix_time s \<le> t \<longleftrightarrow> s \<le> unix_sec t"
proof -
  have "unix_time s \<le> t \<longleftrightarrow> (s + 62135596800) * second \<le> t" by (simp add: unix_time_def)
  also have "\<dots> \<longleftrightarrow> s + 62135596800 \<le> t div second" by (auto simp: second_def)
  finally show ?thesis by (simp add: unix_sec_def algebra_simps)
qed

lemma trunc_second_le: "trunc_second t \<le> t"
proof -
  have "t div second * second + t mod second = t" by (rule div_mult_mod_eq)
  moreover have "0 \<le> t mod second" by (simp add: second_def)
  ultimately show ?thesis unfolding trunc_second_def by linarith
qed

section \<open>Strings\<close>

text \<open>\<open>strings.HasPrefix\<close>.\<close>

definition has_prefix :: "string \<Rightarrow> string \<Rightarrow> bool" where
  "has_prefix s p \<longleftrightarrow> take (length p) s = p"

lemma has_prefix_append [simp]: "has_prefix (p @ s) p"
  by (simp add: has_prefix_def)

lemma has_prefix_iff: "has_prefix s p \<longleftrightarrow> (\<exists>r. s = p @ r)"
  by (metis append_eq_conv_conj has_prefix_def)

text \<open>\<open>strconv.Itoa\<close> and \<open>strconv.FormatUint(_, 10)\<close> on a non-negative number.\<close>

definition digit_char :: "nat \<Rightarrow> char" where
  "digit_char d = char_of (48 + d)"

fun itoa :: "nat \<Rightarrow> string" where
  "itoa n = (if n < 10 then [digit_char n] else itoa (n div 10) @ [digit_char (n mod 10)])"

declare itoa.simps [simp del]

text \<open>
  \<open>strconv.ParseUint(_, 10, 64)\<close> as the sources use it: the error is ignored and the returned number
  kept, which is 0 for a syntax error and the largest uint64 for a number out of range.
\<close>

definition is_digit :: "char \<Rightarrow> bool" where
  "is_digit c \<longleftrightarrow> 48 \<le> (of_char c :: nat) \<and> (of_char c :: nat) \<le> 57"

definition digit_val :: "char \<Rightarrow> nat" where
  "digit_val c = (of_char c :: nat) - 48"

definition dec_value :: "string \<Rightarrow> nat" where
  "dec_value s = foldl (\<lambda>n c. 10 * n + digit_val c) 0 s"

definition parse_uint :: "string \<Rightarrow> 64 word" where
  "parse_uint s =
     (if s = [] \<or> \<not> list_all is_digit s then 0
      else if 2 ^ 64 \<le> dec_value s then - 1
      else of_nat (dec_value s))"

definition format_uint :: "64 word \<Rightarrow> string" where
  "format_uint w = itoa (unat w)"

lemma of_char_digit: "d < 10 \<Longrightarrow> (of_char (digit_char d) :: nat) = 48 + d"
  by (simp add: digit_char_def)

lemma digit_val_digit_char [simp]: "d < 10 \<Longrightarrow> digit_val (digit_char d) = d"
  by (simp add: digit_val_def of_char_digit)

lemma is_digit_digit_char [simp]: "d < 10 \<Longrightarrow> is_digit (digit_char d)"
  by (simp add: is_digit_def of_char_digit)

lemma itoa_not_Nil [simp]: "itoa n \<noteq> []"
  by (subst itoa.simps) simp

lemma itoa_digits: "list_all is_digit (itoa n)"
proof (induction n rule: itoa.induct)
  case (1 n)
  then show ?case by (cases "n < 10") (simp_all add: itoa.simps [of n])
qed

lemma dec_value_snoc: "dec_value (s @ [c]) = 10 * dec_value s + digit_val c"
  by (simp add: dec_value_def)

lemma dec_value_itoa [simp]: "dec_value (itoa n) = n"
proof (induction n rule: itoa.induct)
  case (1 n)
  show ?case
  proof (cases "n < 10")
    case True
    then show ?thesis by (simp add: itoa.simps [of n] dec_value_def)
  next
    case False
    with 1 have "dec_value (itoa (n div 10)) = n div 10" by simp
    with False show ?thesis by (simp add: itoa.simps [of n] dec_value_snoc)
  qed
qed

lemma itoa_inj: "itoa m = itoa n \<Longrightarrow> m = n"
  by (metis dec_value_itoa)

lemma parse_format_uint [simp]: "parse_uint (format_uint w) = w"
proof -
  have "unat w < 2 ^ LENGTH(64)" by (rule unsigned_less)
  then show ?thesis by (simp add: parse_uint_def format_uint_def itoa_digits)
qed

text \<open>
  \<open>base64.RawURLEncoding.DecodeString\<close>: the URL alphabet without padding, line breaks ignored, a
  group of one character refused; the unused bits of the last group are not checked.
\<close>

definition b64_val :: "char \<Rightarrow> nat option" where
  "b64_val c =
     (let n = of_char c :: nat in
      if 65 \<le> n \<and> n \<le> 90 then Some (n - 65)
      else if 97 \<le> n \<and> n \<le> 122 then Some (n - 71)
      else if 48 \<le> n \<and> n \<le> 57 then Some (n + 4)
      else if n = 45 then Some 62
      else if n = 95 then Some 63
      else None)"

fun b64_vals :: "string \<Rightarrow> nat list option" where
  "b64_vals [] = Some []"
| "b64_vals (c # cs) =
     (if (of_char c :: nat) = 10 \<or> (of_char c :: nat) = 13 then b64_vals cs
      else case b64_val c of
        None \<Rightarrow> None
      | Some v \<Rightarrow> map_option (Cons v) (b64_vals cs))"

fun b64_bytes :: "nat list \<Rightarrow> nat list option" where
  "b64_bytes [] = Some []"
| "b64_bytes [a] = None"
| "b64_bytes [a, b] = Some [4 * a + b div 16]"
| "b64_bytes [a, b, c] = Some [4 * a + b div 16, 16 * (b mod 16) + c div 4]"
| "b64_bytes (a # b # c # d # r) =
     map_option (\<lambda>bs. (4 * a + b div 16) # (16 * (b mod 16) + c div 4) # (64 * (c mod 4) + d) # bs) (b64_bytes r)"

definition raw_url_decode :: "string \<Rightarrow> nat list option" where
  "raw_url_decode s = Option.bind (b64_vals s) b64_bytes"

section \<open>Loops over maps\<close>

text \<open>The keys of a map, in a fixed order.\<close>

definition keys :: "(string, 'v) fmap \<Rightarrow> string list" where
  "keys m = sorted_list_of_set (fset (fmdom m))"

lemma set_keys [simp]: "set (keys m) = fset (fmdom m)"
  by (simp add: keys_def)

lemma distinct_keys [simp]: "distinct (keys m)"
  by (simp add: keys_def)

text \<open>\<open>for k, v := range m { if err := f(k, v); err != nil { return err } }\<close>, visiting \<open>ks\<close>.\<close>

fun range_in :: "string list \<Rightarrow> (string, 'v) fmap \<Rightarrow> (string \<Rightarrow> 'v \<Rightarrow> goerr option) \<Rightarrow> goerr option" where
  "range_in [] m f = None"
| "range_in (k # ks) m f =
     (case fmlookup m k of
        None \<Rightarrow> range_in ks m f
      | Some v \<Rightarrow> err_or (f k v) (range_in ks m f))"

definition range_err :: "(string, 'v) fmap \<Rightarrow> (string \<Rightarrow> 'v \<Rightarrow> goerr option) \<Rightarrow> goerr option" where
  "range_err m f = range_in (keys m) m f"

lemma range_in_None_iff:
  "range_in ks m f = None \<longleftrightarrow> (\<forall>k \<in> set ks. \<forall>v. fmlookup m k = Some v \<longrightarrow> f k v = None)"
  by (induction ks) (auto split: option.splits)

lemma in_keys_iff: "k \<in> fset (fmdom m) \<longleftrightarrow> (\<exists>v. fmlookup m k = Some v)"
  by (auto intro: fmdomI)

text \<open>A loop that visits every key finds nothing exactly when no entry is at fault, whatever the order.\<close>

lemma range_in_all:
  assumes "fset (fmdom m) \<subseteq> set ks"
  shows "range_in ks m f = None \<longleftrightarrow> fmpred (\<lambda>k v. f k v = None) m"
  unfolding range_in_None_iff fmpred_iff using assms by (meson in_keys_iff subsetD)

lemma range_err_None_iff [simp]: "range_err m f = None \<longleftrightarrow> fmpred (\<lambda>k v. f k v = None) m"
  unfolding range_err_def by (rule range_in_all) simp

lemma range_in_result:
  "range_in ks m f = Some e \<Longrightarrow> \<exists>k v. fmlookup m k = Some v \<and> f k v = Some e"
  by (induction ks) (auto simp: err_or_def split: option.splits)

section \<open>Finite maps\<close>

named_theorems undo_simps \<open>putting a previous binding back restores the map\<close>

lemma fmupd_same [undo_simps]: "fmlookup m k = Some v \<Longrightarrow> fmupd k v m = m"
  by (rule fmap_ext) auto

lemma fmupd_fmupd_same [simp]: "fmupd k v (fmupd k w m) = fmupd k v m"
  by (rule fmap_ext) simp

lemma fmdrop_same [undo_simps]: "fmlookup m k = None \<Longrightarrow> fmdrop k m = m"
  by (rule fmap_ext) auto

lemma fmdrop_fmupd_same [simp]: "fmdrop k (fmupd k v m) = fmdrop k m"
  by (rule fmap_ext) auto

lemma fmupd_fmdrop_same [simp]: "fmupd k v (fmdrop k m) = fmupd k v m"
  by (rule fmap_ext) auto

lemma fmpred_upd_iff:
  "fmpred P (fmupd k v m) \<longleftrightarrow> P k v \<and> fmpred P (fmdrop k m)"
  unfolding fmpred_iff by auto

lemma fmlookup_all_iff: "fmpred P m \<Longrightarrow> fmlookup m k = Some v \<Longrightarrow> P k v"
  by (simp add: fmpred_iff)

text \<open>The value of a key, the Go zero value when it is absent.\<close>

definition get_or :: "'v \<Rightarrow> (string, 'v) fmap \<Rightarrow> string \<Rightarrow> 'v" where
  "get_or d m k = (case fmlookup m k of None \<Rightarrow> d | Some v \<Rightarrow> v)"

lemma get_or_upd [simp]: "get_or d (fmupd k v m) k' = (if k = k' then v else get_or d m k')"
  by (simp add: get_or_def)

lemma get_or_drop [simp]: "get_or d (fmdrop k m) k' = (if k = k' then d else get_or d m k')"
  by (simp add: get_or_def)

subsection \<open>Unique indexes\<close>

text \<open>
  An index maps a non-empty attribute of the entries of a map to the key of the entry that carries it.
  It is exact when it holds nothing else and misses none.
\<close>

definition idx_ok :: "('v \<Rightarrow> string) \<Rightarrow> (string, 'v) fmap \<Rightarrow> (string, string) fmap \<Rightarrow> bool" where
  "idx_ok attr m idx \<longleftrightarrow>
     (\<forall>a k. fmlookup idx a = Some k \<longleftrightarrow> a \<noteq> [] \<and> (\<exists>v. fmlookup m k = Some v \<and> attr v = a))"

lemma idx_okD: "idx_ok attr m idx \<Longrightarrow> fmlookup idx a = Some k \<Longrightarrow> \<exists>v. fmlookup m k = Some v \<and> attr v = a"
  by (auto simp: idx_ok_def)

lemma idx_ok_lookup:
  "idx_ok attr m idx \<Longrightarrow> fmlookup m k = Some v \<Longrightarrow> attr v \<noteq> [] \<Longrightarrow> fmlookup idx (attr v) = Some k"
  by (auto simp: idx_ok_def)

lemma idx_ok_inj:
  assumes "idx_ok attr m idx" "fmlookup m k = Some v" "fmlookup m k' = Some v'"
    and "attr v = attr v'" "attr v \<noteq> []"
  shows "k = k'"
  using idx_ok_lookup [OF assms(1,2)] idx_ok_lookup [OF assms(1,3)] assms(4,5) by simp

text \<open>An exact index is determined by the map.\<close>

lemma idx_ok_unique: "idx_ok attr m idx \<Longrightarrow> idx_ok attr m idx' \<Longrightarrow> idx = idx'"
proof (rule fmap_ext)
  fix a
  assume "idx_ok attr m idx" "idx_ok attr m idx'"
  then have "\<And>k. fmlookup idx a = Some k \<longleftrightarrow> fmlookup idx' a = Some k"
    by (simp add: idx_ok_def)
  then show "fmlookup idx a = fmlookup idx' a"
    by (metis option.exhaust)
qed

lemma idx_ok_empty [simp]: "idx_ok attr fmempty fmempty"
  by (simp add: idx_ok_def)

lemma idx_ok_put:
  assumes ok: "idx_ok attr m idx"
    and free: "\<And>owner. fmlookup idx (attr v) = Some owner \<Longrightarrow> owner = k"
    and ne: "attr v \<noteq> []"
  shows "idx_ok attr (fmupd k v m) (fmupd (attr v) k (case fmlookup m k of
           None \<Rightarrow> idx | Some old \<Rightarrow> if attr old \<noteq> attr v then fmdrop (attr old) idx else idx))"
proof -
  have other: "attr v' \<noteq> attr v" if "fmlookup m k' = Some v'" "k' \<noteq> k" for k' v'
    using that free ne idx_ok_lookup [OF ok that(1)] by metis
  have inj: "attr v' \<noteq> attr old" if "fmlookup m k' = Some v'" "k' \<noteq> k" "fmlookup m k = Some old" "attr old \<noteq> []"
    for k' v' old
    using idx_ok_inj [OF ok that(1,3)] that(2,4) by metis
  show ?thesis
  proof (cases "fmlookup m k")
    case None
    with ok ne other show ?thesis by (auto simp: idx_ok_def)
  next
    case (Some old)
    with ok ne other inj [OF _ _ Some] show ?thesis
      by (cases "attr old = attr v") (fastforce simp: idx_ok_def)+
  qed
qed

lemma idx_ok_put_empty:
  assumes ok: "idx_ok attr m idx" and e: "attr v = []"
  shows "idx_ok attr (fmupd k v m) (case fmlookup m k of
           None \<Rightarrow> idx | Some old \<Rightarrow> if attr old \<noteq> [] then fmdrop (attr old) idx else idx)"
proof (cases "fmlookup m k")
  case None
  with ok e show ?thesis by (auto simp: idx_ok_def)
next
  case (Some old)
  have inj: "attr v' \<noteq> attr old" if "fmlookup m k' = Some v'" "k' \<noteq> k" "attr old \<noteq> []" for k' v'
    using idx_ok_inj [OF ok that(1) Some] that(2,3) by metis
  show ?thesis
    using Some ok e inj by (cases "attr old = []") (fastforce simp: idx_ok_def)+
qed

lemma idx_ok_del:
  assumes ok: "idx_ok attr m idx" and old: "fmlookup m k = Some old"
  shows "idx_ok attr (fmdrop k m) (if attr old \<noteq> [] then fmdrop (attr old) idx else idx)"
proof -
  have inj: "attr v' \<noteq> attr old" if "fmlookup m k' = Some v'" "k' \<noteq> k" "attr old \<noteq> []" for k' v'
    using idx_ok_inj [OF ok that(1) old] that(2,3) by metis
  show ?thesis
    using old ok inj by (cases "attr old = []") (fastforce simp: idx_ok_def)+
qed

text \<open>Both cases at once, in the shape the code writes them: the old attribute leaves, the new one enters.\<close>

lemma idx_ok_move:
  assumes ok: "idx_ok attr m idx"
    and free: "\<And>owner. attr v \<noteq> [] \<Longrightarrow> fmlookup idx (attr v) = Some owner \<Longrightarrow> owner = k"
    and drop: "idx1 = (case fmlookup m k of None \<Rightarrow> idx
        | Some old \<Rightarrow> if attr old \<noteq> attr v \<and> attr old \<noteq> [] then fmdrop (attr old) idx else idx)"
    and set: "idx2 = (if attr v = [] then idx1 else fmupd (attr v) k idx1)"
  shows "idx_ok attr (fmupd k v m) idx2"
proof (cases "attr v = []")
  case True
  then have "idx2 = (case fmlookup m k of None \<Rightarrow> idx | Some old \<Rightarrow> if attr old \<noteq> [] then fmdrop (attr old) idx else idx)"
    by (auto simp: drop set split: option.splits)
  with idx_ok_put_empty [where attr = attr, OF ok True, of k] show ?thesis by simp
next
  case False
  have absent: "fmdrop [] idx = idx" using ok by (intro fmdrop_same, cases "fmlookup idx []") (auto simp: idx_ok_def)
  then have "idx2 = fmupd (attr v) k (case fmlookup m k of
      None \<Rightarrow> idx | Some old \<Rightarrow> if attr old \<noteq> attr v then fmdrop (attr old) idx else idx)"
    using False by (auto simp: drop set split: option.splits)
  with idx_ok_put [where attr = attr and v = v, OF ok] free False show ?thesis by simp
qed

end
