(* ===== verification/Group_Commit.thy ===== *)
theory Group_Commit
  imports Prelude
begin

text \<open>
  The queue of \<open>Engine.Mutate\<close> (\<open>internal/state/engine.go\<close>): callers append their request under the queue
  mutex; the first one becomes the writer, commits what is queued until its own request is answered, and hands
  the rest to \<open>drain\<close>. The steps below are the sections the code runs under the mutex, and the commit between two
  of them; arrivals interleave anywhere. Shown: no request is lost or answered twice, requests are answered in the
  order of arrival, and as long as the writer runs every request is answered after a bounded number of its steps.
\<close>

section \<open>The queue and its steps\<close>

text \<open>Who holds the \<open>writing\<close> flag, and where it is in its loop.\<close>

datatype owner = NoWriter | Caller nat | Drainer

datatype phase = AtTake | AtCommit | AtCheck

record gc =
  queue :: "nat list"
  writing :: bool
  batch :: "nat list"
  who :: owner
  at :: phase
  answered :: "nat list"
  arrived :: "nat list"

definition gc_init :: gc where
  "gc_init = \<lparr>queue = [], writing = False, batch = [], who = NoWriter, at = AtTake, answered = [], arrived = []\<rparr>"

text \<open>The first critical section of \<open>Mutate\<close>.\<close>

definition enqueue :: "nat \<Rightarrow> gc \<Rightarrow> gc" where
  "enqueue r s =
     (let s' = s\<lparr>queue := queue s @ [r], arrived := arrived s @ [r]\<rparr> in
      if writing s then s' else s'\<lparr>writing := True, who := Caller r, at := AtTake\<rparr>)"

text \<open>
  One step of the writer, \<open>None\<close> when there is none: taking the queue (an empty one ends the loop), the commit
  (which answers the whole batch), and, for a caller, the test whether its own request is answered.
\<close>

fun writer_step :: "gc \<Rightarrow> gc option" where
  "writer_step s =
     (case who s of
        NoWriter \<Rightarrow> None
      | w \<Rightarrow>
          (case at s of
             AtTake \<Rightarrow>
               if queue s = [] then Some (s\<lparr>writing := False, who := NoWriter\<rparr>)
               else Some (s\<lparr>batch := queue s, queue := [], at := AtCommit\<rparr>)
           | AtCommit \<Rightarrow>
               Some (s\<lparr>answered := answered s @ batch s, batch := [], at := (case w of Caller _ \<Rightarrow> AtCheck | _ \<Rightarrow> AtTake)\<rparr>)
           | AtCheck \<Rightarrow>
               (case w of
                  Caller r \<Rightarrow>
                    if r \<in> set (answered s) then
                      (if queue s = [] then Some (s\<lparr>writing := False, who := NoWriter, at := AtTake\<rparr>)
                       else Some (s\<lparr>who := Drainer, at := AtTake\<rparr>))
                    else Some (s\<lparr>at := AtTake\<rparr>)
                | _ \<Rightarrow> None)))"

declare writer_step.simps [simp del]

inductive gc_step :: "gc \<Rightarrow> gc \<Rightarrow> bool" where
  arrival: "r \<notin> set (arrived s) \<Longrightarrow> gc_step s (enqueue r s)"
| writer: "writer_step s = Some s' \<Longrightarrow> gc_step s s'"

inductive_cases gc_stepE: "gc_step s s'"

definition gc_reachable :: "gc \<Rightarrow> bool" where
  "gc_reachable s \<longleftrightarrow> gc_step\<^sup>*\<^sup>* gc_init s"

section \<open>The invariant\<close>

definition gc_inv :: "gc \<Rightarrow> bool" where
  "gc_inv s \<longleftrightarrow>
     arrived s = answered s @ batch s @ queue s \<and> distinct (arrived s) \<and>
     (writing s \<longleftrightarrow> who s \<noteq> NoWriter) \<and>
     (who s = NoWriter \<longrightarrow> queue s = [] \<and> batch s = []) \<and>
     (at s = AtCommit \<longleftrightarrow> batch s \<noteq> []) \<and>
     (at s = AtCheck \<longrightarrow> (\<exists>r. who s = Caller r)) \<and>
     (\<forall>r. who s = Caller r \<longrightarrow>
        (at s = AtTake \<longrightarrow> r \<in> set (queue s)) \<and> (at s = AtCommit \<longrightarrow> r \<in> set (batch s)) \<and>
        (at s = AtCheck \<longrightarrow> r \<in> set (answered s)))"

lemma gc_inv_init: "gc_inv gc_init"
  by (simp add: gc_inv_def gc_init_def)

lemma gc_inv_enqueue: "gc_inv s \<Longrightarrow> r \<notin> set (arrived s) \<Longrightarrow> gc_inv (enqueue r s)"
  unfolding gc_inv_def enqueue_def Let_def by (cases "writing s") auto

lemma gc_inv_writer: "gc_inv s \<Longrightarrow> writer_step s = Some s' \<Longrightarrow> gc_inv s'"
  by (cases "who s"; cases "at s")
    (auto simp: gc_inv_def writer_step.simps split: if_splits)

lemma gc_inv_reachable: "gc_reachable s \<Longrightarrow> gc_inv s"
  unfolding gc_reachable_def
  by (induction rule: rtranclp_induct) (auto simp: gc_inv_init elim: gc_stepE intro: gc_inv_enqueue gc_inv_writer)

text \<open>The writer left alone: repeat its step.\<close>

fun run_writer :: "nat \<Rightarrow> gc \<Rightarrow> gc" where
  "run_writer 0 s = s"
| "run_writer (Suc n) s = (case writer_step s of None \<Rightarrow> s | Some s' \<Rightarrow> run_writer n s')"

lemma run_writer_idle: "who s = NoWriter \<Longrightarrow> run_writer n s = s"
  by (cases n) (simp_all add: writer_step.simps)

definition all_answered :: "gc \<Rightarrow> bool" where
  "all_answered s \<longleftrightarrow> queue s = [] \<and> batch s = [] \<and> \<not> writing s \<and> answered s = arrived s"

lemma idle_answered: "gc_inv s \<Longrightarrow> who s = NoWriter \<Longrightarrow> all_answered (run_writer n s)"
  by (auto simp: run_writer_idle all_answered_def gc_inv_def)

lemma arrived_writer: "writer_step s = Some s' \<Longrightarrow> arrived s' = arrived s"
  by (cases "who s"; cases "at s") (auto simp: writer_step.simps split: if_splits)

lemma arrived_run: "arrived (run_writer n s) = arrived s"
  by (induction n arbitrary: s) (auto simp: arrived_writer split: option.split)

text \<open>How many steps are left, by the place the writer is at.\<close>

definition steps_left :: "gc \<Rightarrow> nat" where
  "steps_left s =
     (case who s of
        NoWriter \<Rightarrow> 0
      | Drainer \<Rightarrow> (case at s of AtTake \<Rightarrow> if queue s = [] then 1 else 3 | _ \<Rightarrow> if queue s = [] then 2 else 4)
      | Caller _ \<Rightarrow> (case at s of AtTake \<Rightarrow> 3 | AtCommit \<Rightarrow> if queue s = [] then 2 else 5
           | AtCheck \<Rightarrow> if queue s = [] then 1 else 4))"

lemma steps_left_bound: "steps_left s \<le> 5"
  by (simp add: steps_left_def split: owner.split phase.split)

lemma writer_progress:
  assumes "gc_inv s" "who s \<noteq> NoWriter"
  obtains s' where "writer_step s = Some s'" "steps_left s = Suc (steps_left s')"
proof -
  have "\<exists>s'. writer_step s = Some s' \<and> steps_left s = Suc (steps_left s')"
    using assms by (cases "who s"; cases "at s") (auto simp: gc_inv_def writer_step.simps steps_left_def)
  with that show thesis by blast
qed

lemma run_writer_answers: "gc_inv s \<Longrightarrow> steps_left s \<le> n \<Longrightarrow> all_answered (run_writer n s)"
proof (induction n arbitrary: s)
  case 0
  have "who s = NoWriter"
  proof (rule ccontr)
    assume "who s \<noteq> NoWriter"
    from writer_progress [OF 0(1) this] 0(2) show False by auto
  qed
  with 0(1) show ?case using idle_answered [of s 0] by simp
next
  case (Suc n)
  show ?case
  proof (cases "who s = NoWriter")
    case True
    with Suc(2) show ?thesis by (rule idle_answered)
  next
    case False
    from writer_progress [OF Suc(2) this] obtain s' where s': "writer_step s = Some s'" "steps_left s = Suc (steps_left s')"
      by blast
    with Suc gc_inv_writer [OF Suc(2) s'(1)] show ?thesis by simp
  qed
qed

section \<open>Properties\<close>

text \<open>
  No mutation is lost, and none is answered twice: whatever the interleaving of callers and writer, the requests
  that arrived are, in order of arrival, the answered ones, then the batch being written, then the queue; and
  whenever something is waiting, somebody holds the writing flag (no lost wake-up between a caller that saw the
  flag set and a writer that ends).
\<close>

theorem group_commit_fifo:
  assumes "gc_reachable s"
  shows "arrived s = answered s @ batch s @ queue s \<and> distinct (arrived s) \<and>
     (queue s \<noteq> [] \<or> batch s \<noteq> [] \<longrightarrow> writing s)"
  using gc_inv_reachable [OF assms] by (auto simp: gc_inv_def)

definition ex_gc :: gc where
  "ex_gc = the (writer_step (enqueue 2 (the (writer_step (enqueue 1 gc_init)))))"

lemma ex_gc_reachable: "gc_reachable ex_gc"
proof -
  let ?s1 = "enqueue 1 gc_init"
  let ?s2 = "the (writer_step ?s1)"
  let ?s3 = "enqueue 2 ?s2"
  have "gc_step gc_init ?s1" by (rule gc_step.arrival) (simp add: gc_init_def)
  moreover have "gc_step ?s1 ?s2"
    by (rule gc_step.writer) (simp add: writer_step.simps enqueue_def gc_init_def)
  moreover have "gc_step ?s2 ?s3" by (rule gc_step.arrival) (simp add: writer_step.simps enqueue_def gc_init_def)
  moreover have "gc_step ?s3 ex_gc"
    unfolding ex_gc_def by (rule gc_step.writer) (simp add: writer_step.simps enqueue_def gc_init_def)
  ultimately show ?thesis unfolding gc_reachable_def by (meson rtranclp.rtrancl_into_rtrancl rtranclp.rtrancl_refl)
qed

theorem group_commit_fifo_witness:
  "arrived ex_gc = answered ex_gc @ batch ex_gc @ queue ex_gc \<and> arrived ex_gc = [1, 2] \<and> answered ex_gc = [1] \<and> queue ex_gc = [2] \<and> writing ex_gc"
proof -
  have "arrived ex_gc = [1, 2]" "answered ex_gc = [1]" "queue ex_gc = [2]" by code_simp+
  with group_commit_fifo [OF ex_gc_reachable] show ?thesis by simp
qed

text \<open>
  C6. Every mutation is answered: from any reachable state, once no new request arrives, five steps of the writer
  are enough to answer everything that arrived and to release the writing flag.
\<close>

theorem group_commit_answers_all:
  assumes "gc_reachable s"
  shows "answered (run_writer 5 s) = arrived s \<and> queue (run_writer 5 s) = [] \<and> batch (run_writer 5 s) = [] \<and>
     \<not> writing (run_writer 5 s)"
  using run_writer_answers [OF gc_inv_reachable [OF assms] steps_left_bound] by (simp add: all_answered_def arrived_run)

theorem group_commit_answers_all_witness:
  "answered (run_writer 5 ex_gc) = [1, 2] \<and> \<not> writing (run_writer 5 ex_gc)"
proof -
  have "arrived ex_gc = [1, 2]" by code_simp
  with group_commit_answers_all [OF ex_gc_reachable] show ?thesis by simp
qed

end
