(* ===== verification/Effects.thy ===== *)
theory Effects
  imports Prelude
begin

text \<open>
  Go functions that act on the world and may fail, as state-passing programs: a program maps the world to
  a result (an error, or a value) and the world after it. Sequencing stops at the first error, as
  \<open>if err != nil { return err }\<close> does; the effects of the failed call stay. The triples of the second half
  (a precondition, a postcondition for a value and one for an error) carry the proofs about the file system
  and the lock.
\<close>

section \<open>Programs\<close>

type_synonym ('s, 'a) prog = "'s \<Rightarrow> 'a res \<times> 's"

definition ret :: "'a \<Rightarrow> ('s, 'a) prog" where
  "ret x s = (Inr x, s)"

definition raise :: "goerr \<Rightarrow> ('s, 'a) prog" where
  "raise e s = (Inl e, s)"

definition bindP :: "('s, 'a) prog \<Rightarrow> ('a \<Rightarrow> ('s, 'b) prog) \<Rightarrow> ('s, 'b) prog" where
  "bindP p k s = (case p s of (Inl e, s') \<Rightarrow> (Inl e, s') | (Inr x, s') \<Rightarrow> k x s')"

text \<open>\<open>x, err := p()\<close> with the error inspected instead of returned.\<close>

definition attempt :: "('s, 'a) prog \<Rightarrow> ('s, 'a res) prog" where
  "attempt p s = (case p s of (r, s') \<Rightarrow> (Inr r, s'))"

text \<open>\<open>defer func() { if err != nil { h() } }()\<close> and \<open>defer h()\<close>, the outcome of \<open>h\<close> ignored.\<close>

definition on_error :: "('s, 'a) prog \<Rightarrow> ('s, 'b) prog \<Rightarrow> ('s, 'a) prog" where
  "on_error p h s = (case p s of (Inl e, s') \<Rightarrow> (Inl e, snd (h s')) | (Inr x, s') \<Rightarrow> (Inr x, s'))"

definition always :: "('s, 'a) prog \<Rightarrow> ('s, 'b) prog \<Rightarrow> ('s, 'a) prog" where
  "always p h s = (case p s of (r, s') \<Rightarrow> (r, snd (h s')))"

text \<open>A pure step that may fail.\<close>

definition of_res :: "'a res \<Rightarrow> ('s, 'a) prog" where
  "of_res r s = (r, s)"

definition of_err :: "goerr option \<Rightarrow> ('s, unit) prog" where
  "of_err e = (case e of None \<Rightarrow> ret () | Some x \<Rightarrow> raise x)"

text \<open>An assignment to fields of the world, and a read of them.\<close>

definition modify :: "('s \<Rightarrow> 's) \<Rightarrow> ('s, unit) prog" where
  "modify f w = (Inr (), f w)"

definition gets :: "('s \<Rightarrow> 'a) \<Rightarrow> ('s, 'a) prog" where
  "gets f w = (Inr (f w), w)"

lemmas prog_defs = ret_def raise_def bindP_def attempt_def on_error_def always_def of_res_def of_err_def

section \<open>Triples\<close>

definition triple :: "('s \<Rightarrow> bool) \<Rightarrow> ('s, 'a) prog \<Rightarrow> ('a \<Rightarrow> 's \<Rightarrow> bool) \<Rightarrow> (goerr \<Rightarrow> 's \<Rightarrow> bool) \<Rightarrow> bool" where
  "triple P p Q E \<longleftrightarrow> (\<forall>s. P s \<longrightarrow> (case p s of (Inr x, s') \<Rightarrow> Q x s' | (Inl e, s') \<Rightarrow> E e s'))"

lemma tripleI:
  assumes "\<And>s. P s \<Longrightarrow> (case p s of (Inr x, s') \<Rightarrow> Q x s' | (Inl e, s') \<Rightarrow> E e s')"
  shows "triple P p Q E"
  using assms by (simp add: triple_def)

lemma tripleD: "triple P p Q E \<Longrightarrow> P s \<Longrightarrow> (case p s of (Inr x, s') \<Rightarrow> Q x s' | (Inl e, s') \<Rightarrow> E e s')"
  by (simp add: triple_def)

lemma triple_value: "triple P p Q E \<Longrightarrow> P s \<Longrightarrow> p s = (Inr x, s') \<Longrightarrow> Q x s'"
  unfolding triple_def by (drule spec [of _ s]) simp

lemma triple_error: "triple P p Q E \<Longrightarrow> P s \<Longrightarrow> p s = (Inl e, s') \<Longrightarrow> E e s'"
  unfolding triple_def by (drule spec [of _ s]) simp

lemma triple_conseq:
  assumes "triple P' p Q' E'" "\<And>s. P s \<Longrightarrow> P' s" "\<And>x s. Q' x s \<Longrightarrow> Q x s" "\<And>e s. E' e s \<Longrightarrow> E e s"
  shows "triple P p Q E"
  using assms unfolding triple_def by (fastforce split: prod.splits sum.splits)

lemma triple_ret: "(\<And>s. P s \<Longrightarrow> Q x s) \<Longrightarrow> triple P (ret x) Q E"
  by (simp add: triple_def ret_def)

lemma triple_raise: "(\<And>s. P s \<Longrightarrow> E e s) \<Longrightarrow> triple P (raise e) Q E"
  by (simp add: triple_def raise_def)

lemma triple_bind:
  assumes "triple P p R E" "\<And>x. triple (R x) (k x) Q E"
  shows "triple P (bindP p k) Q E"
  using assms unfolding triple_def bindP_def by (fastforce split: prod.splits sum.splits)

lemma triple_attempt:
  assumes "triple P p (\<lambda>x. Q (Inr x)) (\<lambda>e. Q (Inl e))"
  shows "triple P (attempt p) Q E"
  using assms unfolding triple_def attempt_def by (fastforce split: prod.splits sum.splits)

lemma triple_on_error:
  assumes p: "triple P p Q R" and h: "\<And>e. triple (R e) h (\<lambda>_. E e) (\<lambda>_. E e)"
  shows "triple P (on_error p h) Q E"
proof (rule tripleI)
  fix s assume "P s"
  show "case on_error p h s of (Inr x, s') \<Rightarrow> Q x s' | (Inl e, s') \<Rightarrow> E e s'"
  proof (cases "p s")
    case (Pair r s')
    show ?thesis
    proof (cases r)
      case (Inr x)
      with Pair triple_value [OF p \<open>P s\<close>] show ?thesis by (simp add: on_error_def)
    next
      case (Inl e)
      obtain r' s'' where h': "h s' = (r', s'')" by (cases "h s'")
      have "R e s'" using triple_error [OF p \<open>P s\<close>] Pair Inl by simp
      then have "E e s''"
        using h' triple_value [OF h] triple_error [OF h] by (cases r') auto
      with Pair Inl h' show ?thesis by (simp add: on_error_def)
    qed
  qed
qed

lemma triple_always:
  assumes p: "triple P p R S" and q: "\<And>x. triple (R x) h (\<lambda>_. Q x) (\<lambda>_. Q x)" and e: "\<And>e. triple (S e) h (\<lambda>_. E e) (\<lambda>_. E e)"
  shows "triple P (always p h) Q E"
proof (rule tripleI)
  fix s assume "P s"
  obtain r s' where p': "p s = (r, s')" by (cases "p s")
  obtain r' s'' where h': "h s' = (r', s'')" by (cases "h s'")
  show "case always p h s of (Inr x, s') \<Rightarrow> Q x s' | (Inl e, s') \<Rightarrow> E e s'"
  proof (cases r)
    case (Inr x)
    with p' triple_value [OF p \<open>P s\<close>] have "R x s'" by simp
    then have "Q x s''" using h' triple_value [OF q] triple_error [OF q] by (cases r') auto
    with Inr p' h' show ?thesis by (simp add: always_def)
  next
    case (Inl f)
    with p' triple_error [OF p \<open>P s\<close>] have "S f s'" by simp
    then have "E f s''" using h' triple_value [OF e] triple_error [OF e] by (cases r') auto
    with Inl p' h' show ?thesis by (simp add: always_def)
  qed
qed

lemma triple_of_err: "triple P (of_err e) (\<lambda>_ s. P s \<and> e = None) (\<lambda>x s. P s \<and> e = Some x)"
  by (simp add: triple_def of_err_def ret_def raise_def split: option.split)

lemma triple_of_res: "triple P (of_res r) (\<lambda>x s. P s \<and> r = Inr x) (\<lambda>x s. P s \<and> r = Inl x)"
  by (cases r) (simp_all add: triple_def of_res_def)

lemma triple_case_res:
  assumes "\<And>e. r = Inl e \<Longrightarrow> triple P (f e) Q E" "\<And>x. r = Inr x \<Longrightarrow> triple P (g x) Q E"
  shows "triple P (case r of Inl e \<Rightarrow> f e | Inr x \<Rightarrow> g x) Q E"
  using assms by (cases r) auto

lemma triple_if:
  assumes "b \<Longrightarrow> triple P p Q E" "\<not> b \<Longrightarrow> triple P q Q E"
  shows "triple P (if b then p else q) Q E"
  using assms by simp

lemma bindP_gets: "bindP (gets f) k w = k (f w) w"
  by (simp add: bindP_def gets_def)

lemma bindP_modify: "bindP (modify f) k w = k () (f w)"
  by (simp add: bindP_def modify_def)

lemma triple_modify: "(\<And>w. P w \<Longrightarrow> Q () (f w)) \<Longrightarrow> triple P (modify f) Q E"
  by (simp add: triple_def modify_def)

lemma triple_gets: "triple P (gets f) (\<lambda>x w. P w \<and> x = f w) E"
  by (simp add: triple_def gets_def)

lemma triple_any: "triple P p (\<lambda>_ _. True) (\<lambda>_ _. True)"
  by (simp add: triple_def split: prod.split sum.split)

section \<open>Invariants\<close>

text \<open>An invariant kept by a program, whatever its outcome.\<close>

definition keeps :: "('s \<Rightarrow> bool) \<Rightarrow> ('s, 'a) prog \<Rightarrow> bool" where
  "keeps I p \<longleftrightarrow> triple I p (\<lambda>_. I) (\<lambda>_. I)"

lemma keepsD: "keeps I p \<Longrightarrow> I w \<Longrightarrow> I (snd (p w))"
  unfolding keeps_def by (drule (1) tripleD) (auto split: prod.splits sum.splits)

lemma keepsI: "(\<And>w. I w \<Longrightarrow> I (snd (p w))) \<Longrightarrow> keeps I p"
proof (unfold keeps_def, rule tripleI)
  fix w assume keep: "\<And>w. I w \<Longrightarrow> I (snd (p w))" and "I w"
  obtain r w' where "p w = (r, w')" by (cases "p w")
  with keep [OF \<open>I w\<close>] show "case p w of (Inr x, s') \<Rightarrow> I s' | (Inl e, s') \<Rightarrow> I s'"
    by (cases r) simp_all
qed

lemma keeps_bind: "keeps I p \<Longrightarrow> (\<And>x. keeps I (k x)) \<Longrightarrow> keeps I (bindP p k)"
  unfolding keeps_def by (rule triple_bind)

lemma keeps_always: "keeps I p \<Longrightarrow> keeps I q \<Longrightarrow> keeps I (always p q)"
  unfolding keeps_def by (rule triple_always)

lemma keeps_attempt: "keeps I p \<Longrightarrow> keeps I (attempt p)"
  unfolding keeps_def by (rule triple_attempt)

lemma keeps_ret: "keeps I (ret x)"
  by (simp add: keeps_def triple_def ret_def)

lemma keeps_raise: "keeps I (raise e)"
  by (simp add: keeps_def triple_def raise_def)

lemma keeps_of_res: "keeps I (of_res r)"
  by (rule keepsI) (simp add: of_res_def)

lemma keeps_gets: "keeps I (gets f)"
  by (simp add: keeps_def triple_def gets_def)

lemma keeps_modify: "(\<And>w. I w \<Longrightarrow> I (f w)) \<Longrightarrow> keeps I (modify f)"
  by (simp add: keeps_def triple_def modify_def)

lemma keeps_if: "keeps I p \<Longrightarrow> keeps I q \<Longrightarrow> keeps I (if b then p else q)"
  by simp

lemma keeps_option: "keeps I p \<Longrightarrow> (\<And>x. keeps I (q x)) \<Longrightarrow> keeps I (case x of None \<Rightarrow> p | Some x \<Rightarrow> q x)"
  by (cases x) simp_all

lemma keeps_sum: "(\<And>x. keeps I (p x)) \<Longrightarrow> (\<And>x. keeps I (q x)) \<Longrightarrow> keeps I (case x of Inl x \<Rightarrow> p x | Inr x \<Rightarrow> q x)"
  by (cases x) simp_all

lemmas keeps_basic = keeps_bind keeps_always keeps_attempt keeps_ret keeps_raise keeps_of_res keeps_gets keeps_modify
  keeps_if keeps_option keeps_sum

end
