(* ===== verification/Lock_Lease.thy ===== *)
theory Lock_Lease
  imports Effects
begin

text \<open>
  The master lease of a relay instance (\<open>internal/lock\<close>): the content of relay.lock, the calibration, the
  candidacy of a secondary (\<open>step\<close>), the write guard of the master (\<open>CheckOwnership\<close>, \<open>confirmContent\<close>), the
  heartbeat, the publication of the write counter, the release and the operator's probe.

  The lock file is modelled down to file objects: the path designates at most one object, a descriptor keeps
  its object after the path moved on, and several objects may carry the same inode number (numbers are reused).
  Before every call of the code the other instances act, as the script of the world says: they may remove
  the path, create a new object there, rewrite objects and let time pass; the call itself may fail with any
  error (a failed write may have written any prefix).
\<close>

section \<open>Calibration\<close>

record Params =
  p_Beat :: duration
  p_Check :: duration
  p_SelfRetire :: duration
  p_MasterStale :: duration
  p_CandidateStale :: duration
  p_PauseMin :: duration
  p_PauseMax :: duration
  p_MaxWriteLatency :: duration

definition DefaultParams :: Params where
  "DefaultParams = \<lparr>p_Beat = 30 * second, p_Check = 5 * second, p_SelfRetire = 180 * second, p_MasterStale = 300 * second,
     p_CandidateStale = 10 * second, p_PauseMin = 1 * second, p_PauseMax = 2 * second, p_MaxWriteLatency = second div 2\<rparr>"

text \<open>\<open>Validate\<close>: the number of errors joined, \<open>None\<close> when there is none.\<close>

definition Validate :: "Params \<Rightarrow> goerr option" where
  "Validate p =
     (if \<not> list_all (\<lambda>d. d > 0) [p_Beat p, p_Check p, p_SelfRetire p, p_MasterStale p, p_CandidateStale p, p_PauseMin p,
          p_PauseMax p, p_MaxWriteLatency p] then Some [ErrText ''must be positive'']
      else
        (let errs =
           (if p_Check p \<ge> p_Beat p \<or> p_Beat p \<ge> p_SelfRetire p \<or> p_SelfRetire p \<ge> p_MasterStale p
            then [ErrText ''need check < beat < self-retire < master stale''] else []) @
           (if p_MaxWriteLatency p \<ge> p_PauseMin p then [ErrText ''max write latency must be below the minimum pause''] else []) @
           (if p_PauseMin p > p_PauseMax p \<or> p_PauseMax p \<ge> p_CandidateStale p
            then [ErrText ''need pause min <= pause max < candidate stale''] else [])
         in if errs = [] then None else Some errs))"

section \<open>Content\<close>

abbreviation RoleCandidate :: string where "RoleCandidate \<equiv> ''candidate''"
abbreviation RoleMaster :: string where "RoleMaster \<equiv> ''master''"

record content =
  c_InstanceID :: string
  c_Role :: string
  c_Beat :: "64 word"
  c_Seq :: "64 word"
  c_Host :: string

definition zero_content :: content where
  "zero_content = \<lparr>c_InstanceID = [], c_Role = [], c_Beat = 0, c_Seq = 0, c_Host = []\<rparr>"

text \<open>JSON of a content, as arguments.\<close>

record LockJson =
  lj_marshal :: "content \<Rightarrow> string"
  lj_unmarshal :: "string \<Rightarrow> content option"

definition contentSize :: nat where "contentSize = 256"

definition encodeContent :: "LockJson \<Rightarrow> content \<Rightarrow> string" where
  "encodeContent J c =
     (let c1 = (if length (c_Host c) > 64 then c\<lparr>c_Host := take 64 (c_Host c)\<rparr> else c);
          b = lj_marshal J c1;
          b' = (if length b > contentSize then lj_marshal J (c1\<lparr>c_Host := []\<rparr>) else b)
      in take contentSize b' @ replicate (contentSize - length b') (CHR '' ''))"

definition parseContent :: "LockJson \<Rightarrow> string \<Rightarrow> content option" where
  "parseContent J raw = (case lj_unmarshal J raw of None \<Rightarrow> None | Some c \<Rightarrow> if c_InstanceID c = [] then None else Some c)"

section \<open>The world of one instance\<close>

record LockCfg =
  k_id :: string
  k_Host :: string
  k_p :: Params
  k_json :: LockJson

text \<open>What the others do before a call, the inode number a creation gets, and whether the call fails.\<close>

datatype env_act = EnvTick nat | EnvRemove | EnvCreate nat string | EnvRewrite nat string

record call_env =
  ce_acts :: "env_act list"
  ce_ino :: nat
  ce_fault :: "(goerr \<times> nat) option"

text \<open>The fields of \<open>Lock\<close>, the file objects (inode number and content), the path, the time and the script.\<close>

record lockw =
  l_h :: "nat option"
  l_master :: bool
  l_lost :: bool
  l_lostErr :: goerr
  l_beat :: "64 word"
  l_lastBeatOK :: gotime
  l_uncertainSince :: gotime
  l_obsRaw :: string
  l_obsSince :: gotime
  l_observed :: bool
  l_minSeq :: "64 word"
  l_notedSeq :: "64 word"
  l_publishedSeq :: "64 word"
  l_lastCheck :: gotime
  l_phase :: string
  l_onLost :: nat
  w_objs :: "(nat \<times> string) list"
  w_path :: "nat option"
  w_now :: gotime
  w_script :: "call_env list"

fun env_step :: "env_act \<Rightarrow> lockw \<Rightarrow> lockw" where
  "env_step (EnvTick d) w = w\<lparr>w_now := w_now w + int d\<rparr>"
| "env_step EnvRemove w = w\<lparr>w_path := None\<rparr>"
| "env_step (EnvCreate ino c) w =
     (if w_path w = None then w\<lparr>w_objs := w_objs w @ [(ino, c)], w_path := Some (length (w_objs w))\<rparr> else w)"
| "env_step (EnvRewrite k c) w = (if k < length (w_objs w) then w\<lparr>w_objs := (w_objs w)[k := (fst (w_objs w ! k), c)]\<rparr> else w)"

definition no_call :: call_env where
  "no_call = \<lparr>ce_acts = [], ce_ino = 0, ce_fault = None\<rparr>"

definition interfere :: "lockw \<Rightarrow> call_env \<times> lockw" where
  "interfere w =
     (case w_script w of [] \<Rightarrow> (no_call, w)
      | ce # rest \<Rightarrow> (ce, fold env_step (ce_acts ce) (w\<lparr>w_script := rest\<rparr>)))"

definition lk_call :: "(nat \<Rightarrow> lockw \<Rightarrow> lockw) \<Rightarrow> (nat \<Rightarrow> (lockw, 'a) prog) \<Rightarrow> (lockw, 'a) prog" where
  "lk_call onf act w =
     (case interfere w of (ce, w') \<Rightarrow>
        (case ce_fault ce of Some (e, k) \<Rightarrow> (Inl e, onf k w') | None \<Rightarrow> act (ce_ino ce) w'))"

definition lk_ReadFile :: "(lockw, string) prog" where
  "lk_ReadFile = lk_call (\<lambda>_ w. w) (\<lambda>_ w. case w_path w of
     None \<Rightarrow> (Inl [OsErrNotExist], w)
   | Some k \<Rightarrow> (Inr (take 4096 (snd (w_objs w ! k))), w))"

definition lk_Remove :: "(lockw, unit) prog" where
  "lk_Remove = lk_call (\<lambda>_ w. w) (\<lambda>_ w. case w_path w of
     None \<Rightarrow> (Inl [OsErrNotExist], w)
   | Some _ \<Rightarrow> (Inr (), w\<lparr>w_path := None\<rparr>))"

text \<open>\<open>CreateExclusive\<close>; when only the fchmod fails, the empty file stays.\<close>

definition create_obj :: "nat \<Rightarrow> lockw \<Rightarrow> lockw" where
  "create_obj ino w = w\<lparr>w_objs := w_objs w @ [(ino, [])], w_path := Some (length (w_objs w))\<rparr>"

definition lk_CreateExclusive :: "(lockw, nat) prog" where
  "lk_CreateExclusive = lk_call
     (\<lambda>k w. if k > 0 \<and> w_path w = None then create_obj k w else w)
     (\<lambda>ino w. case w_path w of
        Some _ \<Rightarrow> (Inl [OsErrExist], w)
      | None \<Rightarrow> (Inr (length (w_objs w)), create_obj ino w))"

definition lk_StatPath :: "(lockw, nat) prog" where
  "lk_StatPath = lk_call (\<lambda>_ w. w) (\<lambda>_ w. case w_path w of
     None \<Rightarrow> (Inl [OsErrNotExist], w) | Some k \<Rightarrow> (Inr (fst (w_objs w ! k)), w))"

text \<open>The calls on an open descriptor: write at offset 0 and fsync, fchmod, fstat, close.\<close>

definition write_obj :: "nat \<Rightarrow> string \<Rightarrow> lockw \<Rightarrow> lockw" where
  "write_obj h c w =
     (if h < length (w_objs w)
      then w\<lparr>w_objs := (w_objs w)[h := (fst (w_objs w ! h), c @ drop (length c) (snd (w_objs w ! h)))]\<rparr> else w)"

definition lk_Rewrite :: "nat \<Rightarrow> string \<Rightarrow> (lockw, unit) prog" where
  "lk_Rewrite h c = lk_call (\<lambda>k. write_obj h (take k c)) (\<lambda>_ w. (Inr (), write_obj h c w))"

definition lk_Chmod :: "nat \<Rightarrow> (lockw, unit) prog" where
  "lk_Chmod h = lk_call (\<lambda>_ w. w) (\<lambda>_ w. (Inr (), w))"

definition lk_ID :: "nat \<Rightarrow> (lockw, nat) prog" where
  "lk_ID h = lk_call (\<lambda>_ w. w) (\<lambda>_ w. (Inr (fst (w_objs w ! h)), w))"

definition lk_Close :: "(lockw, unit) prog" where
  "lk_Close = lk_call (\<lambda>_ w. w) (\<lambda>_ w. (Inr (), w))"

text \<open>The clock never fails; a sleep ends with an error when its context is cancelled.\<close>

definition lk_Now :: "(lockw, gotime) prog" where
  "lk_Now w = (case interfere w of (_, w') \<Rightarrow> (Inr (w_now w'), w'))"

definition lk_Sleep :: "duration \<Rightarrow> (lockw, unit) prog" where
  "lk_Sleep d = lk_call (\<lambda>_ w. w) (\<lambda>_ w. (Inr (), w\<lparr>w_now := w_now w + max d 0\<rparr>))"

section \<open>The secondary\<close>

text \<open>
  \<open>fresh\<close>: records what is read, and judges the age of an unchanged content on the local clock.
\<close>

definition fresh :: "LockCfg \<Rightarrow> string \<Rightarrow> (lockw, bool) prog" where
  "fresh cfg raw =
     bindP lk_Now (\<lambda>t w.
       let co = parseContent (k_json cfg) raw;
           role = (case co of None \<Rightarrow> RoleCandidate | Some c \<Rightarrow> c_Role c);
           w1 = (case co of None \<Rightarrow> w | Some c \<Rightarrow> if c_Seq c > l_minSeq w then w\<lparr>l_minSeq := c_Seq c\<rparr> else w) in
       if \<not> l_observed w1 \<or> l_obsRaw w1 \<noteq> raw
       then (Inr True, w1\<lparr>l_observed := True, l_obsRaw := raw, l_obsSince := t\<rparr>)
       else
         (let age = t - l_obsSince w1;
              limit = (if role = RoleMaster then p_MasterStale (k_p cfg) else p_CandidateStale (k_p cfg))
          in (Inr (age < limit), w1)))"

text \<open>\<open>abandon\<close>: removes the file only when the path still is the own file.\<close>

definition abandon :: "nat \<Rightarrow> (lockw, unit) prog" where
  "abandon h =
     bindP (attempt (lk_ID h)) (\<lambda>mine.
     bindP (case mine of
        Inl _ \<Rightarrow> ret ()
      | Inr m \<Rightarrow> bindP (attempt lk_StatPath) (\<lambda>onPath. case onPath of
           Inl _ \<Rightarrow> ret ()
         | Inr o' \<Rightarrow> if o' = m then bindP (attempt lk_Remove) (\<lambda>_. ret ()) else ret ())) (\<lambda>_.
     bindP (attempt lk_Close) (\<lambda>_. ret ())))"

definition close_and :: "bool res \<Rightarrow> (lockw, bool) prog" where
  "close_and r = bindP (attempt lk_Close) (\<lambda>_. of_res r)"

definition abandon_and :: "nat \<Rightarrow> bool res \<Rightarrow> (lockw, bool) prog" where
  "abandon_and h r = bindP (abandon h) (\<lambda>_. of_res r)"

text \<open>
  The end of \<open>step\<close>: promotion of the candidate whose id was read back. The first beat is written, then read
  back through the path.
\<close>

definition read_back :: "LockCfg \<Rightarrow> nat \<Rightarrow> 64 word \<Rightarrow> (lockw, bool) prog" where
  "read_back cfg h sq =
     bindP (attempt lk_ReadFile) (\<lambda>raw.
     case (case raw of Inl _ \<Rightarrow> None | Inr b \<Rightarrow> parseContent (k_json cfg) b) of
       None \<Rightarrow> close_and (Inr False)
     | Some c \<Rightarrow>
         if c_InstanceID c \<noteq> k_id cfg \<or> c_Role c \<noteq> RoleMaster then close_and (Inr False)
         else
         bindP lk_Now (\<lambda>t2.
         bindP (modify (\<lambda>w. w\<lparr>l_h := Some h, l_master := True, l_lastBeatOK := t2, l_publishedSeq := sq,
            l_phase := ''master''\<rparr>)) (\<lambda>_. ret True)))"

definition first_beat :: "LockCfg \<Rightarrow> nat \<Rightarrow> (lockw, bool) prog" where
  "first_beat cfg h =
     bindP lk_Now (\<lambda>t0.
     bindP (modify (\<lambda>w. w\<lparr>l_beat := 1\<rparr>)) (\<lambda>_.
     bindP (gets l_minSeq) (\<lambda>sq.
     bindP (attempt (lk_Rewrite h (encodeContent (k_json cfg)
        \<lparr>c_InstanceID = k_id cfg, c_Role = RoleMaster, c_Beat = 1, c_Seq = sq, c_Host = k_Host cfg\<rparr>))) (\<lambda>r. case r of
       Inl e \<Rightarrow> abandon_and h (Inl e)
     | Inr _ \<Rightarrow>
         bindP lk_Now (\<lambda>t1.
         if t1 - t0 > p_MaxWriteLatency (k_p cfg) then abandon_and h (Inr False)
         else read_back cfg h sq)))))"

definition promote :: "LockCfg \<Rightarrow> nat \<Rightarrow> (lockw, bool) prog" where
  "promote cfg h =
     bindP (attempt (lk_Chmod h)) (\<lambda>r. case r of Inl e \<Rightarrow> abandon_and h (Inl e) | Inr _ \<Rightarrow>
     bindP (attempt (lk_ID h)) (\<lambda>r. case r of Inl e \<Rightarrow> close_and (Inl e) | Inr mine \<Rightarrow>
     bindP (attempt lk_StatPath) (\<lambda>onPath.
     if onPath \<noteq> Inr mine then close_and (Inr False) else first_beat cfg h)))"

text \<open>The middle of \<open>step\<close>: exclusive creation, pause, re-read.\<close>

definition candidacy :: "LockCfg \<Rightarrow> duration \<Rightarrow> (lockw, bool) prog" where
  "candidacy cfg pause =
     bindP lk_Now (\<lambda>t0.
     bindP (attempt lk_CreateExclusive) (\<lambda>r. case r of
       Inl e \<Rightarrow> if errors_is e OsErrExist then ret False else raise e
     | Inr h \<Rightarrow>
     bindP (attempt (lk_Rewrite h (encodeContent (k_json cfg)
        \<lparr>c_InstanceID = k_id cfg, c_Role = RoleCandidate, c_Beat = 0, c_Seq = 0, c_Host = k_Host cfg\<rparr>))) (\<lambda>r. case r of
       Inl e \<Rightarrow> abandon_and h (Inl e)
     | Inr _ \<Rightarrow>
     bindP lk_Now (\<lambda>t1.
     if t1 - t0 > p_MaxWriteLatency (k_p cfg) then abandon_and h (Inr False)
     else
     bindP (modify (\<lambda>w. w\<lparr>l_phase := ''candidate''\<rparr>)) (\<lambda>_.
     bindP (attempt (lk_Sleep pause)) (\<lambda>r. case r of
       Inl e \<Rightarrow> abandon_and h (Inl e)
     | Inr _ \<Rightarrow>
     bindP (attempt lk_ReadFile) (\<lambda>r. case r of
       Inl e \<Rightarrow> if errors_is e OsErrNotExist then close_and (Inr False) else close_and (Inl e)
     | Inr raw \<Rightarrow>
         (case parseContent (k_json cfg) raw of
            None \<Rightarrow> close_and (Inr False)
          | Some c \<Rightarrow> if c_InstanceID c \<noteq> k_id cfg then close_and (Inr False) else promote cfg h))))))))"

text \<open>\<open>step\<close>: one poll of the secondary; \<open>True\<close> once promoted. The random pause is an argument.\<close>

definition step :: "LockCfg \<Rightarrow> duration \<Rightarrow> (lockw, bool) prog" where
  "step cfg pause =
     bindP (modify (\<lambda>w. w\<lparr>l_phase := ''secondary''\<rparr>)) (\<lambda>_.
     bindP (attempt lk_ReadFile) (\<lambda>r.
     bindP (if (case r of Inr _ \<Rightarrow> True | Inl e \<Rightarrow> errors_is e OsErrNotExist)
            then bindP lk_Now (\<lambda>t. modify (\<lambda>w. w\<lparr>l_lastCheck := t\<rparr>)) else ret ()) (\<lambda>_.
     case r of
       Inr raw \<Rightarrow>
         bindP (fresh cfg raw) (\<lambda>isFresh.
         if isFresh then ret False
         else bindP (attempt lk_Remove) (\<lambda>r. case r of
                Inr _ \<Rightarrow> candidacy cfg pause
              | Inl e \<Rightarrow> if errors_is e OsErrNotExist then candidacy cfg pause else raise e))
     | Inl e \<Rightarrow> if errors_is e OsErrNotExist then candidacy cfg pause else raise e)))"

section \<open>The master\<close>

text \<open>\<open>lose\<close>: the loss is recorded once, the descriptor closed, the file left alone.\<close>

definition lose :: "goerr \<Rightarrow> (lockw, unit) prog" where
  "lose err =
     bindP (gets (\<lambda>w. w)) (\<lambda>w.
     if l_lost w then raise (l_lostErr w)
     else
       bindP (modify (\<lambda>w. w\<lparr>l_lost := True, l_lostErr := err, l_master := False, l_phase := ''lost'', l_h := None\<rparr>)) (\<lambda>_.
       bindP (if l_h w \<noteq> None then bindP (attempt lk_Close) (\<lambda>_. ret ()) else ret ()) (\<lambda>_.
       bindP (modify (\<lambda>w. w\<lparr>l_onLost := Suc (l_onLost w)\<rparr>)) (\<lambda>_.
       raise err))))"

definition inconclusiveRetries :: nat where "inconclusiveRetries = 3"
definition inconclusivePause :: duration where "inconclusivePause = 20000000"

fun confirm_loop :: "LockCfg \<Rightarrow> nat \<Rightarrow> nat \<Rightarrow> (lockw, unit) prog" where
  "confirm_loop cfg i 0 =
     bindP lk_Now (\<lambda>t.
     bindP (modify (\<lambda>w. if l_uncertainSince w = 0 then w\<lparr>l_uncertainSince := t\<rparr> else w)) (\<lambda>_.
     bindP (gets l_uncertainSince) (\<lambda>since.
     if t - since \<ge> p_SelfRetire (k_p cfg) div 2 then lose [ErrText ''ownership could not be confirmed'']
     else raise [ErrText ''cannot confirm ownership (inconclusive read)''])))"
| "confirm_loop cfg i (Suc left) =
     bindP (if i > 0 then bindP (attempt (lk_Sleep inconclusivePause)) (\<lambda>_. ret ()) else ret ()) (\<lambda>_.
     bindP (attempt lk_ReadFile) (\<lambda>r. case r of
       Inl e \<Rightarrow> if errors_is e OsErrNotExist then lose [ErrText ''the lock file is gone''] else confirm_loop cfg (Suc i) left
     | Inr raw \<Rightarrow>
         (case parseContent (k_json cfg) raw of
            None \<Rightarrow> confirm_loop cfg (Suc i) left
          | Some c \<Rightarrow>
              if c_InstanceID c \<noteq> k_id cfg \<or> c_Role c \<noteq> RoleMaster
              then lose [ErrText ''the lock now belongs to another instance'']
              else modify (\<lambda>w. w\<lparr>l_uncertainSince := 0\<rparr>))))"

declare confirm_loop.simps [simp del]

definition confirmContent :: "LockCfg \<Rightarrow> (lockw, unit) prog" where
  "confirmContent cfg = confirm_loop cfg 0 (Suc inconclusiveRetries)"

definition CheckOwnership :: "LockCfg \<Rightarrow> (lockw, unit) prog" where
  "CheckOwnership cfg =
     bindP (gets (\<lambda>w. w)) (\<lambda>w.
     if l_lost w then raise (l_lostErr w)
     else case (if l_master w then l_h w else None) of
       None \<Rightarrow> raise [ErrNotMaster]
     | Some h \<Rightarrow>
         bindP lk_Now (\<lambda>t.
         if t - l_lastBeatOK w \<ge> p_SelfRetire (k_p cfg) then lose [ErrText ''self-retire'']
         else
         bindP (lk_ID h) (\<lambda>mine.
         bindP (attempt lk_StatPath) (\<lambda>r. case r of
           Inl e \<Rightarrow> if errors_is e OsErrNotExist then lose [ErrText ''the lock file is gone''] else raise e
         | Inr onPath \<Rightarrow>
             if onPath \<noteq> mine then lose [ErrText ''the lock path designates another file'']
             else confirmContent cfg))))"

definition published_seq :: "lockw \<Rightarrow> 64 word" where
  "published_seq w = (if l_minSeq w > l_notedSeq w then l_minSeq w else l_notedSeq w)"

definition writeContent :: "LockCfg \<Rightarrow> bool \<Rightarrow> (lockw, unit) prog" where
  "writeContent cfg nextBeat =
     bindP (gets (\<lambda>w. w)) (\<lambda>w.
     case (if l_master w \<and> \<not> l_lost w then l_h w else None) of
       None \<Rightarrow> raise [ErrNotMaster]
     | Some h \<Rightarrow>
         bindP (modify (\<lambda>w. if nextBeat then w\<lparr>l_beat := l_beat w + 1\<rparr> else w)) (\<lambda>_.
         bindP (gets l_beat) (\<lambda>beat.
         bindP (lk_Rewrite h (encodeContent (k_json cfg) \<lparr>c_InstanceID = k_id cfg, c_Role = RoleMaster, c_Beat = beat,
            c_Seq = published_seq w, c_Host = k_Host cfg\<rparr>)) (\<lambda>_.
         bindP lk_Now (\<lambda>t.
         modify (\<lambda>w'. w'\<lparr>l_lastBeatOK := t, l_publishedSeq := published_seq w\<rparr>))))))"

definition doBeat :: "LockCfg \<Rightarrow> (lockw, unit) prog" where
  "doBeat cfg = writeContent cfg True"

definition NoteSeq :: "64 word \<Rightarrow> lockw \<Rightarrow> lockw" where
  "NoteSeq sq w = (if sq > l_notedSeq w then w\<lparr>l_notedSeq := sq\<rparr> else w)"

definition MinSeq :: "lockw \<Rightarrow> 64 word" where
  "MinSeq w = l_minSeq w"

definition IsMaster :: "lockw \<Rightarrow> bool" where
  "IsMaster w \<longleftrightarrow> l_master w \<and> \<not> l_lost w"

definition publishSeqIfNeeded :: "LockCfg \<Rightarrow> (lockw, unit) prog" where
  "publishSeqIfNeeded cfg =
     bindP (gets (\<lambda>w. l_master w \<and> \<not> l_lost w \<and> l_notedSeq w > l_publishedSeq w)) (\<lambda>need.
     if need then bindP (attempt (writeContent cfg False)) (\<lambda>_. ret ()) else ret ())"

definition Release :: "LockCfg \<Rightarrow> (lockw, unit) prog" where
  "Release cfg =
     bindP (gets (\<lambda>w. w)) (\<lambda>w.
     bindP (modify (\<lambda>w. w\<lparr>l_h := None, l_master := False\<rparr>)) (\<lambda>_.
     case l_h w of
       None \<Rightarrow> ret ()
     | Some h \<Rightarrow>
         always
           (if \<not> l_master w \<or> l_lost w then ret ()
            else
            bindP (lk_ID h) (\<lambda>mine.
            bindP (attempt lk_StatPath) (\<lambda>onPath.
            if onPath \<noteq> Inr mine then ret ()
            else
            bindP (attempt lk_ReadFile) (\<lambda>r. case r of
              Inl e \<Rightarrow> if errors_is e OsErrNotExist then ret () else raise e
            | Inr raw \<Rightarrow>
                (case parseContent (k_json cfg) raw of
                   None \<Rightarrow> ret ()
                 | Some c \<Rightarrow>
                     if c_InstanceID c \<noteq> k_id cfg then ret ()
                     else bindP (attempt lk_Remove) (\<lambda>r. case r of
                            Inr _ \<Rightarrow> ret ()
                          | Inl e \<Rightarrow> if errors_is e OsErrNotExist then ret () else raise e))))))
           lk_Close))"

section \<open>Construction, status and the two long-running loops\<close>

text \<open>
  \<open>New\<close>: a zero calibration stands for the default one; \<open>rid\<close> is the drawn instance id, \<open>host\<close> the host name of
  the machine.
\<close>

definition zero_params :: Params where
  "zero_params = \<lparr>p_Beat = 0, p_Check = 0, p_SelfRetire = 0, p_MasterStale = 0, p_CandidateStale = 0, p_PauseMin = 0,
     p_PauseMax = 0, p_MaxWriteLatency = 0\<rparr>"

definition New :: "LockJson \<Rightarrow> string \<Rightarrow> string \<Rightarrow> string \<Rightarrow> string \<Rightarrow> Params \<Rightarrow> LockCfg res" where
  "New J rid host cfgDir cfgHost p0 =
     (if cfgDir = [] then Inl [ErrText ''lock: empty directory'']
      else
        let p = (if p0 = zero_params then DefaultParams else p0) in
        (case Validate p of
           Some e \<Rightarrow> Inl e
         | None \<Rightarrow> Inr \<lparr>k_id = rid, k_Host = (if cfgHost = [] then host else cfgHost), k_p = p, k_json = J\<rparr>))"

record LockStatus =
  s_Phase :: string
  s_InstanceID :: string
  s_Beat :: "64 word"
  s_LastBeatOK :: gotime
  s_LastCheck :: gotime
  s_LostReason :: goerr
  s_MinSeq :: "64 word"
  s_Params :: Params

definition Status :: "LockCfg \<Rightarrow> lockw \<Rightarrow> LockStatus" where
  "Status cfg w =
     \<lparr>s_Phase = (if l_phase w = [] then ''secondary'' else l_phase w), s_InstanceID = k_id cfg, s_Beat = l_beat w,
      s_LastBeatOK = l_lastBeatOK w, s_LastCheck = l_lastCheck w, s_LostReason = (if l_lost w then l_lostErr w else []),
      s_MinSeq = l_minSeq w, s_Params = k_p cfg\<rparr>"

text \<open>
  \<open>Acquire\<close>: polls until promoted (\<open>Some (Inr ())\<close>) or until the context ends during a sleep
  (\<open>Some (Inl e)\<close>); \<open>fuel\<close> bounds the polls, \<open>pauses\<close> are the random pauses drawn.
\<close>

fun acquire_loop :: "LockCfg \<Rightarrow> (nat \<Rightarrow> duration) \<Rightarrow> nat \<Rightarrow> (lockw, unit res option) prog" where
  "acquire_loop cfg pauses 0 = ret None"
| "acquire_loop cfg pauses (Suc fuel) =
     bindP (attempt (step cfg (pauses fuel))) (\<lambda>r.
     if r = Inr True then ret (Some (Inr ()))
     else bindP (attempt (lk_Sleep (p_Check (k_p cfg)))) (\<lambda>r. case r of
       Inl e \<Rightarrow> ret (Some (Inl e))
     | Inr _ \<Rightarrow> acquire_loop cfg pauses fuel))"

definition lk_MkdirAll :: "(lockw, unit) prog" where
  "lk_MkdirAll = lk_call (\<lambda>_ w. w) (\<lambda>_ w. (Inr (), w))"

definition Acquire :: "LockCfg \<Rightarrow> (nat \<Rightarrow> duration) \<Rightarrow> nat \<Rightarrow> (lockw, unit res option) prog" where
  "Acquire cfg pauses fuel = bindP lk_MkdirAll (\<lambda>_. acquire_loop cfg pauses fuel)"

text \<open>
  \<open>Maintain\<close>: the identity checks, until the context ends (\<open>Some None\<close>) or the lock is lost
  (\<open>Some (Some e)\<close>). The heartbeat and the publication run beside it (\<open>master_op\<close> below).
\<close>

fun maintain_loop :: "LockCfg \<Rightarrow> nat \<Rightarrow> (lockw, goerr option option) prog" where
  "maintain_loop cfg 0 = ret None"
| "maintain_loop cfg (Suc fuel) =
     bindP (attempt (lk_Sleep (p_Check (k_p cfg)))) (\<lambda>r. case r of
       Inl _ \<Rightarrow> ret (Some None)
     | Inr _ \<Rightarrow>
         bindP (attempt (CheckOwnership cfg)) (\<lambda>r. case r of
           Inr _ \<Rightarrow> bindP lk_Now (\<lambda>t. bindP (modify (\<lambda>w. w\<lparr>l_lastCheck := t\<rparr>)) (\<lambda>_. maintain_loop cfg fuel))
         | Inl e \<Rightarrow> bindP (gets l_lost) (\<lambda>final. if final then ret (Some (Some e)) else maintain_loop cfg fuel)))"

definition Maintain :: "LockCfg \<Rightarrow> nat \<Rightarrow> (lockw, goerr option option) prog" where
  "Maintain cfg fuel = bindP (gets IsMaster) (\<lambda>m. if m then maintain_loop cfg fuel else raise [ErrNotMaster])"

section \<open>The operator's probe\<close>

datatype ProbeState = ProbeAbsent | ProbeActive | ProbeStale

definition stale_limit :: "LockCfg \<Rightarrow> string \<Rightarrow> duration" where
  "stale_limit cfg raw =
     (case parseContent (k_json cfg) raw of
        Some c \<Rightarrow> if c_Role c = RoleMaster then p_MasterStale (k_p cfg) else p_CandidateStale (k_p cfg)
      | None \<Rightarrow> p_CandidateStale (k_p cfg))"

text \<open>The loop ends when it can conclude or when its context ends; \<open>fuel\<close> bounds the polls.\<close>

fun probe_loop :: "LockCfg \<Rightarrow> gotime \<Rightarrow> string \<Rightarrow> nat \<Rightarrow> (lockw, ProbeState option) prog" where
  "probe_loop cfg t0 lst 0 = ret None"
| "probe_loop cfg t0 lst (Suc fuel) =
     bindP (attempt (lk_Sleep (p_Check (k_p cfg)))) (\<lambda>r. case r of
       Inl _ \<Rightarrow> ret (Some ProbeActive)
     | Inr _ \<Rightarrow>
         bindP (attempt lk_ReadFile) (\<lambda>r. case r of
           Inl e \<Rightarrow> if errors_is e OsErrNotExist then ret (Some ProbeAbsent) else raise e
         | Inr raw \<Rightarrow>
             if raw \<noteq> lst then ret (Some ProbeActive)
             else bindP lk_Now (\<lambda>t.
               if t - t0 \<ge> stale_limit cfg raw then ret (Some ProbeStale) else probe_loop cfg t0 lst fuel)))"

definition Probe :: "LockCfg \<Rightarrow> nat \<Rightarrow> (lockw, ProbeState option) prog" where
  "Probe cfg fuel =
     bindP (attempt lk_ReadFile) (\<lambda>r. case r of
       Inl e \<Rightarrow> if errors_is e OsErrNotExist then ret (Some ProbeAbsent) else raise e
     | Inr first \<Rightarrow> bindP lk_Now (\<lambda>t0. probe_loop cfg t0 first fuel))"

section \<open>Reasoning about interference\<close>

lemma env_step_frame [simp]:
  "l_h (env_step a w) = l_h w" "l_master (env_step a w) = l_master w" "l_lost (env_step a w) = l_lost w"
  "l_lostErr (env_step a w) = l_lostErr w" "l_lastBeatOK (env_step a w) = l_lastBeatOK w"
  "l_minSeq (env_step a w) = l_minSeq w" "l_notedSeq (env_step a w) = l_notedSeq w"
  "l_publishedSeq (env_step a w) = l_publishedSeq w"
  "l_obsRaw (env_step a w) = l_obsRaw w" "l_obsSince (env_step a w) = l_obsSince w" "l_observed (env_step a w) = l_observed w"
  "l_onLost (env_step a w) = l_onLost w"
  "w_script (env_step a w) = w_script w"
  by (cases a; simp)+

lemma env_steps_frame [simp]:
  "l_h (fold env_step as w) = l_h w" "l_master (fold env_step as w) = l_master w" "l_lost (fold env_step as w) = l_lost w"
  "l_lostErr (fold env_step as w) = l_lostErr w" "l_lastBeatOK (fold env_step as w) = l_lastBeatOK w"
  "l_minSeq (fold env_step as w) = l_minSeq w" "l_notedSeq (fold env_step as w) = l_notedSeq w"
  "l_publishedSeq (fold env_step as w) = l_publishedSeq w"
  "l_obsRaw (fold env_step as w) = l_obsRaw w" "l_obsSince (fold env_step as w) = l_obsSince w" "l_observed (fold env_step as w) = l_observed w"
  "l_onLost (fold env_step as w) = l_onLost w"
  "w_script (fold env_step as w) = w_script w"
  by (induction as arbitrary: w; simp)+

lemma interfere_frame [simp]:
  "l_h (snd (interfere w)) = l_h w" "l_master (snd (interfere w)) = l_master w" "l_lost (snd (interfere w)) = l_lost w"
  "l_lostErr (snd (interfere w)) = l_lostErr w" "l_lastBeatOK (snd (interfere w)) = l_lastBeatOK w"
  "l_minSeq (snd (interfere w)) = l_minSeq w" "l_notedSeq (snd (interfere w)) = l_notedSeq w"
  "l_publishedSeq (snd (interfere w)) = l_publishedSeq w"
  "l_obsRaw (snd (interfere w)) = l_obsRaw w" "l_obsSince (snd (interfere w)) = l_obsSince w" "l_observed (snd (interfere w)) = l_observed w"
  "l_onLost (snd (interfere w)) = l_onLost w"
  by (simp_all add: interfere_def split: list.split)

lemma env_steps_now: "w_now w \<le> w_now (fold env_step as w)"
proof (induction as arbitrary: w)
  case (Cons a as)
  have "w_now w \<le> w_now (env_step a w)" by (cases a) simp_all
  with Cons [of "env_step a w"] show ?case by simp
qed simp

lemma interfere_now: "w_now w \<le> w_now (snd (interfere w))"
proof (cases "w_script w")
  case (Cons ce rest)
  then show ?thesis using env_steps_now [of "w\<lparr>w_script := rest\<rparr>" "ce_acts ce"] by (simp add: interfere_def)
qed (simp add: interfere_def)

text \<open>An assertion that the others and the passing of time keep.\<close>

definition stable :: "(lockw \<Rightarrow> bool) \<Rightarrow> bool" where
  "stable P \<longleftrightarrow> (\<forall>w. P w \<longrightarrow> P (snd (interfere w))) \<and> (\<forall>w t. P w \<longrightarrow> w_now w \<le> t \<longrightarrow> P (w\<lparr>w_now := t\<rparr>))"

lemma stable_True [simp]: "stable (\<lambda>_. True)"
  by (simp add: stable_def)

lemma stable_interfere: "stable P \<Longrightarrow> P w \<Longrightarrow> interfere w = (ce, w') \<Longrightarrow> P w'"
  unfolding stable_def by (metis snd_conv)

lemma triple_quiet:
  assumes "stable P"
  shows "triple P lk_StatPath (\<lambda>_. P) (\<lambda>_. P)" "triple P (lk_ID h) (\<lambda>_. P) (\<lambda>_. P)"
    and "triple P lk_Close (\<lambda>_. P) (\<lambda>_. P)" "triple P (lk_Chmod h) (\<lambda>_. P) (\<lambda>_. P)"
    and "triple P lk_Now (\<lambda>_. P) E" "triple P (lk_Sleep d) (\<lambda>_. P) (\<lambda>_. P)"
proof -
  note st = stable_interfere [OF assms]
  show "triple P lk_StatPath (\<lambda>_. P) (\<lambda>_. P)" "triple P (lk_ID h) (\<lambda>_. P) (\<lambda>_. P)"
    "triple P lk_Close (\<lambda>_. P) (\<lambda>_. P)" "triple P (lk_Chmod h) (\<lambda>_. P) (\<lambda>_. P)" "triple P lk_Now (\<lambda>_. P) E"
    unfolding triple_def lk_StatPath_def lk_ID_def lk_Close_def lk_Chmod_def lk_Now_def lk_call_def
    by (auto split: prod.split option.split intro: st)
  show "triple P (lk_Sleep d) (\<lambda>_. P) (\<lambda>_. P)"
    unfolding triple_def lk_Sleep_def lk_call_def
  proof (intro allI impI)
    fix w assume "P w"
    obtain ce w' where i: "interfere w = (ce, w')" by (cases "interfere w")
    have P': "P w'" by (rule st [OF \<open>P w\<close> i])
    then have "P (w'\<lparr>w_now := w_now w' + max d 0\<rparr>)" using assms by (simp add: stable_def)
    with i P' show "case case interfere w of (ce, w') \<Rightarrow> (case ce_fault ce of Some (e, k) \<Rightarrow> (Inl e, w')
         | None \<Rightarrow> (Inr (), w'\<lparr>w_now := w_now w' + max d 0\<rparr>)) of (Inr x, s') \<Rightarrow> P s' | (Inl e, s') \<Rightarrow> P s'"
      by (simp split: option.split prod.split)
  qed
qed

text \<open>What a reader sees.\<close>

definition seen :: "lockw \<Rightarrow> string option" where
  "seen w = (case w_path w of None \<Rightarrow> None | Some k \<Rightarrow> Some (take 4096 (snd (w_objs w ! k))))"

lemma seen_cong: "w_path w' = w_path w \<Longrightarrow> w_objs w' = w_objs w \<Longrightarrow> seen w' = seen w"
  by (simp add: seen_def split: option.split)

lemma seen_fields [simp]:
  "seen (w\<lparr>l_uncertainSince := a\<rparr>) = seen w" "seen (w\<lparr>l_beat := b\<rparr>) = seen w" "seen (w\<lparr>l_onLost := n\<rparr>) = seen w"
  "seen (w\<lparr>l_lastBeatOK := t\<rparr>) = seen w" "seen (w\<lparr>l_publishedSeq := v\<rparr>) = seen w"
  by (rule seen_cong; simp)+

lemma triple_Read:
  assumes "stable P"
  shows "triple P lk_ReadFile (\<lambda>raw w. P w \<and> seen w = Some raw) (\<lambda>_. P)"
  unfolding triple_def lk_ReadFile_def lk_call_def seen_def
  by (auto split: prod.split option.split intro: stable_interfere [OF assms])

text \<open>The published lock is the own one, in the role of master.\<close>

definition mine_at_path :: "LockCfg \<Rightarrow> lockw \<Rightarrow> bool" where
  "mine_at_path cfg w \<longleftrightarrow>
     (case seen w of None \<Rightarrow> False | Some raw \<Rightarrow>
        (case parseContent (k_json cfg) raw of None \<Rightarrow> False
         | Some c \<Rightarrow> c_InstanceID c = k_id cfg \<and> c_Role c = RoleMaster))"

lemma bindP_Now: "bindP lk_Now k w = k (w_now (snd (interfere w))) (snd (interfere w))"
  by (simp add: bindP_def lk_Now_def split: prod.split)

lemma triple_weaken: "triple P p Q E \<Longrightarrow> (\<And>e s. E e s \<Longrightarrow> E' e s) \<Longrightarrow> triple P p Q E'"
  by (erule triple_conseq) auto

lemma triple_lose: "triple P (lose e) (\<lambda>_ _. False) (\<lambda>_ _. True)"
  unfolding triple_def lose_def prog_defs gets_def modify_def
  by (auto split: prod.split sum.split)

lemma triple_confirm_loop:
  "triple (\<lambda>_. True) (confirm_loop cfg i n) (\<lambda>_. mine_at_path cfg) (\<lambda>_ _. True)"
proof (induction n arbitrary: i)
  case 0
  show ?case
    unfolding confirm_loop.simps
    unfolding triple_def lose_def prog_defs gets_def modify_def lk_Now_def
    by (auto split: prod.split sum.split)
next
  case (Suc n)
  have sleep: "triple (\<lambda>_. True) (if i > 0 then bindP (attempt (lk_Sleep inconclusivePause)) (\<lambda>_. ret ()) else ret ())
      (\<lambda>_ _. True) (\<lambda>_ _. True)"
    by (simp add: triple_def split: prod.split sum.split)
  have read: "triple (\<lambda>_. True) (attempt lk_ReadFile)
      (\<lambda>r w. case r of Inr raw \<Rightarrow> seen w = Some raw | Inl _ \<Rightarrow> True) (\<lambda>_ _. True)"
    by (rule triple_attempt, rule triple_conseq [OF triple_Read]) auto
  show ?case
    unfolding confirm_loop.simps
  proof (rule triple_bind [OF sleep], rule triple_bind [OF read])
    show "triple (\<lambda>w. case r of Inr raw \<Rightarrow> seen w = Some raw | Inl _ \<Rightarrow> True)
        (case r of Inl e \<Rightarrow> if errors_is e OsErrNotExist then lose [ErrText ''the lock file is gone''] else confirm_loop cfg (Suc i) n
         | Inr raw \<Rightarrow> (case parseContent (k_json cfg) raw of None \<Rightarrow> confirm_loop cfg (Suc i) n
           | Some c \<Rightarrow> if c_InstanceID c \<noteq> k_id cfg \<or> c_Role c \<noteq> RoleMaster
                then lose [ErrText ''the lock now belongs to another instance'']
                else modify (\<lambda>w. w\<lparr>l_uncertainSince := 0\<rparr>)))
        (\<lambda>_. mine_at_path cfg) (\<lambda>_ _. True)" for r :: "string res"
    proof (cases r)
      case (Inl e)
      then show ?thesis
        by (auto intro!: triple_if triple_conseq [OF triple_lose] triple_conseq [OF Suc])
    next
      case (Inr raw)
      then show ?thesis
        by (cases "parseContent (k_json cfg) raw")
          (auto intro!: triple_if triple_conseq [OF triple_lose] triple_conseq [OF Suc] triple_modify
            simp: mine_at_path_def)
    qed
  qed
qed

lemma triple_confirmContent: "triple (\<lambda>_. True) (confirmContent cfg) (\<lambda>_. mine_at_path cfg) (\<lambda>_ _. True)"
  unfolding confirmContent_def by (rule triple_confirm_loop)

lemma CheckOwnership_value:
  assumes "CheckOwnership cfg w = (Inr (), w')"
  shows "IsMaster w \<and> w_now w - l_lastBeatOK w < p_SelfRetire (k_p cfg) \<and> mine_at_path cfg w'"
proof -
  have guard: "IsMaster w" "l_h w \<noteq> None"
    using assms by (auto simp: CheckOwnership_def prog_defs gets_def IsMaster_def raise_def [abs_def] split: if_splits option.splits)
  then obtain h where h: "l_master w" "\<not> l_lost w" "l_h w = Some h" by (auto simp: IsMaster_def)
  let ?w1 = "snd (interfere w)"
  have young: "w_now ?w1 - l_lastBeatOK w < p_SelfRetire (k_p cfg)"
  proof (rule ccontr)
    assume old: "\<not> ?thesis"
    then have "CheckOwnership cfg w = lose [ErrText ''self-retire''] ?w1"
      using h by (simp add: CheckOwnership_def bindP_gets bindP_Now)
    with assms triple_value [OF triple_lose, of "\<lambda>_. True" ?w1] show False by auto
  qed
  have tr: "triple (\<lambda>_. True) (bindP (lk_ID h) (\<lambda>mine. bindP (attempt lk_StatPath) (\<lambda>r. case r of
      Inl e \<Rightarrow> if errors_is e OsErrNotExist then lose [ErrText ''the lock file is gone''] else raise e
    | Inr onPath \<Rightarrow> if onPath \<noteq> mine then lose [ErrText ''the lock path designates another file''] else confirmContent cfg)))
    (\<lambda>_. mine_at_path cfg) (\<lambda>_ _. True)" (is "triple _ ?p _ _")
  proof (rule triple_bind [where R = "\<lambda>_ _. True"], rule triple_conseq [OF triple_quiet(2) [OF stable_True]],
      (simp_all)[3], rule triple_bind [where R = "\<lambda>_ _. True"])
    show "triple (\<lambda>_. True) (attempt lk_StatPath) (\<lambda>_ _. True) (\<lambda>_ _. True)"
      by (simp add: triple_def split: prod.split sum.split)
    show "triple (\<lambda>_. True) (case r of Inl e \<Rightarrow> if errors_is e OsErrNotExist then lose [ErrText ''the lock file is gone''] else raise e
        | Inr onPath \<Rightarrow> if onPath \<noteq> mine then lose [ErrText ''the lock path designates another file''] else confirmContent cfg)
        (\<lambda>_. mine_at_path cfg) (\<lambda>_ _. True)" for r :: "nat res" and mine
      by (cases r) (auto intro!: triple_if triple_raise triple_conseq [OF triple_lose] triple_confirmContent)
  qed
  have "CheckOwnership cfg w = ?p ?w1"
    using h young by (simp add: CheckOwnership_def bindP_gets bindP_Now)
  then have "?p ?w1 = (Inr (), w')" using assms by simp
  from triple_value [OF tr _ this] have "mine_at_path cfg w'" by simp
  moreover have "w_now w - l_lastBeatOK w < p_SelfRetire (k_p cfg)"
    using young interfere_now [of w] by linarith
  ultimately show ?thesis using guard by simp
qed

section \<open>Fencing\<close>

text \<open>What another instance never does: publish this instance's id. Only its own objects carry it.\<close>

definition carries :: "LockCfg \<Rightarrow> string \<Rightarrow> bool" where
  "carries cfg raw \<longleftrightarrow>
     (case parseContent (k_json cfg) (take 4096 raw) of None \<Rightarrow> False | Some c \<Rightarrow> c_InstanceID c = k_id cfg)"

fun foreign_act :: "LockCfg \<Rightarrow> env_act \<Rightarrow> bool" where
  "foreign_act cfg (EnvCreate _ c) = (\<not> carries cfg c)"
| "foreign_act cfg (EnvRewrite k c) = (\<not> carries cfg c)"
| "foreign_act cfg _ = True"

definition foreign_script :: "LockCfg \<Rightarrow> lockw \<Rightarrow> bool" where
  "foreign_script cfg w \<longleftrightarrow> list_all (\<lambda>ce. list_all (foreign_act cfg) (ce_acts ce)) (w_script w)"

text \<open>
  Evicted: the own object is not at the path any more, and no other object carries the own id (a new object
  at the path is somebody else's).
\<close>

definition evicted :: "LockCfg \<Rightarrow> nat \<Rightarrow> lockw \<Rightarrow> bool" where
  "evicted cfg h w \<longleftrightarrow>
     h < length (w_objs w) \<and> w_path w \<noteq> Some h \<and> (\<forall>k. w_path w = Some k \<longrightarrow> k < length (w_objs w)) \<and>
     (\<forall>k < length (w_objs w). k \<noteq> h \<longrightarrow> \<not> carries cfg (snd (w_objs w ! k))) \<and>
     (l_h w = None \<or> l_h w = Some h)"

lemma evicted_env_step: "evicted cfg h w \<Longrightarrow> foreign_act cfg a \<Longrightarrow> evicted cfg h (env_step a w)"
  by (cases a) (auto simp: evicted_def nth_append nth_list_update less_Suc_eq)

lemma evicted_env_steps: "evicted cfg h w \<Longrightarrow> list_all (foreign_act cfg) as \<Longrightarrow> evicted cfg h (fold env_step as w)"
  by (induction as arbitrary: w) (auto intro: evicted_env_step)

definition fenced :: "LockCfg \<Rightarrow> nat \<Rightarrow> lockw \<Rightarrow> bool" where
  "fenced cfg h w \<longleftrightarrow> evicted cfg h w \<and> foreign_script cfg w"

lemma foreign_script_cong: "w_script w' = w_script w \<Longrightarrow> foreign_script cfg w' = foreign_script cfg w"
  by (simp add: foreign_script_def)

lemma fenced_interfere: "fenced cfg h w \<Longrightarrow> fenced cfg h (snd (interfere w))"
proof (cases "w_script w")
  case (Cons ce rest)
  assume f: "fenced cfg h w"
  have e: "evicted cfg h (w\<lparr>w_script := rest\<rparr>)" using f by (simp add: fenced_def evicted_def)
  have acts: "list_all (foreign_act cfg) (ce_acts ce)" and rest: "foreign_script cfg (w\<lparr>w_script := rest\<rparr>)"
    using f Cons by (simp_all add: fenced_def foreign_script_def)
  have "foreign_script cfg (fold env_step (ce_acts ce) (w\<lparr>w_script := rest\<rparr>))"
    using rest foreign_script_cong [of "fold env_step (ce_acts ce) (w\<lparr>w_script := rest\<rparr>)" "w\<lparr>w_script := rest\<rparr>"] by simp
  with evicted_env_steps [OF e acts] Cons show ?thesis by (simp add: interfere_def fenced_def)
qed (simp add: interfere_def)

lemma stable_fenced: "stable (fenced cfg h)"
  using fenced_interfere by (auto simp: stable_def fenced_def evicted_def foreign_script_def)

lemma evicted_not_mine: "evicted cfg h w \<Longrightarrow> \<not> mine_at_path cfg w"
  by (cases "w_path w") (auto simp: evicted_def mine_at_path_def seen_def carries_def split: option.splits)

text \<open>An assignment that keeps the files, the script and the descriptor (or drops it) keeps the fence.\<close>

lemma fenced_fields:
  assumes "fenced cfg h w" "w_objs w' = w_objs w" "w_path w' = w_path w" "w_script w' = w_script w" "l_h w' = None \<or> l_h w' = l_h w"
  shows "fenced cfg h w'"
  using assms foreign_script_cong [OF assms(4)] by (auto simp: fenced_def evicted_def)

lemma keeps_quiet:
  assumes "stable I"
  shows "keeps I lk_StatPath" "keeps I (lk_ID h)" "keeps I lk_Close" "keeps I (lk_Chmod h)" "keeps I lk_Now" "keeps I (lk_Sleep d)"
    and "keeps I lk_ReadFile"
proof -
  show "keeps I lk_StatPath" "keeps I (lk_ID h)" "keeps I lk_Close" "keeps I (lk_Chmod h)" "keeps I lk_Now" "keeps I (lk_Sleep d)"
    using triple_quiet [OF assms] by (simp_all add: keeps_def)
  show "keeps I lk_ReadFile" unfolding keeps_def by (rule triple_conseq [OF triple_Read [OF assms]]) auto
qed

text \<open>The guard only assigns fields of the lock.\<close>

definition guard_fields :: "(lockw \<Rightarrow> bool) \<Rightarrow> bool" where
  "guard_fields I \<longleftrightarrow> (\<forall>w e t n. I w \<longrightarrow> I (w\<lparr>l_lost := True, l_lostErr := e, l_master := False, l_phase := ''lost'', l_h := None\<rparr>) \<and>
     I (w\<lparr>l_onLost := n\<rparr>) \<and> I (w\<lparr>l_uncertainSince := t\<rparr>))"

lemma keeps_lose: "stable I \<Longrightarrow> guard_fields I \<Longrightarrow> keeps I (lose e)"
  unfolding lose_def by (intro keeps_basic keeps_quiet) (auto simp: guard_fields_def)

lemma keeps_confirm: "stable I \<Longrightarrow> guard_fields I \<Longrightarrow> keeps I (confirm_loop cfg i n)"
proof (induction n arbitrary: i)
  case 0
  then show ?case unfolding confirm_loop.simps
    by (intro keeps_basic keeps_quiet keeps_lose) (auto simp: guard_fields_def)
next
  case (Suc n)
  then show ?case unfolding confirm_loop.simps
    by (intro keeps_basic keeps_quiet keeps_lose) (auto simp: guard_fields_def)
qed

lemma keeps_CheckOwnership: "stable I \<Longrightarrow> guard_fields I \<Longrightarrow> keeps I (CheckOwnership cfg)"
  unfolding CheckOwnership_def confirmContent_def by (intro keeps_basic keeps_quiet keeps_lose keeps_confirm)

lemma guard_fields_fenced: "guard_fields (fenced cfg h)"
  unfolding guard_fields_def by (auto elim!: fenced_fields)

lemma write_obj_fenced: "fenced cfg h w \<Longrightarrow> fenced cfg h (write_obj h c w)"
  using foreign_script_cong [of "write_obj h c w" w]
  by (auto simp: fenced_def evicted_def write_obj_def nth_list_update)

lemma keeps_Rewrite_fenced: "keeps (fenced cfg h) (lk_Rewrite h c)"
proof (rule keepsI)
  fix w assume "fenced cfg h w"
  then have "fenced cfg h (snd (interfere w))" by (rule fenced_interfere)
  then show "fenced cfg h (snd (lk_Rewrite h c w))"
    by (auto simp: lk_Rewrite_def lk_call_def write_obj_fenced split: prod.split option.split)
qed

lemma keeps_writeContent_fenced: "keeps (fenced cfg h) (writeContent cfg nextBeat)"
proof (rule keepsI)
  fix w assume f: "fenced cfg h w"
  show "fenced cfg h (snd (writeContent cfg nextBeat w))"
  proof (cases "if l_master w \<and> \<not> l_lost w then l_h w else None")
    case None
    with f show ?thesis by (simp add: writeContent_def raise_def bindP_gets)
  next
    case (Some h')
    then have "h' = h" using f by (auto simp: fenced_def evicted_def split: if_splits)
    let ?p = "bindP (modify (\<lambda>w. if nextBeat then w\<lparr>l_beat := l_beat w + 1\<rparr> else w)) (\<lambda>_. bindP (gets l_beat) (\<lambda>beat.
         bindP (lk_Rewrite h (encodeContent (k_json cfg) \<lparr>c_InstanceID = k_id cfg, c_Role = RoleMaster, c_Beat = beat,
            c_Seq = published_seq w, c_Host = k_Host cfg\<rparr>)) (\<lambda>_. bindP lk_Now (\<lambda>t.
         modify (\<lambda>w'. w'\<lparr>l_lastBeatOK := t, l_publishedSeq := published_seq w\<rparr>)))))"
    have "keeps (fenced cfg h) ?p"
      by (intro keeps_basic keeps_Rewrite_fenced keeps_quiet stable_fenced) (auto elim!: fenced_fields split: if_split)
    from keepsD [OF this f] show ?thesis
      unfolding writeContent_def bindP_gets Some option.case \<open>h' = h\<close> .
  qed
qed

text \<open>What a running master does, besides letting time pass.\<close>

datatype master_op = DoCheck | DoBeat | DoPublish | DoNote "64 word"

fun run_master_op :: "LockCfg \<Rightarrow> master_op \<Rightarrow> lockw \<Rightarrow> lockw" where
  "run_master_op cfg DoCheck w = snd (CheckOwnership cfg w)"
| "run_master_op cfg DoBeat w = snd (doBeat cfg w)"
| "run_master_op cfg DoPublish w = snd (publishSeqIfNeeded cfg w)"
| "run_master_op cfg (DoNote sq) w = NoteSeq sq w"

lemma fenced_master_op: "fenced cfg h w \<Longrightarrow> fenced cfg h (run_master_op cfg op w)"
proof (cases op)
  case DoCheck
  assume "fenced cfg h w"
  with DoCheck keepsD [OF keeps_CheckOwnership [OF stable_fenced guard_fields_fenced]] show ?thesis by simp
next
  case DoBeat
  assume "fenced cfg h w"
  with DoBeat keepsD [OF keeps_writeContent_fenced] show ?thesis by (simp add: doBeat_def)
next
  case DoPublish
  assume f: "fenced cfg h w"
  have "keeps (fenced cfg h) (publishSeqIfNeeded cfg)"
    unfolding publishSeqIfNeeded_def by (intro keeps_basic keeps_writeContent_fenced)
  from keepsD [OF this f] DoPublish show ?thesis by simp
next
  case (DoNote sq)
  assume "fenced cfg h w"
  with DoNote show ?thesis by (auto simp: NoteSeq_def elim!: fenced_fields)
qed

lemma fenced_master_ops: "fenced cfg h w \<Longrightarrow> fenced cfg h (fold (run_master_op cfg) ops w)"
  by (induction ops arbitrary: w) (simp_all add: fenced_master_op)

lemma fenced_refuses: "fenced cfg h w \<Longrightarrow> isl (fst (CheckOwnership cfg w))"
proof (rule ccontr)
  assume f: "fenced cfg h w" and "\<not> isl (fst (CheckOwnership cfg w))"
  then obtain w' where w': "CheckOwnership cfg w = (Inr (), w')"
    by (cases "CheckOwnership cfg w"; cases "fst (CheckOwnership cfg w)") auto
  from CheckOwnership_value [OF w'] have "mine_at_path cfg w'" by simp
  moreover have "fenced cfg h w'"
    using keepsD [OF keeps_CheckOwnership [OF stable_fenced guard_fields_fenced] f, of cfg] w' by simp
  ultimately show False using evicted_not_mine [of cfg h w'] by (simp add: fenced_def)
qed

section \<open>Promotion\<close>

text \<open>The published lock was read back as the own one, and nothing but the others acted since.\<close>

definition promoted :: "LockCfg \<Rightarrow> lockw \<Rightarrow> bool" where
  "promoted cfg w \<longleftrightarrow> l_master w \<and> l_h w \<noteq> None \<and> l_publishedSeq w = l_minSeq w \<and>
     (\<exists>w1. mine_at_path cfg w1 \<and> w_objs w = w_objs (snd (interfere w1)) \<and> w_path w = w_path (snd (interfere w1)))"

lemma triple_not_True:
  "triple P (close_and (Inl e)) Q (\<lambda>_ _. True)" "triple P (abandon_and h (Inl e)) Q (\<lambda>_ _. True)"
  "triple P (close_and (Inr False)) (\<lambda>b w. b \<longrightarrow> R w) (\<lambda>_ _. True)"
  "triple P (abandon_and h (Inr False)) (\<lambda>b w. b \<longrightarrow> R w) (\<lambda>_ _. True)"
  by (auto simp: triple_def close_and_def abandon_and_def bindP_def of_res_def split: prod.split sum.split)

lemma stable_minSeq: "stable (\<lambda>w. l_minSeq w = sq)"
  by (simp add: stable_def)

lemma triple_read_back:
  "triple (\<lambda>w. l_minSeq w = sq) (read_back cfg h sq) (\<lambda>b w. b \<longrightarrow> promoted cfg w) (\<lambda>_ _. True)"
  unfolding read_back_def
proof (rule triple_bind)
  show "triple (\<lambda>w. l_minSeq w = sq) (attempt lk_ReadFile)
      (\<lambda>r w. l_minSeq w = sq \<and> (case r of Inr raw \<Rightarrow> seen w = Some raw | Inl _ \<Rightarrow> True)) (\<lambda>_ _. True)"
    by (rule triple_attempt, rule triple_conseq [OF triple_Read [OF stable_minSeq]]) auto
  have final: "triple (\<lambda>w. mine_at_path cfg w \<and> l_minSeq w = sq) (bindP lk_Now (\<lambda>t2.
      bindP (modify (\<lambda>w. w\<lparr>l_h := Some h, l_master := True, l_lastBeatOK := t2, l_publishedSeq := sq, l_phase := ''master''\<rparr>)) (\<lambda>_. ret True)))
      (\<lambda>b w. b \<longrightarrow> promoted cfg w) (\<lambda>_ _. True)"
    by (auto simp: triple_def bindP_Now bindP_modify ret_def promoted_def)
  show "triple (\<lambda>w. l_minSeq w = sq \<and> (case r of Inr raw \<Rightarrow> seen w = Some raw | Inl _ \<Rightarrow> True))
      (case (case r of Inl _ \<Rightarrow> None | Inr b \<Rightarrow> parseContent (k_json cfg) b) of None \<Rightarrow> close_and (Inr False)
       | Some c \<Rightarrow> if c_InstanceID c \<noteq> k_id cfg \<or> c_Role c \<noteq> RoleMaster then close_and (Inr False)
          else bindP lk_Now (\<lambda>t2. bindP (modify (\<lambda>w. w\<lparr>l_h := Some h, l_master := True, l_lastBeatOK := t2,
            l_publishedSeq := sq, l_phase := ''master''\<rparr>)) (\<lambda>_. ret True)))
      (\<lambda>b w. b \<longrightarrow> promoted cfg w) (\<lambda>_ _. True)" for r
  proof (cases "case r of Inl _ \<Rightarrow> None | Inr b \<Rightarrow> parseContent (k_json cfg) b")
    case None
    then show ?thesis by (simp add: triple_not_True)
  next
    case (Some c)
    show ?thesis
    proof (cases "c_InstanceID c \<noteq> k_id cfg \<or> c_Role c \<noteq> RoleMaster")
      case True
      then show ?thesis unfolding Some option.case by (simp add: triple_not_True)
    next
      case False
      have "triple (\<lambda>w. l_minSeq w = sq \<and> (case r of Inr raw \<Rightarrow> seen w = Some raw | Inl _ \<Rightarrow> True)) (bindP lk_Now (\<lambda>t2.
          bindP (modify (\<lambda>w. w\<lparr>l_h := Some h, l_master := True, l_lastBeatOK := t2, l_publishedSeq := sq, l_phase := ''master''\<rparr>)) (\<lambda>_. ret True)))
          (\<lambda>b w. b \<longrightarrow> promoted cfg w) (\<lambda>_ _. True)"
        by (rule triple_conseq [OF final]) (use False Some in \<open>auto simp: mine_at_path_def split: sum.splits\<close>)
      with False show ?thesis unfolding Some option.case by simp
    qed
  qed
qed

lemma triple_first_beat: "triple (\<lambda>_. True) (first_beat cfg h) (\<lambda>b w. b \<longrightarrow> promoted cfg w) (\<lambda>_ _. True)"
  unfolding first_beat_def
proof (rule triple_bind [OF triple_any], rule triple_bind [OF triple_any], rule triple_bind)
  show "triple (\<lambda>_. True) (gets l_minSeq) (\<lambda>sq w. l_minSeq w = sq) (\<lambda>_ _. True)"
    by (simp add: triple_def gets_def)
  have keep: "keeps (\<lambda>w. l_minSeq w = sq) (lk_Rewrite h c)" for sq c
    by (rule keepsI) (auto simp: lk_Rewrite_def lk_call_def write_obj_def split: prod.split option.split
        dest: stable_interfere [OF stable_minSeq, OF refl])
  show "triple (\<lambda>w. l_minSeq w = sq) (bindP (attempt (lk_Rewrite h (encodeContent (k_json cfg)
        \<lparr>c_InstanceID = k_id cfg, c_Role = RoleMaster, c_Beat = 1, c_Seq = sq, c_Host = k_Host cfg\<rparr>))) (\<lambda>r. case r of
       Inl e \<Rightarrow> abandon_and h (Inl e) | Inr _ \<Rightarrow> bindP lk_Now (\<lambda>t1.
         if t1 - t0 > p_MaxWriteLatency (k_p cfg) then abandon_and h (Inr False) else read_back cfg h sq)))
      (\<lambda>b w. b \<longrightarrow> promoted cfg w) (\<lambda>_ _. True)" for sq t0
  proof (rule triple_bind)
    show "triple (\<lambda>w. l_minSeq w = sq) (attempt (lk_Rewrite h (encodeContent (k_json cfg)
        \<lparr>c_InstanceID = k_id cfg, c_Role = RoleMaster, c_Beat = 1, c_Seq = sq, c_Host = k_Host cfg\<rparr>)))
        (\<lambda>_ w. l_minSeq w = sq) (\<lambda>_ _. True)"
      by (rule triple_conseq [OF keeps_attempt [OF keep, unfolded keeps_def]]) auto
    show "triple (\<lambda>w. l_minSeq w = sq) (case r of Inl e \<Rightarrow> abandon_and h (Inl e) | Inr _ \<Rightarrow> bindP lk_Now (\<lambda>t1.
         if t1 - t0 > p_MaxWriteLatency (k_p cfg) then abandon_and h (Inr False) else read_back cfg h sq))
        (\<lambda>b w. b \<longrightarrow> promoted cfg w) (\<lambda>_ _. True)" for r :: "unit res"
      by (rule triple_case_res, rule triple_not_True, rule triple_bind [OF triple_quiet(5) [OF stable_minSeq]],
          rule triple_if, rule triple_not_True, rule triple_read_back)
  qed
qed

lemma triple_promote: "triple (\<lambda>_. True) (promote cfg h) (\<lambda>b w. b \<longrightarrow> promoted cfg w) (\<lambda>_ _. True)"
  unfolding promote_def
  by (rule triple_bind [OF triple_any], rule triple_case_res, rule triple_not_True,
      rule triple_bind [OF triple_any], rule triple_case_res, rule triple_not_True,
      rule triple_bind [OF triple_any], rule triple_if, rule triple_not_True, rule triple_first_beat)

lemma triple_candidacy: "triple (\<lambda>_. True) (candidacy cfg pause) (\<lambda>b w. b \<longrightarrow> promoted cfg w) (\<lambda>_ _. True)"
  unfolding candidacy_def
  by (rule triple_bind [OF triple_any], rule triple_bind [OF triple_any], rule triple_case_res,
      (rule triple_if; (rule triple_ret | rule triple_raise); simp),
      rule triple_bind [OF triple_any], rule triple_case_res, rule triple_not_True,
      rule triple_bind [OF triple_any], rule triple_if, rule triple_not_True,
      rule triple_bind [OF triple_any], rule triple_bind [OF triple_any], rule triple_case_res, rule triple_not_True,
      rule triple_bind [OF triple_any], rule triple_case_res, (rule triple_if; rule triple_not_True),
      auto intro!: triple_not_True triple_promote triple_if split: option.split)

lemma triple_step: "triple (\<lambda>_. True) (step cfg pause) (\<lambda>b w. b \<longrightarrow> promoted cfg w) (\<lambda>_ _. True)"
  unfolding step_def
  by (rule triple_bind [OF triple_any], rule triple_bind [OF triple_any], rule triple_bind [OF triple_any],
      rule triple_case_res, (rule triple_if; (rule triple_candidacy | rule triple_raise); simp),
      rule triple_bind [OF triple_any], rule triple_if, (rule triple_ret, simp),
      rule triple_bind [OF triple_any], rule triple_case_res,
      (rule triple_if; (rule triple_candidacy | rule triple_raise); simp), rule triple_candidacy)

section \<open>The published write counter\<close>

text \<open>Lower bounds of the counters, and that what is published never exceeds what is known.\<close>

definition seq_floor :: "64 word \<Rightarrow> 64 word \<Rightarrow> 64 word \<Rightarrow> lockw \<Rightarrow> bool" where
  "seq_floor p q r w \<longleftrightarrow> p \<le> l_publishedSeq w \<and> q \<le> l_minSeq w \<and> r \<le> l_notedSeq w \<and> l_publishedSeq w \<le> published_seq w"

lemma stable_seq_floor: "stable (seq_floor p q r)"
  by (simp add: stable_def seq_floor_def published_seq_def)

lemma guard_fields_seq_floor: "guard_fields (seq_floor p q r)"
  by (simp add: guard_fields_def seq_floor_def published_seq_def)

lemma published_seq_max: "published_seq w = max (l_minSeq w) (l_notedSeq w)"
  unfolding published_seq_def max_def by (metis linorder_not_le)

lemma keeps_writeContent_seq: "keeps (seq_floor p q r) (writeContent cfg nextBeat)"
proof (rule keepsI)
  fix w assume f: "seq_floor p q r w"
  let ?I = "seq_floor p (l_minSeq w) (l_notedSeq w)"
  have I: "?I w" using f by (simp add: seq_floor_def)
  have pub: "p \<le> published_seq w" using f by (auto simp: seq_floor_def)
  have rewrite: "keeps ?I (lk_Rewrite h c)" for h c
  proof (rule keepsI)
    fix v assume "?I v"
    then have "?I (snd (interfere v))" using stable_seq_floor by (simp add: stable_def)
    moreover have "?I (write_obj h c' v') = ?I v'" for c' v' by (simp add: write_obj_def seq_floor_def published_seq_def)
    ultimately show "?I (snd (lk_Rewrite h c v))"
      by (auto simp: lk_Rewrite_def lk_call_def split: prod.split option.split)
  qed
  have "?I (snd (writeContent cfg nextBeat w))"
  proof (cases "if l_master w \<and> \<not> l_lost w then l_h w else None")
    case None
    with I show ?thesis by (simp add: writeContent_def raise_def bindP_gets)
  next
    case (Some h)
    let ?p = "bindP (modify (\<lambda>w. if nextBeat then w\<lparr>l_beat := l_beat w + 1\<rparr> else w)) (\<lambda>_. bindP (gets l_beat) (\<lambda>beat.
         bindP (lk_Rewrite h (encodeContent (k_json cfg) \<lparr>c_InstanceID = k_id cfg, c_Role = RoleMaster, c_Beat = beat,
            c_Seq = published_seq w, c_Host = k_Host cfg\<rparr>)) (\<lambda>_. bindP lk_Now (\<lambda>t.
         modify (\<lambda>w'. w'\<lparr>l_lastBeatOK := t, l_publishedSeq := published_seq w\<rparr>)))))"
    have "keeps ?I ?p"
    proof (intro keeps_basic rewrite keeps_quiet stable_seq_floor)
      show "?I (v\<lparr>l_lastBeatOK := t, l_publishedSeq := published_seq w\<rparr>)" if "?I v" for v t
        using that pub by (auto simp: seq_floor_def published_seq_max intro: max.mono le_max_iff_disj [THEN iffD2])
    qed (auto simp: seq_floor_def published_seq_def split: if_splits)
    from keepsD [OF this I] show ?thesis unfolding writeContent_def bindP_gets Some option.case .
  qed
  then show "seq_floor p q r (snd (writeContent cfg nextBeat w))"
    using f by (auto simp: seq_floor_def)
qed

lemma seq_floor_master_op: "seq_floor p q r w \<Longrightarrow> seq_floor p q r (run_master_op cfg op w)"
proof (cases op)
  case DoCheck
  assume "seq_floor p q r w"
  with DoCheck keepsD [OF keeps_CheckOwnership [OF stable_seq_floor guard_fields_seq_floor]] show ?thesis by simp
next
  case DoBeat
  assume "seq_floor p q r w"
  with DoBeat keepsD [OF keeps_writeContent_seq] show ?thesis by (simp add: doBeat_def)
next
  case DoPublish
  assume f: "seq_floor p q r w"
  have "keeps (seq_floor p q r) (publishSeqIfNeeded cfg)"
    unfolding publishSeqIfNeeded_def by (intro keeps_basic keeps_writeContent_seq)
  from keepsD [OF this f] DoPublish show ?thesis by simp
next
  case (DoNote sq)
  assume "seq_floor p q r w"
  with DoNote show ?thesis by (auto simp: NoteSeq_def seq_floor_def published_seq_max le_max_iff_disj)
qed

lemma seq_floor_master_ops: "seq_floor p q r w \<Longrightarrow> seq_floor p q r (fold (run_master_op cfg) ops w)"
  by (induction ops arbitrary: w) (simp_all add: seq_floor_master_op)

section \<open>Quiet worlds\<close>

lemma interfere_quiet: "w_script w = [] \<Longrightarrow> interfere w = (no_call, w)"
  by (simp add: interfere_def)

lemmas quiet_simps = interfere_quiet lk_call_def no_call_def prog_defs gets_def modify_def lk_ReadFile_def lk_StatPath_def
  lk_ID_def lk_Close_def lk_Remove_def lk_Now_def lk_Sleep_def

lemma probe_loop_quiet:
  assumes "w_script w = []" "seen w = Some lst" "p_Check (k_p cfg) > 0"
    and "stale_limit cfg lst \<le> w_now w - t0 + int fuel * p_Check (k_p cfg)" "fuel > 0"
  shows "fst (probe_loop cfg t0 lst fuel w) = Inr (Some ProbeStale)"
  using assms
proof (induction fuel arbitrary: w)
  case (Suc fuel)
  let ?w = "w\<lparr>w_now := w_now w + p_Check (k_p cfg)\<rparr>"
  have pos: "max (p_Check (k_p cfg)) 0 = p_Check (k_p cfg)" using Suc.prems(3) by simp
  obtain k where k: "w_path w = Some k" "lst = take 4096 (snd (w_objs w ! k))"
    using Suc.prems(2) by (auto simp: seen_def split: option.splits)
  have step: "probe_loop cfg t0 lst (Suc fuel) w =
      (if w_now ?w - t0 \<ge> stale_limit cfg lst then (Inr (Some ProbeStale), ?w) else probe_loop cfg t0 lst fuel ?w)"
    using Suc.prems(1) k by (simp add: quiet_simps pos)
  show ?case
  proof (cases "w_now ?w - t0 \<ge> stale_limit cfg lst")
    case True
    then show ?thesis unfolding step by simp
  next
    case False
    then have "fuel > 0" using Suc.prems(4) by (cases fuel) auto
    have "seen ?w = Some lst" using Suc.prems(2) seen_cong [of ?w w] by simp
    with False \<open>fuel > 0\<close> Suc.prems Suc.IH [of ?w] show ?thesis
      unfolding step by (simp add: algebra_simps)
  qed
qed simp


lemma Probe_quiet:
  assumes "w_script w = []" "seen w = Some raw" "p_Check (k_p cfg) > 0"
    and "stale_limit cfg raw \<le> int fuel * p_Check (k_p cfg)" "fuel > 0"
  shows "fst (Probe cfg fuel w) = Inr (Some ProbeStale)"
proof -
  have "Probe cfg fuel w = probe_loop cfg (w_now w) raw fuel w"
    using assms(1,2) by (auto simp: Probe_def quiet_simps seen_def split: option.splits)
  then show ?thesis using probe_loop_quiet [of w raw cfg "w_now w" fuel] assms by simp
qed

text \<open>In a quiet world a release removes the path only when the master still reads its own id there.\<close>

lemma Release_quiet_path:
  assumes "w_script w = []"
  shows "w_path (snd (Release cfg w)) =
     (case (l_h w, w_path w) of
        (Some h, Some k) \<Rightarrow>
          if IsMaster w \<and> fst (w_objs w ! k) = fst (w_objs w ! h) \<and> carries cfg (snd (w_objs w ! k)) then None else Some k
      | _ \<Rightarrow> w_path w)"
  using assms
  by (cases "l_h w"; cases "w_path w")
    (auto simp: Release_def quiet_simps IsMaster_def carries_def split: option.split)

section \<open>The long-running loops\<close>

lemma triple_acquire_loop:
  "triple (\<lambda>_. True) (acquire_loop cfg pauses fuel) (\<lambda>r w. r = Some (Inr ()) \<longrightarrow> promoted cfg w) (\<lambda>_ _. True)"
proof (induction fuel)
  case 0
  show ?case by (auto simp: triple_def ret_def)
next
  case (Suc fuel)
  have one: "triple (\<lambda>_. True) (attempt (step cfg (pauses fuel))) (\<lambda>r w. r = Inr True \<longrightarrow> promoted cfg w) (\<lambda>_ _. True)"
    by (rule triple_attempt, rule triple_conseq [OF triple_step]) auto
  show ?case unfolding acquire_loop.simps
  proof (rule triple_bind [OF one])
    show "triple (\<lambda>w. r = Inr True \<longrightarrow> promoted cfg w) (if r = Inr True then ret (Some (Inr ())) else
        bindP (attempt (lk_Sleep (p_Check (k_p cfg)))) (\<lambda>r. case r of Inl e \<Rightarrow> ret (Some (Inl e)) | Inr _ \<Rightarrow> acquire_loop cfg pauses fuel))
        (\<lambda>r w. r = Some (Inr ()) \<longrightarrow> promoted cfg w) (\<lambda>_ _. True)" for r :: "bool res"
    proof (cases "r = Inr True")
      case True
      then show ?thesis by (simp add: triple_def ret_def)
    next
      case False
      have "triple (\<lambda>_. True) (bindP (attempt (lk_Sleep (p_Check (k_p cfg)))) (\<lambda>r. case r of Inl e \<Rightarrow> ret (Some (Inl e))
          | Inr _ \<Rightarrow> acquire_loop cfg pauses fuel)) (\<lambda>r w. r = Some (Inr ()) \<longrightarrow> promoted cfg w) (\<lambda>_ _. True)"
        by (rule triple_bind [OF triple_any], rule triple_case_res, rule triple_ret, simp, rule Suc)
      from triple_conseq [OF this] False show ?thesis by simp
    qed
  qed
qed

lemma triple_maintain_loop:
  "triple (\<lambda>_. True) (maintain_loop cfg fuel) (\<lambda>r w. (\<exists>e. r = Some (Some e)) \<longrightarrow> l_lost w) (\<lambda>_ _. False)"
proof (induction fuel)
  case (Suc fuel)
  let ?Q = "\<lambda>r w. (\<exists>e :: goerr. r = Some (Some e)) \<longrightarrow> l_lost w"
  have tot: "triple (\<lambda>_. True) (attempt p) (\<lambda>_ _. True) (\<lambda>_ _. False)" for p :: "(lockw, 'b) prog"
    by (simp add: triple_def attempt_def split: prod.split sum.split)
  have checked: "triple (\<lambda>_. True) (bindP lk_Now (\<lambda>t. bindP (modify (\<lambda>w. w\<lparr>l_lastCheck := t\<rparr>)) (\<lambda>_. maintain_loop cfg fuel)))
      ?Q (\<lambda>_ _. False)"
    by (rule triple_bind [OF triple_quiet(5) [OF stable_True]], rule triple_bind [OF triple_modify], simp, rule Suc)
  have failed: "triple (\<lambda>_. True) (bindP (gets l_lost) (\<lambda>final. if final then ret (Some (Some e)) else maintain_loop cfg fuel))
      ?Q (\<lambda>_ _. False)" for e
    using tripleD [OF Suc] by (auto simp: triple_def bindP_gets ret_def)
  show ?case unfolding maintain_loop.simps
    by (rule triple_bind [OF tot], rule triple_case_res, rule triple_ret, simp, rule triple_bind [OF tot],
        rule triple_case_res, rule failed, rule checked)
qed (simp add: triple_def ret_def)

lemma length_encodeContent: "length (encodeContent J c) = 256"
  by (simp add: encodeContent_def contentSize_def Let_def)

text \<open>What the protocol needs of JSON: the id and the role of an own content are read back.\<close>

definition reads_back :: "LockCfg \<Rightarrow> string \<Rightarrow> 64 word \<Rightarrow> 64 word \<Rightarrow> bool" where
  "reads_back cfg role b sq \<longleftrightarrow>
     (case parseContent (k_json cfg) (encodeContent (k_json cfg)
        \<lparr>c_InstanceID = k_id cfg, c_Role = role, c_Beat = b, c_Seq = sq, c_Host = k_Host cfg\<rparr>) of
        None \<Rightarrow> False | Some c \<Rightarrow> c_InstanceID c = k_id cfg \<and> c_Role c = role)"

lemma step_quiet_free:
  assumes "w_script w = []" "w_path w = None" "0 \<le> p_MaxWriteLatency (k_p cfg)"
    and "reads_back cfg RoleCandidate 0 0" "reads_back cfg RoleMaster 1 (l_minSeq w)"
  shows "fst (step cfg pause w) = Inr True"
  using assms
  by (simp add: step_def candidacy_def promote_def first_beat_def read_back_def quiet_simps lk_CreateExclusive_def create_obj_def
      lk_Rewrite_def write_obj_def lk_Chmod_def length_encodeContent errors_is_def reads_back_def split: option.splits)

lemma Acquire_quiet_free:
  assumes "w_script w = []" "w_path w = None" "0 \<le> p_MaxWriteLatency (k_p cfg)"
    and "reads_back cfg RoleCandidate 0 0" "reads_back cfg RoleMaster 1 (l_minSeq w)"
  shows "fst (Acquire cfg pauses (Suc fuel) w) = Inr (Some (Inr ()))"
proof -
  obtain w' where run: "step cfg (pauses fuel) w = (Inr True, w')"
    using step_quiet_free [OF assms, of "pauses fuel"] by (cases "step cfg (pauses fuel) w") simp
  then show ?thesis using assms(1) by (simp add: Acquire_def quiet_simps lk_MkdirAll_def)
qed

section \<open>Timing\<close>

lemma Validate_iff:
  "Validate p = None \<longleftrightarrow>
     0 < p_Check p \<and> p_Check p < p_Beat p \<and> p_Beat p < p_SelfRetire p \<and> p_SelfRetire p < p_MasterStale p \<and>
     0 < p_MaxWriteLatency p \<and> p_MaxWriteLatency p < p_PauseMin p \<and> p_PauseMin p \<le> p_PauseMax p \<and>
     p_PauseMax p < p_CandidateStale p"
  by (auto simp: Validate_def Let_def)

section \<open>Properties\<close>

text \<open>A concrete lock: a JSON stand-in that keeps the id and the role, and a master holding the path.\<close>

definition ex_marshal :: "content \<Rightarrow> string" where
  "ex_marshal c = c_InstanceID c @ [if c_Role c = RoleMaster then CHR ''M'' else CHR ''C'']"

definition ex_unmarshal :: "string \<Rightarrow> content option" where
  "ex_unmarshal raw =
     (let b = takeWhile (\<lambda>ch. ch \<noteq> CHR '' '') raw in
      if b = [] then None
      else Some (zero_content\<lparr>c_InstanceID := butlast b, c_Role := (if last b = CHR ''M'' then RoleMaster else RoleCandidate)\<rparr>))"

definition ex_cfg :: "string \<Rightarrow> LockCfg" where
  "ex_cfg i = \<lparr>k_id = i, k_Host = ''h'', k_p = DefaultParams, k_json = \<lparr>lj_marshal = ex_marshal, lj_unmarshal = ex_unmarshal\<rparr>\<rparr>"

definition ex_lockw :: lockw where
  "ex_lockw = \<lparr>l_h = None, l_master = False, l_lost = False, l_lostErr = [], l_beat = 0, l_lastBeatOK = 0, l_uncertainSince = 0,
     l_obsRaw = [], l_obsSince = 0, l_observed = False, l_minSeq = 0, l_notedSeq = 0, l_publishedSeq = 0, l_lastCheck = 0,
     l_phase = [], l_onLost = 0, w_objs = [], w_path = None, w_now = 1000 * second, w_script = []\<rparr>"

definition ex_master :: lockw where
  "ex_master = ex_lockw\<lparr>l_h := Some 0, l_master := True, l_lastBeatOK := 990 * second, l_minSeq := 7, l_notedSeq := 7,
     l_publishedSeq := 7, w_objs := [(5, ''aM'')], w_path := Some 0\<rparr>"

text \<open>The master of an undisturbed lock: its object is at the path, nothing else carries its id.\<close>

definition holds_lock :: "LockCfg \<Rightarrow> nat \<Rightarrow> lockw \<Rightarrow> bool" where
  "holds_lock cfg h w \<longleftrightarrow> w_path w = Some h \<and> h < length (w_objs w) \<and> l_h w = Some h \<and>
     list_all (\<lambda>k. k = h \<or> \<not> carries cfg (snd (w_objs w ! k))) [0..<length (w_objs w)] \<and> foreign_script cfg w"

lemma takeover_fenced:
  assumes "holds_lock cfg h w" "\<not> carries cfg c"
  shows "fenced cfg h (fold env_step [EnvRemove, EnvCreate ino c] w)"
  using assms foreign_script_cong [of "fold env_step [EnvRemove, EnvCreate ino c] w" w]
  by (auto simp: holds_lock_def fenced_def evicted_def nth_append less_Suc_eq list_all_iff)

text \<open>
  Fencing. Once another instance has replaced the lock file (even by a file with the same inode number),
  whatever the old master goes on doing (checks, beats, publications) and whatever the others do after that
  short of publishing its id, its write guard refuses: it never confirms ownership again.
\<close>

theorem takeover_fences_master:
  assumes "holds_lock cfg h w" "\<not> carries cfg c"
  shows "isl (fst (CheckOwnership cfg (fold (run_master_op cfg) ops (fold env_step [EnvRemove, EnvCreate ino c] w))))"
  by (rule fenced_refuses [OF fenced_master_ops [OF takeover_fenced [OF assms]]])

theorem takeover_fences_master_witness:
  "isl (fst (CheckOwnership (ex_cfg ''a'') (fold (run_master_op (ex_cfg ''a'')) [DoBeat, DoNote 9, DoPublish, DoCheck]
     (fold env_step [EnvRemove, EnvCreate 5 ''bM''] ex_master))))"
  by (rule takeover_fences_master [of _ 0])
    (simp_all add: holds_lock_def ex_master_def ex_lockw_def ex_cfg_def foreign_script_def carries_def parseContent_def
      ex_unmarshal_def zero_content_def)

text \<open>
  The write guard. When \<open>CheckOwnership\<close> succeeds, the instance is a master that has not lost its lock,
  its last successful heartbeat is younger than the self-retirement delay, and the last read of the lock path
  showed its own id in the role of master.
\<close>

theorem guard_confirms_lease:
  assumes "CheckOwnership cfg w = (Inr (), w')"
  shows "IsMaster w \<and> w_now w - l_lastBeatOK w < p_SelfRetire (k_p cfg) \<and> mine_at_path cfg w'"
  by (rule CheckOwnership_value [OF assms])

theorem guard_confirms_lease_witness:
  "CheckOwnership (ex_cfg ''a'') ex_master = (Inr (), ex_master) \<and> mine_at_path (ex_cfg ''a'') ex_master"
proof -
  have run: "CheckOwnership (ex_cfg ''a'') ex_master = (Inr (), ex_master)"
    by code_simp
  from guard_confirms_lease [OF run] run show ?thesis by simp
qed

text \<open>
  Promotion. When \<open>Acquire\<close> returns without error, the instance has read its own id in the role of master
  back through the lock path after writing its first heartbeat; it holds a descriptor, and the counter it
  published is the highest one it had seen.
\<close>

theorem promotion_is_read_back:
  assumes "acquire_loop cfg pauses fuel w = (Inr (Some (Inr ())), w')"
  shows "promoted cfg w'"
  using triple_value [OF triple_acquire_loop _ assms] by simp

lemma ex_reads_back: "reads_back (ex_cfg ''b'') RoleCandidate 0 0" "reads_back (ex_cfg ''b'') RoleMaster 1 sq"
  by (simp_all add: reads_back_def parseContent_def encodeContent_def ex_cfg_def ex_marshal_def ex_unmarshal_def zero_content_def
      contentSize_def)

theorem promotion_is_read_back_witness:
  "promoted (ex_cfg ''b'') (snd (acquire_loop (ex_cfg ''b'') (\<lambda>_. second) 1 ex_lockw))"
proof -
  have "fst (step (ex_cfg ''b'') second ex_lockw) = Inr True"
    by (rule step_quiet_free) (simp_all add: ex_reads_back, simp_all add: ex_lockw_def ex_cfg_def DefaultParams_def second_def)
  then have "acquire_loop (ex_cfg ''b'') (\<lambda>_. second) 1 ex_lockw =
      (Inr (Some (Inr ())), snd (acquire_loop (ex_cfg ''b'') (\<lambda>_. second) 1 ex_lockw))"
    by (cases "step (ex_cfg ''b'') second ex_lockw") (simp add: prog_defs)
  then show ?thesis by (rule promotion_is_read_back)
qed

text \<open>
  Takeover of a free lock. When nobody interferes and no lock file exists, the first poll of \<open>Acquire\<close>
  promotes the instance, provided its own contents are read back as written.
\<close>

theorem acquire_free_lock:
  assumes "w_script w = []" "w_path w = None" "0 \<le> p_MaxWriteLatency (k_p cfg)"
    and "reads_back cfg RoleCandidate 0 0" "reads_back cfg RoleMaster 1 (l_minSeq w)"
  shows "fst (Acquire cfg pauses (Suc fuel) w) = Inr (Some (Inr ()))"
  by (rule Acquire_quiet_free [OF assms])

theorem acquire_free_lock_witness:
  "fst (Acquire (ex_cfg ''b'') (\<lambda>_. second) (Suc 0) ex_lockw) = Inr (Some (Inr ()))"
  by (rule acquire_free_lock) (simp_all add: ex_reads_back, simp_all add: ex_lockw_def ex_cfg_def DefaultParams_def second_def)

text \<open>
  End of a lease. The maintenance loop reports an error only when the loss of the lock is recorded (then
  the guard refuses for good); an inconclusive check keeps it running.
\<close>

theorem maintain_reports_only_loss:
  assumes "maintain_loop cfg fuel w = (Inr (Some (Some e)), w')"
  shows "l_lost w' \<and> fst (CheckOwnership cfg w') = Inl (l_lostErr w')"
proof -
  have "l_lost w'" using triple_value [OF triple_maintain_loop _ assms] by simp
  then show ?thesis by (simp add: CheckOwnership_def bindP_gets raise_def)
qed

theorem maintain_reports_only_loss_witness:
  "l_lost (snd (maintain_loop (ex_cfg ''b'') 1 ex_master))"
proof -
  have "fst (maintain_loop (ex_cfg ''b'') 1 ex_master) = Inr (Some (Some [ErrText ''the lock now belongs to another instance'']))"
    by code_simp
  then have "maintain_loop (ex_cfg ''b'') 1 ex_master = (Inr (Some (Some [ErrText ''the lock now belongs to another instance''])),
      snd (maintain_loop (ex_cfg ''b'') 1 ex_master))"
    by (cases "maintain_loop (ex_cfg ''b'') 1 ex_master") simp
  from maintain_reports_only_loss [OF this] show ?thesis by simp
qed

text \<open>
  The write counter. Whatever a master does and whatever happens around it, the counter it publishes, the
  one it noted and the one it inherited never decrease, and it never publishes more than it knows.
\<close>

theorem counters_never_decrease:
  assumes "l_publishedSeq w \<le> published_seq w"
  shows "l_publishedSeq w \<le> l_publishedSeq (fold (run_master_op cfg) ops w) \<and>
    l_minSeq w \<le> l_minSeq (fold (run_master_op cfg) ops w) \<and> l_notedSeq w \<le> l_notedSeq (fold (run_master_op cfg) ops w) \<and>
    l_publishedSeq (fold (run_master_op cfg) ops w) \<le> published_seq (fold (run_master_op cfg) ops w)"
proof -
  have "seq_floor (l_publishedSeq w) (l_minSeq w) (l_notedSeq w) w" using assms by (simp add: seq_floor_def)
  from seq_floor_master_ops [OF this, of cfg ops] show ?thesis by (simp add: seq_floor_def)
qed

theorem counters_never_decrease_witness:
  "l_publishedSeq ex_master \<le> l_publishedSeq (fold (run_master_op (ex_cfg ''a'')) [DoNote 9, DoPublish, DoBeat] ex_master)"
  using counters_never_decrease [of ex_master "ex_cfg ''a''" "[DoNote 9, DoPublish, DoBeat]"]
  by (simp add: ex_master_def ex_lockw_def published_seq_def)

text \<open>
  Release. When nobody interferes, a release removes the lock file exactly when the instance is a master
  that has not lost, the path is its own file and still shows its id; otherwise the path is left as it is.
\<close>

theorem release_removes_only_own:
  assumes "w_script w = []"
  shows "w_path (snd (Release cfg w)) =
     (case (l_h w, w_path w) of
        (Some h, Some k) \<Rightarrow>
          if IsMaster w \<and> fst (w_objs w ! k) = fst (w_objs w ! h) \<and> carries cfg (snd (w_objs w ! k)) then None else Some k
      | _ \<Rightarrow> w_path w)"
  by (rule Release_quiet_path [OF assms])

theorem release_removes_only_own_witness:
  "w_path (snd (Release (ex_cfg ''a'') ex_master)) = None \<and> w_path (snd (Release (ex_cfg ''b'') ex_master)) = Some 0"
  using release_removes_only_own [of ex_master "ex_cfg ''a''"] release_removes_only_own [of ex_master "ex_cfg ''b''"]
  by (simp add: ex_master_def ex_lockw_def ex_cfg_def carries_def IsMaster_def parseContent_def ex_unmarshal_def zero_content_def)

text \<open>
  C38. The probe concludes. When nobody rewrites the lock file, a probe whose polls cover the staleness delay of
  its content reports it stale.
\<close>

theorem probe_concludes:
  assumes "w_script w = []" "seen w = Some raw" "p_Check (k_p cfg) > 0"
    and "stale_limit cfg raw \<le> int fuel * p_Check (k_p cfg)" "fuel > 0"
  shows "fst (Probe cfg fuel w) = Inr (Some ProbeStale)"
  by (rule Probe_quiet [OF assms])

theorem probe_concludes_witness: "fst (Probe (ex_cfg ''b'') 60 ex_master) = Inr (Some ProbeStale)"
  by (rule probe_concludes [of _ "''aM''"])
    (simp_all add: ex_master_def ex_lockw_def ex_cfg_def seen_def stale_limit_def parseContent_def ex_unmarshal_def zero_content_def
      DefaultParams_def second_def)

end
