(* ===== verification/Encoding.thy ===== *)
theory Encoding
  imports Prelude
begin

text \<open>
  The textual encodings of the Go standard library the sources store bytes with: hexadecimal
  (\<open>encoding/hex\<close>) and padded base64 (\<open>base64.StdEncoding\<close>), with their round trips. Bytes are characters.
\<close>

section \<open>Hexadecimal\<close>

definition hex_digit :: "nat \<Rightarrow> char" where
  "hex_digit d = (if d < 10 then char_of (48 + d) else char_of (87 + d))"

definition hex_val :: "char \<Rightarrow> nat option" where
  "hex_val c =
     (let n = of_char c :: nat in
      if 48 \<le> n \<and> n \<le> 57 then Some (n - 48)
      else if 97 \<le> n \<and> n \<le> 102 then Some (n - 87)
      else if 65 \<le> n \<and> n \<le> 70 then Some (n - 55)
      else None)"

fun hex_encode :: "string \<Rightarrow> string" where
  "hex_encode [] = []"
| "hex_encode (c # cs) = hex_digit ((of_char c :: nat) div 16) # hex_digit ((of_char c :: nat) mod 16) # hex_encode cs"

fun hex_decode :: "string \<Rightarrow> string option" where
  "hex_decode [] = Some []"
| "hex_decode [c] = None"
| "hex_decode (c # d # cs) =
     (case (hex_val c, hex_val d) of
        (Some x, Some y) \<Rightarrow> map_option (Cons (char_of (16 * x + y))) (hex_decode cs)
      | _ \<Rightarrow> None)"

lemma hex_val_digit: "d < 16 \<Longrightarrow> hex_val (hex_digit d) = Some d"
  by (simp add: hex_val_def hex_digit_def Let_def)

lemma of_char_less: "(of_char c :: nat) < 256"
  by (rule nat_of_char_less_256)

lemma hex_roundtrip [simp]: "hex_decode (hex_encode s) = Some s"
proof (induction s)
  case (Cons c cs)
  have "(of_char c :: nat) div 16 < 16" using of_char_less [of c] by linarith
  then show ?case using Cons by (simp add: hex_val_digit)
qed simp

lemma hex_encode_inj: "hex_encode s = hex_encode t \<Longrightarrow> s = t"
  by (metis hex_roundtrip option.inject)

section \<open>Padded base64\<close>

definition b64_char :: "nat \<Rightarrow> char" where
  "b64_char v =
     (if v < 26 then char_of (65 + v) else if v < 52 then char_of (71 + v)
      else if v < 62 then char_of (v - 4) else if v = 62 then CHR ''+'' else CHR ''/'')"

definition b64_std_val :: "char \<Rightarrow> nat option" where
  "b64_std_val c =
     (let n = of_char c :: nat in
      if 65 \<le> n \<and> n \<le> 90 then Some (n - 65)
      else if 97 \<le> n \<and> n \<le> 122 then Some (n - 71)
      else if 48 \<le> n \<and> n \<le> 57 then Some (n + 4)
      else if n = 43 then Some 62
      else if n = 47 then Some 63
      else None)"

fun b64_encode :: "string \<Rightarrow> string" where
  "b64_encode [] = []"
| "b64_encode [a] =
     (let x = of_char a :: nat in [b64_char (x div 4), b64_char (16 * (x mod 4)), CHR ''='', CHR ''=''])"
| "b64_encode [a, b] =
     (let x = of_char a :: nat; y = of_char b :: nat in
      [b64_char (x div 4), b64_char (16 * (x mod 4) + y div 16), b64_char (4 * (y mod 16)), CHR ''=''])"
| "b64_encode (a # b # c # r) =
     (let x = of_char a :: nat; y = of_char b :: nat; z = of_char c :: nat in
      b64_char (x div 4) # b64_char (16 * (x mod 4) + y div 16) # b64_char (4 * (y mod 16) + z div 64) #
      b64_char (z mod 64) # b64_encode r)"

text \<open>Groups of four; padding only closes the last group. The unused bits of a padded group are not checked.\<close>

fun b64_groups :: "string \<Rightarrow> string option" where
  "b64_groups [] = Some []"
| "b64_groups (a # b # c # d # r) =
     (case (b64_std_val a, b64_std_val b) of
        (Some w, Some x) \<Rightarrow>
          if c = CHR ''='' then (if d = CHR ''='' \<and> r = [] then Some [char_of (4 * w + x div 16)] else None)
          else (case b64_std_val c of
             None \<Rightarrow> None
           | Some y \<Rightarrow>
               if d = CHR ''='' then
                 (if r = [] then Some [char_of (4 * w + x div 16), char_of (16 * (x mod 16) + y div 4)] else None)
               else (case b64_std_val d of
                  None \<Rightarrow> None
                | Some z \<Rightarrow> map_option (\<lambda>t. char_of (4 * w + x div 16) # char_of (16 * (x mod 16) + y div 4) #
                    char_of (64 * (y mod 4) + z) # t) (b64_groups r)))
      | _ \<Rightarrow> None)"
| "b64_groups _ = None"

text \<open>\<open>DecodeString\<close> skips line breaks.\<close>

definition b64_decode :: "string \<Rightarrow> string option" where
  "b64_decode s = b64_groups (filter (\<lambda>c. c \<noteq> char_of (10::nat) \<and> c \<noteq> char_of (13::nat)) s)"

lemma b64_char_val: "v < 64 \<Longrightarrow> b64_std_val (b64_char v) = Some v"
  by (auto simp: b64_char_def b64_std_val_def Let_def)

lemma b64_other_val [simp]:
  "b64_std_val (CHR ''='') = None" "b64_std_val (char_of (10::nat)) = None" "b64_std_val (char_of (13::nat)) = None"
  by (simp_all add: b64_std_val_def)

lemma b64_char_facts [simp]:
  assumes "v < 64"
  shows "b64_std_val (b64_char v) = Some v" "b64_char v \<noteq> CHR ''=''"
    and "b64_char v \<noteq> char_of (10::nat)" "b64_char v \<noteq> char_of (13::nat)"
  using b64_char_val [OF assms] by (simp, (metis b64_other_val option.distinct(1))+)

lemma pad_not_break [simp]: "CHR ''='' \<noteq> char_of (10::nat)" "CHR ''='' \<noteq> char_of (13::nat)"
  by (simp_all add: char_of_def bit_simps)

lemma b64_bounds:
  "(of_char a :: nat) div 4 < 64" "16 * ((of_char a :: nat) mod 4) < 64" "4 * ((of_char b :: nat) mod 16) < 64"
  "16 * ((of_char a :: nat) mod 4) + (of_char b :: nat) div 16 < 64"
  "4 * ((of_char b :: nat) mod 16) + (of_char c :: nat) div 64 < 64" "(of_char c :: nat) mod 64 < 64"
  using of_char_less [of a] of_char_less [of b] of_char_less [of c] by (simp_all; linarith)+

lemma b64_join:
  "4 * (x div 4) + 16 * (x mod 4) div 16 = x" "4 * (x div 4) + (16 * (x mod 4) + y div 16) div 16 = x"
  "16 * ((16 * (x mod 4) + y div 16) mod 16) + (4 * (y mod 16)) div 4 = y"
  "16 * ((16 * (x mod 4) + y div 16) mod 16) + (4 * (y mod 16) + z div 64) div 4 = y"
  "64 * ((4 * (y mod 16) + z div 64) mod 4) + z mod 64 = z"
  if "x < 256" "y < 256" "z < 256" for x y z :: nat
proof -
  have "y div 16 < 16" "z div 64 < 4" using that by linarith+
  then show "4 * (x div 4) + 16 * (x mod 4) div 16 = x" "4 * (x div 4) + (16 * (x mod 4) + y div 16) div 16 = x"
    "16 * ((16 * (x mod 4) + y div 16) mod 16) + (4 * (y mod 16)) div 4 = y"
    "16 * ((16 * (x mod 4) + y div 16) mod 16) + (4 * (y mod 16) + z div 64) div 4 = y"
    "64 * ((4 * (y mod 16) + z div 64) mod 4) + z mod 64 = z"
    by simp_all
qed

lemma b64_encode_no_breaks: "filter (\<lambda>c. c \<noteq> char_of (10::nat) \<and> c \<noteq> char_of (13::nat)) (b64_encode s) = b64_encode s"
  by (induction s rule: b64_encode.induct) (simp_all add: Let_def b64_bounds del: char_of_eq_iff)

lemma b64_groups_encode: "b64_groups (b64_encode s) = Some s"
proof (induction s rule: b64_encode.induct)
  case (2 a)
  then show ?case using b64_join(1) [OF of_char_less [of a] of_char_less [of a] of_char_less [of a]] by (simp add: Let_def b64_bounds)
next
  case (3 a b)
  show ?case
    using b64_join(2,3) [OF of_char_less [of a] of_char_less [of b] of_char_less [of b]] by (simp add: Let_def b64_bounds)
next
  case (4 a b c r)
  then show ?case
    using b64_join(2,4,5) [OF of_char_less [of a] of_char_less [of b] of_char_less [of c]] by (simp add: Let_def b64_bounds)
qed simp

lemma b64_roundtrip [simp]: "b64_decode (b64_encode s) = Some s"
  by (simp add: b64_decode_def b64_encode_no_breaks b64_groups_encode)

end
