(* ===== verification/State_Model.thy ===== *)
theory State_Model
  imports Prelude
begin

text \<open>
  The in-memory model of the relay state (\<open>internal/state/model.go\<close>): the entities, the permanent
  payload, the unique indexes, and every validity check a state file goes through when it is loaded.
  The lemmas characterise the checks (what a model that passes \<open>validateAll\<close> satisfies, that the
  outcome does not depend on the order in which Go visits the maps, that time only relaxes the checks) and
  show that the indexes rebuilt from a payload are exact.
\<close>

section \<open>Entities\<close>

abbreviation ModePull :: string where "ModePull \<equiv> ''pull''"
abbreviation ModePush :: string where "ModePush \<equiv> ''push''"
abbreviation EncPrefix :: string where "EncPrefix \<equiv> ''enc:''"
abbreviation RoleRelayChild :: string where "RoleRelayChild \<equiv> ''relay-child''"
abbreviation RoleRelayParent :: string where "RoleRelayParent \<equiv> ''relay-parent''"
abbreviation ConfigLinkSigningKeyCurrent :: string where
  "ConfigLinkSigningKeyCurrent \<equiv> ''link_signing_key_current''"
abbreviation ConfigLinkSigningKeyPrevious :: string where
  "ConfigLinkSigningKeyPrevious \<equiv> ''link_signing_key_previous''"

definition secretConfigKeys :: "string list" where
  "secretConfigKeys =
     [''rsa_key_current'', ''rsa_key_previous'', ''jwt_secret_current'', ''jwt_secret_previous'',
      ConfigLinkSigningKeyCurrent, ConfigLinkSigningKeyPrevious]"

definition IsSecretConfigKey :: "string \<Rightarrow> bool" where
  "IsSecretConfigKey k \<longleftrightarrow> k \<in> set secretConfigKeys"

text \<open>Values of \<open>map[string]any\<close> (JSON values; a number is its literal).\<close>

datatype json = JNull | JBool bool | JNum string | JStr string | JArr "json list" | JObj "(string \<times> json) list"

record Agent =
  ag_Hostname :: string
  ag_PublicKeyPEM :: string
  ag_TokenJTI :: string
  ag_PrevTokenJTI :: string
  ag_EnrolledAt :: gotime
  ag_Suspended :: bool
  ag_Revoked :: bool
  ag_Vars :: "(string, json) fmap"
  ag_LastSeen :: "gotime option"

record AuthorizedKey =
  ak_Hostname :: string
  ak_PublicKeyPEM :: string
  ak_ApprovedAt :: gotime
  ak_ApprovedBy :: string

record EnrollmentToken =
  et_ID :: string
  et_TokenHash :: string
  et_HostnamePattern :: string
  et_Reusable :: bool
  et_UseCount :: int
  et_LastUsedAt :: "gotime option"
  et_CreatedAt :: gotime
  et_ExpiresAt :: "gotime option"
  et_CreatedBy :: string

record PluginToken =
  pt_ID :: string
  pt_TokenHash :: string
  pt_Description :: string
  pt_Role :: string
  pt_AllowedIPs :: string
  pt_AllowedHostnamePattern :: string
  pt_CreatedAt :: gotime
  pt_ExpiresAt :: "gotime option"
  pt_Revoked :: bool
  pt_LastUsedAt :: "gotime option"
  pt_LastUsedIP :: string

record RelayParentToken =
  rp_ID :: string
  rp_JTI :: string
  rp_ParentID :: string
  rp_Description :: string
  rp_CreatedAt :: gotime
  rp_ExpiresAt :: gotime
  rp_RevokedAt :: "gotime option"

record LinkToken =
  lt_ID :: string
  lt_JTI :: string
  lt_Role :: string
  lt_Sub :: string
  lt_Aud :: string
  lt_KID :: string
  lt_CreatedAt :: gotime
  lt_ExpiresAt :: gotime
  lt_RevokedAt :: "gotime option"
  lt_CreatedBy :: string
  lt_Description :: string

record LinkTrust =
  tr_RootID :: string
  tr_CurrentPub :: string
  tr_CurrentKID :: string
  tr_PreviousPub :: string
  tr_PreviousKID :: string
  tr_Seq :: "64 word"

record BlacklistEntry =
  bl_JTI :: string
  bl_Hostname :: string
  bl_RevokedAt :: gotime
  bl_Reason :: string
  bl_ExpiresAt :: gotime

record RelayNode =
  rn_ID :: string
  rn_RelayID :: string
  rn_URLs :: "string list"
  rn_Description :: string
  rn_Mode :: string
  rn_IsProxy :: bool
  rn_CreatedAt :: gotime
  rn_JTI :: string
  rn_TokenExp :: int
  rn_Revoked :: bool
  rn_GroupVars :: "(string, json) fmap"
  rn_TokenHash :: string
  rn_TokenSecret :: string

definition LinkTrust_zero :: LinkTrust where
  "LinkTrust_zero = \<lparr>tr_RootID = [], tr_CurrentPub = [], tr_CurrentKID = [], tr_PreviousPub = [],
     tr_PreviousKID = [], tr_Seq = 0\<rparr>"

definition LinkTrust_IsZero :: "LinkTrust \<Rightarrow> bool" where
  "LinkTrust_IsZero l \<longleftrightarrow> l = LinkTrust_zero"

section \<open>Payload, model and indexes\<close>

record Payload =
  Agents :: "(string, Agent) fmap"
  AuthorizedKeys :: "(string, AuthorizedKey) fmap"
  EnrollmentTokens :: "(string, EnrollmentToken) fmap"
  PluginTokens :: "(string, PluginToken) fmap"
  RelayParentTokens :: "(string, RelayParentToken) fmap"
  Blacklist :: "(string, BlacklistEntry) fmap"
  RelayNodes :: "(string, RelayNode) fmap"
  ServerConfig :: "(string, string) fmap"
  LinkTokens :: "(string, LinkToken) fmap"
  Link_trust :: LinkTrust

definition newPayload :: Payload where
  "newPayload = \<lparr>Agents = fmempty, AuthorizedKeys = fmempty, EnrollmentTokens = fmempty,
     PluginTokens = fmempty, RelayParentTokens = fmempty, Blacklist = fmempty, RelayNodes = fmempty,
     ServerConfig = fmempty, LinkTokens = fmempty, Link_trust = LinkTrust_zero\<rparr>"

text \<open>The Go struct \<open>model\<close> embeds the payload and adds the write counter, the schema and the indexes.\<close>

record model =
  payload :: Payload
  seq :: "64 word"
  schema :: int
  enrollByHash :: "(string, string) fmap"
  pluginByHash :: "(string, string) fmap"
  parentByJTI :: "(string, string) fmap"
  relayByID :: "(string, string) fmap"
  relayByTokHsh :: "(string, string) fmap"
  linkByJTI :: "(string, string) fmap"

text \<open>A model just decoded: its indexes are not built yet.\<close>

definition raw_model :: "Payload \<Rightarrow> 64 word \<Rightarrow> int \<Rightarrow> model" where
  "raw_model p s v = \<lparr>payload = p, seq = s, schema = v, enrollByHash = fmempty, pluginByHash = fmempty,
     parentByJTI = fmempty, relayByID = fmempty, relayByTokHsh = fmempty, linkByJTI = fmempty\<rparr>"

text \<open>
  One loop of \<open>buildIndexes\<close>: the attribute of every entry must be new, and is then recorded.
\<close>

fun index_loop :: "('v \<Rightarrow> string) \<Rightarrow> string list \<Rightarrow> (string, 'v) fmap \<Rightarrow> (string, string) fmap \<Rightarrow> (string, string) fmap res" where
  "index_loop attr [] m idx = Inr idx"
| "index_loop attr (k # ks) m idx =
     (case fmlookup m k of
        None \<Rightarrow> index_loop attr ks m idx
      | Some t \<Rightarrow>
          if fmlookup idx (attr t) \<noteq> None then Inl [ErrDuplicate]
          else index_loop attr ks m (fmupd (attr t) k idx))"

text \<open>The loop over the relay nodes fills two indexes; an empty token hash is not indexed.\<close>

fun relay_index_loop :: "string list \<Rightarrow> (string, RelayNode) fmap \<Rightarrow> (string, string) fmap \<Rightarrow> (string, string) fmap
    \<Rightarrow> ((string, string) fmap \<times> (string, string) fmap) res" where
  "relay_index_loop [] m byID byHsh = Inr (byID, byHsh)"
| "relay_index_loop (k # ks) m byID byHsh =
     (case fmlookup m k of
        None \<Rightarrow> relay_index_loop ks m byID byHsh
      | Some n \<Rightarrow>
          if fmlookup byID (rn_ID n) \<noteq> None then Inl [ErrDuplicate]
          else if rn_TokenHash n = [] then relay_index_loop ks m (fmupd (rn_ID n) k byID) byHsh
          else if fmlookup byHsh (rn_TokenHash n) \<noteq> None then Inl [ErrDuplicate]
          else relay_index_loop ks m (fmupd (rn_ID n) k byID) (fmupd (rn_TokenHash n) k byHsh))"

definition buildIndexes :: "model \<Rightarrow> model res" where
  "buildIndexes m =
     (let p = payload m in
      and_then (index_loop lt_JTI (keys (LinkTokens p)) (LinkTokens p) fmempty) (\<lambda>links.
      and_then (index_loop et_TokenHash (keys (EnrollmentTokens p)) (EnrollmentTokens p) fmempty) (\<lambda>enr.
      and_then (index_loop pt_TokenHash (keys (PluginTokens p)) (PluginTokens p) fmempty) (\<lambda>plg.
      and_then (index_loop rp_JTI (keys (RelayParentTokens p)) (RelayParentTokens p) fmempty) (\<lambda>par.
      and_then (relay_index_loop (keys (RelayNodes p)) (RelayNodes p) fmempty fmempty) (\<lambda>(ids, hsh).
        Inr (m\<lparr>enrollByHash := enr, pluginByHash := plg, parentByJTI := par, relayByID := ids,
               relayByTokHsh := hsh, linkByJTI := links\<rparr>)))))))"

section \<open>Checks\<close>

definition checkLinkToken :: "string \<Rightarrow> LinkToken \<Rightarrow> goerr option" where
  "checkLinkToken k t =
     (if k = [] \<or> lt_ID t \<noteq> k \<or> lt_JTI t = [] \<or> lt_Sub t = [] \<or> lt_Aud t = [] \<or> lt_KID t = [] \<or> lt_ExpiresAt t = 0
      then Some [ErrInvalid]
      else if lt_Role t \<noteq> RoleRelayChild \<and> lt_Role t \<noteq> RoleRelayParent then Some [ErrInvalid]
      else None)"

text \<open>The loop body of \<open>checkLinkTrust\<close>: a public key and its kid go together and the key is 32 bytes.\<close>

definition check_trust_key :: "string \<Rightarrow> string \<Rightarrow> goerr option" where
  "check_trust_key pub kid =
     (if (pub = []) \<noteq> (kid = []) then Some [ErrInvalid]
      else if pub \<noteq> [] \<and>
        (case raw_url_decode pub of None \<Rightarrow> True | Some raw \<Rightarrow> length raw \<noteq> 32) then Some [ErrInvalid]
      else None)"

definition checkLinkTrust :: "LinkTrust \<Rightarrow> goerr option" where
  "checkLinkTrust l =
     err_or (check_trust_key (tr_CurrentPub l) (tr_CurrentKID l))
     (err_or (check_trust_key (tr_PreviousPub l) (tr_PreviousKID l))
     (if tr_CurrentPub l \<noteq> [] \<and> tr_RootID l = [] then Some [ErrInvalid]
      else if tr_CurrentPub l = [] \<and> (tr_PreviousPub l \<noteq> [] \<or> tr_Seq l \<noteq> 0 \<or> tr_RootID l \<noteq> []) then Some [ErrInvalid]
      else if tr_PreviousKID l \<noteq> [] \<and> tr_PreviousKID l = tr_CurrentKID l then Some [ErrInvalid]
      else None))"

definition checkLinks :: "model \<Rightarrow> gotime \<Rightarrow> goerr option" where
  "checkLinks m now =
     err_or (checkLinkTrust (Link_trust (payload m)))
     (let cur = get_or [] (ServerConfig (payload m)) ConfigLinkSigningKeyCurrent;
          prev = get_or [] (ServerConfig (payload m)) ConfigLinkSigningKeyPrevious in
      if prev \<noteq> [] \<and> cur = [] then Some [ErrInvalid]
      else if LinkTokens (payload m) \<noteq> fmempty \<and> cur = [] then Some [ErrInvalid]
      else range_err (LinkTokens (payload m)) (\<lambda>id t.
        if lt_RevokedAt t = None \<or> \<not> lt_ExpiresAt t > now then None
        else if fmlookup (Blacklist (payload m)) (lt_JTI t) = None then Some [ErrInvalid] else None))"

definition checkSchemaOne :: "model \<Rightarrow> goerr option" where
  "checkSchemaOne m =
     (if schema m \<noteq> 1 then None
      else if LinkTokens (payload m) \<noteq> fmempty \<or> \<not> LinkTrust_IsZero (Link_trust (payload m)) \<or>
        get_or [] (ServerConfig (payload m)) ConfigLinkSigningKeyCurrent \<noteq> [] \<or>
        get_or [] (ServerConfig (payload m)) ConfigLinkSigningKeyPrevious \<noteq> [] then Some [ErrInvalid]
      else None)"

definition checkEnrollmentToken :: "string \<Rightarrow> EnrollmentToken \<Rightarrow> goerr option" where
  "checkEnrollmentToken k t =
     (if k = [] \<or> et_ID t \<noteq> k \<or> et_TokenHash t = [] \<or> et_HostnamePattern t = [] then Some [ErrInvalid] else None)"

definition checkPluginToken :: "string \<Rightarrow> PluginToken \<Rightarrow> goerr option" where
  "checkPluginToken k t =
     (if k = [] \<or> pt_ID t \<noteq> k \<or> pt_TokenHash t = [] \<or> pt_Role t = [] then Some [ErrInvalid] else None)"

definition checkRelayParentToken :: "string \<Rightarrow> RelayParentToken \<Rightarrow> goerr option" where
  "checkRelayParentToken k t =
     (if k = [] \<or> rp_ID t \<noteq> k \<or> rp_JTI t = [] \<or> rp_ParentID t = [] then Some [ErrInvalid] else None)"

definition checkBlacklist :: "string \<Rightarrow> BlacklistEntry \<Rightarrow> goerr option" where
  "checkBlacklist k b = (if k = [] \<or> bl_JTI b \<noteq> k \<or> bl_ExpiresAt b = 0 then Some [ErrInvalid] else None)"

definition checkRelayNode :: "string \<Rightarrow> RelayNode \<Rightarrow> goerr option" where
  "checkRelayNode k n =
     (if k = [] \<or> rn_RelayID n \<noteq> k \<or> rn_ID n = [] then Some [ErrInvalid]
      else if rn_Mode n = ModePull then
        (if rn_TokenSecret n \<noteq> [] then Some [ErrInvalid] else None)
      else if rn_Mode n = ModePush then
        (if rn_TokenHash n \<noteq> [] then Some [ErrInvalid]
         else if rn_TokenSecret n = [] then Some [ErrInvalid]
         else if \<not> has_prefix (rn_TokenSecret n) EncPrefix \<or> length (rn_TokenSecret n) = length EncPrefix
           then Some [ErrSecurityInvariant]
         else None)
      else Some [ErrInvalid])"

text \<open>\<open>checkEntries\<close> (the relay nodes have their own loop in \<open>validateAll\<close>).\<close>

definition checkEntries :: "model \<Rightarrow> goerr option" where
  "checkEntries m =
     (let p = payload m in
      err_or (range_err (Agents p) (\<lambda>k a. if k = [] \<or> ag_Hostname a \<noteq> k then Some [ErrInvalid] else None))
      (err_or (range_err (AuthorizedKeys p) (\<lambda>k a. if k = [] \<or> ak_Hostname a \<noteq> k then Some [ErrInvalid] else None))
      (err_or (range_err (EnrollmentTokens p) checkEnrollmentToken)
      (err_or (range_err (PluginTokens p) checkPluginToken)
      (err_or (range_err (RelayParentTokens p) checkRelayParentToken)
      (err_or (range_err (Blacklist p) checkBlacklist)
      (range_err (LinkTokens p) checkLinkToken)))))))"

definition checkRelayJTI :: "model \<Rightarrow> string \<Rightarrow> RelayNode \<Rightarrow> goerr option" where
  "checkRelayJTI m k n =
     (if \<not> rn_Revoked n \<or> rn_JTI n \<noteq> [] then None
      else if \<not> fmpred (\<lambda>_ t. \<not> (lt_Sub t = k \<or> lt_Aud t = k)) (LinkTokens (payload m)) then None
      else Some [ErrInvalid])"

definition checkRevokedBlacklisted :: "model \<Rightarrow> string \<Rightarrow> gotime \<Rightarrow> goerr option" where
  "checkRevokedBlacklisted m relayID now =
     (case fmlookup (RelayNodes (payload m)) relayID of
        None \<Rightarrow> None
      | Some n \<Rightarrow>
          if \<not> rn_Revoked n then None
          else if rn_JTI n = [] then None
          else if rn_TokenExp n > 0 \<and> rn_TokenExp n \<le> unix_sec now then None
          else if fmlookup (Blacklist (payload m)) (rn_JTI n) = None then Some [ErrInvalid]
          else None)"

text \<open>
  \<open>validateAll\<close>, the full check of a loaded file. Its first loop can end with two different errors (an
  invalid node, or a push token in clear), so the order in which Go happens to visit the relay nodes is an
  argument here.
\<close>

definition validateAll :: "string list \<Rightarrow> model \<Rightarrow> gotime \<Rightarrow> model res" where
  "validateAll ord m now =
     check (range_in ord (RelayNodes (payload m)) checkRelayNode)
     (check (checkSchemaOne m)
     (check (checkEntries m)
     (and_then (buildIndexes m) (\<lambda>m'.
      check (checkLinks m' now)
      (check (range_err (RelayNodes (payload m')) (\<lambda>k n.
          err_or (checkRelayJTI m' k n) (checkRevokedBlacklisted m' k now)))
       (Inr m'))))))"


section \<open>Exactness of the rebuilt indexes\<close>

text \<open>
  The loops of \<open>buildIndexes\<close>, with empty attributes skipped throughout: the common shape the lemmas are
  proved on.
\<close>

fun index_skip :: "('v \<Rightarrow> string) \<Rightarrow> string list \<Rightarrow> (string, 'v) fmap \<Rightarrow> (string, string) fmap \<Rightarrow> (string, string) fmap res" where
  "index_skip attr [] m idx = Inr idx"
| "index_skip attr (k # ks) m idx =
     (case fmlookup m k of
        None \<Rightarrow> index_skip attr ks m idx
      | Some t \<Rightarrow>
          if attr t = [] then index_skip attr ks m idx
          else if fmlookup idx (attr t) \<noteq> None then Inl [ErrDuplicate]
          else index_skip attr ks m (fmupd (attr t) k idx))"

lemma index_loop_skip:
  "fmpred (\<lambda>_ v. attr v \<noteq> []) m \<Longrightarrow> index_loop attr ks m idx = index_skip attr ks m idx"
  by (induction ks arbitrary: idx) (auto split: option.splits)

lemma relay_index_loop_Inr:
  assumes "fmpred (\<lambda>_ n. rn_ID n \<noteq> []) m"
  shows "relay_index_loop ks m byID byHsh = Inr (ids, hsh) \<longleftrightarrow>
     index_skip rn_ID ks m byID = Inr ids \<and> index_skip rn_TokenHash ks m byHsh = Inr hsh"
  using assms by (induction ks arbitrary: byID byHsh) (auto split: option.splits)

lemma fmfilter_insert_key:
  "fmlookup m k = Some v \<Longrightarrow> fmfilter (\<lambda>x. x \<in> insert k D) m = fmupd k v (fmfilter (\<lambda>x. x \<in> D) m)"
  by (rule fmap_ext) auto

lemma fmfilter_insert_absent:
  "fmlookup m k = None \<Longrightarrow> fmfilter (\<lambda>x. x \<in> insert k D) m = fmfilter (\<lambda>x. x \<in> D) m"
  by (rule fmap_ext) auto

lemma fmfilter_all_keys: "fset (fmdom m) \<subseteq> D \<Longrightarrow> fmfilter (\<lambda>x. x \<in> D) m = m"
  by (rule fmap_ext) (force intro: fmdomI simp: fmlookup_dom_iff)

lemma index_skip_sound:
  assumes "index_skip attr ks m idx = Inr idx'" "idx_ok attr (fmfilter (\<lambda>x. x \<in> D) m) idx"
    and "distinct ks" "set ks \<inter> D = {}"
  shows "idx_ok attr (fmfilter (\<lambda>x. x \<in> D \<union> set ks) m) idx'"
  using assms
proof (induction ks arbitrary: idx D)
  case Nil
  then show ?case by simp
next
  case (Cons k ks)
  have set_eq: "D \<union> set (k # ks) = insert k D \<union> set ks" by simp
  show ?case
  proof (cases "fmlookup m k")
    case None
    with Cons show ?thesis
      unfolding set_eq by (intro Cons.IH) (simp_all add: fmfilter_insert_absent del: insert_iff)
  next
    case (Some t)
    have new: "fmlookup (fmfilter (\<lambda>x. x \<in> D) m) k = None" using Cons.prems by simp
    show ?thesis
    proof (cases "attr t = []")
      case True
      have "idx_ok attr (fmfilter (\<lambda>x. x \<in> insert k D) m) idx"
        using idx_ok_put_empty [where attr = attr, OF Cons.prems(2) True, of k] new
        by (simp add: fmfilter_insert_key [OF Some] del: insert_iff)
      with Cons Some True show ?thesis
        unfolding set_eq by (intro Cons.IH) simp_all
    next
      case False
      have free: "fmlookup idx (attr t) = None" using Cons.prems(1) Some False by (auto split: if_splits)
      have "idx_ok attr (fmfilter (\<lambda>x. x \<in> insert k D) m) (fmupd (attr t) k idx)"
        using idx_ok_put [where attr = attr and v = t, OF Cons.prems(2), of k] free new False
        by (simp add: fmfilter_insert_key [OF Some] del: insert_iff)
      with Cons Some False free show ?thesis
        unfolding set_eq by (intro Cons.IH) simp_all
    qed
  qed
qed

lemma index_skip_total:
  assumes "idx_ok attr m full" "idx_ok attr (fmfilter (\<lambda>x. x \<in> D) m) idx"
    and "distinct ks" "set ks \<inter> D = {}"
  shows "\<exists>idx'. index_skip attr ks m idx = Inr idx'"
  using assms
proof (induction ks arbitrary: idx D)
  case Nil
  then show ?case by simp
next
  case (Cons k ks)
  show ?case
  proof (cases "fmlookup m k")
    case None
    with Cons.IH [of "insert k D" idx] Cons.prems show ?thesis
      by (simp add: fmfilter_insert_absent del: insert_iff)
  next
    case (Some t)
    have new: "fmlookup (fmfilter (\<lambda>x. x \<in> D) m) k = None" using Cons.prems by simp
    show ?thesis
    proof (cases "attr t = []")
      case True
      have "idx_ok attr (fmfilter (\<lambda>x. x \<in> insert k D) m) idx"
        using idx_ok_put_empty [where attr = attr, OF Cons.prems(2) True, of k] new
        by (simp add: fmfilter_insert_key [OF Some] del: insert_iff)
      with Cons.IH [of "insert k D" idx] Cons.prems Some True show ?thesis by simp
    next
      case False
      have free: "fmlookup idx (attr t) = None"
      proof (rule ccontr)
        assume "fmlookup idx (attr t) \<noteq> None"
        then obtain k' where "fmlookup idx (attr t) = Some k'" by auto
        from idx_okD [OF Cons.prems(2) this] obtain v' where "k' \<in> D" "fmlookup m k' = Some v'" "attr v' = attr t"
          by (auto split: if_splits)
        with idx_ok_inj [OF Cons.prems(1) this(2) Some] False Cons.prems(4) show False by auto
      qed
      have "idx_ok attr (fmfilter (\<lambda>x. x \<in> insert k D) m) (fmupd (attr t) k idx)"
        using idx_ok_put [where attr = attr and v = t, OF Cons.prems(2), of k] free new False
        by (simp add: fmfilter_insert_key [OF Some] del: insert_iff)
      with Cons.IH [of "insert k D" "fmupd (attr t) k idx"] Cons.prems Some False free show ?thesis by simp
    qed
  qed
qed

lemma fmfilter_False [simp]: "fmfilter (\<lambda>x. x \<in> {}) m = fmempty"
  by (rule fmap_ext) simp

lemma index_skip_keys_iff: "index_skip attr (keys m) m fmempty = Inr idx \<longleftrightarrow> idx_ok attr m idx"
proof
  assume "index_skip attr (keys m) m fmempty = Inr idx"
  from index_skip_sound [OF this, of "{}"] show "idx_ok attr m idx"
    by (simp add: fmfilter_all_keys)
next
  assume ok: "idx_ok attr m idx"
  from index_skip_total [OF ok, of "{}" fmempty "keys m"] obtain idx' where
    "index_skip attr (keys m) m fmempty = Inr idx'" by auto
  moreover from index_skip_sound [OF this, of "{}"] have "idx_ok attr m idx'"
    by (simp add: fmfilter_all_keys)
  ultimately show "index_skip attr (keys m) m fmempty = Inr idx"
    using idx_ok_unique [OF ok] by simp
qed

text \<open>All six indexes of a model are exact.\<close>

definition idxs_ok :: "model \<Rightarrow> bool" where
  "idxs_ok m \<longleftrightarrow>
     idx_ok et_TokenHash (EnrollmentTokens (payload m)) (enrollByHash m) \<and>
     idx_ok pt_TokenHash (PluginTokens (payload m)) (pluginByHash m) \<and>
     idx_ok rp_JTI (RelayParentTokens (payload m)) (parentByJTI m) \<and>
     idx_ok rn_ID (RelayNodes (payload m)) (relayByID m) \<and>
     idx_ok rn_TokenHash (RelayNodes (payload m)) (relayByTokHsh m) \<and>
     idx_ok lt_JTI (LinkTokens (payload m)) (linkByJTI m)"

text \<open>Every entry passes its own check (the loops of \<open>checkEntries\<close> and the first of \<open>validateAll\<close>).\<close>

definition entries_ok :: "Payload \<Rightarrow> bool" where
  "entries_ok p \<longleftrightarrow>
     fmpred (\<lambda>k a. k \<noteq> [] \<and> ag_Hostname a = k) (Agents p) \<and>
     fmpred (\<lambda>k a. k \<noteq> [] \<and> ak_Hostname a = k) (AuthorizedKeys p) \<and>
     fmpred (\<lambda>k t. checkEnrollmentToken k t = None) (EnrollmentTokens p) \<and>
     fmpred (\<lambda>k t. checkPluginToken k t = None) (PluginTokens p) \<and>
     fmpred (\<lambda>k t. checkRelayParentToken k t = None) (RelayParentTokens p) \<and>
     fmpred (\<lambda>k b. checkBlacklist k b = None) (Blacklist p) \<and>
     fmpred (\<lambda>k t. checkLinkToken k t = None) (LinkTokens p) \<and>
     fmpred (\<lambda>k n. checkRelayNode k n = None) (RelayNodes p)"

lemma checkEntries_None_iff:
  "checkEntries m = None \<and> fmpred (\<lambda>k n. checkRelayNode k n = None) (RelayNodes (payload m)) \<longleftrightarrow> entries_ok (payload m)"
  by (auto simp: checkEntries_def entries_ok_def Let_def fmpred_iff)

lemmas check_defs = checkEnrollmentToken_def checkPluginToken_def checkRelayParentToken_def
  checkBlacklist_def checkLinkToken_def checkRelayNode_def

lemma entries_ok_attrs:
  assumes "entries_ok p"
  shows "fmpred (\<lambda>_ v. et_TokenHash v \<noteq> []) (EnrollmentTokens p)"
    and "fmpred (\<lambda>_ v. pt_TokenHash v \<noteq> []) (PluginTokens p)"
    and "fmpred (\<lambda>_ v. rp_JTI v \<noteq> []) (RelayParentTokens p)"
    and "fmpred (\<lambda>_ v. lt_JTI v \<noteq> []) (LinkTokens p)"
    and "fmpred (\<lambda>_ v. rn_ID v \<noteq> []) (RelayNodes p)"
  using assms by (auto simp: entries_ok_def fmpred_iff check_defs split: if_splits)

lemma buildIndexes_Inr_iff:
  assumes "entries_ok (payload m)"
  shows "buildIndexes m = Inr m' \<longleftrightarrow>
     idxs_ok m' \<and> payload m' = payload m \<and> seq m' = seq m \<and> schema m' = schema m"
proof -
  note loops = index_loop_skip [OF entries_ok_attrs(1) [OF assms]] index_loop_skip [OF entries_ok_attrs(2) [OF assms]]
    index_loop_skip [OF entries_ok_attrs(3) [OF assms]] index_loop_skip [OF entries_ok_attrs(4) [OF assms]]
  have "buildIndexes m = Inr m' \<longleftrightarrow> (\<exists>links enr plg par ids hsh.
     idx_ok lt_JTI (LinkTokens (payload m)) links \<and> idx_ok et_TokenHash (EnrollmentTokens (payload m)) enr \<and>
     idx_ok pt_TokenHash (PluginTokens (payload m)) plg \<and> idx_ok rp_JTI (RelayParentTokens (payload m)) par \<and>
     idx_ok rn_ID (RelayNodes (payload m)) ids \<and> idx_ok rn_TokenHash (RelayNodes (payload m)) hsh \<and>
     m' = m\<lparr>enrollByHash := enr, pluginByHash := plg, parentByJTI := par, relayByID := ids,
               relayByTokHsh := hsh, linkByJTI := links\<rparr>)"
    by (simp add: buildIndexes_def Let_def and_then_Inr_iff loops index_skip_keys_iff
        relay_index_loop_Inr [OF entries_ok_attrs(5) [OF assms]] split_paired_Ex) blast
  also have "\<dots> \<longleftrightarrow> idxs_ok m' \<and> payload m' = payload m \<and> seq m' = seq m \<and> schema m' = schema m"
    by (cases m'; cases m) (auto simp: idxs_ok_def)
  finally show ?thesis .
qed

section \<open>What a valid model satisfies\<close>

text \<open>
  The invariant of a model that passed \<open>validateAll\<close> at time \<open>now\<close>: exact indexes, valid entries, coherent
  link data, and no revoked relay or link token whose identifier is missing from the blacklist.
\<close>

definition relays_ok :: "gotime \<Rightarrow> model \<Rightarrow> bool" where
  "relays_ok now m \<longleftrightarrow>
     fmpred (\<lambda>k n. checkRelayJTI m k n = None \<and> checkRevokedBlacklisted m k now = None) (RelayNodes (payload m))"

definition model_ok :: "gotime \<Rightarrow> model \<Rightarrow> bool" where
  "model_ok now m \<longleftrightarrow> entries_ok (payload m) \<and> idxs_ok m \<and> checkLinks m now = None \<and> relays_ok now m"

lemma validateAll_Inr_iff:
  assumes "fset (fmdom (RelayNodes (payload m))) \<subseteq> set ord"
  shows "validateAll ord m now = Inr m' \<longleftrightarrow>
     checkSchemaOne m = None \<and> model_ok now m' \<and> payload m' = payload m \<and> seq m' = seq m \<and> schema m' = schema m"
proof -
  have "validateAll ord m now = Inr m' \<longleftrightarrow>
     checkSchemaOne m = None \<and> entries_ok (payload m) \<and> buildIndexes m = Inr m' \<and>
     checkLinks m' now = None \<and> relays_ok now m'"
    using checkEntries_None_iff [of m]
    by (auto simp: validateAll_def range_in_all [OF assms] and_then_Inr_iff relays_ok_def)
  also have "\<dots> \<longleftrightarrow> checkSchemaOne m = None \<and> model_ok now m' \<and> payload m' = payload m \<and> seq m' = seq m \<and> schema m' = schema m"
    using buildIndexes_Inr_iff [of m m'] by (auto simp: model_ok_def)
  finally show ?thesis .
qed

text \<open>Validation builds the indexes and changes nothing else.\<close>

lemma buildIndexes_payload: "buildIndexes m = Inr m' \<Longrightarrow> payload m' = payload m"
  by (auto simp: buildIndexes_def Let_def and_then_Inr_iff split: prod.splits)

lemma validateAll_payload: "validateAll ord m now = Inr m' \<Longrightarrow> payload m' = payload m"
  by (auto simp: validateAll_def and_then_Inr_iff dest: buildIndexes_payload)

text \<open>A valid model is what loading its own payload gives back.\<close>

lemma validateAll_reload:
  assumes ok: "model_ok now m" and v: "schema m \<noteq> 1"
    and ord: "fset (fmdom (RelayNodes (payload m))) \<subseteq> set ord"
  shows "validateAll ord (raw_model (payload m) (seq m) (schema m)) now = Inr m"
  using assms validateAll_Inr_iff [of "raw_model (payload m) (seq m) (schema m)" ord now m]
  by (simp add: raw_model_def checkSchemaOne_def)

text \<open>Time only relaxes the checks: a model valid now stays valid.\<close>

lemma checkLinks_None_iff:
  "checkLinks m now = None \<longleftrightarrow>
     checkLinkTrust (Link_trust (payload m)) = None \<and>
     (get_or [] (ServerConfig (payload m)) ConfigLinkSigningKeyCurrent = [] \<longrightarrow>
        get_or [] (ServerConfig (payload m)) ConfigLinkSigningKeyPrevious = [] \<and> LinkTokens (payload m) = fmempty) \<and>
     fmpred (\<lambda>_ t. lt_RevokedAt t \<noteq> None \<and> lt_ExpiresAt t > now \<longrightarrow>
       fmlookup (Blacklist (payload m)) (lt_JTI t) \<noteq> None) (LinkTokens (payload m))"
  by (auto simp: checkLinks_def Let_def fmpred_iff) fastforce+

lemma checkLinks_later: "checkLinks m now = None \<Longrightarrow> now \<le> now' \<Longrightarrow> checkLinks m now' = None"
  unfolding checkLinks_None_iff fmpred_iff by (meson order_le_less_trans)

lemma checkRevokedBlacklisted_later:
  "checkRevokedBlacklisted m k now = None \<Longrightarrow> now \<le> now' \<Longrightarrow> checkRevokedBlacklisted m k now' = None"
  using unix_sec_mono [of now now']
  by (auto simp: checkRevokedBlacklisted_def split: option.splits if_splits)

lemma model_ok_later: "model_ok now m \<Longrightarrow> now \<le> now' \<Longrightarrow> model_ok now' m"
  by (auto simp: model_ok_def relays_ok_def fmpred_iff intro: checkLinks_later checkRevokedBlacklisted_later)

lemma model_ok_empty: "model_ok now (raw_model newPayload s v)"
  by (simp add: model_ok_def entries_ok_def idxs_ok_def relays_ok_def checkLinks_def checkLinkTrust_def
      check_trust_key_def raw_model_def newPayload_def LinkTrust_zero_def get_or_def Let_def)

section \<open>Properties\<close>

text \<open>
  C40. Loading decides validity exactly, whatever order Go visits the relay nodes in: a decoded payload is
  accepted if and only if the model with exact indexes built from it is valid, and the model it returns is
  then that one (its payload, counter and schema unchanged).
\<close>

theorem validateAll_exact:
  assumes "set ord = fset (fmdom (RelayNodes (payload m)))"
  shows "validateAll ord m now = Inr m' \<longleftrightarrow>
     checkSchemaOne m = None \<and> payload m' = payload m \<and> seq m' = seq m \<and> schema m' = schema m \<and>
     entries_ok (payload m) \<and> idxs_ok m' \<and> checkLinks m' now = None \<and> relays_ok now m'"
  using validateAll_Inr_iff [of m ord now m'] assms by (auto simp: model_ok_def)

definition ex_relay :: "string \<Rightarrow> string \<Rightarrow> string \<Rightarrow> RelayNode" where
  "ex_relay i k sec = \<lparr>rn_ID = i, rn_RelayID = k, rn_URLs = [''wss://x''], rn_Description = [], rn_Mode = ModePush,
     rn_IsProxy = False, rn_CreatedAt = unix_time 0, rn_JTI = [], rn_TokenExp = 0, rn_Revoked = False,
     rn_GroupVars = fmempty, rn_TokenHash = [], rn_TokenSecret = sec\<rparr>"

theorem validateAll_exact_witness:
  "validateAll [''b'', ''a''] (raw_model (newPayload\<lparr>RelayNodes := fmap_of_list
       [(''a'', ex_relay ''1'' ''a'' ''enc:x''), (''b'', ex_relay ''2'' ''b'' ''enc:y'')]\<rparr>) 7 2) 0
   = Inr (raw_model (newPayload\<lparr>RelayNodes := fmap_of_list
       [(''a'', ex_relay ''1'' ''a'' ''enc:x''), (''b'', ex_relay ''2'' ''b'' ''enc:y'')]\<rparr>) 7 2
     \<lparr>relayByID := fmap_of_list [(''1'', ''a''), (''2'', ''b'')]\<rparr>)"
proof (subst validateAll_exact)
  show "set [''b'', ''a''] = fset (fmdom (RelayNodes (payload (raw_model (newPayload\<lparr>RelayNodes := fmap_of_list
       [(''a'', ex_relay ''1'' ''a'' ''enc:x''), (''b'', ex_relay ''2'' ''b'' ''enc:y'')]\<rparr>) 7 2))))"
    by (auto simp: raw_model_def)
qed (auto simp: raw_model_def newPayload_def checkSchemaOne_def entries_ok_def idxs_ok_def idx_ok_def relays_ok_def
    fmpred_iff check_defs checkLinks_def checkLinkTrust_def check_trust_key_def LinkTrust_zero_def get_or_def
    ex_relay_def has_prefix_def checkRelayJTI_def checkRevokedBlacklisted_def split: if_splits)

text \<open>
  Whether a security violation is reported as such depends on the visiting order: with one malformed
  relay node and one push node whose token is in clear, one order ends with the plain validity error (for which
  the loader falls back to the previous file), the other with the security error (for which it never does).
\<close>

theorem security_error_depends_on_order:
  "let m = raw_model (newPayload\<lparr>RelayNodes := fmap_of_list
       [(''a'', ex_relay [] ''a'' ''enc:x''), (''b'', ex_relay ''2'' ''b'' ''clear'')]\<rparr>) 7 2 in
   validateAll [''a'', ''b''] m 0 = Inl [ErrInvalid] \<and> validateAll [''b'', ''a''] m 0 = Inl [ErrSecurityInvariant]"
  by code_simp

end
