(* ===== verification/State_FS.thy ===== *)
theory State_FS
  imports Effects
begin

text \<open>
  The file system of the state engine (\<open>internal/state/fs.go\<close>) and the procedures that replace a file
  atomically (\<open>atomicWrite\<close>, \<open>atomicCreate\<close>, \<open>writeV1BackupData\<close> of \<open>file.go\<close>; \<open>writeBackup\<close> of
  \<open>restore_log.go\<close>).

  STATE\_DIR is a finite map from names to contents with a durability bit (set by \<open>Sync\<close>, carried along by
  link and rename). Every call takes one entry of a list of faults: a fault makes the call fail with any
  error, without effect, except that a failed write leaves a prefix and a failed create may leave the file.
  Hard links are copies: no name that was linked is ever written through again. The write guard has a state of
  its own, of any type.

  A crash. Creations, links, renames and removals reach the disk in the order they were made, but only \<open>SyncDir\<close>
  waits for them: until then a crash may leave any directory since the last one (\<open>disk\<close>). Of a file that was not
  synchronised it may leave any content (\<open>crash_of\<close>). The world also keeps every directory it went through.
\<close>

section \<open>The world\<close>

type_synonym dir = "(string, string \<times> bool) fmap"

datatype fault = Fault goerr nat

record 'g fsw =
  files :: dir
  faults :: "fault option list"
  trace :: "dir list"
  disk :: "dir list"
  gst :: 'g

definition next_fault :: "'g fsw \<Rightarrow> fault option \<times> 'g fsw" where
  "next_fault w = (case faults w of [] \<Rightarrow> (None, w) | f # fs \<Rightarrow> (f, w\<lparr>faults := fs\<rparr>))"

definition set_files :: "dir \<Rightarrow> 'g fsw \<Rightarrow> 'g fsw" where
  "set_files F w = w\<lparr>files := F, trace := trace w @ [F], disk := disk w @ [F]\<rparr>"

text \<open>What a reader finds after a crash that left the names of \<open>F\<close>.\<close>

definition crash_of :: "dir \<Rightarrow> dir \<Rightarrow> bool" where
  "crash_of F D \<longleftrightarrow> fmdom D = fmdom F \<and> (\<forall>n c. fmlookup F n = Some (c, True) \<longrightarrow> fmlookup D n = Some (c, True))"

lemma crash_of_synced: "crash_of F D \<Longrightarrow> fmlookup F n = Some (c, True) \<Longrightarrow> fmlookup D n = Some (c, True)"
  by (simp add: crash_of_def)

lemma crash_of_absent: "crash_of F D \<Longrightarrow> fmlookup F n = None \<Longrightarrow> fmlookup D n = None"
  unfolding crash_of_def by (metis fmdom_notD fmdom_notI)

text \<open>The content under a name survives every crash from now on.\<close>

definition durable :: "string \<Rightarrow> string \<Rightarrow> 'g fsw \<Rightarrow> bool" where
  "durable n bytes w \<longleftrightarrow> fmlookup (files w) n = Some (bytes, True) \<and> (\<forall>F D. F \<in> set (disk w) \<longrightarrow> crash_of F D \<longrightarrow> fmlookup D n = Some (bytes, True))"

section \<open>The calls\<close>

text \<open>A call: with a fault, the effect \<open>onf\<close> and the error; otherwise the call itself.\<close>

definition fs_call :: "(nat \<Rightarrow> dir \<Rightarrow> dir option) \<Rightarrow> (dir \<Rightarrow> ('a \<times> dir option) res) \<Rightarrow> ('g fsw, 'a) prog" where
  "fs_call onf call w =
     (case next_fault w of
        (Some (Fault e k), w') \<Rightarrow> (Inl e, (case onf k (files w') of None \<Rightarrow> w' | Some F \<Rightarrow> set_files F w'))
      | (None, w') \<Rightarrow>
          (case call (files w') of
             Inl e \<Rightarrow> (Inl e, w')
           | Inr (x, None) \<Rightarrow> (Inr x, w')
           | Inr (x, Some F) \<Rightarrow> (Inr x, set_files F w')))"

definition fs_Remove :: "string \<Rightarrow> ('g fsw, unit) prog" where
  "fs_Remove n = fs_call (\<lambda>_ _. None)
     (\<lambda>F. if fmlookup F n = None then Inl [OsErrNotExist] else Inr ((), Some (fmdrop n F)))"

text \<open>\<open>O_CREATE | O_EXCL\<close>; when only the chmod fails, the empty file stays.\<close>

definition fs_CreateExclusive :: "string \<Rightarrow> ('g fsw, unit) prog" where
  "fs_CreateExclusive n = fs_call
     (\<lambda>k F. if k = 0 \<or> fmlookup F n \<noteq> None then None else Some (fmupd n ([], False) F))
     (\<lambda>F. if fmlookup F n \<noteq> None then Inl [OsErrExist] else Inr ((), Some (fmupd n ([], False) F)))"

text \<open>A write through the handle of the file created as \<open>n\<close>: everything, or a prefix and an error.\<close>

definition write_to :: "string \<Rightarrow> string \<Rightarrow> dir \<Rightarrow> dir option" where
  "write_to n bytes F = (case fmlookup F n of None \<Rightarrow> None | Some (c, _) \<Rightarrow> Some (fmupd n (c @ bytes, False) F))"

definition fs_Write :: "string \<Rightarrow> string \<Rightarrow> ('g fsw, unit) prog" where
  "fs_Write n bytes = fs_call (\<lambda>k. write_to n (take k bytes)) (\<lambda>F. Inr ((), write_to n bytes F))"

definition fs_Sync :: "string \<Rightarrow> ('g fsw, unit) prog" where
  "fs_Sync n = fs_call (\<lambda>_ _. None)
     (\<lambda>F. Inr ((), case fmlookup F n of None \<Rightarrow> None | Some (c, _) \<Rightarrow> Some (fmupd n (c, True) F)))"

definition fs_Close :: "('g fsw, unit) prog" where
  "fs_Close = fs_call (\<lambda>_ _. None) (\<lambda>F. Inr ((), None))"

definition fs_Rename :: "string \<Rightarrow> string \<Rightarrow> ('g fsw, unit) prog" where
  "fs_Rename a b = fs_call (\<lambda>_ _. None)
     (\<lambda>F. case fmlookup F a of None \<Rightarrow> Inl [OsErrNotExist] | Some c \<Rightarrow> Inr ((), Some (fmupd b c (fmdrop a F))))"

definition fs_Link :: "string \<Rightarrow> string \<Rightarrow> ('g fsw, unit) prog" where
  "fs_Link a b = fs_call (\<lambda>_ _. None)
     (\<lambda>F. case fmlookup F a of None \<Rightarrow> Inl [OsErrNotExist]
        | Some c \<Rightarrow> if fmlookup F b \<noteq> None then Inl [OsErrExist] else Inr ((), Some (fmupd b c F)))"

text \<open>Once the directory is synchronised, a crash leaves the directory as it is now.\<close>

definition fs_SyncDir :: "('g fsw, unit) prog" where
  "fs_SyncDir w =
     (case next_fault w of
        (Some (Fault e k), w') \<Rightarrow> (Inl e, w')
      | (None, w') \<Rightarrow> (Inr (), w'\<lparr>disk := [files w']\<rparr>))"

definition fs_ReadFileMax :: "string \<Rightarrow> int \<Rightarrow> ('g fsw, string) prog" where
  "fs_ReadFileMax n mx = fs_call (\<lambda>_ _. None)
     (\<lambda>F. case fmlookup F n of None \<Rightarrow> Inl [OsErrNotExist]
        | Some (c, _) \<Rightarrow> if mx > 0 \<and> int (length c) > mx then Inl [ErrTooBig] else Inr (c, None))"

text \<open>\<open>exists\<close>: the answer and the error of the stat, other than \<open>os.ErrNotExist\<close>.\<close>

definition fs_Stat :: "string \<Rightarrow> ('g fsw, unit) prog" where
  "fs_Stat n = fs_call (\<lambda>_ _. None) (\<lambda>F. if fmlookup F n = None then Inl [OsErrNotExist] else Inr ((), None))"

definition fs_exists :: "string \<Rightarrow> ('g fsw, bool \<times> goerr option) prog" where
  "fs_exists n = bindP (attempt (fs_Stat n)) (\<lambda>r. ret (case r of
     Inr _ \<Rightarrow> (True, None) | Inl e \<Rightarrow> if errors_is e OsErrNotExist then (False, None) else (False, Some e)))"

section \<open>Atomic replacement\<close>

abbreviation StateFile :: string where "StateFile \<equiv> ''relay.state''"
abbreviation PrevFile :: string where "PrevFile \<equiv> ''relay.state.prev''"
abbreviation TmpFile :: string where "TmpFile \<equiv> ''relay.state.tmp''"
abbreviation LockFile :: string where "LockFile \<equiv> ''relay.lock''"
abbreviation V1BackupFile :: string where "V1BackupFile \<equiv> ''relay.state.v1.bak''"

text \<open>\<open>if rerr := fs.Remove(tmp); rerr != nil && !errors.Is(rerr, os.ErrNotExist) { return rerr }\<close>.\<close>

definition remove_stale :: "string \<Rightarrow> ('g fsw, unit) prog" where
  "remove_stale n = bindP (attempt (fs_Remove n)) (\<lambda>r. case r of
     Inl e \<Rightarrow> if errors_is e OsErrNotExist then ret () else raise e
   | Inr _ \<Rightarrow> ret ())"

text \<open>Write, fsync and close; the file is closed on an error too.\<close>

definition write_sync_close :: "string \<Rightarrow> string \<Rightarrow> ('g fsw, unit) prog" where
  "write_sync_close n bytes =
     bindP (on_error (fs_Write n bytes) fs_Close) (\<lambda>_.
     bindP (on_error (fs_Sync n) fs_Close) (\<lambda>_.
     fs_Close))"

type_synonym 'g guard = "'g \<Rightarrow> goerr option \<times> 'g"

definition call_guard :: "'g guard option \<Rightarrow> ('g fsw, unit) prog" where
  "call_guard g w =
     (case g of None \<Rightarrow> (Inr (), w)
      | Some f \<Rightarrow> (case f (gst w) of
           (None, h) \<Rightarrow> (Inr (), w\<lparr>gst := h\<rparr>)
         | (Some e, h) \<Rightarrow> (Inl e, w\<lparr>gst := h\<rparr>)))"

definition rotate_prev :: "('g fsw, unit) prog" where
  "rotate_prev =
     bindP (fs_exists StateFile) (\<lambda>(ok, _).
     if \<not> ok then ret ()
     else bindP (remove_stale PrevFile) (\<lambda>_.
          bindP (attempt (fs_Link StateFile PrevFile)) (\<lambda>r. case r of
            Inr _ \<Rightarrow> ret ()
          | Inl _ \<Rightarrow> fs_Rename StateFile PrevFile)))"

definition atomicWrite :: "string \<Rightarrow> bool \<Rightarrow> 'g guard option \<Rightarrow> ('g fsw, unit) prog" where
  "atomicWrite bytes rot beforeRename =
     bindP (remove_stale TmpFile) (\<lambda>_.
     bindP (fs_CreateExclusive TmpFile) (\<lambda>_.
     on_error
       (bindP (write_sync_close TmpFile bytes) (\<lambda>_.
        bindP (call_guard beforeRename) (\<lambda>_.
        bindP (if rot then rotate_prev else ret ()) (\<lambda>_.
        bindP (fs_Rename TmpFile StateFile) (\<lambda>_.
        fs_SyncDir)))))
       (fs_Remove TmpFile)))"

text \<open>\<open>atomicCreate\<close>; the random suffix of the private name is an argument.\<close>

definition atomicCreate :: "string \<Rightarrow> string \<Rightarrow> ('g fsw, unit) prog" where
  "atomicCreate suffix bytes =
     (let tmp = TmpFile @ ''.'' @ suffix in
      bindP (fs_CreateExclusive tmp) (\<lambda>_.
      always
        (bindP (write_sync_close tmp bytes) (\<lambda>_.
         bindP (attempt (fs_Link tmp StateFile)) (\<lambda>r. case r of
           Inl e \<Rightarrow> if errors_is e OsErrExist then raise [ErrAlreadyExists] else raise e
         | Inr _ \<Rightarrow> fs_SyncDir)))
        (fs_Remove tmp)))"

definition writeV1BackupData :: "string \<Rightarrow> ('g fsw, unit) prog" where
  "writeV1BackupData bytes =
     (let tmp = V1BackupFile @ ''.tmp'' in
      bindP (remove_stale tmp) (\<lambda>_.
      bindP (fs_CreateExclusive tmp) (\<lambda>_.
      on_error
        (bindP (write_sync_close tmp bytes) (\<lambda>_.
         bindP (fs_Rename tmp V1BackupFile) (\<lambda>_.
         fs_SyncDir)))
        (fs_Remove tmp))))"

definition writeV1Backup :: "string \<Rightarrow> int \<Rightarrow> ('g fsw, unit) prog" where
  "writeV1Backup src mx = bindP (fs_ReadFileMax src mx) writeV1BackupData"

text \<open>\<open>writeBackup\<close> and \<open>writeUniqueBackup\<close>: exclusive creation decides, the suffix counts up.\<close>

definition writeBackup :: "string \<Rightarrow> string \<Rightarrow> ('g fsw, unit) prog" where
  "writeBackup n bytes = bindP (fs_CreateExclusive n) (\<lambda>_. write_sync_close n bytes)"

definition backup_name :: "string \<Rightarrow> string \<Rightarrow> string \<Rightarrow> nat \<Rightarrow> string" where
  "backup_name prefix stamp suffix i = prefix @ stamp @ (if i > 0 then ''.'' @ itoa i else []) @ suffix"

fun backup_loop :: "string \<Rightarrow> string \<Rightarrow> string \<Rightarrow> string \<Rightarrow> goerr \<Rightarrow> nat \<Rightarrow> nat \<Rightarrow> ('g fsw, string) prog" where
  "backup_loop prefix stamp suffix bytes lastErr i 0 = raise lastErr"
| "backup_loop prefix stamp suffix bytes lastErr i (Suc left) =
     bindP (attempt (writeBackup (backup_name prefix stamp suffix i) bytes)) (\<lambda>r. case r of
       Inr _ \<Rightarrow> ret (backup_name prefix stamp suffix i)
     | Inl e \<Rightarrow> if errors_is e OsErrExist then backup_loop prefix stamp suffix bytes e (Suc i) left else raise e)"

definition maxBackupAttempts :: nat where "maxBackupAttempts = 1000"

definition writeUniqueBackup :: "string \<Rightarrow> string \<Rightarrow> string \<Rightarrow> string \<Rightarrow> ('g fsw, string) prog" where
  "writeUniqueBackup prefix stamp suffix bytes = backup_loop prefix stamp suffix bytes [] 0 maxBackupAttempts"

section \<open>Reasoning about the calls\<close>

text \<open>
  An assertion about the current directory, while every directory passed through satisfies \<open>K\<close> and the
  state of the guard satisfies \<open>G\<close>.
\<close>

definition here :: "('g \<Rightarrow> bool) \<Rightarrow> (dir \<Rightarrow> bool) \<Rightarrow> (dir \<Rightarrow> bool) \<Rightarrow> 'g fsw \<Rightarrow> bool" where
  "here G K A w \<longleftrightarrow> A (files w) \<and> list_all K (trace w) \<and> G (gst w)"

lemma here_mono: "here G K A w \<Longrightarrow> (\<And>F. A F \<Longrightarrow> B F) \<Longrightarrow> here G K B w"
  by (simp add: here_def)

lemma next_fault_files [simp]:
  "next_fault w = (f, w') \<Longrightarrow> files w' = files w" "next_fault w = (f, w') \<Longrightarrow> trace w' = trace w"
  "next_fault w = (f, w') \<Longrightarrow> gst w' = gst w"
  by (auto simp: next_fault_def split: list.splits)

lemma triple_fs_call:
  assumes "\<And>F k F'. A F \<Longrightarrow> onf k F = Some F' \<Longrightarrow> K F' \<and> E F'"
    and "\<And>F. A F \<Longrightarrow> E F"
    and "\<And>F x. A F \<Longrightarrow> call F = Inr (x, None) \<Longrightarrow> Q x F"
    and "\<And>F x F'. A F \<Longrightarrow> call F = Inr (x, Some F') \<Longrightarrow> K F' \<and> Q x F'"
  shows "triple (here G K A) (fs_call onf call) (\<lambda>x. here G K (Q x)) (\<lambda>_. here G K E)"
proof (rule tripleI)
  fix w assume w: "here G K A w"
  obtain f w' where f: "next_fault w = (f, w')" by (cases "next_fault w")
  have w': "A (files w')" "list_all K (trace w')" "G (gst w')" using w f by (simp_all add: here_def)
  show "case fs_call onf call w of (Inr x, s') \<Rightarrow> here G K (Q x) s' | (Inl e, s') \<Rightarrow> here G K E s'"
    using w' assms f
    by (auto simp: fs_call_def here_def set_files_def split: option.split sum.split fault.split prod.split)
qed

text \<open>The private name: nothing that is done to it touches another file.\<close>

definition others :: "string \<Rightarrow> dir \<Rightarrow> dir \<Rightarrow> bool" where
  "others n F0 F \<longleftrightarrow> fmdrop n F = fmdrop n F0"

lemma others_refl [simp]: "others n F F"
  by (simp add: others_def)

lemma others_upd [simp]: "others n F0 (fmupd n c F) \<longleftrightarrow> others n F0 F"
  by (simp add: others_def)

lemma others_drop [simp]: "others n F0 (fmdrop n F) \<longleftrightarrow> others n F0 F"
  by (simp add: others_def)

lemma others_lookup: "others n F0 F \<Longrightarrow> k \<noteq> n \<Longrightarrow> fmlookup F k = fmlookup F0 k"
  unfolding others_def by (metis fmlookup_drop)

lemma triple_private:
  assumes K: "\<And>F. others n F0 F \<Longrightarrow> K F"
  shows "triple (here G K (others n F0)) (fs_Remove n) (\<lambda>_. here G K (others n F0)) (\<lambda>_. here G K (others n F0))"
    and "triple (here G K (others n F0)) (remove_stale n) (\<lambda>_. here G K (others n F0)) (\<lambda>_. here G K (others n F0))"
    and "triple (here G K (others n F0)) (fs_CreateExclusive n)
          (\<lambda>_. here G K (\<lambda>F. others n F0 F \<and> fmlookup F n = Some ([], False))) (\<lambda>_. here G K (others n F0))"
proof -
  show rm: "triple (here G K (others n F0)) (fs_Remove n) (\<lambda>_. here G K (others n F0)) (\<lambda>_. here G K (others n F0))"
    unfolding fs_Remove_def by (rule triple_fs_call) (auto intro: K split: if_splits)
  show "triple (here G K (others n F0)) (remove_stale n) (\<lambda>_. here G K (others n F0)) (\<lambda>_. here G K (others n F0))"
    unfolding remove_stale_def
    by (rule triple_bind [where R = "\<lambda>_. here G K (others n F0)"], rule triple_attempt, rule rm)
      (auto intro!: triple_case_res triple_if triple_ret triple_raise)
  show "triple (here G K (others n F0)) (fs_CreateExclusive n)
          (\<lambda>_. here G K (\<lambda>F. others n F0 F \<and> fmlookup F n = Some ([], False))) (\<lambda>_. here G K (others n F0))"
    unfolding fs_CreateExclusive_def by (rule triple_fs_call) (auto intro: K split: if_splits)
qed

text \<open>Between the creation of the private file and its publication.\<close>

definition private_has :: "string \<Rightarrow> dir \<Rightarrow> string \<times> bool \<Rightarrow> dir \<Rightarrow> bool" where
  "private_has n F0 c F \<longleftrightarrow> others n F0 F \<and> fmlookup F n = Some c"

lemma private_has_others: "private_has n F0 c F \<Longrightarrow> others n F0 F"
  by (simp add: private_has_def)

lemma triple_create:
  assumes "\<And>F. others n F0 F \<Longrightarrow> K F"
  shows "triple (here G K (others n F0)) (fs_CreateExclusive n) (\<lambda>_. here G K (private_has n F0 ([], False)))
    (\<lambda>_. here G K (others n F0))"
  using triple_private(3) [OF assms] by (simp add: private_has_def [abs_def])

lemma triple_Close: "triple (here G K A) fs_Close (\<lambda>_. here G K A) (\<lambda>_. here G K A)"
  unfolding fs_Close_def by (rule triple_fs_call) auto

lemma triple_SyncDir: "triple (here G K A) fs_SyncDir (\<lambda>_. here G K A) (\<lambda>_. here G K A)"
  by (rule tripleI) (auto simp: fs_SyncDir_def here_def split: option.split fault.split prod.split)

lemma triple_Write:
  assumes "\<And>F. others n F0 F \<Longrightarrow> K F"
  shows "triple (here G K (private_has n F0 (c, d))) (fs_Write n bytes)
    (\<lambda>_. here G K (private_has n F0 (c @ bytes, False))) (\<lambda>_. here G K (others n F0))"
  unfolding fs_Write_def
  by (rule triple_fs_call) (auto simp: private_has_def write_to_def intro: assms split: option.splits)

lemma triple_Sync:
  assumes "\<And>F. others n F0 F \<Longrightarrow> K F"
  shows "triple (here G K (private_has n F0 (c, d))) (fs_Sync n)
    (\<lambda>_. here G K (private_has n F0 (c, True))) (\<lambda>_. here G K (others n F0))"
  unfolding fs_Sync_def
  by (rule triple_fs_call) (auto simp: private_has_def intro: assms split: option.splits)

lemma triple_write_sync_close:
  assumes K: "\<And>F. others n F0 F \<Longrightarrow> K F"
  shows "triple (here G K (private_has n F0 ([], False))) (write_sync_close n bytes)
    (\<lambda>_. here G K (private_has n F0 (bytes, True))) (\<lambda>_. here G K (others n F0))"
  unfolding write_sync_close_def
proof (rule triple_bind)
  show "triple (here G K (private_has n F0 ([], False))) (on_error (fs_Write n bytes) fs_Close)
    (\<lambda>_. here G K (private_has n F0 ([] @ bytes, False))) (\<lambda>_. here G K (others n F0))"
    by (rule triple_on_error [OF triple_Write [OF K] triple_Close])
  show "triple (here G K (private_has n F0 ([] @ bytes, False)))
      (bindP (on_error (fs_Sync n) fs_Close) (\<lambda>_. fs_Close))
      (\<lambda>_. here G K (private_has n F0 (bytes, True))) (\<lambda>_. here G K (others n F0))" for x :: unit
  proof (rule triple_bind)
    show "triple (here G K (private_has n F0 ([] @ bytes, False))) (on_error (fs_Sync n) fs_Close)
      (\<lambda>_. here G K (private_has n F0 (bytes, True))) (\<lambda>_. here G K (others n F0))"
      by (rule triple_on_error [OF _ triple_Close]) (use triple_Sync [OF K] in \<open>simp\<close>)
    show "triple (here G K (private_has n F0 (bytes, True))) fs_Close
      (\<lambda>_. here G K (private_has n F0 (bytes, True))) (\<lambda>_. here G K (others n F0))" for x :: unit
      by (rule triple_conseq [OF triple_Close [where A = "private_has n F0 (bytes, True)"]])
        (auto elim: here_mono intro: private_has_others)
  qed
qed

lemma triple_guard:
  "(\<And>h. G h \<Longrightarrow> G' (snd (f h))) \<Longrightarrow> triple (here G K A) (call_guard (Some f)) (\<lambda>_. here G' K A) (\<lambda>_. here G' K A)"
  unfolding triple_def call_guard_def here_def
  by (auto split: option.split prod.split; metis snd_conv)

text \<open>A guard of which nothing is known.\<close>

definition any_guard :: "'g \<Rightarrow> bool" where
  "any_guard h \<longleftrightarrow> True"

lemma triple_any_guard: "triple (here any_guard K A) (call_guard g) (\<lambda>_. here any_guard K A) (\<lambda>_. here any_guard K A)"
  by (cases g) (simp_all add: triple_guard any_guard_def, simp add: triple_def call_guard_def)

text \<open>A guard that refuses in its current state.\<close>

lemma triple_refusing_guard:
  assumes "f h0 = (Some e, h)"
  shows "triple (here (\<lambda>h. h = h0) K A) (call_guard (Some f)) (\<lambda>_ _. False) (\<lambda>x. here (\<lambda>h'. h' = h \<and> x = e) K A)"
  using assms by (intro tripleI) (auto simp: call_guard_def here_def)

section \<open>Crash safety of the replacement\<close>

text \<open>
  The directories a replacement of \<open>F0\<close> by \<open>bytes\<close> may leave: relay.state is the old entry or the complete,
  durable new one; or it is missing and relay.state.prev is the old entry (links unsupported).
\<close>

definition crash_ok :: "dir \<Rightarrow> string \<Rightarrow> dir \<Rightarrow> bool" where
  "crash_ok F0 bytes F \<longleftrightarrow>
     fmlookup F StateFile = fmlookup F0 StateFile \<or> fmlookup F StateFile = Some (bytes, True) \<or>
     (fmlookup F StateFile = None \<and> fmlookup F PrevFile = fmlookup F0 StateFile)"

text \<open>After the rotation, and the directories in which it can fail.\<close>

definition rotated :: "dir \<Rightarrow> string \<Rightarrow> dir \<Rightarrow> bool" where
  "rotated F0 bytes F \<longleftrightarrow> fmlookup F TmpFile = Some (bytes, True) \<and>
     ((fmlookup F StateFile = fmlookup F0 StateFile \<and> fmlookup F PrevFile \<in> {fmlookup F0 PrevFile, fmlookup F0 StateFile}) \<or>
      (fmlookup F StateFile = None \<and> fmlookup F PrevFile = fmlookup F0 StateFile))"

definition rotating :: "dir \<Rightarrow> dir \<Rightarrow> bool" where
  "rotating F0 F \<longleftrightarrow>
     (fmlookup F StateFile = fmlookup F0 StateFile \<and> fmlookup F PrevFile \<in> {fmlookup F0 PrevFile, None, fmlookup F0 StateFile}) \<or>
     (fmlookup F StateFile = None \<and> fmlookup F PrevFile = fmlookup F0 StateFile)"

lemma crash_ok_others [intro]: "others TmpFile F0 F \<Longrightarrow> crash_ok F0 bytes F"
  using others_lookup [of TmpFile F0 F StateFile] by (simp add: crash_ok_def)

lemma crash_ok_rotating: "rotating F0 F \<Longrightarrow> crash_ok F0 bytes F"
  by (auto simp: crash_ok_def rotating_def)

lemma others_rotating: "others TmpFile F0 F \<Longrightarrow> rotating F0 F"
  using others_lookup [of TmpFile F0 F StateFile] others_lookup [of TmpFile F0 F PrevFile] by (simp add: rotating_def)

lemma triple_exists:
  "triple (here G K A) (fs_exists n) (\<lambda>(ok, _). here G K (\<lambda>F. A F \<and> (ok \<longrightarrow> fmlookup F n \<noteq> None))) (\<lambda>_. here G K A)"
  unfolding fs_exists_def
proof (rule triple_bind [where R = "\<lambda>r. here G K (\<lambda>F. A F \<and> (\<forall>x. r = Inr x \<longrightarrow> fmlookup F n \<noteq> None))"])
  show "triple (here G K A) (attempt (fs_Stat n)) (\<lambda>r. here G K (\<lambda>F. A F \<and> (\<forall>x. r = Inr x \<longrightarrow> fmlookup F n \<noteq> None))) (\<lambda>_. here G K A)"
    unfolding fs_Stat_def
    by (rule triple_attempt, rule triple_conseq [OF triple_fs_call [where Q = "\<lambda>_ F. A F \<and> fmlookup F n \<noteq> None" and E = A]])
      (auto split: if_splits elim: here_mono)
qed (auto intro!: triple_ret simp: here_def split: sum.splits)

lemma triple_rotate:
  assumes crash: "\<And>F. crash_ok F0 bytes F \<Longrightarrow> K F"
  shows "triple (here G K (private_has TmpFile F0 (bytes, True))) rotate_prev
     (\<lambda>_. here G K (rotated F0 bytes)) (\<lambda>_. here G K (rotating F0))"
  (is "triple (here G ?K ?A) _ _ _")
proof -
  have lookups: "fmlookup F StateFile = fmlookup F0 StateFile" "fmlookup F PrevFile = fmlookup F0 PrevFile"
    "fmlookup F TmpFile = Some (bytes, True)" if "?A F" for F
    using that others_lookup [of TmpFile F0 F] by (simp_all add: private_has_def)
  let ?B = "\<lambda>F. ?A F \<and> fmlookup F StateFile \<noteq> None"
  let ?C = "\<lambda>F. fmlookup F TmpFile = Some (bytes, True) \<and> fmlookup F StateFile = fmlookup F0 StateFile \<and>
     fmlookup F StateFile \<noteq> None \<and> fmlookup F PrevFile \<in> {fmlookup F0 PrevFile, None}"
  have rm: "triple (here G ?K ?B) (remove_stale PrevFile) (\<lambda>_. here G ?K ?C) (\<lambda>_. here G ?K (rotating F0))"
    unfolding remove_stale_def
  proof (rule triple_bind [where R = "\<lambda>_. here G ?K ?C"])
    show "triple (here G ?K ?B) (attempt (fs_Remove PrevFile)) (\<lambda>_. here G ?K ?C) (\<lambda>_. here G ?K (rotating F0))"
      unfolding fs_Remove_def
      by (rule triple_attempt, rule triple_fs_call) (auto intro!: crash simp: lookups crash_ok_def split: if_splits)
    show "triple (here G ?K ?C) (case r of Inl e \<Rightarrow> if errors_is e OsErrNotExist then ret () else raise e | Inr x \<Rightarrow> ret ())
        (\<lambda>_. here G ?K ?C) (\<lambda>_. here G ?K (rotating F0))" for r :: "unit res"
      by (auto intro!: triple_case_res triple_if triple_ret triple_raise elim: here_mono simp: rotating_def)
  qed
  have link: "triple (here G ?K ?C) (attempt (fs_Link StateFile PrevFile))
      (\<lambda>r. here G ?K (\<lambda>F. case r of Inr _ \<Rightarrow> rotated F0 bytes F | Inl _ \<Rightarrow> ?C F)) (\<lambda>_. here G ?K (rotating F0))"
    unfolding fs_Link_def
    by (rule triple_attempt, simp, rule triple_fs_call)
      (auto intro!: crash simp: rotated_def crash_ok_def split: option.splits if_splits, metis+)
  have ren: "triple (here G ?K ?C) (fs_Rename StateFile PrevFile) (\<lambda>_. here G ?K (rotated F0 bytes)) (\<lambda>_. here G ?K (rotating F0))"
    unfolding fs_Rename_def
    by (rule triple_fs_call) (auto intro!: crash simp: rotated_def rotating_def crash_ok_def split: option.splits)
  have tail: "triple (here G ?K ?B) (bindP (remove_stale PrevFile) (\<lambda>_.
        bindP (attempt (fs_Link StateFile PrevFile)) (\<lambda>r. case r of Inr _ \<Rightarrow> ret () | Inl _ \<Rightarrow> fs_Rename StateFile PrevFile)))
      (\<lambda>_. here G ?K (rotated F0 bytes)) (\<lambda>_. here G ?K (rotating F0))"
  proof (rule triple_bind [OF rm], rule triple_bind [OF link])
    show "triple (here G ?K (\<lambda>F. case r of Inr _ \<Rightarrow> rotated F0 bytes F | Inl _ \<Rightarrow> ?C F))
        (case r of Inr _ \<Rightarrow> ret () | Inl _ \<Rightarrow> fs_Rename StateFile PrevFile)
        (\<lambda>_. here G ?K (rotated F0 bytes)) (\<lambda>_. here G ?K (rotating F0))" for r :: "unit res"
      using ren by (cases r) (simp_all add: triple_ret)
  qed
  show ?thesis
    unfolding rotate_prev_def
  proof (rule triple_bind [where R = "\<lambda>(ok, _). here G ?K (\<lambda>F. ?A F \<and> (ok \<longrightarrow> fmlookup F StateFile \<noteq> None))"])
    show "triple (here G ?K ?A) (fs_exists StateFile)
        (\<lambda>(ok, _). here G ?K (\<lambda>F. ?A F \<and> (ok \<longrightarrow> fmlookup F StateFile \<noteq> None))) (\<lambda>_. here G ?K (rotating F0))"
      by (rule triple_conseq [OF triple_exists [where A = ?A]])
        (auto elim!: here_mono dest!: private_has_others others_rotating)
    show "triple (case x of (ok, _) \<Rightarrow> here G ?K (\<lambda>F. ?A F \<and> (ok \<longrightarrow> fmlookup F StateFile \<noteq> None)))
        (case x of (ok, _) \<Rightarrow> if \<not> ok then ret () else bindP (remove_stale PrevFile) (\<lambda>_.
          bindP (attempt (fs_Link StateFile PrevFile)) (\<lambda>r. case r of Inr _ \<Rightarrow> ret () | Inl _ \<Rightarrow> fs_Rename StateFile PrevFile)))
        (\<lambda>_. here G ?K (rotated F0 bytes)) (\<lambda>_. here G ?K (rotating F0))" for x :: "bool \<times> goerr option"
    proof (cases x)
      case (Pair ok b)
      show ?thesis
        unfolding Pair prod.case
        by (rule triple_if, rule triple_ret, (auto simp: here_def lookups rotated_def)[1], rule triple_conseq [OF tail])
          (auto elim!: here_mono)
    qed
  qed
qed

text \<open>What the replacement guarantees, for any faults and any guard.\<close>

definition replaced :: "dir \<Rightarrow> string \<Rightarrow> bool \<Rightarrow> dir \<Rightarrow> bool" where
  "replaced F0 bytes rot F \<longleftrightarrow> fmlookup F StateFile = Some (bytes, True) \<and>
     (fmlookup F PrevFile = fmlookup F0 PrevFile \<or> rot \<and> fmlookup F PrevFile = fmlookup F0 StateFile)"

definition not_replaced :: "dir \<Rightarrow> string \<Rightarrow> bool \<Rightarrow> dir \<Rightarrow> bool" where
  "not_replaced F0 bytes rot F \<longleftrightarrow> crash_ok F0 bytes F \<and>
     (\<not> rot \<longrightarrow> fmlookup F PrevFile = fmlookup F0 PrevFile) \<and>
     fmlookup F PrevFile \<in> {fmlookup F0 PrevFile, None, fmlookup F0 StateFile}"

lemma triple_publish:
  assumes crash: "\<And>F. crash_ok F0 bytes F \<Longrightarrow> K F"
    and A: "\<And>F. A F \<Longrightarrow> rotated F0 bytes F \<and> (\<not> rot \<longrightarrow> fmlookup F PrevFile = fmlookup F0 PrevFile)"
  shows "triple (here G K A) (bindP (fs_Rename TmpFile StateFile) (\<lambda>_. fs_SyncDir))
     (\<lambda>_. here G K (replaced F0 bytes rot)) (\<lambda>_. here G K (not_replaced F0 bytes rot))"
proof (rule triple_bind)
  show "triple (here G K A) (fs_Rename TmpFile StateFile)
      (\<lambda>_. here G K (replaced F0 bytes rot)) (\<lambda>_. here G K (not_replaced F0 bytes rot))"
    unfolding fs_Rename_def
    by (rule triple_fs_call; (drule A)?)
      (auto intro!: crash simp: rotated_def replaced_def not_replaced_def crash_ok_def split: option.splits)
  show "triple (here G K (replaced F0 bytes rot)) fs_SyncDir
      (\<lambda>_. here G K (replaced F0 bytes rot)) (\<lambda>_. here G K (not_replaced F0 bytes rot))"
    for x :: unit
    by (rule triple_conseq [OF triple_SyncDir [where A = "replaced F0 bytes rot"]])
      (auto elim!: here_mono simp: replaced_def not_replaced_def crash_ok_def)
qed

lemma others_not_replaced: "others TmpFile F0 F \<Longrightarrow> not_replaced F0 bytes rot F"
  using others_lookup [of TmpFile F0 F PrevFile] by (auto simp: not_replaced_def)

lemma rotating_not_replaced: "rotating F0 F \<Longrightarrow> not_replaced F0 bytes True F"
  using crash_ok_rotating [of F0 F] by (auto simp: not_replaced_def rotating_def)

lemma triple_remove_tmp:
  assumes crash: "\<And>F. crash_ok F0 bytes F \<Longrightarrow> K F"
  shows "triple (here G K (not_replaced F0 bytes rot)) (fs_Remove TmpFile)
     (\<lambda>_. here G K (not_replaced F0 bytes rot)) (\<lambda>_. here G K (not_replaced F0 bytes rot))"
  unfolding fs_Remove_def
  by (rule triple_fs_call) (auto intro!: crash simp: not_replaced_def crash_ok_def split: if_splits)

lemma triple_atomicWrite:
  assumes crash: "\<And>F. crash_ok F0 bytes F \<Longrightarrow> K F"
  shows "triple (here any_guard K (\<lambda>F. F = F0)) (atomicWrite bytes rot g)
     (\<lambda>_. here any_guard K (replaced F0 bytes rot)) (\<lambda>_. here any_guard K (not_replaced F0 bytes rot))"
  (is "triple (here any_guard ?K _) _ (\<lambda>_. ?Q) (\<lambda>_. ?E)")
proof -
  have K: "\<And>F. others TmpFile F0 F \<Longrightarrow> ?K F" by (rule crash [OF crash_ok_others])
  have drop: "triple P p R (\<lambda>_. here any_guard ?K (others TmpFile F0)) \<Longrightarrow> triple P p R (\<lambda>_. ?E)"
    for P and p :: "('a fsw, 'b) prog" and R
    by (erule triple_conseq) (auto elim: here_mono intro: others_not_replaced)
  have rot: "triple (here any_guard ?K (private_has TmpFile F0 (bytes, True))) (if rot then rotate_prev else ret ())
      (\<lambda>_. here any_guard ?K (\<lambda>F. rotated F0 bytes F \<and> (\<not> rot \<longrightarrow> fmlookup F PrevFile = fmlookup F0 PrevFile))) (\<lambda>_. ?E)"
  proof (rule triple_if)
    assume rot
    then show "triple (here any_guard ?K (private_has TmpFile F0 (bytes, True))) rotate_prev
        (\<lambda>_. here any_guard ?K (\<lambda>F. rotated F0 bytes F \<and> (\<not> rot \<longrightarrow> fmlookup F PrevFile = fmlookup F0 PrevFile))) (\<lambda>_. ?E)"
      by (intro triple_conseq [OF triple_rotate [OF crash]]) (auto elim!: here_mono intro: rotating_not_replaced)
  next
    assume "\<not> rot"
    show "triple (here any_guard ?K (private_has TmpFile F0 (bytes, True))) (ret ())
        (\<lambda>_. here any_guard ?K (\<lambda>F. rotated F0 bytes F \<and> (\<not> rot \<longrightarrow> fmlookup F PrevFile = fmlookup F0 PrevFile))) (\<lambda>_. ?E)"
      by (rule triple_ret) (auto elim!: here_mono simp: rotated_def private_has_def others_lookup)
  qed
  have guarded: "triple (here any_guard ?K (private_has TmpFile F0 (bytes, True))) (call_guard g)
      (\<lambda>_. here any_guard ?K (private_has TmpFile F0 (bytes, True))) (\<lambda>_. ?E)"
    by (rule drop, rule triple_conseq [OF triple_any_guard [where A = "private_has TmpFile F0 (bytes, True)"]])
      (auto elim: here_mono intro: private_has_others)
  have body: "triple (here any_guard ?K (private_has TmpFile F0 ([], False)))
      (bindP (write_sync_close TmpFile bytes) (\<lambda>_. bindP (call_guard g) (\<lambda>_.
        bindP (if rot then rotate_prev else ret ()) (\<lambda>_. bindP (fs_Rename TmpFile StateFile) (\<lambda>_. fs_SyncDir)))))
      (\<lambda>_. ?Q) (\<lambda>_. ?E)"
    by (rule triple_bind [OF drop [OF triple_write_sync_close [OF K]]], assumption,
        rule triple_bind [OF guarded], rule triple_bind [OF rot], rule triple_publish [OF crash]) simp_all
  show ?thesis
    unfolding atomicWrite_def
  proof (rule triple_bind)
    show "triple (here any_guard ?K (\<lambda>F. F = F0)) (remove_stale TmpFile) (\<lambda>_. here any_guard ?K (others TmpFile F0)) (\<lambda>_. ?E)"
      by (rule drop, rule triple_conseq [OF triple_private(2) [OF K]]) (auto elim: here_mono)
    show "triple (here any_guard ?K (others TmpFile F0)) (bindP (fs_CreateExclusive TmpFile) (\<lambda>_. on_error
        (bindP (write_sync_close TmpFile bytes) (\<lambda>_. bindP (call_guard g) (\<lambda>_.
        bindP (if rot then rotate_prev else ret ()) (\<lambda>_. bindP (fs_Rename TmpFile StateFile) (\<lambda>_. fs_SyncDir)))))
        (fs_Remove TmpFile))) (\<lambda>_. ?Q) (\<lambda>_. ?E)" for x :: unit
      by (rule triple_bind [OF drop [OF triple_private(3) [OF K]]], assumption,
          rule triple_on_error [OF _ triple_remove_tmp [OF crash]], rule body [unfolded private_has_def])
  qed
qed

text \<open>The outcome of a replacement from any world.\<close>

lemma atomicWrite_outcome:
  "case atomicWrite bytes rot g w of (Inr _, w') \<Rightarrow> replaced (files w) bytes rot (files w')
     | (Inl _, w') \<Rightarrow> not_replaced (files w) bytes rot (files w')"
proof -
  have "here any_guard (\<lambda>_. True) (\<lambda>F. F = files w) w" by (simp add: here_def any_guard_def list_all_iff)
  from tripleD [OF triple_atomicWrite this, of bytes rot g] show ?thesis
    by (auto simp: here_def split: prod.splits sum.splits)
qed

text \<open>Programs that end with a synchronised directory.\<close>

definition ends_synced :: "('g fsw, 'a) prog \<Rightarrow> bool" where
  "ends_synced p \<longleftrightarrow> (\<forall>w x w'. p w = (Inr x, w') \<longrightarrow> disk w' = [files w'])"

lemma ends_synced_SyncDir: "ends_synced fs_SyncDir"
  by (auto simp: ends_synced_def fs_SyncDir_def split: option.splits fault.splits prod.splits)

lemma ends_synced_bind: "(\<And>x. ends_synced (k x)) \<Longrightarrow> ends_synced (bindP p k)"
  unfolding ends_synced_def bindP_def by (fastforce split: prod.splits sum.splits)

lemma ends_synced_on_error: "ends_synced p \<Longrightarrow> ends_synced (on_error p h)"
  unfolding ends_synced_def on_error_def by (fastforce split: prod.splits sum.splits)

lemma ends_synced_atomicWrite: "ends_synced (atomicWrite bytes rot g)"
  unfolding atomicWrite_def
  by (intro ends_synced_bind ends_synced_on_error ends_synced_SyncDir)

lemma synced_durable: "disk w = [files w] \<Longrightarrow> fmlookup (files w) n = Some (bytes, True) \<Longrightarrow> durable n bytes w"
  by (auto simp: durable_def dest: crash_of_synced)

lemma atomicWrite_durable:
  assumes "atomicWrite bytes rot g w = (Inr x, w')"
  shows "durable StateFile bytes w'"
proof (rule synced_durable)
  show "disk w' = [files w']" using ends_synced_atomicWrite assms unfolding ends_synced_def by blast
  show "fmlookup (files w') StateFile = Some (bytes, True)"
    using atomicWrite_outcome [where bytes = bytes and rot = rot and g = g and w = w] assms by (simp add: replaced_def)
qed

lemma triple_atomicWrite_refused:
  assumes refuse: "f h0 = (Some e, h)"
  shows "triple (here (\<lambda>h. h = h0) (others TmpFile F0) (\<lambda>F. F = F0)) (atomicWrite bytes rot (Some f))
     (\<lambda>_ _. False) (\<lambda>_. here any_guard (others TmpFile F0) (others TmpFile F0))"
  (is "triple (here ?G ?K _) _ _ (\<lambda>_. ?E)")
proof -
  have K: "\<And>F. others TmpFile F0 F \<Longrightarrow> ?K F" .
  have weak: "here G ?K (others TmpFile F0) s \<Longrightarrow> ?E s" for G and s :: "'a fsw"
    by (simp add: here_def any_guard_def)
  have drop: "triple P p R (\<lambda>_. here ?G ?K (others TmpFile F0)) \<Longrightarrow> triple P p R (\<lambda>_. ?E)"
    for P and p :: "('a fsw, 'b) prog" and R
    by (erule triple_conseq) (auto intro: weak)
  have guarded: "triple (here ?G ?K (private_has TmpFile F0 (bytes, True))) (call_guard (Some f)) (\<lambda>_ _. False) (\<lambda>_. ?E)"
    by (rule triple_conseq [OF triple_refusing_guard [where f = f and ?h0.0 = h0 and e = e and h = h and A = "private_has TmpFile F0 (bytes, True)", OF refuse]])
      (auto simp: here_def any_guard_def intro: private_has_others)
  have never: "triple (\<lambda>_. False) p Q R" for p :: "('a fsw, 'b) prog" and Q R
    by (simp add: triple_def)
  have body: "triple (here ?G ?K (private_has TmpFile F0 ([], False)))
      (bindP (write_sync_close TmpFile bytes) (\<lambda>_. bindP (call_guard (Some f)) (\<lambda>_.
        bindP (if rot then rotate_prev else ret ()) (\<lambda>_. bindP (fs_Rename TmpFile StateFile) (\<lambda>_. fs_SyncDir)))))
      (\<lambda>_ _. False) (\<lambda>_. ?E)"
    by (rule triple_bind [OF drop [OF triple_write_sync_close [OF K]]], assumption, rule triple_bind [OF guarded], rule never)
  have rm: "triple ?E (fs_Remove TmpFile) (\<lambda>_. ?E) (\<lambda>_. ?E)"
    by (rule triple_private(1) [OF K])
  show ?thesis
    unfolding atomicWrite_def
  proof (rule triple_bind)
    show "triple (here ?G ?K (\<lambda>F. F = F0)) (remove_stale TmpFile) (\<lambda>_. here ?G ?K (others TmpFile F0)) (\<lambda>_. ?E)"
      by (rule drop, rule triple_conseq [OF triple_private(2) [OF K]]) (auto elim: here_mono)
    show "triple (here ?G ?K (others TmpFile F0)) (bindP (fs_CreateExclusive TmpFile) (\<lambda>_. on_error
        (bindP (write_sync_close TmpFile bytes) (\<lambda>_. bindP (call_guard (Some f)) (\<lambda>_.
        bindP (if rot then rotate_prev else ret ()) (\<lambda>_. bindP (fs_Rename TmpFile StateFile) (\<lambda>_. fs_SyncDir)))))
        (fs_Remove TmpFile))) (\<lambda>_ _. False) (\<lambda>_. ?E)" for x :: unit
      by (rule triple_bind [OF drop [OF triple_private(3) [OF K]]], assumption,
          rule triple_on_error [OF _ rm], rule body [unfolded private_has_def])
  qed
qed

section \<open>Creation and backups\<close>

text \<open>The private name of a creation is not one of the names the engine reads.\<close>

lemma private_names [simp]:
  "TmpFile @ ''.'' @ suffix \<noteq> StateFile" "TmpFile @ ''.'' @ suffix \<noteq> PrevFile"
  "V1BackupFile @ ''.tmp'' \<noteq> V1BackupFile" "V1BackupFile @ ''.tmp'' \<noteq> StateFile" "V1BackupFile @ ''.tmp'' \<noteq> PrevFile"
  by simp_all

lemma triple_atomicCreate:
  fixes suffix
  defines "tmp \<equiv> TmpFile @ ''.'' @ suffix"
  assumes K: "\<And>F. others tmp F0 F \<or> fmlookup F0 StateFile = None \<and> others tmp (fmupd StateFile (bytes, True) F0) F \<Longrightarrow> K F"
  shows "triple (here any_guard K (\<lambda>F. F = F0)) (atomicCreate suffix bytes)
     (\<lambda>_. here any_guard K (\<lambda>F. fmlookup F0 StateFile = None \<and> others tmp (fmupd StateFile (bytes, True) F0) F))
     (\<lambda>_. here any_guard K (\<lambda>F. others tmp F0 F \<or> fmlookup F0 StateFile = None \<and> others tmp (fmupd StateFile (bytes, True) F0) F))"
  (is "triple _ _ (\<lambda>_. here _ _ ?Q) (\<lambda>_. here _ _ ?E)")
proof -
  have tmp: "tmp \<noteq> StateFile" by (simp add: tmp_def)
  have K1: "others tmp F0 F \<Longrightarrow> K F" for F by (simp add: K)
  have drop: "triple P p R (\<lambda>_. here any_guard K (others tmp F0)) \<Longrightarrow> triple P p R (\<lambda>_. here any_guard K ?E)"
    for P and p :: "('g fsw, 'b) prog" and R
    by (erule triple_conseq) (auto elim: here_mono)
  let ?A = "private_has tmp F0 (bytes, True)"
  have link: "triple (here any_guard K ?A) (attempt (fs_Link tmp StateFile))
      (\<lambda>r. here any_guard K (\<lambda>F. case r of Inr _ \<Rightarrow> ?Q F | Inl _ \<Rightarrow> others tmp F0 F)) (\<lambda>_. here any_guard K ?E)"
    unfolding fs_Link_def
  proof (rule triple_attempt, simp, rule triple_fs_call)
    show "K F' \<and> ?Q F'" if "?A F" "(case fmlookup F tmp of None \<Rightarrow> Inl [OsErrNotExist] | Some c \<Rightarrow>
        if fmlookup F StateFile \<noteq> None then Inl [OsErrExist] else Inr ((), Some (fmupd StateFile c F))) = Inr (x, Some F')" for F x F'
    proof -
      have "fmlookup F0 StateFile = None" "F' = fmupd StateFile (bytes, True) F"
        using that others_lookup [of tmp F0 F StateFile] tmp by (auto simp: private_has_def simp del: not_None_eq split: if_splits)
      moreover have "others tmp (fmupd StateFile (bytes, True) F0) (fmupd StateFile (bytes, True) F)"
        using that(1) tmp by (simp add: private_has_def others_def fmdrop_fmupd)
      ultimately show ?thesis using K [of F'] by simp
    qed
  qed (auto simp: private_has_def split: option.splits if_splits)
  have sync: "triple (here any_guard K ?Q) fs_SyncDir (\<lambda>_. here any_guard K ?Q) (\<lambda>_. here any_guard K ?E)"
    by (rule triple_conseq [OF triple_SyncDir [where A = ?Q]]) (auto elim: here_mono)
  have body: "triple (here any_guard K (private_has tmp F0 ([], False)))
      (bindP (write_sync_close tmp bytes) (\<lambda>_. bindP (attempt (fs_Link tmp StateFile)) (\<lambda>r. case r of
         Inl e \<Rightarrow> if errors_is e OsErrExist then raise [ErrAlreadyExists] else raise e | Inr _ \<Rightarrow> fs_SyncDir)))
      (\<lambda>_. here any_guard K ?Q) (\<lambda>_. here any_guard K ?E)"
  proof (rule triple_bind [OF drop [OF triple_write_sync_close [OF K1]]], assumption, rule triple_bind [OF link])
    show "triple (here any_guard K (\<lambda>F. case r of Inr _ \<Rightarrow> ?Q F | Inl _ \<Rightarrow> others tmp F0 F))
        (case r of Inl e \<Rightarrow> if errors_is e OsErrExist then raise [ErrAlreadyExists] else raise e | Inr _ \<Rightarrow> fs_SyncDir)
        (\<lambda>_. here any_guard K ?Q) (\<lambda>_. here any_guard K ?E)" for r :: "unit res"
      using sync by (cases r) (auto intro!: triple_if triple_raise elim: here_mono)
  qed
  have rmQ: "triple (here any_guard K ?Q) (fs_Remove tmp) (\<lambda>_. here any_guard K ?Q) (\<lambda>_. here any_guard K ?Q)"
    and rmE: "triple (here any_guard K ?E) (fs_Remove tmp) (\<lambda>_. here any_guard K ?E) (\<lambda>_. here any_guard K ?E)"
    unfolding fs_Remove_def by (rule triple_fs_call; force intro: K split: if_splits)+
  show ?thesis
    unfolding atomicCreate_def Let_def tmp_def [symmetric]
  proof (rule triple_bind)
    show "triple (here any_guard K (\<lambda>F. F = F0)) (fs_CreateExclusive tmp)
        (\<lambda>_. here any_guard K (private_has tmp F0 ([], False))) (\<lambda>_. here any_guard K ?E)"
      by (rule drop, rule triple_conseq [OF triple_private(3) [OF K1]]) (auto elim: here_mono simp: private_has_def)
    show "triple (here any_guard K (private_has tmp F0 ([], False))) (always
        (bindP (write_sync_close tmp bytes) (\<lambda>_. bindP (attempt (fs_Link tmp StateFile)) (\<lambda>r. case r of
         Inl e \<Rightarrow> if errors_is e OsErrExist then raise [ErrAlreadyExists] else raise e | Inr _ \<Rightarrow> fs_SyncDir)))
        (fs_Remove tmp)) (\<lambda>_. here any_guard K ?Q) (\<lambda>_. here any_guard K ?E)" for x :: unit
      by (rule triple_always [OF body rmQ rmE])
  qed
qed

text \<open>A backup never overwrites a file, and touches no other.\<close>

definition only_adds :: "dir \<Rightarrow> dir \<Rightarrow> bool" where
  "only_adds F0 F \<longleftrightarrow> (\<forall>n c. fmlookup F0 n = Some c \<longrightarrow> fmlookup F n = Some c)"

lemma only_adds_refl [simp]: "only_adds F F"
  by (simp add: only_adds_def)

lemma only_adds_trans: "only_adds F G \<Longrightarrow> only_adds G H \<Longrightarrow> only_adds F H"
  by (simp add: only_adds_def)

lemma others_only_adds: "fmlookup F1 n = None \<Longrightarrow> others n F1 F \<Longrightarrow> only_adds F1 F"
  unfolding only_adds_def using others_lookup by (metis option.distinct(1))

text \<open>The content \<open>bytes\<close> is durable under the name \<open>n\<close>, which was free, and nothing else was lost.\<close>

definition backed_up :: "dir \<Rightarrow> string \<Rightarrow> string \<Rightarrow> dir \<Rightarrow> bool" where
  "backed_up F0 n bytes F \<longleftrightarrow> fmlookup F0 n = None \<and> fmlookup F n = Some (bytes, True) \<and> only_adds F0 F"

lemma triple_writeBackup:
  "triple (here G (only_adds F0) (only_adds F0)) (writeBackup n bytes)
     (\<lambda>_. here G (only_adds F0) (backed_up F0 n bytes)) (\<lambda>_. here G (only_adds F0) (only_adds F0))"
  unfolding triple_def
proof (intro allI impI)
  fix w assume w: "here G (only_adds F0) (only_adds F0) w"
  let ?F1 = "files w"
  have step: "only_adds F0 F" if "fmlookup ?F1 n = None" "others n ?F1 F" for F
    using w only_adds_trans [OF _ others_only_adds [OF that]] by (simp add: here_def)
  show "case writeBackup n bytes w of (Inr x, s') \<Rightarrow> here G (only_adds F0) (backed_up F0 n bytes) s'
      | (Inl e, s') \<Rightarrow> here G (only_adds F0) (only_adds F0) s'"
  proof (cases "fmlookup ?F1 n")
    case (Some c)
    let ?K = "only_adds F0"
    have "triple (here G ?K (\<lambda>F. F = ?F1)) (fs_CreateExclusive n) (\<lambda>_ _. False) (\<lambda>_. here G ?K (\<lambda>F. F = ?F1))"
      unfolding fs_CreateExclusive_def
      by (rule triple_conseq [OF triple_fs_call [where A = "\<lambda>F. F = ?F1" and Q = "\<lambda>_ _. False" and E = "\<lambda>F. F = ?F1"]])
        (use Some in \<open>auto simp: here_def split: if_splits\<close>)
    then have "triple (here G ?K (\<lambda>F. F = ?F1)) (writeBackup n bytes) (\<lambda>_ _. False) (\<lambda>_. here G ?K (\<lambda>F. F = ?F1))"
      unfolding writeBackup_def by (rule triple_bind) (simp add: triple_def)
    moreover have "here G ?K (\<lambda>F. F = ?F1) w" using w by (simp add: here_def)
    ultimately show ?thesis
      using w unfolding triple_def by (fastforce simp: here_def split: prod.splits sum.splits)
  next
    case None
    have K: "others n ?F1 F \<Longrightarrow> only_adds F0 F" for F by (rule step [OF None])
    have free: "fmlookup F0 n = None"
      using w None unfolding here_def only_adds_def by (metis option.exhaust option.distinct(1))
    have "triple (here G (only_adds F0) (others n ?F1)) (writeBackup n bytes)
        (\<lambda>_. here G (only_adds F0) (private_has n ?F1 (bytes, True))) (\<lambda>_. here G (only_adds F0) (others n ?F1))"
      unfolding writeBackup_def by (rule triple_bind [OF triple_create [OF K] triple_write_sync_close [OF K]])
    then have "triple (here G (only_adds F0) (others n ?F1)) (writeBackup n bytes)
        (\<lambda>_. here G (only_adds F0) (backed_up F0 n bytes)) (\<lambda>_. here G (only_adds F0) (only_adds F0))"
      by (rule triple_conseq) (simp_all add: here_def backed_up_def private_has_def free K)
    moreover have "here G (only_adds F0) (others n ?F1) w" using w by (simp add: here_def)
    ultimately show ?thesis by (rule tripleD)
  qed
qed

lemma triple_backup_loop:
  "triple (here G (only_adds F0) (only_adds F0)) (backup_loop prefix stamp suffix bytes e i left)
     (\<lambda>n. here G (only_adds F0) (backed_up F0 n bytes)) (\<lambda>_. here G (only_adds F0) (only_adds F0))"
proof (induction left arbitrary: e i)
  case 0
  show ?case by (simp add: triple_raise)
next
  case (Suc left)
  let ?n = "backup_name prefix stamp suffix i"
  show ?case
    unfolding backup_loop.simps
  proof (rule triple_bind [where R = "\<lambda>r. here G (only_adds F0) (\<lambda>F. case r of Inr _ \<Rightarrow> backed_up F0 ?n bytes F | Inl _ \<Rightarrow> only_adds F0 F)"])
    show "triple (here G (only_adds F0) (only_adds F0)) (attempt (writeBackup ?n bytes))
        (\<lambda>r. here G (only_adds F0) (\<lambda>F. case r of Inr _ \<Rightarrow> backed_up F0 ?n bytes F | Inl _ \<Rightarrow> only_adds F0 F))
        (\<lambda>_. here G (only_adds F0) (only_adds F0))"
      by (rule triple_attempt) (simp add: triple_writeBackup)
    show "triple (here G (only_adds F0) (\<lambda>F. case r of Inr _ \<Rightarrow> backed_up F0 ?n bytes F | Inl _ \<Rightarrow> only_adds F0 F))
        (case r of Inr _ \<Rightarrow> ret ?n | Inl e \<Rightarrow>
           if errors_is e OsErrExist then backup_loop prefix stamp suffix bytes e (Suc i) left else raise e)
        (\<lambda>n. here G (only_adds F0) (backed_up F0 n bytes)) (\<lambda>_. here G (only_adds F0) (only_adds F0))" for r :: "unit res"
      by (cases r) (auto intro!: triple_if triple_ret triple_raise Suc.IH)
  qed
qed

section \<open>Properties\<close>

definition start :: "dir \<Rightarrow> fault option list \<Rightarrow> 'g \<Rightarrow> 'g fsw" where
  "start F fs h = \<lparr>files = F, faults = fs, trace = [], disk = [F], gst = h\<rparr>"

lemma here_start: "A F \<Longrightarrow> G h \<Longrightarrow> here G K A (start F fs h)"
  by (simp add: here_def start_def)

text \<open>
  Replacing relay.state is crash safe: whatever calls fail and whatever the guard answers, in every
  directory the replacement passes through relay.state is the old file, or the complete and durable new one, or
  is missing while relay.state.prev is the old file. On success it is the new one and relay.state.prev is
  the old or the previous generation; without rotation relay.state.prev never changes.
\<close>

theorem atomicWrite_crash_safe:
  "case atomicWrite bytes rot g (start F0 fs h) of (r, w') \<Rightarrow>
     list_all (\<lambda>F. fmlookup F StateFile = fmlookup F0 StateFile \<or> fmlookup F StateFile = Some (bytes, True) \<or>
        (fmlookup F StateFile = None \<and> fmlookup F PrevFile = fmlookup F0 StateFile)) (trace w') \<and>
     (case r of
        Inr _ \<Rightarrow> fmlookup (files w') StateFile = Some (bytes, True) \<and>
          (fmlookup (files w') PrevFile = fmlookup F0 PrevFile \<or> rot \<and> fmlookup (files w') PrevFile = fmlookup F0 StateFile)
      | Inl _ \<Rightarrow> crash_ok F0 bytes (files w') \<and> (rot \<or> fmlookup (files w') PrevFile = fmlookup F0 PrevFile))"
proof -
  have "here any_guard (crash_ok F0 bytes) (\<lambda>F. F = F0) (start F0 fs h)"
    by (simp add: here_start any_guard_def)
  from tripleD [OF triple_atomicWrite this, of bytes rot g] show ?thesis
    by (auto simp: here_def replaced_def not_replaced_def crash_ok_def [abs_def] split: prod.splits sum.splits)
qed

text \<open>
  A write whose guard refuses just before the rename changes nothing a reader could see: it ends with an
  error, and in every directory it passes through all files other than the temporary one are untouched.
\<close>

theorem atomicWrite_guard_refusal:
  assumes "f h = (Some e, h')"
  shows "case atomicWrite bytes rot (Some f) (start F0 fs h) of (r, w') \<Rightarrow>
     isl r \<and> list_all (others TmpFile F0) (trace w') \<and> others TmpFile F0 (files w')"
proof -
  have "here (\<lambda>x. x = h) (others TmpFile F0) (\<lambda>F. F = F0) (start F0 fs h)"
    by (simp add: here_start)
  moreover have "triple (here (\<lambda>x. x = h) (others TmpFile F0) (\<lambda>F. F = F0)) (atomicWrite bytes rot (Some f))
      (\<lambda>_ _. False) (\<lambda>_. here any_guard (others TmpFile F0) (others TmpFile F0))"
    by (rule triple_atomicWrite_refused) (rule assms)
  ultimately have "case atomicWrite bytes rot (Some f) (start F0 fs h) of (Inr x, s') \<Rightarrow> False
      | (Inl e, s') \<Rightarrow> here any_guard (others TmpFile F0) (others TmpFile F0) s'"
    by (rule tripleD [rotated])
  then show ?thesis by (auto simp: here_def split: prod.splits sum.splits)
qed

theorem atomicWrite_guard_refusal_witness:
  "case atomicWrite ''new'' True (Some (\<lambda>_. (Some [ErrNotMaster], ()))) (start (fmap_of_list [(StateFile, (''old'', True))]) [] ()) of
     (r, w') \<Rightarrow> isl r \<and> list_all (others TmpFile (fmap_of_list [(StateFile, (''old'', True))])) (trace w') \<and>
       others TmpFile (fmap_of_list [(StateFile, (''old'', True))]) (files w')"
  by (rule atomicWrite_guard_refusal [where e = "[ErrNotMaster]" and h' = "()"]) simp

text \<open>
  Initialising never replaces a state: when relay.state exists, the creation fails and the only name that
  may have changed is the private temporary one; when it does not exist, relay.state is only ever absent
  or complete and durable.
\<close>

theorem atomicCreate_never_replaces:
  "case atomicCreate suffix bytes (start F0 fs h) of (r, w') \<Rightarrow>
     list_all (\<lambda>F. fmlookup F StateFile = fmlookup F0 StateFile \<or>
        fmlookup F0 StateFile = None \<and> fmlookup F StateFile = Some (bytes, True)) (trace w') \<and>
     (case r of
        Inr _ \<Rightarrow> fmlookup F0 StateFile = None \<and> fmlookup (files w') StateFile = Some (bytes, True)
      | Inl _ \<Rightarrow> fmlookup (files w') StateFile = fmlookup F0 StateFile \<or>
          fmlookup F0 StateFile = None \<and> fmlookup (files w') StateFile = Some (bytes, True))"
proof -
  let ?tmp = "TmpFile @ ''.'' @ suffix"
  let ?K = "\<lambda>F. others ?tmp F0 F \<or> fmlookup F0 StateFile = None \<and> others ?tmp (fmupd StateFile (bytes, True) F0) F"
  have st: "fmlookup F StateFile = fmlookup F1 StateFile" if "others ?tmp F1 F" for F F1
    by (rule others_lookup [OF that]) simp
  have K: "fmlookup F StateFile = fmlookup F0 StateFile \<or> fmlookup F0 StateFile = None \<and> fmlookup F StateFile = Some (bytes, True)"
    if "?K F" for F
    using that st [of F0 F] st [of "fmupd StateFile (bytes, True) F0" F] by auto
  have "here any_guard ?K (\<lambda>F. F = F0) (start F0 fs h)" by (simp add: here_start any_guard_def)
  moreover have "triple (here any_guard ?K (\<lambda>F. F = F0)) (atomicCreate suffix bytes)
     (\<lambda>_. here any_guard ?K (\<lambda>F. fmlookup F0 StateFile = None \<and> others ?tmp (fmupd StateFile (bytes, True) F0) F))
     (\<lambda>_. here any_guard ?K ?K)"
    by (rule triple_atomicCreate)
  ultimately have "case atomicCreate suffix bytes (start F0 fs h) of
      (Inr x, s') \<Rightarrow> here any_guard ?K (\<lambda>F. fmlookup F0 StateFile = None \<and> others ?tmp (fmupd StateFile (bytes, True) F0) F) s'
    | (Inl e, s') \<Rightarrow> here any_guard ?K ?K s'"
    by (rule tripleD [rotated])
  then show ?thesis
    using st [of "fmupd StateFile (bytes, True) F0"] K
    by (auto simp: here_def list_all_iff split: prod.splits sum.splits)
qed

text \<open>
  A backup never overwrites anything: every file of the directory keeps its content throughout, and
  when the backup is reported done, the returned name was free before and now holds exactly the bytes, durably.
\<close>

theorem writeUniqueBackup_keeps_files:
  "case writeUniqueBackup prefix stamp suffix bytes (start F0 fs h) of (r, w') \<Rightarrow>
     list_all (only_adds F0) (trace w') \<and> only_adds F0 (files w') \<and>
     (case r of Inr n \<Rightarrow> fmlookup F0 n = None \<and> fmlookup (files w') n = Some (bytes, True) | Inl _ \<Rightarrow> True)"
proof -
  have "here any_guard (only_adds F0) (only_adds F0) (start F0 fs h)" by (simp add: here_start any_guard_def)
  from tripleD [OF triple_backup_loop this, of bytes prefix stamp suffix "[]" 0 maxBackupAttempts] show ?thesis
    unfolding writeUniqueBackup_def by (auto simp: here_def backed_up_def split: prod.splits sum.splits)
qed

end
