(* ===== verification/State_File.thy ===== *)
theory State_File
  imports State_Model State_FS Encoding
begin

text \<open>
  The state file (\<open>internal/state/file.go\<close>): the envelope, its authentication, encoding and decoding, the
  check of the stored secrets (\<open>internal/crypto/aad.go\<close>), and loading with its fallback to the previous
  generation. JSON, the hash functions, the cipher and the time format are arguments, collected in a record
  \<open>Lib\<close>; what the lemmas use of them is stated as hypotheses.
\<close>

section \<open>Library functions\<close>

record envelope =
  en_SchemaVersion :: int
  en_WrittenAt :: gotime
  en_WriterInstance :: string
  en_WriteSeq :: "64 word"
  en_HMAC :: string
  en_SHA256 :: string
  en_Payload :: string

text \<open>The payload as the JSON decoder leaves it: a section that is \<open>null\<close> is a nil map.\<close>

record RawPayload =
  raw_Agents :: "(string, Agent) fmap option"
  raw_AuthorizedKeys :: "(string, AuthorizedKey) fmap option"
  raw_EnrollmentTokens :: "(string, EnrollmentToken) fmap option"
  raw_PluginTokens :: "(string, PluginToken) fmap option"
  raw_RelayParentTokens :: "(string, RelayParentToken) fmap option"
  raw_Blacklist :: "(string, BlacklistEntry) fmap option"
  raw_RelayNodes :: "(string, RelayNode) fmap option"
  raw_ServerConfig :: "(string, string) fmap option"
  raw_LinkTokens :: "(string, LinkToken) fmap option"
  raw_LinkTrust :: LinkTrust

record Lib =
  marshal_payload :: "Payload \<Rightarrow> string res"
  unmarshal_payload :: "string \<Rightarrow> RawPayload option"
  marshal_envelope :: "envelope \<Rightarrow> string res"
  unmarshal_envelope :: "string \<Rightarrow> envelope option"
  sha256 :: "string \<Rightarrow> string"
  hmac_sha256 :: "string \<Rightarrow> string \<Rightarrow> string"
  hkdf_key :: "string \<Rightarrow> string \<Rightarrow> nat \<Rightarrow> string res"
  gcm_seal :: "string \<Rightarrow> string \<Rightarrow> string \<Rightarrow> string \<Rightarrow> string"
  gcm_open :: "string \<Rightarrow> string \<Rightarrow> string \<Rightarrow> string \<Rightarrow> string option"
  rfc3339nano :: "gotime \<Rightarrow> string"

section \<open>Secrets bound to their field\<close>

definition stateHMACLabel :: string where "stateHMACLabel = ''state-hmac-v1''"

definition deriveKey :: "Lib \<Rightarrow> string \<Rightarrow> string" where
  "deriveKey L masterKey = sha256 L masterKey"

definition DeriveStateHMACKey :: "Lib \<Rightarrow> string \<Rightarrow> string res" where
  "DeriveStateHMACKey L masterKey = hkdf_key L masterKey stateHMACLabel 32"

definition nonceSize :: nat where "nonceSize = 12"

text \<open>\<open>EncryptWithAAD\<close>, with the random nonce as an argument.\<close>

definition EncryptWithAAD :: "Lib \<Rightarrow> string \<Rightarrow> string \<Rightarrow> string \<Rightarrow> string \<Rightarrow> string" where
  "EncryptWithAAD L nonce plaintext masterKey aad =
     b64_encode (nonce @ gcm_seal L (deriveKey L masterKey) nonce plaintext aad)"

definition DecryptWithAAD :: "Lib \<Rightarrow> string \<Rightarrow> string \<Rightarrow> string \<Rightarrow> string res" where
  "DecryptWithAAD L encoded masterKey aad =
     (case b64_decode encoded of
        None \<Rightarrow> Inl [ErrText ''base64 decode'']
      | Some bytes \<Rightarrow>
          if length bytes < nonceSize then Inl [ErrText ''ciphertext too short'']
          else (case gcm_open L (deriveKey L masterKey) (take nonceSize bytes) (drop nonceSize bytes) aad of
             None \<Rightarrow> Inl [ErrText ''gcm.Open'']
           | Some plain \<Rightarrow> Inr plain))"

definition ConfigAAD :: "string \<Rightarrow> string" where
  "ConfigAAD key = key"

definition RelayTokenSecretAAD :: "string \<Rightarrow> string" where
  "RelayTokenSecretAAD relayID = ''relay_nodes/'' @ relayID @ ''/token_secret''"

definition SealSecret :: "Lib \<Rightarrow> string \<Rightarrow> string \<Rightarrow> string \<Rightarrow> string \<Rightarrow> string" where
  "SealSecret L nonce plain masterKey aad = EncPrefix @ EncryptWithAAD L nonce plain masterKey aad"

definition OpenSecret :: "Lib \<Rightarrow> string \<Rightarrow> string \<Rightarrow> string \<Rightarrow> string res" where
  "OpenSecret L v masterKey aad =
     (if \<not> has_prefix v EncPrefix then Inl [ErrText ''secret is not encrypted'']
      else DecryptWithAAD L (drop (length EncPrefix) v) masterKey aad)"

section \<open>The envelope\<close>

definition SchemaVersion :: int where "SchemaVersion = 2"
definition MinSchemaVersion :: int where "MinSchemaVersion = 1"

record codec =
  macKey :: "string option"
  masterKey :: string
  insecure :: bool

definition itoa_int :: "int \<Rightarrow> string" where
  "itoa_int i = (if i < 0 then CHR ''-'' # itoa (nat (- i)) else itoa (nat i))"

abbreviation NL :: char where "NL \<equiv> char_of (10::nat)"

definition macInput :: "Lib \<Rightarrow> envelope \<Rightarrow> string" where
  "macInput L e =
     ''secagent-state-v2'' @ [NL] @
     itoa_int (en_SchemaVersion e) @ [NL] @
     format_uint (en_WriteSeq e) @ [NL] @
     rfc3339nano L (en_WrittenAt e) @ [NL] @
     itoa (length (en_WriterInstance e)) @ [CHR '':''] @ en_WriterInstance e @ [NL] @
     itoa (length (en_SHA256 e)) @ [CHR '':''] @ en_SHA256 e @ [NL] @
     en_Payload e"

definition computeMAC :: "Lib \<Rightarrow> string \<Rightarrow> envelope \<Rightarrow> string" where
  "computeMAC L key e = hex_encode (hmac_sha256 L key (macInput L e))"

text \<open>The envelope around the encoded payload; its HMAC is computed over all the rest.\<close>

definition sealed_envelope :: "Lib \<Rightarrow> codec \<Rightarrow> string \<Rightarrow> 64 word \<Rightarrow> string \<Rightarrow> gotime \<Rightarrow> envelope" where
  "sealed_envelope L c bytes sq inst now =
     (let env = \<lparr>en_SchemaVersion = SchemaVersion, en_WrittenAt = now, en_WriterInstance = inst, en_WriteSeq = sq,
                en_HMAC = [], en_SHA256 = hex_encode (sha256 L bytes), en_Payload = bytes\<rparr>
      in case macKey c of None \<Rightarrow> env | Some k \<Rightarrow> env\<lparr>en_HMAC := computeMAC L k env\<rparr>)"

definition encode :: "Lib \<Rightarrow> codec \<Rightarrow> Payload \<Rightarrow> 64 word \<Rightarrow> string \<Rightarrow> gotime \<Rightarrow> string res" where
  "encode L c p sq inst now =
     and_then (marshal_payload L p) (\<lambda>bytes. marshal_envelope L (sealed_envelope L c bytes sq inst now))"

text \<open>Null sections are tolerated as empty.\<close>

definition or_empty :: "('k, 'v) fmap option \<Rightarrow> ('k, 'v) fmap" where
  "or_empty s = (case s of None \<Rightarrow> fmempty | Some m \<Rightarrow> m)"

definition fill_sections :: "RawPayload \<Rightarrow> Payload" where
  "fill_sections r = \<lparr>Agents = or_empty (raw_Agents r), AuthorizedKeys = or_empty (raw_AuthorizedKeys r),
     EnrollmentTokens = or_empty (raw_EnrollmentTokens r), PluginTokens = or_empty (raw_PluginTokens r),
     RelayParentTokens = or_empty (raw_RelayParentTokens r), Blacklist = or_empty (raw_Blacklist r),
     RelayNodes = or_empty (raw_RelayNodes r), ServerConfig = or_empty (raw_ServerConfig r),
     LinkTokens = or_empty (raw_LinkTokens r), Link_trust = raw_LinkTrust r\<rparr>"

text \<open>One step of the first loop of \<open>checkSecrets\<close>, then the whole.\<close>

definition checkSecretKey :: "Lib \<Rightarrow> codec \<Rightarrow> model \<Rightarrow> string \<Rightarrow> goerr option" where
  "checkSecretKey L c m k =
     (let v = get_or [] (ServerConfig (payload m)) k in
      if v = [] then None
      else if \<not> has_prefix v EncPrefix then
        (if masterKey c = [] \<and> insecure c then None else Some [ErrSecurityInvariant])
      else if masterKey c \<noteq> [] \<and> isl (OpenSecret L v (masterKey c) (ConfigAAD k)) then Some [ErrSecurityInvariant]
      else None)"

fun first_error :: "('a \<Rightarrow> goerr option) \<Rightarrow> 'a list \<Rightarrow> goerr option" where
  "first_error f [] = None"
| "first_error f (x # xs) = err_or (f x) (first_error f xs)"

definition checkSecrets :: "Lib \<Rightarrow> codec \<Rightarrow> model \<Rightarrow> goerr option" where
  "checkSecrets L c m =
     err_or (first_error (checkSecretKey L c m) secretConfigKeys)
     (if masterKey c \<noteq> [] then
        range_err (RelayNodes (payload m)) (\<lambda>i n.
          if rn_TokenSecret n \<noteq> [] \<and> isl (OpenSecret L (rn_TokenSecret n) (masterKey c) (RelayTokenSecretAAD i))
          then Some [ErrSecurityInvariant] else None)
      else None)"

text \<open>The authentication step of \<open>decode\<close>: \<open>hmac.Equal\<close> on the decoded values.\<close>

definition hmac_bad :: "Lib \<Rightarrow> string \<Rightarrow> envelope \<Rightarrow> bool" where
  "hmac_bad L k env \<longleftrightarrow>
     en_HMAC env = [] \<or>
     (case hex_decode (en_HMAC env) of None \<Rightarrow> True | Some got \<Rightarrow> Some got \<noteq> hex_decode (computeMAC L k env))"

definition decode :: "Lib \<Rightarrow> string list \<Rightarrow> codec \<Rightarrow> string \<Rightarrow> gotime \<Rightarrow> (model \<times> envelope) res" where
  "decode L ord c bytes now =
     (case unmarshal_envelope L bytes of
        None \<Rightarrow> Inl [ErrCorrupt]
      | Some env \<Rightarrow>
          if en_SchemaVersion env < MinSchemaVersion \<or> en_SchemaVersion env > SchemaVersion then Inl [ErrSchemaVersion]
          else if (case macKey c of None \<Rightarrow> False | Some k \<Rightarrow> hmac_bad L k env)
          then Inl [ErrSecurityInvariant, ErrAuthentication]
          else if hex_encode (sha256 L (en_Payload env)) \<noteq> en_SHA256 env then Inl [ErrCorrupt, ErrChecksum]
          else (case unmarshal_payload L (en_Payload env) of
             None \<Rightarrow> Inl [ErrCorrupt]
           | Some raw \<Rightarrow>
               (case validateAll ord (raw_model (fill_sections raw) (en_WriteSeq env) (en_SchemaVersion env)) now of
                  Inl e \<Rightarrow> if errors_is e ErrSecurityInvariant then Inl e else Inl [ErrCorrupt, ErrStructure]
                | Inr m \<Rightarrow> check (checkSecrets L c m) (Inr (m, env)))))"

definition isFinal :: "goerr \<Rightarrow> bool" where
  "isFinal e \<longleftrightarrow> errors_is e ErrSchemaVersion \<or> errors_is e ErrSecurityInvariant"

section \<open>Loading\<close>

record loaded =
  ld_m :: model
  ld_env :: envelope
  ld_fromPrev :: bool

definition srcName :: "loaded \<Rightarrow> string" where
  "srcName l = (if ld_fromPrev l then PrevFile else StateFile)"

text \<open>\<open>loadPrev\<close>: an invalid previous generation is reported with neither error wrapped.\<close>

definition loadPrev :: "Lib \<Rightarrow> string list \<Rightarrow> gotime \<Rightarrow> codec \<Rightarrow> int \<Rightarrow> ('g fsw, loaded) prog" where
  "loadPrev L ord now c mx =
     bindP (fs_ReadFileMax PrevFile mx) (\<lambda>bytes.
     case decode L ord c bytes now of
       Inl e \<Rightarrow> if isFinal e then raise e else raise [ErrText ''both relay.state and relay.state.prev are invalid'']
     | Inr (m, env) \<Rightarrow> ret \<lparr>ld_m = m, ld_env = env, ld_fromPrev = True\<rparr>)"

definition load :: "Lib \<Rightarrow> string list \<Rightarrow> gotime \<Rightarrow> codec \<Rightarrow> int \<Rightarrow> ('g fsw, loaded) prog" where
  "load L ord now c mx =
     bindP (attempt (fs_ReadFileMax StateFile mx)) (\<lambda>r. case r of
       Inr bytes \<Rightarrow>
         (case decode L ord c bytes now of
            Inr (m, env) \<Rightarrow> ret \<lparr>ld_m = m, ld_env = env, ld_fromPrev = False\<rparr>
          | Inl e \<Rightarrow> if isFinal e then raise e else loadPrev L ord now c mx)
     | Inl e \<Rightarrow>
         if errors_is e ErrTooBig then loadPrev L ord now c mx
         else if errors_is e OsErrNotExist then
           bindP (fs_exists PrevFile) (\<lambda>(ok, _). if ok then loadPrev L ord now c mx else raise [NotFoundError])
         else raise e)"

section \<open>The authenticated input determines the envelope\<close>

lemma sep_unique:
  assumes "xs @ [c] @ r = ys @ [c] @ r'" "c \<notin> set xs" "c \<notin> set ys"
  shows "xs = ys \<and> r = r'"
  using assms
proof (induction xs arbitrary: ys)
  case Nil
  then show ?case by (cases ys) auto
next
  case (Cons x xs)
  then show ?case by (cases ys) auto
qed

text \<open>A length prefix ends its field, whatever the field holds.\<close>

lemma digits_no_sep: "list_all is_digit xs \<Longrightarrow> \<not> is_digit c \<Longrightarrow> c \<notin> set xs"
  by (auto simp: list_all_iff)

lemma not_digits [simp]: "\<not> is_digit NL" "\<not> is_digit (CHR '':'')" "\<not> is_digit (CHR ''-'')"
  by (simp_all add: is_digit_def)

lemma itoa_no_sep [simp]: "NL \<notin> set (itoa n)" "CHR '':'' \<notin> set (itoa n)" "CHR ''-'' \<notin> set (itoa n)"
  using digits_no_sep [OF itoa_digits] not_digits by blast+

lemma sized_unique:
  assumes "itoa (length a) @ [CHR '':''] @ a @ r = itoa (length b) @ [CHR '':''] @ b @ r'"
  shows "a = b \<and> r = r'"
proof -
  have "itoa (length a) = itoa (length b)" "a @ r = b @ r'"
    using sep_unique [OF assms] by auto
  then show ?thesis using itoa_inj by auto
qed

lemma itoa_int_inj:
  assumes eq: "itoa_int i = itoa_int j"
  shows "i = j"
proof -
  have hd: "hd (itoa n) \<noteq> CHR ''-''" for n
    using itoa_no_sep(3) [of n] itoa_not_Nil [of n] hd_in_set by metis
  have sign: "hd (itoa_int k) = CHR ''-'' \<longleftrightarrow> k < 0" for k
    using hd [of "nat k"] by (simp add: itoa_int_def)
  have "i < 0 \<longleftrightarrow> j < 0" using sign [of i] sign [of j] eq by metis
  then consider "i < 0" "j < 0" "nat (- i) = nat (- j)" | "\<not> i < 0" "\<not> j < 0" "nat i = nat j"
    using eq itoa_inj by (cases "i < 0") (simp_all add: itoa_int_def)
  then show ?thesis by cases linarith+
qed

lemma NL_not_itoa_int: "NL \<notin> set (itoa_int i)"
proof -
  have "NL \<noteq> CHR ''-''" by (simp add: char_of_def bit_simps)
  then show ?thesis by (simp add: itoa_int_def)
qed

lemma format_uint_inj: "format_uint v = format_uint w \<Longrightarrow> v = w"
  by (metis parse_format_uint)

text \<open>
  Two different envelopes never produce the same authenticated input: it determines the schema version,
  the write counter, the date, the writer, the stored checksum and the payload (all but the HMAC itself),
  given that the date format is injective and free of line breaks.
\<close>

theorem macInput_injective:
  assumes inj: "\<And>t t'. rfc3339nano L t = rfc3339nano L t' \<Longrightarrow> t = t'"
    and line: "\<And>t. NL \<notin> set (rfc3339nano L t)"
    and eq: "macInput L e = macInput L e'"
  shows "e\<lparr>en_HMAC := []\<rparr> = e'\<lparr>en_HMAC := []\<rparr>"
proof -
  note unf = eq [unfolded macInput_def append_assoc same_append_eq]
  from sep_unique [OF unf NL_not_itoa_int NL_not_itoa_int]
  have schema: "en_SchemaVersion e = en_SchemaVersion e'" and rest: "format_uint (en_WriteSeq e) @ [NL] @
      rfc3339nano L (en_WrittenAt e) @ [NL] @ itoa (length (en_WriterInstance e)) @ [CHR '':''] @ en_WriterInstance e @ [NL] @
      itoa (length (en_SHA256 e)) @ [CHR '':''] @ en_SHA256 e @ [NL] @ en_Payload e =
     format_uint (en_WriteSeq e') @ [NL] @
      rfc3339nano L (en_WrittenAt e') @ [NL] @ itoa (length (en_WriterInstance e')) @ [CHR '':''] @ en_WriterInstance e' @ [NL] @
      itoa (length (en_SHA256 e')) @ [CHR '':''] @ en_SHA256 e' @ [NL] @ en_Payload e'"
    by (auto dest: itoa_int_inj)
  have seq: "en_WriteSeq e = en_WriteSeq e'" and rest: "rfc3339nano L (en_WrittenAt e) @ [NL] @
      itoa (length (en_WriterInstance e)) @ [CHR '':''] @ en_WriterInstance e @ [NL] @
      itoa (length (en_SHA256 e)) @ [CHR '':''] @ en_SHA256 e @ [NL] @ en_Payload e =
     rfc3339nano L (en_WrittenAt e') @ [NL] @ itoa (length (en_WriterInstance e')) @ [CHR '':''] @ en_WriterInstance e' @ [NL] @
      itoa (length (en_SHA256 e')) @ [CHR '':''] @ en_SHA256 e' @ [NL] @ en_Payload e'"
    using sep_unique [OF rest] by (auto simp: format_uint_def dest: format_uint_inj [unfolded format_uint_def])
  from sep_unique [OF rest line line] have date: "en_WrittenAt e = en_WrittenAt e'"
    and rest: "itoa (length (en_WriterInstance e)) @ [CHR '':''] @ en_WriterInstance e @ [NL] @
      itoa (length (en_SHA256 e)) @ [CHR '':''] @ en_SHA256 e @ [NL] @ en_Payload e =
     itoa (length (en_WriterInstance e')) @ [CHR '':''] @ en_WriterInstance e' @ [NL] @
      itoa (length (en_SHA256 e')) @ [CHR '':''] @ en_SHA256 e' @ [NL] @ en_Payload e'"
    using inj by blast+
  from sized_unique [OF rest] have writer: "en_WriterInstance e = en_WriterInstance e'"
    and rest: "itoa (length (en_SHA256 e)) @ [CHR '':''] @ en_SHA256 e @ [NL] @ en_Payload e =
      itoa (length (en_SHA256 e')) @ [CHR '':''] @ en_SHA256 e' @ [NL] @ en_Payload e'" by auto
  from sized_unique [OF rest] have "en_SHA256 e = en_SHA256 e'" "en_Payload e = en_Payload e'" by auto
  with schema seq date writer show ?thesis by (cases e; cases e') simp
qed

text \<open>A library for the examples: two payloads and two envelopes can be stored, dates are decimal numbers.\<close>

definition raw_of :: "Payload \<Rightarrow> RawPayload" where
  "raw_of p = \<lparr>raw_Agents = Some (Agents p), raw_AuthorizedKeys = Some (AuthorizedKeys p),
     raw_EnrollmentTokens = Some (EnrollmentTokens p), raw_PluginTokens = Some (PluginTokens p),
     raw_RelayParentTokens = Some (RelayParentTokens p), raw_Blacklist = Some (Blacklist p),
     raw_RelayNodes = Some (RelayNodes p), raw_ServerConfig = Some (ServerConfig p),
     raw_LinkTokens = Some (LinkTokens p), raw_LinkTrust = Link_trust p\<rparr>"

lemma fill_raw_of [simp]: "fill_sections (raw_of p) = p"
  by (simp add: fill_sections_def raw_of_def or_empty_def)

definition ex_payload :: Payload where
  "ex_payload = newPayload\<lparr>AuthorizedKeys := fmap_of_list
     [(''host-1'', \<lparr>ak_Hostname = ''host-1'', ak_PublicKeyPEM = ''pem'', ak_ApprovedAt = 5, ak_ApprovedBy = ''admin''\<rparr>)]\<rparr>"

definition ex_hmac :: "string \<Rightarrow> string \<Rightarrow> string" where
  "ex_hmac k msg = ''h'' @ k @ take 4 (rev msg)"

definition ex_file :: "64 word \<Rightarrow> string \<Rightarrow> envelope" where
  "ex_file sq bytes = \<lparr>en_SchemaVersion = 2, en_WrittenAt = 9, en_WriterInstance = ''relay-a'', en_WriteSeq = sq,
     en_HMAC = hex_encode (''hmk'' @ take 4 (rev bytes)), en_SHA256 = hex_encode bytes, en_Payload = bytes\<rparr>"

definition ex_lib :: Lib where
  "ex_lib = \<lparr>
     marshal_payload = (\<lambda>p. if p = newPayload then Inr ''first'' else if p = ex_payload then Inr ''second'' else Inl [ErrText ''json'']),
     unmarshal_payload = (\<lambda>s. if s = ''first'' then Some (raw_of newPayload) else if s = ''second'' then Some (raw_of ex_payload) else None),
     marshal_envelope = (\<lambda>e. if e = ex_file 1 ''first'' then Inr ''file 1'' else if e = ex_file 2 ''second'' then Inr ''file 2'' else Inl [ErrText ''json'']),
     unmarshal_envelope = (\<lambda>s. if s = ''file 1'' then Some (ex_file 1 ''first'') else if s = ''file 2'' then Some (ex_file 2 ''second'') else None),
     sha256 = (\<lambda>s. s), hmac_sha256 = ex_hmac, hkdf_key = (\<lambda>k lbl n. Inr k),
     gcm_seal = (\<lambda>k n p a. a @ p), gcm_open = (\<lambda>k n s a. if has_prefix s a then Some (drop (length a) s) else None),
     rfc3339nano = (\<lambda>t. itoa_int t)\<rparr>"

definition ex_codec :: codec where
  "ex_codec = \<lparr>macKey = Some ''mk'', masterKey = ''mk'', insecure = False\<rparr>"

definition ex_env :: envelope where
  "ex_env = \<lparr>en_SchemaVersion = 2, en_WrittenAt = 7, en_WriterInstance = ''relay-a'', en_WriteSeq = 3, en_HMAC = ''00'',
     en_SHA256 = ''aa'', en_Payload = ''{}''\<rparr>"

theorem macInput_injective_witness:
  "ex_env\<lparr>en_HMAC := []\<rparr> = ex_env\<lparr>en_HMAC := ''ff''\<rparr>\<lparr>en_HMAC := []\<rparr>"
proof (rule macInput_injective [where L = ex_lib])
  show "rfc3339nano ex_lib t = rfc3339nano ex_lib t' \<Longrightarrow> t = t'" for t t'
    by (simp add: ex_lib_def itoa_int_inj)
  show "NL \<notin> set (rfc3339nano ex_lib t)" for t
    by (simp add: ex_lib_def NL_not_itoa_int)
  show "macInput ex_lib ex_env = macInput ex_lib (ex_env\<lparr>en_HMAC := ''ff''\<rparr>)"
    by (simp add: macInput_def)
qed

section \<open>Decoding and loading\<close>

lemma decode_Inr_iff:
  "decode L ord c bytes now = Inr (m, env) \<longleftrightarrow>
     unmarshal_envelope L bytes = Some env \<and>
     MinSchemaVersion \<le> en_SchemaVersion env \<and> en_SchemaVersion env \<le> SchemaVersion \<and>
     (case macKey c of None \<Rightarrow> True | Some k \<Rightarrow> \<not> hmac_bad L k env) \<and>
     hex_encode (sha256 L (en_Payload env)) = en_SHA256 env \<and>
     (\<exists>raw. unmarshal_payload L (en_Payload env) = Some raw \<and>
        validateAll ord (raw_model (fill_sections raw) (en_WriteSeq env) (en_SchemaVersion env)) now = Inr m) \<and>
     checkSecrets L c m = None"
  by (auto simp: decode_def not_less split: option.splits sum.splits if_splits)

lemma hmac_ok_iff: "\<not> hmac_bad L k env \<longleftrightarrow>
    en_HMAC env \<noteq> [] \<and> hex_decode (en_HMAC env) = Some (hmac_sha256 L k (macInput L env))"
  by (auto simp: hmac_bad_def computeMAC_def split: option.splits)

lemma first_error_None_iff: "first_error f xs = None \<longleftrightarrow> (\<forall>x \<in> set xs. f x = None)"
  by (induction xs) auto

text \<open>
  C36. With a master key, a file is only accepted when it is authentic and sound: its HMAC is the one of its own
  metadata, checksum and payload under the derived key, the checksum matches, the model is valid at that time,
  and every stored secret is encrypted and opens with the binding of its own field.
\<close>

theorem decode_accepts_only_authentic:
  assumes ok: "decode L ord c bytes now = Inr (m, env)" and mac: "macKey c = Some k" and key: "masterKey c \<noteq> []"
    and ord: "fset (fmdom (RelayNodes (payload m))) \<subseteq> set ord"
  shows "unmarshal_envelope L bytes = Some env \<and> en_SchemaVersion env \<in> {1, 2} \<and>
     hex_decode (en_HMAC env) = Some (hmac_sha256 L k (macInput L env)) \<and>
     en_SHA256 env = hex_encode (sha256 L (en_Payload env)) \<and>
     model_ok now m \<and> seq m = en_WriteSeq env \<and>
     list_all (\<lambda>f. get_or [] (ServerConfig (payload m)) f = [] \<or>
        \<not> isl (OpenSecret L (get_or [] (ServerConfig (payload m)) f) (masterKey c) (ConfigAAD f))) secretConfigKeys \<and>
     fmpred (\<lambda>i n. rn_TokenSecret n = [] \<or> \<not> isl (OpenSecret L (rn_TokenSecret n) (masterKey c) (RelayTokenSecretAAD i)))
        (RelayNodes (payload m))"
proof -
  from ok obtain raw where env: "unmarshal_envelope L bytes = Some env"
    and ver: "MinSchemaVersion \<le> en_SchemaVersion env" "en_SchemaVersion env \<le> SchemaVersion"
    and hmac: "\<not> hmac_bad L k env" and sha: "hex_encode (sha256 L (en_Payload env)) = en_SHA256 env"
    and val: "validateAll ord (raw_model (fill_sections raw) (en_WriteSeq env) (en_SchemaVersion env)) now = Inr m"
    and sec: "checkSecrets L c m = None"
    by (auto simp: decode_Inr_iff mac)
  have "payload m = fill_sections raw"
    using validateAll_payload [OF val] by (simp add: raw_model_def)
  then have "fset (fmdom (RelayNodes (payload (raw_model (fill_sections raw) (en_WriteSeq env) (en_SchemaVersion env))))) \<subseteq> set ord"
    using ord by (simp add: raw_model_def)
  from validateAll_Inr_iff [OF this] val have "model_ok now m" "seq m = en_WriteSeq env" by (auto simp: raw_model_def)
  moreover have "en_SchemaVersion env \<in> {1, 2}" using ver by (auto simp: MinSchemaVersion_def SchemaVersion_def)
  moreover have "list_all (\<lambda>f. get_or [] (ServerConfig (payload m)) f = [] \<or>
        \<not> isl (OpenSecret L (get_or [] (ServerConfig (payload m)) f) (masterKey c) (ConfigAAD f))) secretConfigKeys"
    using sec key by (auto simp: checkSecrets_def first_error_None_iff list_all_iff checkSecretKey_def Let_def split: if_splits)
  moreover have "fmpred (\<lambda>i n. rn_TokenSecret n = [] \<or>
        \<not> isl (OpenSecret L (rn_TokenSecret n) (masterKey c) (RelayTokenSecretAAD i))) (RelayNodes (payload m))"
    using sec key by (auto simp: checkSecrets_def fmpred_iff split: if_splits)
  ultimately show ?thesis using env hmac sha by (simp add: hmac_ok_iff)
qed

theorem decode_accepts_only_authentic_witness:
  "unmarshal_envelope ex_lib ''file 2'' = Some (ex_file 2 ''second'') \<and> en_SchemaVersion (ex_file 2 ''second'') \<in> {1, 2} \<and>
   hex_decode (en_HMAC (ex_file 2 ''second'')) = Some (hmac_sha256 ex_lib ''mk'' (macInput ex_lib (ex_file 2 ''second''))) \<and>
   model_ok 9 (raw_model ex_payload 2 2)"
proof -
  have dec: "decode ex_lib [] ex_codec ''file 2'' 9 = Inr (raw_model ex_payload 2 2, ex_file 2 ''second'')"
    by code_simp
  have "macKey ex_codec = Some ''mk''" "masterKey ex_codec \<noteq> []" by (simp_all add: ex_codec_def)
  moreover have "fset (fmdom (RelayNodes (payload (raw_model ex_payload 2 2)))) \<subseteq> set []"
    by (simp add: raw_model_def ex_payload_def newPayload_def)
  ultimately show ?thesis using decode_accepts_only_authentic [OF dec, of "''mk''"] by blast
qed

text \<open>
  What the codec relies on for one file: the JSON decoder reads back this payload and this envelope (texts that are not
  UTF-8 would not come back).
\<close>

definition json_keeps :: "Lib \<Rightarrow> codec \<Rightarrow> Payload \<Rightarrow> 64 word \<Rightarrow> string \<Rightarrow> gotime \<Rightarrow> bool" where
  "json_keeps L c p sq inst now \<longleftrightarrow>
     (\<forall>b. marshal_payload L p = Inr b \<longrightarrow> (\<exists>raw. unmarshal_payload L b = Some raw \<and> fill_sections raw = p) \<and>
        (\<forall>s. marshal_envelope L (sealed_envelope L c b sq inst now) = Inr s \<longrightarrow>
           unmarshal_envelope L s = Some (sealed_envelope L c b sq inst now)))"

lemma json_keeps_ex: "json_keeps ex_lib c p sq inst now"
  unfolding json_keeps_def by (auto simp: ex_lib_def split: if_splits)

lemma sealed_envelope_fields:
  "en_SchemaVersion (sealed_envelope L c b sq inst now) = SchemaVersion" "en_Payload (sealed_envelope L c b sq inst now) = b"
  "en_WriteSeq (sealed_envelope L c b sq inst now) = sq" "en_SHA256 (sealed_envelope L c b sq inst now) = hex_encode (sha256 L b)"
  by (simp_all add: sealed_envelope_def Let_def split: option.split)

lemma sealed_envelope_authentic:
  assumes "macKey c = Some k" "\<And>k msg. hmac_sha256 L k msg \<noteq> []"
  shows "\<not> hmac_bad L k (sealed_envelope L c b sq inst now)"
proof -
  have "hex_encode s \<noteq> []" if "s \<noteq> []" for s using that by (cases s) simp_all
  then show ?thesis using assms by (simp add: hmac_ok_iff sealed_envelope_def computeMAC_def macInput_def Let_def)
qed

text \<open>Decoding what was encoded: the model comes back unless one of its secrets does not open.\<close>

lemma decode_encode:
  assumes json: "json_keeps L c p sq inst now" and enc: "encode L c p sq inst now = Inr bytes"
    and mac: "\<And>k msg. hmac_sha256 L k msg \<noteq> []"
    and ok: "model_ok now' m" "payload m = p" "seq m = sq" "schema m = SchemaVersion"
    and ord: "fset (fmdom (RelayNodes p)) \<subseteq> set ord"
  shows "\<exists>env. decode L ord c bytes now' = check (checkSecrets L c m) (Inr (m, env))"
proof -
  from enc obtain b where b: "marshal_payload L p = Inr b" "marshal_envelope L (sealed_envelope L c b sq inst now) = Inr bytes"
    by (auto simp: encode_def and_then_Inr_iff)
  let ?env = "sealed_envelope L c b sq inst now"
  have un: "unmarshal_envelope L bytes = Some ?env" and "\<exists>raw. unmarshal_payload L b = Some raw \<and> fill_sections raw = p"
    using json b unfolding json_keeps_def by blast+
  then obtain raw where raw: "unmarshal_payload L b = Some raw" "fill_sections raw = p" by blast
  have "\<not> (case macKey c of None \<Rightarrow> False | Some k \<Rightarrow> hmac_bad L k ?env)"
    using sealed_envelope_authentic [OF _ mac] by (auto split: option.split)
  moreover have "validateAll ord (raw_model p sq SchemaVersion) now' = Inr m"
    using validateAll_reload [OF ok(1)] ok(2-4) ord by (simp add: SchemaVersion_def)
  ultimately have "decode L ord c bytes now' = check (checkSecrets L c m) (Inr (m, ?env))"
    using un raw by (simp add: decode_def sealed_envelope_fields MinSchemaVersion_def SchemaVersion_def)
  then show ?thesis by blast
qed

lemma checkSecrets_final: "checkSecrets L c m = Some e \<Longrightarrow> isFinal e"
proof -
  have first: "isFinal e" if "first_error (checkSecretKey L c m) ks = Some e" for ks
    using that by (induction ks) (auto simp: checkSecretKey_def Let_def err_or_def isFinal_def errors_is_def split: if_splits option.splits)
  have rest: "isFinal e" if "range_in ks (RelayNodes (payload m)) (\<lambda>i n.
      if rn_TokenSecret n \<noteq> [] \<and> isl (OpenSecret L (rn_TokenSecret n) (masterKey c) (RelayTokenSecretAAD i))
      then Some [ErrSecurityInvariant] else None) = Some e" for ks
    using that by (induction ks) (auto simp: err_or_def isFinal_def errors_is_def split: if_splits option.splits)
  show "checkSecrets L c m = Some e \<Longrightarrow> isFinal e"
    using first rest by (auto simp: checkSecrets_def err_or_def range_err_def split: option.splits if_splits)
qed

text \<open>
  Writing and reading back: what \<open>encode\<close> produces for a valid model of the current schema, whose secrets
  pass the load check, decodes at any later time to exactly that model, indexes included (given that the JSON decoder
  reads this file back and that an HMAC is never empty).
\<close>

theorem encode_decode_roundtrip:
  assumes "json_keeps L c (payload m) (seq m) inst now" and "\<And>k msg. hmac_sha256 L k msg \<noteq> []"
    and "model_ok now m" and "schema m = SchemaVersion" and "checkSecrets L c m = None" and "now \<le> now'"
    and "encode L c (payload m) (seq m) inst now = Inr bytes" and "set ord = fset (fmdom (RelayNodes (payload m)))"
  shows "\<exists>env. decode L ord c bytes now' = Inr (m, env)"
  using decode_encode [OF assms(1,7,2) model_ok_later [OF assms(3,6)] refl refl assms(4)] assms(5,8) by simp

theorem encode_decode_roundtrip_witness:
  "\<exists>env. decode ex_lib [] ex_codec ''file 2'' 9 = Inr (raw_model ex_payload 2 2, env)"
proof (rule encode_decode_roundtrip [where now = 9 and inst = "''relay-a''", OF json_keeps_ex])
  show "hmac_sha256 ex_lib k msg \<noteq> []" for k msg by (simp add: ex_lib_def ex_hmac_def)
  show "model_ok 9 (raw_model ex_payload 2 2)"
    by (simp add: model_ok_def entries_ok_def idxs_ok_def relays_ok_def checkLinks_def checkLinkTrust_def
        check_trust_key_def raw_model_def newPayload_def ex_payload_def LinkTrust_zero_def get_or_def Let_def fmpred_upd_iff)
  show "encode ex_lib ex_codec (payload (raw_model ex_payload 2 2)) (seq (raw_model ex_payload 2 2)) ''relay-a'' 9 = Inr ''file 2''"
    by code_simp
  show "checkSecrets ex_lib ex_codec (raw_model ex_payload 2 2) = None" by code_simp
qed (simp_all add: raw_model_def SchemaVersion_def ex_payload_def newPayload_def)

text \<open>Loading a quiet disk: the reads of \<open>load\<close> without faults.\<close>

lemma load_state_ok:
  assumes "fmlookup F StateFile = Some (b, d)" "int (length b) \<le> mx" "decode L ord c b now = Inr (m, env)"
  shows "fst (load L ord now c mx (start F [] h)) = Inr \<lparr>ld_m = m, ld_env = env, ld_fromPrev = False\<rparr>"
  using assms by (simp add: load_def bindP_def attempt_def fs_ReadFileMax_def fs_call_def next_fault_def start_def ret_def)

lemma load_state_final:
  assumes "fmlookup F StateFile = Some (b, d)" "int (length b) \<le> mx" "decode L ord c b now = Inl e" "isFinal e"
  shows "fst (load L ord now c mx (start F [] h)) = Inl e"
  using assms by (simp add: load_def bindP_def attempt_def fs_ReadFileMax_def fs_call_def next_fault_def start_def raise_def)

lemma load_encoded:
  assumes "fmlookup F StateFile = Some (b, d)" "int (length b) \<le> mx" "decode L ord c b now = check (checkSecrets L c m) (Inr (m, env))"
  shows "fst (load L ord now c mx (start F [] h)) = check (checkSecrets L c m) (Inr \<lparr>ld_m = m, ld_env = env, ld_fromPrev = False\<rparr>)"
proof (cases "checkSecrets L c m")
  case None
  with load_state_ok [OF assms(1,2)] assms(3) show ?thesis by simp
next
  case (Some e)
  with load_state_final [OF assms(1,2) _ checkSecrets_final [OF Some]] assms(3) show ?thesis by (simp add: check_def)
qed

lemma load_from_prev:
  assumes "fmlookup F StateFile = None" "fmlookup F PrevFile = Some (b, d)" "int (length b) \<le> mx"
    and "decode L ord c b now = Inr (m, env)"
  shows "fst (load L ord now c mx (start F [] h)) = Inr \<lparr>ld_m = m, ld_env = env, ld_fromPrev = True\<rparr>"
  using assms by (simp add: load_def loadPrev_def bindP_def attempt_def fs_ReadFileMax_def fs_call_def next_fault_def
      start_def ret_def errors_is_def fs_exists_def fs_Stat_def)



text \<open>
  C39. A refused file is never masked by the previous generation: when relay.state is readable and its decoding
  ends in a final error (unsupported schema, failed authentication, a secret in clear or moved to another field),
  loading ends with that error, whatever relay.state.prev holds.
\<close>

theorem final_error_never_falls_back:
  assumes "fmlookup F StateFile = Some (b, d)" and "int (length b) \<le> mx"
    and "decode L ord c b now = Inl e" and "isFinal e"
  shows "fst (load L ord now c mx (start F [] h)) = Inl e"
  using assms by (rule load_state_final)

theorem final_error_never_falls_back_witness:
  "fst (load ex_lib [] 9 (ex_codec\<lparr>macKey := Some ''other''\<rparr>) 100
      (start (fmap_of_list [(StateFile, (''file 1'', True)), (PrevFile, (''file 2'', True))]) [] ())) =
   Inl [ErrSecurityInvariant, ErrAuthentication]"
proof (rule final_error_never_falls_back [where b = "''file 1''" and d = True])
  show "decode ex_lib [] (ex_codec\<lparr>macKey := Some ''other''\<rparr>) ''file 1'' 9 = Inl [ErrSecurityInvariant, ErrAuthentication]"
    by code_simp
qed (simp_all add: isFinal_def errors_is_def)

text \<open>
  A sealed secret opens with the same key and field and gives the plaintext back; the stored value carries the
  marker that loading demands (given the AES-GCM law: opening inverts sealing for the same key, nonce and data).
\<close>

theorem seal_open_roundtrip:
  assumes gcm: "\<And>k n p a. gcm_open L k n (gcm_seal L k n p a) a = Some p" and nonce: "length nonce = nonceSize"
  shows "OpenSecret L (SealSecret L nonce plain mk aad) mk aad = Inr plain \<and>
     has_prefix (SealSecret L nonce plain mk aad) EncPrefix"
  using assms by (simp add: OpenSecret_def SealSecret_def EncryptWithAAD_def DecryptWithAAD_def has_prefix_def)

theorem seal_open_roundtrip_witness:
  "OpenSecret ex_lib (SealSecret ex_lib ''0123456789ab'' ''top'' ''mk'' ''jwt'') ''mk'' ''jwt'' = Inr ''top'' \<and>
   has_prefix (SealSecret ex_lib ''0123456789ab'' ''top'' ''mk'' ''jwt'') EncPrefix"
  by (rule seal_open_roundtrip) (simp_all add: ex_lib_def nonceSize_def)

end
