(* ===== verification/State_Tx.thy ===== *)
theory State_Tx
  imports State_Model
begin

text \<open>
  The transaction handle of the state engine (\<open>internal/state/tx.go\<close>): every write of a mutation goes
  through it, is applied to the working model at once and recorded in an undo log. The lemmas show that the
  undo log restores the model exactly, that every operation keeps the indexes exact and the entries valid,
  and what the final cross-entity check adds.
\<close>

section \<open>Options and the transaction\<close>

text \<open>
  The fields of \<open>state.Options\<close> that decide something. The file system, the clock, the write guard and the
  piggyback are arguments of the operations that call them.
\<close>

record Options =
  o_MaxBytes :: int
  o_Instance :: string
  o_MasterKey :: string
  o_InsecureTestMode :: bool
  o_RequireEncryptedSecrets :: bool

definition clearSecretsAllowed :: "Options \<Rightarrow> bool" where
  "clearSecretsAllowed o' \<longleftrightarrow> o_InsecureTestMode o' \<and> o_MasterKey o' = [] \<and> \<not> o_RequireEncryptedSecrets o'"

record Tx =
  tx_m :: model
  tx_undo :: "(model \<Rightarrow> model) list"
  tx_relays :: "string fset"
  tx_links :: bool
  tx_opts :: Options
  tx_started :: gotime

definition newTx :: "model \<Rightarrow> Options \<Rightarrow> gotime \<Rightarrow> Tx" where
  "newTx m o' now = \<lparr>tx_m = m, tx_undo = [], tx_relays = {||}, tx_links = False, tx_opts = o', tx_started = now\<rparr>"

text \<open>\<open>rollback\<close> runs the undo log from its last entry to its first.\<close>

definition rollback :: "Tx \<Rightarrow> Tx" where
  "rollback t = t\<lparr>tx_m := fold (\<lambda>u m. u m) (rev (tx_undo t)) (tx_m t), tx_undo := []\<rparr>"

text \<open>\<open>finish\<close>: the cross-entity invariants of what this mutation touched.\<close>

definition finish :: "Tx \<Rightarrow> goerr option" where
  "finish t =
     err_or (if fBall (tx_relays t) (\<lambda>tid. checkRevokedBlacklisted (tx_m t) tid (tx_started t) = None)
             then None else Some [ErrInvalid])
     (if tx_links t then checkLinks (tx_m t) (tx_started t) else None)"

section \<open>Writes with an undo log\<close>

text \<open>
  A section of the model is given by its accessor and its update function, as the record package names
  them. The generic Go helpers \<open>put\<close>, \<open>del\<close>, \<open>idxSet\<close> and \<open>idxDel\<close> work on a section.
\<close>

definition put :: "(model \<Rightarrow> (string, 'v) fmap) \<Rightarrow> (((string, 'v) fmap \<Rightarrow> (string, 'v) fmap) \<Rightarrow> model \<Rightarrow> model)
    \<Rightarrow> Tx \<Rightarrow> string \<Rightarrow> 'v \<Rightarrow> Tx" where
  "put get upd t key v =
     (let old = fmlookup (get (tx_m t)) key in
      t\<lparr>tx_m := upd (fmupd key v) (tx_m t),
        tx_undo := tx_undo t @
          [\<lambda>m. case old of Some w \<Rightarrow> upd (fmupd key w) m | None \<Rightarrow> upd (fmdrop key) m]\<rparr>)"

definition del :: "(model \<Rightarrow> (string, 'v) fmap) \<Rightarrow> (((string, 'v) fmap \<Rightarrow> (string, 'v) fmap) \<Rightarrow> model \<Rightarrow> model)
    \<Rightarrow> Tx \<Rightarrow> string \<Rightarrow> Tx" where
  "del get upd t key =
     (case fmlookup (get (tx_m t)) key of
        None \<Rightarrow> t
      | Some old \<Rightarrow> t\<lparr>tx_m := upd (fmdrop key) (tx_m t),
                     tx_undo := tx_undo t @ [\<lambda>m. upd (fmupd key old) m]\<rparr>)"

definition idxSet :: "(model \<Rightarrow> (string, string) fmap) \<Rightarrow> (((string, string) fmap \<Rightarrow> (string, string) fmap) \<Rightarrow> model \<Rightarrow> model)
    \<Rightarrow> Tx \<Rightarrow> string \<Rightarrow> string \<Rightarrow> Tx" where
  "idxSet get upd t attr owner = (if attr = [] then t else put get upd t attr owner)"

definition idxDel :: "(model \<Rightarrow> (string, string) fmap) \<Rightarrow> (((string, string) fmap \<Rightarrow> (string, string) fmap) \<Rightarrow> model \<Rightarrow> model)
    \<Rightarrow> Tx \<Rightarrow> string \<Rightarrow> Tx" where
  "idxDel get upd t attr = (if attr = [] then t else del get upd t attr)"

abbreviation "get_Agents \<equiv> (\<lambda>m. Agents (payload m))"
abbreviation "upd_Agents \<equiv> (\<lambda>f. payload_update (Agents_update f))"
abbreviation "get_AuthorizedKeys \<equiv> (\<lambda>m. AuthorizedKeys (payload m))"
abbreviation "upd_AuthorizedKeys \<equiv> (\<lambda>f. payload_update (AuthorizedKeys_update f))"
abbreviation "get_EnrollmentTokens \<equiv> (\<lambda>m. EnrollmentTokens (payload m))"
abbreviation "upd_EnrollmentTokens \<equiv> (\<lambda>f. payload_update (EnrollmentTokens_update f))"
abbreviation "get_PluginTokens \<equiv> (\<lambda>m. PluginTokens (payload m))"
abbreviation "upd_PluginTokens \<equiv> (\<lambda>f. payload_update (PluginTokens_update f))"
abbreviation "get_RelayParentTokens \<equiv> (\<lambda>m. RelayParentTokens (payload m))"
abbreviation "upd_RelayParentTokens \<equiv> (\<lambda>f. payload_update (RelayParentTokens_update f))"
abbreviation "get_Blacklist \<equiv> (\<lambda>m. Blacklist (payload m))"
abbreviation "upd_Blacklist \<equiv> (\<lambda>f. payload_update (Blacklist_update f))"
abbreviation "get_RelayNodes \<equiv> (\<lambda>m. RelayNodes (payload m))"
abbreviation "upd_RelayNodes \<equiv> (\<lambda>f. payload_update (RelayNodes_update f))"
abbreviation "get_ServerConfig \<equiv> (\<lambda>m. ServerConfig (payload m))"
abbreviation "upd_ServerConfig \<equiv> (\<lambda>f. payload_update (ServerConfig_update f))"
abbreviation "get_LinkTokens \<equiv> (\<lambda>m. LinkTokens (payload m))"
abbreviation "upd_LinkTokens \<equiv> (\<lambda>f. payload_update (LinkTokens_update f))"

section \<open>The operations\<close>

subsection \<open>Agents\<close>

definition Tx_Agent :: "Tx \<Rightarrow> string \<Rightarrow> Agent option" where
  "Tx_Agent t hostname = fmlookup (Agents (payload (tx_m t))) hostname"

definition PutAgent :: "Tx \<Rightarrow> Agent \<Rightarrow> Tx \<times> goerr option" where
  "PutAgent t a =
     (if ag_Hostname a = [] then (t, Some [ErrInvalid])
      else (put get_Agents upd_Agents t (ag_Hostname a) a, None))"

definition Tx_Agents :: "Tx \<Rightarrow> Agent list" where
  "Tx_Agents t = map (\<lambda>k. the (fmlookup (Agents (payload (tx_m t))) k)) (keys (Agents (payload (tx_m t))))"

definition DeleteAgent :: "Tx \<Rightarrow> string \<Rightarrow> Tx \<times> bool" where
  "DeleteAgent t hostname =
     (del get_Agents upd_Agents t hostname, fmlookup (Agents (payload (tx_m t))) hostname \<noteq> None)"

subsection \<open>Authorized keys\<close>

definition Tx_AuthorizedKey :: "Tx \<Rightarrow> string \<Rightarrow> AuthorizedKey option" where
  "Tx_AuthorizedKey t hostname = fmlookup (AuthorizedKeys (payload (tx_m t))) hostname"

definition PutAuthorizedKey :: "Tx \<Rightarrow> AuthorizedKey \<Rightarrow> Tx \<times> goerr option" where
  "PutAuthorizedKey t k =
     (if ak_Hostname k = [] \<or> ak_PublicKeyPEM k = [] then (t, Some [ErrInvalid])
      else (put get_AuthorizedKeys upd_AuthorizedKeys t (ak_Hostname k) k, None))"

definition DeleteAuthorizedKey :: "Tx \<Rightarrow> string \<Rightarrow> Tx \<times> bool" where
  "DeleteAuthorizedKey t hostname =
     (del get_AuthorizedKeys upd_AuthorizedKeys t hostname,
      fmlookup (AuthorizedKeys (payload (tx_m t))) hostname \<noteq> None)"

subsection \<open>Enrollment tokens\<close>

definition Tx_EnrollmentToken :: "Tx \<Rightarrow> string \<Rightarrow> EnrollmentToken option" where
  "Tx_EnrollmentToken t tid = fmlookup (EnrollmentTokens (payload (tx_m t))) tid"

definition Tx_EnrollmentTokenByHash :: "Tx \<Rightarrow> string \<Rightarrow> EnrollmentToken option" where
  "Tx_EnrollmentTokenByHash t hash =
     (case fmlookup (enrollByHash (tx_m t)) hash of None \<Rightarrow> None | Some tid \<Rightarrow> Tx_EnrollmentToken t tid)"

definition PutEnrollmentToken :: "Tx \<Rightarrow> EnrollmentToken \<Rightarrow> Tx \<times> goerr option" where
  "PutEnrollmentToken t v =
     (case checkEnrollmentToken (et_ID v) v of
        Some e \<Rightarrow> (t, Some e)
      | None \<Rightarrow>
          if (case fmlookup (enrollByHash (tx_m t)) (et_TokenHash v) of None \<Rightarrow> False | Some owner \<Rightarrow> owner \<noteq> et_ID v)
          then (t, Some [ErrDuplicate])
          else
            (let t1 = (case fmlookup (EnrollmentTokens (payload (tx_m t))) (et_ID v) of
                   None \<Rightarrow> t
                 | Some old \<Rightarrow>
                     if et_TokenHash old \<noteq> et_TokenHash v
                     then idxDel enrollByHash enrollByHash_update t (et_TokenHash old) else t);
                 t2 = idxSet enrollByHash enrollByHash_update t1 (et_TokenHash v) (et_ID v)
             in (put get_EnrollmentTokens upd_EnrollmentTokens t2 (et_ID v) v, None)))"

definition DeleteEnrollmentToken :: "Tx \<Rightarrow> string \<Rightarrow> Tx \<times> bool" where
  "DeleteEnrollmentToken t tid =
     (case fmlookup (EnrollmentTokens (payload (tx_m t))) tid of
        None \<Rightarrow> (t, False)
      | Some old \<Rightarrow>
          (del get_EnrollmentTokens upd_EnrollmentTokens
             (idxDel enrollByHash enrollByHash_update t (et_TokenHash old)) tid, True))"

subsection \<open>Plugin tokens\<close>

definition Tx_PluginToken :: "Tx \<Rightarrow> string \<Rightarrow> PluginToken option" where
  "Tx_PluginToken t tid = fmlookup (PluginTokens (payload (tx_m t))) tid"

definition Tx_PluginTokenByHash :: "Tx \<Rightarrow> string \<Rightarrow> PluginToken option" where
  "Tx_PluginTokenByHash t hash =
     (case fmlookup (pluginByHash (tx_m t)) hash of None \<Rightarrow> None | Some tid \<Rightarrow> Tx_PluginToken t tid)"

definition PutPluginToken :: "Tx \<Rightarrow> PluginToken \<Rightarrow> Tx \<times> goerr option" where
  "PutPluginToken t v =
     (case checkPluginToken (pt_ID v) v of
        Some e \<Rightarrow> (t, Some e)
      | None \<Rightarrow>
          if (case fmlookup (pluginByHash (tx_m t)) (pt_TokenHash v) of None \<Rightarrow> False | Some owner \<Rightarrow> owner \<noteq> pt_ID v)
          then (t, Some [ErrDuplicate])
          else
            (let t1 = (case fmlookup (PluginTokens (payload (tx_m t))) (pt_ID v) of
                   None \<Rightarrow> t
                 | Some old \<Rightarrow>
                     if pt_TokenHash old \<noteq> pt_TokenHash v
                     then idxDel pluginByHash pluginByHash_update t (pt_TokenHash old) else t);
                 t2 = idxSet pluginByHash pluginByHash_update t1 (pt_TokenHash v) (pt_ID v)
             in (put get_PluginTokens upd_PluginTokens t2 (pt_ID v) v, None)))"

definition DeletePluginToken :: "Tx \<Rightarrow> string \<Rightarrow> Tx \<times> bool" where
  "DeletePluginToken t tid =
     (case fmlookup (PluginTokens (payload (tx_m t))) tid of
        None \<Rightarrow> (t, False)
      | Some old \<Rightarrow>
          (del get_PluginTokens upd_PluginTokens
             (idxDel pluginByHash pluginByHash_update t (pt_TokenHash old)) tid, True))"

subsection \<open>Relay-parent tokens\<close>

definition Tx_RelayParentToken :: "Tx \<Rightarrow> string \<Rightarrow> RelayParentToken option" where
  "Tx_RelayParentToken t tid = fmlookup (RelayParentTokens (payload (tx_m t))) tid"

definition PutRelayParentToken :: "Tx \<Rightarrow> RelayParentToken \<Rightarrow> Tx \<times> goerr option" where
  "PutRelayParentToken t v =
     (case checkRelayParentToken (rp_ID v) v of
        Some e \<Rightarrow> (t, Some e)
      | None \<Rightarrow>
          if (case fmlookup (parentByJTI (tx_m t)) (rp_JTI v) of None \<Rightarrow> False | Some owner \<Rightarrow> owner \<noteq> rp_ID v)
          then (t, Some [ErrDuplicate])
          else
            (let t1 = (case fmlookup (RelayParentTokens (payload (tx_m t))) (rp_ID v) of
                   None \<Rightarrow> t
                 | Some old \<Rightarrow>
                     if rp_JTI old \<noteq> rp_JTI v
                     then idxDel parentByJTI parentByJTI_update t (rp_JTI old) else t);
                 t2 = idxSet parentByJTI parentByJTI_update t1 (rp_JTI v) (rp_ID v)
             in (put get_RelayParentTokens upd_RelayParentTokens t2 (rp_ID v) v, None)))"

definition DeleteRelayParentToken :: "Tx \<Rightarrow> string \<Rightarrow> Tx \<times> bool" where
  "DeleteRelayParentToken t tid =
     (case fmlookup (RelayParentTokens (payload (tx_m t))) tid of
        None \<Rightarrow> (t, False)
      | Some old \<Rightarrow>
          (del get_RelayParentTokens upd_RelayParentTokens
             (idxDel parentByJTI parentByJTI_update t (rp_JTI old)) tid, True))"

subsection \<open>Link tokens and link trust\<close>

definition Tx_LinkToken :: "Tx \<Rightarrow> string \<Rightarrow> LinkToken option" where
  "Tx_LinkToken t tid = fmlookup (LinkTokens (payload (tx_m t))) tid"

definition Tx_LinkTokenByJTI :: "Tx \<Rightarrow> string \<Rightarrow> LinkToken option" where
  "Tx_LinkTokenByJTI t jti =
     (case fmlookup (linkByJTI (tx_m t)) jti of None \<Rightarrow> None | Some tid \<Rightarrow> Tx_LinkToken t tid)"

definition PutLinkToken :: "Tx \<Rightarrow> LinkToken \<Rightarrow> Tx \<times> goerr option" where
  "PutLinkToken t v =
     (case checkLinkToken (lt_ID v) v of
        Some e \<Rightarrow> (t, Some e)
      | None \<Rightarrow>
          if (case fmlookup (linkByJTI (tx_m t)) (lt_JTI v) of None \<Rightarrow> False | Some owner \<Rightarrow> owner \<noteq> lt_ID v)
          then (t, Some [ErrDuplicate])
          else
            (let t1 = (case fmlookup (LinkTokens (payload (tx_m t))) (lt_ID v) of
                   None \<Rightarrow> t
                 | Some old \<Rightarrow>
                     if lt_JTI old \<noteq> lt_JTI v
                     then idxDel linkByJTI linkByJTI_update t (lt_JTI old) else t);
                 t2 = idxSet linkByJTI linkByJTI_update t1 (lt_JTI v) (lt_ID v)
             in ((put get_LinkTokens upd_LinkTokens t2 (lt_ID v) v)\<lparr>tx_links := True\<rparr>, None)))"

definition DeleteLinkToken :: "Tx \<Rightarrow> string \<Rightarrow> Tx \<times> bool" where
  "DeleteLinkToken t tid =
     (case fmlookup (LinkTokens (payload (tx_m t))) tid of
        None \<Rightarrow> (t, False)
      | Some old \<Rightarrow>
          ((del get_LinkTokens upd_LinkTokens
             (idxDel linkByJTI linkByJTI_update t (lt_JTI old)) tid)\<lparr>tx_links := True\<rparr>, True))"

definition Tx_LinkTrust :: "Tx \<Rightarrow> LinkTrust" where
  "Tx_LinkTrust t = Link_trust (payload (tx_m t))"

definition SetLinkTrust :: "Tx \<Rightarrow> LinkTrust \<Rightarrow> Tx \<times> goerr option" where
  "SetLinkTrust t v =
     (case checkLinkTrust v of
        Some e \<Rightarrow> (t, Some e)
      | None \<Rightarrow>
          (let old = Link_trust (payload (tx_m t)) in
           (t\<lparr>tx_m := payload_update (Link_trust_update (\<lambda>_. v)) (tx_m t),
              tx_undo := tx_undo t @ [\<lambda>m. payload_update (Link_trust_update (\<lambda>_. old)) m],
              tx_links := True\<rparr>, None)))"

subsection \<open>Blacklist\<close>

definition Tx_Blacklisted :: "Tx \<Rightarrow> string \<Rightarrow> bool" where
  "Tx_Blacklisted t jti \<longleftrightarrow> fmlookup (Blacklist (payload (tx_m t))) jti \<noteq> None"

definition PutBlacklist :: "Tx \<Rightarrow> BlacklistEntry \<Rightarrow> Tx \<times> goerr option" where
  "PutBlacklist t b =
     (case checkBlacklist (bl_JTI b) b of
        Some e \<Rightarrow> (t, Some e)
      | None \<Rightarrow> (put get_Blacklist upd_Blacklist t (bl_JTI b) b, None))"

fun purge_loop :: "gotime \<Rightarrow> string list \<Rightarrow> Tx \<Rightarrow> nat \<Rightarrow> Tx \<times> nat" where
  "purge_loop now [] t n = (t, n)"
| "purge_loop now (jti # ks) t n =
     (case fmlookup (Blacklist (payload (tx_m t))) jti of
        None \<Rightarrow> purge_loop now ks t n
      | Some b \<Rightarrow>
          if \<not> bl_ExpiresAt b > now then purge_loop now ks (del get_Blacklist upd_Blacklist t jti) (Suc n)
          else purge_loop now ks t n)"

definition PurgeExpiredBlacklist :: "Tx \<Rightarrow> gotime \<Rightarrow> Tx \<times> nat" where
  "PurgeExpiredBlacklist t now = purge_loop now (keys (Blacklist (payload (tx_m t)))) t 0"

subsection \<open>Relay nodes\<close>

definition Tx_RelayNode :: "Tx \<Rightarrow> string \<Rightarrow> RelayNode option" where
  "Tx_RelayNode t relayID = fmlookup (RelayNodes (payload (tx_m t))) relayID"

definition Tx_RelayNodeByID :: "Tx \<Rightarrow> string \<Rightarrow> RelayNode option" where
  "Tx_RelayNodeByID t tid =
     (case fmlookup (relayByID (tx_m t)) tid of None \<Rightarrow> None | Some rid \<Rightarrow> Tx_RelayNode t rid)"

definition PutRelayNode :: "Tx \<Rightarrow> RelayNode \<Rightarrow> Tx \<times> goerr option" where
  "PutRelayNode t v =
     (case checkRelayNode (rn_RelayID v) v of
        Some e \<Rightarrow> (t, Some e)
      | None \<Rightarrow>
     (case checkRelayJTI (tx_m t) (rn_RelayID v) v of
        Some e \<Rightarrow> (t, Some e)
      | None \<Rightarrow>
          if (case fmlookup (relayByID (tx_m t)) (rn_ID v) of None \<Rightarrow> False | Some owner \<Rightarrow> owner \<noteq> rn_RelayID v)
          then (t, Some [ErrDuplicate])
          else if rn_TokenHash v \<noteq> [] \<and>
            (case fmlookup (relayByTokHsh (tx_m t)) (rn_TokenHash v) of None \<Rightarrow> False | Some owner \<Rightarrow> owner \<noteq> rn_RelayID v)
          then (t, Some [ErrDuplicate])
          else
            (let old = fmlookup (RelayNodes (payload (tx_m t))) (rn_RelayID v);
                 t1 = (case old of None \<Rightarrow> t
                   | Some n \<Rightarrow> if rn_ID n \<noteq> rn_ID v then idxDel relayByID relayByID_update t (rn_ID n) else t);
                 t2 = (case old of None \<Rightarrow> t1
                   | Some n \<Rightarrow> if rn_TokenHash n \<noteq> rn_TokenHash v
                              then idxDel relayByTokHsh relayByTokHsh_update t1 (rn_TokenHash n) else t1);
                 t3 = idxSet relayByID relayByID_update t2 (rn_ID v) (rn_RelayID v);
                 t4 = idxSet relayByTokHsh relayByTokHsh_update t3 (rn_TokenHash v) (rn_RelayID v);
                 t5 = put get_RelayNodes upd_RelayNodes t4 (rn_RelayID v) v
             in (t5\<lparr>tx_relays := finsert (rn_RelayID v) (tx_relays t5)\<rparr>, None))))"

definition DeleteRelayNode :: "Tx \<Rightarrow> string \<Rightarrow> Tx \<times> bool" where
  "DeleteRelayNode t relayID =
     (case fmlookup (RelayNodes (payload (tx_m t))) relayID of
        None \<Rightarrow> (t, False)
      | Some old \<Rightarrow>
          (let t1 = idxDel relayByID relayByID_update t (rn_ID old);
               t2 = idxDel relayByTokHsh relayByTokHsh_update t1 (rn_TokenHash old)
           in (del get_RelayNodes upd_RelayNodes t2 relayID, True)))"

subsection \<open>Server configuration\<close>

definition Tx_Config :: "Tx \<Rightarrow> string \<Rightarrow> string option" where
  "Tx_Config t key = fmlookup (ServerConfig (payload (tx_m t))) key"

definition isLinkKeyConfig :: "string \<Rightarrow> bool" where
  "isLinkKeyConfig key \<longleftrightarrow> key = ConfigLinkSigningKeyCurrent \<or> key = ConfigLinkSigningKeyPrevious"

definition SetConfig :: "Tx \<Rightarrow> string \<Rightarrow> string \<Rightarrow> Tx \<times> goerr option" where
  "SetConfig t key value =
     (if key = [] then (t, Some [ErrInvalid])
      else if \<not> clearSecretsAllowed (tx_opts t) \<and> IsSecretConfigKey key \<and> value \<noteq> [] \<and> \<not> has_prefix value EncPrefix
      then (t, Some [ErrInvalid])
      else
        (let t1 = put get_ServerConfig upd_ServerConfig t key value
         in ((if isLinkKeyConfig key then t1\<lparr>tx_links := True\<rparr> else t1), None)))"

definition DeleteConfig :: "Tx \<Rightarrow> string \<Rightarrow> Tx" where
  "DeleteConfig t key =
     (let t1 = del get_ServerConfig upd_ServerConfig t key
      in if isLinkKeyConfig key then t1\<lparr>tx_links := True\<rparr> else t1)"


section \<open>The undo log restores the model\<close>

text \<open>The model a rollback would leave.\<close>

definition undone :: "Tx \<Rightarrow> model" where
  "undone t = fold (\<lambda>u m. u m) (rev (tx_undo t)) (tx_m t)"

lemma tx_m_rollback: "tx_m (rollback t) = undone t"
  by (simp add: rollback_def undone_def)

lemma undone_newTx [simp]: "undone (newTx m opts now) = m"
  by (simp add: undone_def newTx_def)

lemma undone_flags [simp]:
  "undone (t\<lparr>tx_links := b\<rparr>) = undone t" "undone (t\<lparr>tx_relays := r\<rparr>) = undone t"
  by (simp_all add: undone_def)

text \<open>
  What the generic helpers rely on: the accessor and the update function of a section belong together.
  Every section and every index of the model is an instance.
\<close>

locale map_field =
  fixes get :: "model \<Rightarrow> (string, 'v) fmap"
    and upd :: "((string, 'v) fmap \<Rightarrow> (string, 'v) fmap) \<Rightarrow> model \<Rightarrow> model"
  assumes get_upd: "get (upd f m) = f (get m)"
    and upd_upd: "upd f (upd g m) = upd (\<lambda>s. f (g s)) m"
    and upd_same: "f (get m) = get m \<Longrightarrow> upd f m = m"
begin

lemma tx_m_put [simp]: "tx_m (put get upd t k v) = upd (fmupd k v) (tx_m t)"
  by (simp add: put_def Let_def)

lemma tx_m_del [simp]: "tx_m (del get upd t k) = upd (fmdrop k) (tx_m t)"
  by (simp add: del_def upd_same undo_simps split: option.splits)

lemma frame_put [simp]:
  "tx_opts (put get upd t k v) = tx_opts t" "tx_started (put get upd t k v) = tx_started t"
  "tx_relays (put get upd t k v) = tx_relays t" "tx_links (put get upd t k v) = tx_links t"
  by (simp_all add: put_def Let_def)

lemma frame_del [simp]:
  "tx_opts (del get upd t k) = tx_opts t" "tx_started (del get upd t k) = tx_started t"
  "tx_relays (del get upd t k) = tx_relays t" "tx_links (del get upd t k) = tx_links t"
  by (simp_all add: del_def split: option.splits)

lemma undone_put [simp]: "undone (put get upd t k v) = undone t"
proof (cases "fmlookup (get (tx_m t)) k")
  case None
  then have "upd (fmdrop k) (upd (fmupd k v) (tx_m t)) = tx_m t"
    by (simp add: upd_upd upd_same undo_simps)
  with None show ?thesis by (simp add: undone_def put_def)
next
  case (Some w)
  then have "upd (fmupd k w) (upd (fmupd k v) (tx_m t)) = tx_m t"
    by (simp add: upd_upd upd_same undo_simps)
  with Some show ?thesis by (simp add: undone_def put_def)
qed

lemma undone_del [simp]: "undone (del get upd t k) = undone t"
proof (cases "fmlookup (get (tx_m t)) k")
  case None
  then show ?thesis by (simp add: del_def)
next
  case (Some w)
  then have "upd (fmupd k w) (upd (fmdrop k) (tx_m t)) = tx_m t"
    by (simp add: upd_upd upd_same undo_simps)
  with Some show ?thesis by (simp add: undone_def del_def)
qed

end

locale index_field = map_field get upd
  for get :: "model \<Rightarrow> (string, string) fmap"
    and upd :: "((string, string) fmap \<Rightarrow> (string, string) fmap) \<Rightarrow> model \<Rightarrow> model"
begin

lemma tx_m_idxSet [simp]: "tx_m (idxSet get upd t a ow) = (if a = [] then tx_m t else upd (fmupd a ow) (tx_m t))"
  by (simp add: idxSet_def)

lemma tx_m_idxDel [simp]: "tx_m (idxDel get upd t a) = (if a = [] then tx_m t else upd (fmdrop a) (tx_m t))"
  by (simp add: idxDel_def)

lemma frame_idx [simp]:
  "tx_opts (idxSet get upd t a ow) = tx_opts t" "tx_started (idxSet get upd t a ow) = tx_started t"
  "tx_relays (idxSet get upd t a ow) = tx_relays t" "tx_links (idxSet get upd t a ow) = tx_links t"
  "tx_opts (idxDel get upd t a) = tx_opts t" "tx_started (idxDel get upd t a) = tx_started t"
  "tx_relays (idxDel get upd t a) = tx_relays t" "tx_links (idxDel get upd t a) = tx_links t"
  by (simp_all add: idxSet_def idxDel_def)

lemma undone_idx [simp]:
  "undone (idxSet get upd t a ow) = undone t" "undone (idxDel get upd t a) = undone t"
  by (simp_all add: idxSet_def idxDel_def)

end

interpretation sec_agents: map_field get_Agents upd_Agents
  by unfold_locales (auto simp: o_def)
interpretation sec_keys: map_field get_AuthorizedKeys upd_AuthorizedKeys
  by unfold_locales (auto simp: o_def)
interpretation sec_enroll: map_field get_EnrollmentTokens upd_EnrollmentTokens
  by unfold_locales (auto simp: o_def)
interpretation sec_plugin: map_field get_PluginTokens upd_PluginTokens
  by unfold_locales (auto simp: o_def)
interpretation sec_parent: map_field get_RelayParentTokens upd_RelayParentTokens
  by unfold_locales (auto simp: o_def)
interpretation sec_blacklist: map_field get_Blacklist upd_Blacklist
  by unfold_locales (auto simp: o_def)
interpretation sec_relays: map_field get_RelayNodes upd_RelayNodes
  by unfold_locales (auto simp: o_def)
interpretation sec_config: map_field get_ServerConfig upd_ServerConfig
  by unfold_locales (auto simp: o_def)
interpretation sec_links: map_field get_LinkTokens upd_LinkTokens
  by unfold_locales (auto simp: o_def)
interpretation idx_enroll: index_field enrollByHash enrollByHash_update
  by unfold_locales (auto simp: o_def)
interpretation idx_plugin: index_field pluginByHash pluginByHash_update
  by unfold_locales (auto simp: o_def)
interpretation idx_parent: index_field parentByJTI parentByJTI_update
  by unfold_locales (auto simp: o_def)
interpretation idx_relay: index_field relayByID relayByID_update
  by unfold_locales (auto simp: o_def)
interpretation idx_tokhsh: index_field relayByTokHsh relayByTokHsh_update
  by unfold_locales (auto simp: o_def)
interpretation idx_link: index_field linkByJTI linkByJTI_update
  by unfold_locales (auto simp: o_def)


lemmas tx_op_defs = PutAgent_def DeleteAgent_def PutAuthorizedKey_def DeleteAuthorizedKey_def
  PutEnrollmentToken_def DeleteEnrollmentToken_def PutPluginToken_def DeletePluginToken_def
  PutRelayParentToken_def DeleteRelayParentToken_def PutLinkToken_def DeleteLinkToken_def
  SetLinkTrust_def PutBlacklist_def PutRelayNode_def DeleteRelayNode_def SetConfig_def DeleteConfig_def

lemma Link_trust_back: "payload_update (Link_trust_update (\<lambda>_. Link_trust (payload m))) m = m"
  by (cases m; cases "payload m") simp

lemma undone_SetLinkTrust [simp]: "undone (fst (SetLinkTrust t v)) = undone t"
  by (cases "checkLinkTrust v") (simp_all add: SetLinkTrust_def undone_def Let_def o_def Link_trust_back)

lemma undone_purge_loop [simp]: "undone (fst (purge_loop now ks t n)) = undone t"
  by (induction ks arbitrary: t n) (auto split: option.splits)

lemma undone_ops [simp]:
  "undone (fst (PutAgent t a)) = undone t"
  "undone (fst (DeleteAgent t h)) = undone t"
  "undone (fst (PutAuthorizedKey t ak)) = undone t"
  "undone (fst (DeleteAuthorizedKey t h)) = undone t"
  "undone (fst (PutEnrollmentToken t et)) = undone t"
  "undone (fst (DeleteEnrollmentToken t i)) = undone t"
  "undone (fst (PutPluginToken t pt)) = undone t"
  "undone (fst (DeletePluginToken t i)) = undone t"
  "undone (fst (PutRelayParentToken t rp)) = undone t"
  "undone (fst (DeleteRelayParentToken t i)) = undone t"
  "undone (fst (PutLinkToken t lt)) = undone t"
  "undone (fst (DeleteLinkToken t i)) = undone t"
  "undone (fst (PutBlacklist t b)) = undone t"
  "undone (fst (PurgeExpiredBlacklist t now)) = undone t"
  "undone (fst (PutRelayNode t rn)) = undone t"
  "undone (fst (DeleteRelayNode t i)) = undone t"
  "undone (fst (SetConfig t i val)) = undone t"
  "undone (DeleteConfig t i) = undone t"
  by (auto simp: tx_op_defs PurgeExpiredBlacklist_def Let_def split: option.splits)

text \<open>
  A mutation is a sequence of these operations (reads choose the next one). The datatype names the
  writes, \<open>run_op\<close> performs one.
\<close>

datatype tx_op =
    OpPutAgent Agent | OpDeleteAgent string
  | OpPutAuthorizedKey AuthorizedKey | OpDeleteAuthorizedKey string
  | OpPutEnrollmentToken EnrollmentToken | OpDeleteEnrollmentToken string
  | OpPutPluginToken PluginToken | OpDeletePluginToken string
  | OpPutRelayParentToken RelayParentToken | OpDeleteRelayParentToken string
  | OpPutLinkToken LinkToken | OpDeleteLinkToken string | OpSetLinkTrust LinkTrust
  | OpPutBlacklist BlacklistEntry | OpPurgeExpiredBlacklist gotime
  | OpPutRelayNode RelayNode | OpDeleteRelayNode string
  | OpSetConfig string string | OpDeleteConfig string

fun run_op :: "tx_op \<Rightarrow> Tx \<Rightarrow> Tx" where
  "run_op (OpPutAgent a) t = fst (PutAgent t a)"
| "run_op (OpDeleteAgent h) t = fst (DeleteAgent t h)"
| "run_op (OpPutAuthorizedKey ak) t = fst (PutAuthorizedKey t ak)"
| "run_op (OpDeleteAuthorizedKey h) t = fst (DeleteAuthorizedKey t h)"
| "run_op (OpPutEnrollmentToken et) t = fst (PutEnrollmentToken t et)"
| "run_op (OpDeleteEnrollmentToken i) t = fst (DeleteEnrollmentToken t i)"
| "run_op (OpPutPluginToken pt) t = fst (PutPluginToken t pt)"
| "run_op (OpDeletePluginToken i) t = fst (DeletePluginToken t i)"
| "run_op (OpPutRelayParentToken rp) t = fst (PutRelayParentToken t rp)"
| "run_op (OpDeleteRelayParentToken i) t = fst (DeleteRelayParentToken t i)"
| "run_op (OpPutLinkToken lt) t = fst (PutLinkToken t lt)"
| "run_op (OpDeleteLinkToken i) t = fst (DeleteLinkToken t i)"
| "run_op (OpSetLinkTrust tr) t = fst (SetLinkTrust t tr)"
| "run_op (OpPutBlacklist b) t = fst (PutBlacklist t b)"
| "run_op (OpPurgeExpiredBlacklist now) t = fst (PurgeExpiredBlacklist t now)"
| "run_op (OpPutRelayNode rn) t = fst (PutRelayNode t rn)"
| "run_op (OpDeleteRelayNode i) t = fst (DeleteRelayNode t i)"
| "run_op (OpSetConfig i val) t = fst (SetConfig t i val)"
| "run_op (OpDeleteConfig i) t = DeleteConfig t i"

definition run_ops :: "tx_op list \<Rightarrow> Tx \<Rightarrow> Tx" where
  "run_ops ops t = fold run_op ops t"

lemma run_ops_simps [simp]: "run_ops [] t = t" "run_ops (op # ops) t = run_ops ops (run_op op t)"
  by (simp_all add: run_ops_def)

lemma run_ops_append: "run_ops (xs @ ys) t = run_ops ys (run_ops xs t)"
  by (simp add: run_ops_def)

lemma undone_run_op: "undone (run_op op t) = undone t"
  by (cases op) simp_all

lemma undone_run_ops [simp]: "undone (run_ops ops t) = undone t"
  by (induction ops arbitrary: t) (simp_all add: undone_run_op)

section \<open>Every operation keeps entries and indexes valid\<close>

definition tx_wf :: "Tx \<Rightarrow> bool" where
  "tx_wf t \<longleftrightarrow> entries_ok (payload (tx_m t)) \<and> idxs_ok (tx_m t)"

lemma tx_wf_agent [simp]:
  "tx_wf t \<Longrightarrow> tx_wf (fst (PutAgent t a))" "tx_wf t \<Longrightarrow> tx_wf (fst (DeleteAgent t h))"
  "tx_wf t \<Longrightarrow> tx_wf (fst (PutAuthorizedKey t ak))" "tx_wf t \<Longrightarrow> tx_wf (fst (DeleteAuthorizedKey t h))"
  by (auto simp: tx_wf_def tx_op_defs entries_ok_def idxs_ok_def fmpred_iff)

text \<open>
  The four token sections share one contract: a unique, non-empty attribute indexed beside the section. The
  code writes the same Put and Delete four times; they are instances of the two functions below.
\<close>

definition put_unique :: "(model \<Rightarrow> (string, 'v) fmap) \<Rightarrow> (((string, 'v) fmap \<Rightarrow> (string, 'v) fmap) \<Rightarrow> model \<Rightarrow> model)
    \<Rightarrow> (model \<Rightarrow> (string, string) fmap) \<Rightarrow> (((string, string) fmap \<Rightarrow> (string, string) fmap) \<Rightarrow> model \<Rightarrow> model)
    \<Rightarrow> (string \<Rightarrow> 'v \<Rightarrow> goerr option) \<Rightarrow> ('v \<Rightarrow> string) \<Rightarrow> ('v \<Rightarrow> string) \<Rightarrow> Tx \<Rightarrow> 'v \<Rightarrow> Tx \<times> goerr option" where
  "put_unique get upd iget iupd chk key attr t v =
     (case chk (key v) v of
        Some e \<Rightarrow> (t, Some e)
      | None \<Rightarrow>
          if (case fmlookup (iget (tx_m t)) (attr v) of None \<Rightarrow> False | Some owner \<Rightarrow> owner \<noteq> key v)
          then (t, Some [ErrDuplicate])
          else
            (let t1 = (case fmlookup (get (tx_m t)) (key v) of
                   None \<Rightarrow> t
                 | Some old \<Rightarrow> if attr old \<noteq> attr v then idxDel iget iupd t (attr old) else t);
                 t2 = idxSet iget iupd t1 (attr v) (key v)
             in (put get upd t2 (key v) v, None)))"

definition del_unique :: "(model \<Rightarrow> (string, 'v) fmap) \<Rightarrow> (((string, 'v) fmap \<Rightarrow> (string, 'v) fmap) \<Rightarrow> model \<Rightarrow> model)
    \<Rightarrow> (model \<Rightarrow> (string, string) fmap) \<Rightarrow> (((string, string) fmap \<Rightarrow> (string, string) fmap) \<Rightarrow> model \<Rightarrow> model)
    \<Rightarrow> ('v \<Rightarrow> string) \<Rightarrow> Tx \<Rightarrow> string \<Rightarrow> Tx \<times> bool" where
  "del_unique get upd iget iupd attr t k =
     (case fmlookup (get (tx_m t)) k of
        None \<Rightarrow> (t, False)
      | Some old \<Rightarrow> (del get upd (idxDel iget iupd t (attr old)) k, True))"

locale unique_section = sec: map_field get upd + idx: index_field iget iupd
  for get :: "model \<Rightarrow> (string, 'v) fmap" and upd iget iupd +
  fixes chk :: "string \<Rightarrow> 'v \<Rightarrow> goerr option" and key attr :: "'v \<Rightarrow> string"
  assumes get_iupd: "get (iupd g m) = get m"
    and iget_upd: "iget (upd f m) = iget m"
    and chk_attr: "chk k v = None \<Longrightarrow> attr v \<noteq> []"
begin

definition sec_ok :: "(string, 'v) fmap \<Rightarrow> (string, string) fmap \<Rightarrow> bool" where
  "sec_ok s idx \<longleftrightarrow> idx_ok attr s idx \<and> fmpred (\<lambda>k v. chk k v = None) s"

lemma sec_okI: "idx_ok attr s idx \<Longrightarrow> fmpred (\<lambda>k v. chk k v = None) s \<Longrightarrow> sec_ok s idx"
  by (simp add: sec_ok_def)

lemma unchanged: "sec_ok (get m) (iget m) \<Longrightarrow> \<exists>f g. m = upd f (iupd g m) \<and> sec_ok (f (get m)) (g (iget m))"
  by (rule exI [of _ "\<lambda>s. s"], rule exI [of _ "\<lambda>s. s"]) (simp add: sec.upd_same idx.upd_same)

lemma put_unique_ok:
  assumes ok: "sec_ok (get (tx_m t)) (iget (tx_m t))"
  shows "\<exists>f g. tx_m (fst (put_unique get upd iget iupd chk key attr t v)) = upd f (iupd g (tx_m t)) \<and>
           sec_ok (f (get (tx_m t))) (g (iget (tx_m t)))"
proof (cases "chk (key v) v = None \<and>
    \<not> (case fmlookup (iget (tx_m t)) (attr v) of None \<Rightarrow> False | Some owner \<Rightarrow> owner \<noteq> key v)")
  case False
  then have "fst (put_unique get upd iget iupd chk key attr t v) = t"
    by (auto simp: put_unique_def split: option.splits)
  with unchanged [OF ok] show ?thesis by simp
next
  case True
  have ne: "attr v \<noteq> []" using True chk_attr by blast
  have free: "owner = key v" if "fmlookup (iget (tx_m t)) (attr v) = Some owner" for owner
    using that True by simp
  have old_ne: "attr old \<noteq> []" if "fmlookup (get (tx_m t)) (key v) = Some old" for old
    using that ok chk_attr unfolding sec_ok_def fmpred_iff by blast
  let ?drop = "\<lambda>idx. case fmlookup (get (tx_m t)) (key v) of
      None \<Rightarrow> idx | Some old \<Rightarrow> if attr old \<noteq> attr v then fmdrop (attr old) idx else idx"
  have "tx_m (fst (put_unique get upd iget iupd chk key attr t v)) =
      upd (fmupd (key v) v) (iupd (\<lambda>idx. fmupd (attr v) (key v) (?drop idx)) (tx_m t))"
    using True ne old_ne
    by (auto simp: put_unique_def Let_def idx.upd_upd split: option.splits)
  moreover have "idx_ok attr (fmupd (key v) v (get (tx_m t))) (fmupd (attr v) (key v) (?drop (iget (tx_m t))))"
    using ok free ne by (intro idx_ok_put) (auto simp: sec_ok_def)
  moreover have "fmpred (\<lambda>k v. chk k v = None) (fmupd (key v) v (get (tx_m t)))"
    using True ok by (auto simp: sec_ok_def)
  ultimately show ?thesis unfolding sec_ok_def by blast
qed

lemma del_unique_ok:
  assumes ok: "sec_ok (get (tx_m t)) (iget (tx_m t))"
  shows "\<exists>f g. tx_m (fst (del_unique get upd iget iupd attr t k)) = upd f (iupd g (tx_m t)) \<and>
           sec_ok (f (get (tx_m t))) (g (iget (tx_m t)))"
proof (cases "fmlookup (get (tx_m t)) k")
  case None
  with unchanged [OF ok] show ?thesis by (simp add: del_unique_def)
next
  case (Some old)
  then have ne: "attr old \<noteq> []" using ok chk_attr unfolding sec_ok_def fmpred_iff by blast
  have "tx_m (fst (del_unique get upd iget iupd attr t k)) = upd (fmdrop k) (iupd (fmdrop (attr old)) (tx_m t))"
    using Some ne by (simp add: del_unique_def)
  moreover have "sec_ok (fmdrop k (get (tx_m t))) (fmdrop (attr old) (iget (tx_m t)))"
    using idx_ok_del [of attr "get (tx_m t)" "iget (tx_m t)" k old] Some ne ok by (auto simp: sec_ok_def)
  ultimately show ?thesis by blast
qed

end

interpretation uq_enroll: unique_section get_EnrollmentTokens upd_EnrollmentTokens enrollByHash enrollByHash_update
    checkEnrollmentToken et_ID et_TokenHash
  by unfold_locales (auto simp: check_defs split: if_splits)
interpretation uq_plugin: unique_section get_PluginTokens upd_PluginTokens pluginByHash pluginByHash_update
    checkPluginToken pt_ID pt_TokenHash
  by unfold_locales (auto simp: check_defs split: if_splits)
interpretation uq_parent: unique_section get_RelayParentTokens upd_RelayParentTokens parentByJTI parentByJTI_update
    checkRelayParentToken rp_ID rp_JTI
  by unfold_locales (auto simp: check_defs split: if_splits)
interpretation uq_link: unique_section get_LinkTokens upd_LinkTokens linkByJTI linkByJTI_update
    checkLinkToken lt_ID lt_JTI
  by unfold_locales (auto simp: check_defs split: if_splits)

text \<open>The operations of the code are these instances (a link token also marks the transaction).\<close>

lemma put_unique_instances:
  "PutEnrollmentToken = put_unique get_EnrollmentTokens upd_EnrollmentTokens enrollByHash enrollByHash_update
     checkEnrollmentToken et_ID et_TokenHash"
  "PutPluginToken = put_unique get_PluginTokens upd_PluginTokens pluginByHash pluginByHash_update
     checkPluginToken pt_ID pt_TokenHash"
  "PutRelayParentToken = put_unique get_RelayParentTokens upd_RelayParentTokens parentByJTI parentByJTI_update
     checkRelayParentToken rp_ID rp_JTI"
  by (simp_all add: fun_eq_iff PutEnrollmentToken_def PutPluginToken_def PutRelayParentToken_def put_unique_def)

lemma del_unique_instances:
  "DeleteEnrollmentToken = del_unique get_EnrollmentTokens upd_EnrollmentTokens enrollByHash enrollByHash_update et_TokenHash"
  "DeletePluginToken = del_unique get_PluginTokens upd_PluginTokens pluginByHash pluginByHash_update pt_TokenHash"
  "DeleteRelayParentToken = del_unique get_RelayParentTokens upd_RelayParentTokens parentByJTI parentByJTI_update rp_JTI"
  by (simp_all add: fun_eq_iff DeleteEnrollmentToken_def DeletePluginToken_def DeleteRelayParentToken_def del_unique_def)

lemma tx_m_link_ops:
  "tx_m (fst (PutLinkToken t v)) = tx_m (fst (put_unique get_LinkTokens upd_LinkTokens linkByJTI linkByJTI_update
     checkLinkToken lt_ID lt_JTI t v))"
  "tx_m (fst (DeleteLinkToken t i)) = tx_m (fst (del_unique get_LinkTokens upd_LinkTokens linkByJTI linkByJTI_update lt_JTI t i))"
  by (simp_all add: PutLinkToken_def put_unique_def DeleteLinkToken_def del_unique_def Let_def split: option.split)

lemma tx_wf_sections:
  assumes "tx_wf t"
  shows "uq_enroll.sec_ok (EnrollmentTokens (payload (tx_m t))) (enrollByHash (tx_m t))"
    and "uq_plugin.sec_ok (PluginTokens (payload (tx_m t))) (pluginByHash (tx_m t))"
    and "uq_parent.sec_ok (RelayParentTokens (payload (tx_m t))) (parentByJTI (tx_m t))"
    and "uq_link.sec_ok (LinkTokens (payload (tx_m t))) (linkByJTI (tx_m t))"
  using assms by (auto simp: tx_wf_def entries_ok_def idxs_ok_def intro: uq_enroll.sec_okI uq_plugin.sec_okI
      uq_parent.sec_okI uq_link.sec_okI)

lemmas sec_ok_defs = uq_enroll.sec_ok_def uq_plugin.sec_ok_def uq_parent.sec_ok_def uq_link.sec_ok_def

lemma tx_wf_tokens [simp]:
  assumes "tx_wf t"
  shows "tx_wf (fst (PutEnrollmentToken t et))" "tx_wf (fst (DeleteEnrollmentToken t i))"
    and "tx_wf (fst (PutPluginToken t pt))" "tx_wf (fst (DeletePluginToken t i))"
    and "tx_wf (fst (PutRelayParentToken t rp))" "tx_wf (fst (DeleteRelayParentToken t i))"
    and "tx_wf (fst (PutLinkToken t lt))" "tx_wf (fst (DeleteLinkToken t i))"
proof -
  have frame:
    "tx_wf t'" if "tx_m t' = upd_EnrollmentTokens f (enrollByHash_update g (tx_m t))"
      "uq_enroll.sec_ok (f (EnrollmentTokens (payload (tx_m t)))) (g (enrollByHash (tx_m t)))" for t' f g
    using that assms by (simp add: tx_wf_def entries_ok_def idxs_ok_def sec_ok_defs)
  show "tx_wf (fst (PutEnrollmentToken t et))" "tx_wf (fst (DeleteEnrollmentToken t i))"
    using uq_enroll.put_unique_ok [OF tx_wf_sections(1) [OF assms], of et]
      uq_enroll.del_unique_ok [OF tx_wf_sections(1) [OF assms], of i]
    by (auto simp: put_unique_instances del_unique_instances intro: frame)
  have frame:
    "tx_wf t'" if "tx_m t' = upd_PluginTokens f (pluginByHash_update g (tx_m t))"
      "uq_plugin.sec_ok (f (PluginTokens (payload (tx_m t)))) (g (pluginByHash (tx_m t)))" for t' f g
    using that assms by (simp add: tx_wf_def entries_ok_def idxs_ok_def sec_ok_defs)
  show "tx_wf (fst (PutPluginToken t pt))" "tx_wf (fst (DeletePluginToken t i))"
    using uq_plugin.put_unique_ok [OF tx_wf_sections(2) [OF assms], of pt]
      uq_plugin.del_unique_ok [OF tx_wf_sections(2) [OF assms], of i]
    by (auto simp: put_unique_instances del_unique_instances intro: frame)
  have frame:
    "tx_wf t'" if "tx_m t' = upd_RelayParentTokens f (parentByJTI_update g (tx_m t))"
      "uq_parent.sec_ok (f (RelayParentTokens (payload (tx_m t)))) (g (parentByJTI (tx_m t)))" for t' f g
    using that assms by (simp add: tx_wf_def entries_ok_def idxs_ok_def sec_ok_defs)
  show "tx_wf (fst (PutRelayParentToken t rp))" "tx_wf (fst (DeleteRelayParentToken t i))"
    using uq_parent.put_unique_ok [OF tx_wf_sections(3) [OF assms], of rp]
      uq_parent.del_unique_ok [OF tx_wf_sections(3) [OF assms], of i]
    by (auto simp: put_unique_instances del_unique_instances intro: frame)
  have frame:
    "tx_wf t'" if "tx_m t' = upd_LinkTokens f (linkByJTI_update g (tx_m t))"
      "uq_link.sec_ok (f (LinkTokens (payload (tx_m t)))) (g (linkByJTI (tx_m t)))" for t' f g
    using that assms by (simp add: tx_wf_def entries_ok_def idxs_ok_def sec_ok_defs)
  show "tx_wf (fst (PutLinkToken t lt))" "tx_wf (fst (DeleteLinkToken t i))"
    using uq_link.put_unique_ok [OF tx_wf_sections(4) [OF assms], of lt]
      uq_link.del_unique_ok [OF tx_wf_sections(4) [OF assms], of i]
    by (auto simp: tx_m_link_ops intro: frame)
qed

text \<open>The relay nodes carry two unique attributes.\<close>

definition relay_drop :: "('b \<Rightarrow> string) \<Rightarrow> 'b option \<Rightarrow> 'b \<Rightarrow> (string, string) fmap \<Rightarrow> (string, string) fmap" where
  "relay_drop attr old v idx = (case old of None \<Rightarrow> idx
     | Some n \<Rightarrow> if attr n \<noteq> attr v \<and> attr n \<noteq> [] then fmdrop (attr n) idx else idx)"

definition relay_set :: "('b \<Rightarrow> string) \<Rightarrow> 'b \<Rightarrow> string \<Rightarrow> (string, string) fmap \<Rightarrow> (string, string) fmap" where
  "relay_set attr v k idx = (if attr v = [] then idx else fmupd (attr v) k idx)"

definition relay_put_accepted :: "Tx \<Rightarrow> RelayNode \<Rightarrow> bool" where
  "relay_put_accepted t v \<longleftrightarrow> checkRelayNode (rn_RelayID v) v = None \<and> checkRelayJTI (tx_m t) (rn_RelayID v) v = None \<and>
     (\<forall>owner. fmlookup (relayByID (tx_m t)) (rn_ID v) = Some owner \<longrightarrow> owner = rn_RelayID v) \<and>
     (rn_TokenHash v \<noteq> [] \<longrightarrow> (\<forall>owner. fmlookup (relayByTokHsh (tx_m t)) (rn_TokenHash v) = Some owner \<longrightarrow> owner = rn_RelayID v))"

lemma guards_refuse:
  assumes "\<not> (a = None \<and> b = None \<and> (\<forall>ow. c = Some ow \<longrightarrow> ow = k) \<and> (h \<longrightarrow> (\<forall>ow. d = Some ow \<longrightarrow> ow = k)))"
  shows "fst (case a of Some e \<Rightarrow> (t, Some e) | None \<Rightarrow> (case b of Some e \<Rightarrow> (t, Some e) | None \<Rightarrow>
    if (case c of None \<Rightarrow> False | Some ow \<Rightarrow> ow \<noteq> k) then (t, Some e1)
    else if h \<and> (case d of None \<Rightarrow> False | Some ow \<Rightarrow> ow \<noteq> k) then (t, Some e2) else z)) = t"
  using assms by (auto split: option.splits)

lemma PutRelayNode_refused: "\<not> relay_put_accepted t v \<Longrightarrow> fst (PutRelayNode t v) = t"
  unfolding PutRelayNode_def relay_put_accepted_def by (rule guards_refuse)

lemma PutRelayNode_accepted:
  assumes "relay_put_accepted t v"
  shows "PutRelayNode t v =
    (let old = fmlookup (RelayNodes (payload (tx_m t))) (rn_RelayID v);
         t1 = (case old of None \<Rightarrow> t
           | Some n \<Rightarrow> if rn_ID n \<noteq> rn_ID v then idxDel relayByID relayByID_update t (rn_ID n) else t);
         t2 = (case old of None \<Rightarrow> t1
           | Some n \<Rightarrow> if rn_TokenHash n \<noteq> rn_TokenHash v
                      then idxDel relayByTokHsh relayByTokHsh_update t1 (rn_TokenHash n) else t1);
         t3 = idxSet relayByID relayByID_update t2 (rn_ID v) (rn_RelayID v);
         t4 = idxSet relayByTokHsh relayByTokHsh_update t3 (rn_TokenHash v) (rn_RelayID v);
         t5 = put get_RelayNodes upd_RelayNodes t4 (rn_RelayID v) v
     in (t5\<lparr>tx_relays := finsert (rn_RelayID v) (tx_relays t5)\<rparr>, None))"
proof -
  have guards: "\<not> (case fmlookup (relayByID (tx_m t)) (rn_ID v) of None \<Rightarrow> False | Some owner \<Rightarrow> owner \<noteq> rn_RelayID v)"
    "\<not> (rn_TokenHash v \<noteq> [] \<and>
       (case fmlookup (relayByTokHsh (tx_m t)) (rn_TokenHash v) of None \<Rightarrow> False | Some owner \<Rightarrow> owner \<noteq> rn_RelayID v))"
    using assms by (auto simp: relay_put_accepted_def split: option.splits)
  have checks: "checkRelayNode (rn_RelayID v) v = None" "checkRelayJTI (tx_m t) (rn_RelayID v) v = None"
    using assms by (simp_all add: relay_put_accepted_def)
  show ?thesis
    by (simp only: PutRelayNode_def checks guards option.case if_False)
qed

lemma tx_m_PutRelayNode:
  assumes "relay_put_accepted t v" and "old = fmlookup (RelayNodes (payload (tx_m t))) (rn_RelayID v)"
  shows "payload (tx_m (fst (PutRelayNode t v))) = RelayNodes_update (fmupd (rn_RelayID v) v) (payload (tx_m t))"
    and "relayByID (tx_m (fst (PutRelayNode t v))) =
      relay_set rn_ID v (rn_RelayID v) (relay_drop rn_ID old v (relayByID (tx_m t)))"
    and "relayByTokHsh (tx_m (fst (PutRelayNode t v))) =
      relay_set rn_TokenHash v (rn_RelayID v) (relay_drop rn_TokenHash old v (relayByTokHsh (tx_m t)))"
    and "enrollByHash (tx_m (fst (PutRelayNode t v))) = enrollByHash (tx_m t)"
    and "pluginByHash (tx_m (fst (PutRelayNode t v))) = pluginByHash (tx_m t)"
    and "parentByJTI (tx_m (fst (PutRelayNode t v))) = parentByJTI (tx_m t)"
    and "linkByJTI (tx_m (fst (PutRelayNode t v))) = linkByJTI (tx_m t)"
  unfolding PutRelayNode_accepted [OF assms(1)] assms(2) relay_set_def relay_drop_def Let_def
  by (simp_all split: option.split)

lemma tx_wf_PutRelayNode [simp]:
  assumes wf: "tx_wf t"
  shows "tx_wf (fst (PutRelayNode t v))"
proof (cases "relay_put_accepted t v")
  case False
  with wf show ?thesis by (simp add: PutRelayNode_refused)
next
  case True
  let ?old = "fmlookup (RelayNodes (payload (tx_m t))) (rn_RelayID v)"
  have "idx_ok rn_ID (fmupd (rn_RelayID v) v (RelayNodes (payload (tx_m t))))
      (relay_set rn_ID v (rn_RelayID v) (relay_drop rn_ID ?old v (relayByID (tx_m t))))"
    by (rule idx_ok_move [where idx = "relayByID (tx_m t)", OF _ _ refl])
      (use wf True in \<open>auto simp: tx_wf_def idxs_ok_def relay_put_accepted_def relay_set_def relay_drop_def\<close>)
  moreover have "idx_ok rn_TokenHash (fmupd (rn_RelayID v) v (RelayNodes (payload (tx_m t))))
      (relay_set rn_TokenHash v (rn_RelayID v) (relay_drop rn_TokenHash ?old v (relayByTokHsh (tx_m t))))"
    by (rule idx_ok_move [where idx = "relayByTokHsh (tx_m t)", OF _ _ refl])
      (use wf True in \<open>auto simp: tx_wf_def idxs_ok_def relay_put_accepted_def relay_set_def relay_drop_def\<close>)
  moreover have "fmpred (\<lambda>k n. checkRelayNode k n = None) (fmupd (rn_RelayID v) v (RelayNodes (payload (tx_m t))))"
    using wf True by (auto simp: tx_wf_def entries_ok_def relay_put_accepted_def)
  ultimately show ?thesis
    using wf by (simp add: tx_wf_def entries_ok_def idxs_ok_def tx_m_PutRelayNode [OF True refl])
qed

lemma tx_wf_DeleteRelayNode [simp]:
  assumes wf: "tx_wf t"
  shows "tx_wf (fst (DeleteRelayNode t k))"
proof (cases "fmlookup (RelayNodes (payload (tx_m t))) k")
  case None
  with wf show ?thesis by (simp add: DeleteRelayNode_def)
next
  case (Some old)
  let ?m = "tx_m t" and ?m' = "tx_m (fst (DeleteRelayNode t k))"
    and ?nodes = "fmdrop k (RelayNodes (payload (tx_m t)))"
  have "payload ?m' = RelayNodes_update (fmdrop k) (payload ?m)"
    and "relayByID ?m' = (if rn_ID old \<noteq> [] then fmdrop (rn_ID old) (relayByID ?m) else relayByID ?m)"
    and "relayByTokHsh ?m' = (if rn_TokenHash old \<noteq> [] then fmdrop (rn_TokenHash old) (relayByTokHsh ?m) else relayByTokHsh ?m)"
    and "enrollByHash ?m' = enrollByHash ?m" "pluginByHash ?m' = pluginByHash ?m"
    and "parentByJTI ?m' = parentByJTI ?m" "linkByJTI ?m' = linkByJTI ?m"
    using Some by (simp_all add: DeleteRelayNode_def Let_def)
  moreover have "idx_ok rn_ID ?nodes (if rn_ID old \<noteq> [] then fmdrop (rn_ID old) (relayByID ?m) else relayByID ?m)"
    "idx_ok rn_TokenHash ?nodes (if rn_TokenHash old \<noteq> [] then fmdrop (rn_TokenHash old) (relayByTokHsh ?m) else relayByTokHsh ?m)"
    using wf Some by (intro idx_ok_del; simp add: tx_wf_def idxs_ok_def)+
  moreover have "fmpred (\<lambda>k n. checkRelayNode k n = None) ?nodes"
    using wf by (auto simp: tx_wf_def entries_ok_def)
  ultimately show ?thesis
    using wf by (simp add: tx_wf_def entries_ok_def idxs_ok_def)
qed

lemma tx_wf_purge_loop [simp]: "tx_wf t \<Longrightarrow> tx_wf (fst (purge_loop now ks t n))"
proof (induction ks arbitrary: t n)
  case (Cons k ks)
  have "tx_wf (del get_Blacklist upd_Blacklist t k)"
    using Cons.prems by (auto simp: tx_wf_def entries_ok_def idxs_ok_def)
  with Cons show ?case by (auto split: option.splits)
qed simp

lemma tx_wf_rest [simp]:
  assumes "tx_wf t"
  shows "tx_wf (fst (PutBlacklist t b))" "tx_wf (fst (PurgeExpiredBlacklist t now))"
    and "tx_wf (fst (SetLinkTrust t tr))" "tx_wf (fst (SetConfig t i val))" "tx_wf (DeleteConfig t i)"
  using assms tx_wf_purge_loop [OF assms]
  by (auto simp: tx_op_defs PurgeExpiredBlacklist_def tx_wf_def entries_ok_def idxs_ok_def Let_def split: option.splits)

lemma tx_wf_run_op: "tx_wf t \<Longrightarrow> tx_wf (run_op op t)"
  by (cases op) simp_all

lemma tx_wf_run_ops: "tx_wf t \<Longrightarrow> tx_wf (run_ops ops t)"
  by (induction ops arbitrary: t) (simp_all add: tx_wf_run_op)

section \<open>What the final check adds\<close>

text \<open>
  Three operations can take away what an entry they do not touch needs: deleting a link token or moving
  it to other endpoints (a revoked relay without identifier must be named by one), and purging the
  blacklist (a revoked identifier must stay listed while it can be used). \<open>safe_op\<close> states when they do not.
\<close>

definition needs_named :: "model \<Rightarrow> string \<Rightarrow> bool" where
  "needs_named m k \<longleftrightarrow>
     (case fmlookup (RelayNodes (payload m)) k of None \<Rightarrow> False | Some n \<Rightarrow> rn_Revoked n \<and> rn_JTI n = [])"

definition needs_listed :: "model \<Rightarrow> gotime \<Rightarrow> string \<Rightarrow> bool" where
  "needs_listed m now jti \<longleftrightarrow>
     \<not> fmpred (\<lambda>_ n. \<not> (rn_Revoked n \<and> rn_JTI n = jti \<and> jti \<noteq> [] \<and> \<not> (rn_TokenExp n > 0 \<and> rn_TokenExp n \<le> unix_sec now)))
         (RelayNodes (payload m)) \<or>
     \<not> fmpred (\<lambda>_ l. \<not> (lt_RevokedAt l \<noteq> None \<and> lt_JTI l = jti \<and> lt_ExpiresAt l > now)) (LinkTokens (payload m))"

fun safe_op :: "tx_op \<Rightarrow> Tx \<Rightarrow> bool" where
  "safe_op (OpDeleteLinkToken i) t =
     (case fmlookup (LinkTokens (payload (tx_m t))) i of None \<Rightarrow> True
      | Some old \<Rightarrow> \<not> needs_named (tx_m t) (lt_Sub old) \<and> \<not> needs_named (tx_m t) (lt_Aud old))"
| "safe_op (OpPutLinkToken v) t =
     (case fmlookup (LinkTokens (payload (tx_m t))) (lt_ID v) of None \<Rightarrow> True
      | Some old \<Rightarrow> lt_Sub v = lt_Sub old \<and> lt_Aud v = lt_Aud old)"
| "safe_op (OpPurgeExpiredBlacklist now) t =
     fmpred (\<lambda>jti b. bl_ExpiresAt b \<le> now \<longrightarrow> \<not> needs_listed (tx_m t) (tx_started t) jti) (Blacklist (payload (tx_m t)))"
| "safe_op _ t = True"

fun safe_ops :: "tx_op list \<Rightarrow> Tx \<Rightarrow> bool" where
  "safe_ops [] t = True"
| "safe_ops (op # ops) t = (safe_op op t \<and> safe_ops ops (run_op op t))"

definition tx_inv :: "Tx \<Rightarrow> bool" where
  "tx_inv t \<longleftrightarrow> tx_wf t \<and>
     fmpred (\<lambda>k n. checkRelayJTI (tx_m t) k n = None) (RelayNodes (payload (tx_m t))) \<and>
     (\<forall>k. k |\<notin>| tx_relays t \<longrightarrow> checkRevokedBlacklisted (tx_m t) k (tx_started t) = None) \<and>
     (\<not> tx_links t \<longrightarrow> checkLinks (tx_m t) (tx_started t) = None)"

lemma tx_inv_newTx: "model_ok now m \<Longrightarrow> tx_inv (newTx m opts now)"
  by (auto simp: tx_inv_def tx_wf_def newTx_def model_ok_def relays_ok_def fmpred_iff checkRevokedBlacklisted_def
      split: option.splits)

lemma finish_model_ok: "tx_inv t \<Longrightarrow> finish t = None \<Longrightarrow> model_ok (tx_started t) (tx_m t)"
  by (auto simp: tx_inv_def tx_wf_def finish_def model_ok_def relays_ok_def fmpred_iff split: if_splits)

text \<open>An operation that leaves the relay nodes, the link data and the blacklist alone keeps everything.\<close>

definition cross :: "model \<Rightarrow> (string, RelayNode) fmap \<times> (string, BlacklistEntry) fmap \<times> (string, string) fmap
    \<times> (string, LinkToken) fmap \<times> LinkTrust" where
  "cross m = (RelayNodes (payload m), Blacklist (payload m), ServerConfig (payload m), LinkTokens (payload m),
     Link_trust (payload m))"

lemma cross_checks:
  assumes "cross m' = cross m"
  shows "checkRelayJTI m' = checkRelayJTI m" "checkRevokedBlacklisted m' = checkRevokedBlacklisted m"
    and "checkLinks m' = checkLinks m" "RelayNodes (payload m') = RelayNodes (payload m)"
proof -
  have eqs: "RelayNodes (payload m') = RelayNodes (payload m)" "Blacklist (payload m') = Blacklist (payload m)"
    "ServerConfig (payload m') = ServerConfig (payload m)" "LinkTokens (payload m') = LinkTokens (payload m)"
    "Link_trust (payload m') = Link_trust (payload m)"
    using assms by (simp_all add: cross_def)
  show "checkRelayJTI m' = checkRelayJTI m" "checkRevokedBlacklisted m' = checkRevokedBlacklisted m"
    and "checkLinks m' = checkLinks m" "RelayNodes (payload m') = RelayNodes (payload m)"
    by (rule ext | simp only: checkRelayJTI_def checkRevokedBlacklisted_def checkLinks_def eqs)+
qed

lemma tx_inv_cross:
  assumes "tx_inv t" "tx_wf t'" "cross (tx_m t') = cross (tx_m t)"
    and "tx_relays t' = tx_relays t" "tx_links t' = tx_links t" "tx_started t' = tx_started t"
  shows "tx_inv t'"
  using assms by (simp add: tx_inv_def cross_checks [OF assms(3)])

lemma tx_inv_frame_ops:
  assumes "tx_inv t"
  shows "tx_inv (fst (PutAgent t a))" "tx_inv (fst (DeleteAgent t h))"
    and "tx_inv (fst (PutAuthorizedKey t ak))" "tx_inv (fst (DeleteAuthorizedKey t h))"
    and "tx_inv (fst (PutEnrollmentToken t et))" "tx_inv (fst (DeleteEnrollmentToken t i))"
    and "tx_inv (fst (PutPluginToken t pt))" "tx_inv (fst (DeletePluginToken t i))"
    and "tx_inv (fst (PutRelayParentToken t rp))" "tx_inv (fst (DeleteRelayParentToken t i))"
proof -
  have wf: "tx_wf t" using assms by (simp add: tx_inv_def)
  show "tx_inv (fst (PutAgent t a))" "tx_inv (fst (DeleteAgent t h))"
    and "tx_inv (fst (PutAuthorizedKey t ak))" "tx_inv (fst (DeleteAuthorizedKey t h))"
    using wf by (intro tx_inv_cross [OF assms]; simp; simp add: tx_op_defs cross_def)+
  show "tx_inv (fst (PutEnrollmentToken t et))" "tx_inv (fst (DeleteEnrollmentToken t i))"
    and "tx_inv (fst (PutPluginToken t pt))" "tx_inv (fst (DeletePluginToken t i))"
    and "tx_inv (fst (PutRelayParentToken t rp))" "tx_inv (fst (DeleteRelayParentToken t i))"
    using wf by (intro tx_inv_cross [OF assms]; simp; simp add: tx_op_defs cross_def Let_def split: option.split)+
qed

lemma checkRelayJTI_None_iff:
  "checkRelayJTI m k n = None \<longleftrightarrow> (rn_Revoked n \<and> rn_JTI n = [] \<longrightarrow>
     (\<exists>i l. fmlookup (LinkTokens (payload m)) i = Some l \<and> (lt_Sub l = k \<or> lt_Aud l = k)))"
  by (auto simp: checkRelayJTI_def fmpred_iff)

lemma checkRevokedBlacklisted_None_iff:
  "checkRevokedBlacklisted m k now = None \<longleftrightarrow> (\<forall>n. fmlookup (RelayNodes (payload m)) k = Some n \<and> rn_Revoked n \<and>
     rn_JTI n \<noteq> [] \<and> \<not> (rn_TokenExp n > 0 \<and> rn_TokenExp n \<le> unix_sec now) \<longrightarrow>
     fmlookup (Blacklist (payload m)) (rn_JTI n) \<noteq> None)"
  by (auto simp: checkRevokedBlacklisted_def split: option.splits)

lemmas cross_iffs = checkRelayJTI_None_iff checkRevokedBlacklisted_None_iff checkLinks_None_iff fmpred_iff

text \<open>Each remaining operation, from what it does to the five parts the cross-entity checks read.\<close>

lemma tx_inv_blacklist:
  assumes inv: "tx_inv t" and wf: "tx_wf t'"
    and parts: "RelayNodes (payload (tx_m t')) = RelayNodes (payload (tx_m t))"
      "LinkTokens (payload (tx_m t')) = LinkTokens (payload (tx_m t))"
      "ServerConfig (payload (tx_m t')) = ServerConfig (payload (tx_m t))"
      "Link_trust (payload (tx_m t')) = Link_trust (payload (tx_m t))"
      "tx_relays t' = tx_relays t" "tx_links t' = tx_links t" "tx_started t' = tx_started t"
    and keep: "\<And>jti. fmlookup (Blacklist (payload (tx_m t))) jti \<noteq> None \<Longrightarrow> needs_listed (tx_m t) (tx_started t) jti \<Longrightarrow>
       fmlookup (Blacklist (payload (tx_m t'))) jti \<noteq> None"
  shows "tx_inv t'"
proof -
  have node: "fmlookup (Blacklist (payload (tx_m t'))) (rn_JTI n) \<noteq> None"
    if "fmlookup (RelayNodes (payload (tx_m t))) k = Some n" "rn_Revoked n" "rn_JTI n \<noteq> []"
      "\<not> (rn_TokenExp n > 0 \<and> rn_TokenExp n \<le> unix_sec (tx_started t))"
      "fmlookup (Blacklist (payload (tx_m t))) (rn_JTI n) \<noteq> None" for k n
    using that by (intro keep) (auto simp: needs_listed_def fmpred_iff)
  have link: "fmlookup (Blacklist (payload (tx_m t'))) (lt_JTI l) \<noteq> None"
    if "fmlookup (LinkTokens (payload (tx_m t))) i = Some l" "lt_RevokedAt l \<noteq> None" "lt_ExpiresAt l > tx_started t"
      "fmlookup (Blacklist (payload (tx_m t))) (lt_JTI l) \<noteq> None" for i l
    using that by (intro keep) (fastforce simp: needs_listed_def fmpred_iff)+
  show ?thesis
    using inv wf node link unfolding tx_inv_def cross_iffs parts by blast
qed

lemma tx_inv_PutBlacklist:
  assumes "tx_inv t"
  shows "tx_inv (fst (PutBlacklist t b))"
proof -
  have "tx_wf t" using assms by (simp add: tx_inv_def)
  then show ?thesis
    by (intro tx_inv_blacklist [OF assms]; simp; simp add: PutBlacklist_def split: option.split)
qed

lemma purge_loop_spec:
  assumes "distinct ks"
  shows "fmlookup (Blacklist (payload (tx_m (fst (purge_loop now ks t n))))) jti =
    (case fmlookup (Blacklist (payload (tx_m t))) jti of
       None \<Rightarrow> None | Some b \<Rightarrow> if jti \<in> set ks \<and> bl_ExpiresAt b \<le> now then None else Some b)"
  using assms by (induction ks arbitrary: t n) (auto split: option.splits)

lemma purge_loop_frame:
  "RelayNodes (payload (tx_m (fst (purge_loop now ks t n)))) = RelayNodes (payload (tx_m t)) \<and>
   LinkTokens (payload (tx_m (fst (purge_loop now ks t n)))) = LinkTokens (payload (tx_m t)) \<and>
   ServerConfig (payload (tx_m (fst (purge_loop now ks t n)))) = ServerConfig (payload (tx_m t)) \<and>
   Link_trust (payload (tx_m (fst (purge_loop now ks t n)))) = Link_trust (payload (tx_m t)) \<and>
   tx_relays (fst (purge_loop now ks t n)) = tx_relays t \<and> tx_links (fst (purge_loop now ks t n)) = tx_links t \<and>
   tx_started (fst (purge_loop now ks t n)) = tx_started t"
  by (induction ks arbitrary: t n) (simp_all split: option.split)

lemma tx_inv_Purge:
  assumes inv: "tx_inv t" and safe: "safe_op (OpPurgeExpiredBlacklist now) t"
  shows "tx_inv (fst (PurgeExpiredBlacklist t now))"
proof -
  let ?t' = "fst (PurgeExpiredBlacklist t now)"
  have wf: "tx_wf ?t'" using inv by (simp add: tx_inv_def)
  have keep: "fmlookup (Blacklist (payload (tx_m ?t'))) jti \<noteq> None"
    if "fmlookup (Blacklist (payload (tx_m t))) jti \<noteq> None" "needs_listed (tx_m t) (tx_started t) jti" for jti
    using that safe by (auto simp: PurgeExpiredBlacklist_def purge_loop_spec fmpred_iff)
  show ?thesis
    by (rule tx_inv_blacklist [OF inv wf _ _ _ _ _ _ _ keep])
      (simp_all add: PurgeExpiredBlacklist_def purge_loop_frame)
qed

lemma tx_inv_relay:
  assumes inv: "tx_inv t"
  shows "tx_inv (fst (PutRelayNode t v))" "tx_inv (fst (DeleteRelayNode t k))"
proof -
  have wf: "tx_wf t" using inv by (simp add: tx_inv_def)
  show "tx_inv (fst (PutRelayNode t v))"
  proof (cases "relay_put_accepted t v")
    case False
    with inv show ?thesis by (simp add: PutRelayNode_refused)
  next
    case True
    let ?t' = "fst (PutRelayNode t v)"
    have flags: "tx_relays ?t' = finsert (rn_RelayID v) (tx_relays t)" "tx_links ?t' = tx_links t" "tx_started ?t' = tx_started t"
      by (simp_all add: PutRelayNode_accepted [OF True] Let_def split: option.split)
    have jti: "checkRelayJTI (tx_m t) (rn_RelayID v) v = None" using True by (simp add: relay_put_accepted_def)
    show ?thesis
      using inv jti tx_wf_PutRelayNode [OF wf, of v]
      unfolding tx_inv_def cross_iffs flags tx_m_PutRelayNode(1) [OF True refl] by auto
  qed
  have "RelayNodes (payload (tx_m (fst (DeleteRelayNode t k)))) = fmdrop k (RelayNodes (payload (tx_m t)))"
    by (simp add: DeleteRelayNode_def Let_def undo_simps split: option.split)
  moreover have "Blacklist (payload (tx_m (fst (DeleteRelayNode t k)))) = Blacklist (payload (tx_m t))"
    "LinkTokens (payload (tx_m (fst (DeleteRelayNode t k)))) = LinkTokens (payload (tx_m t))"
    "ServerConfig (payload (tx_m (fst (DeleteRelayNode t k)))) = ServerConfig (payload (tx_m t))"
    "Link_trust (payload (tx_m (fst (DeleteRelayNode t k)))) = Link_trust (payload (tx_m t))"
    "tx_relays (fst (DeleteRelayNode t k)) = tx_relays t" "tx_links (fst (DeleteRelayNode t k)) = tx_links t"
    "tx_started (fst (DeleteRelayNode t k)) = tx_started t"
    by (simp_all add: DeleteRelayNode_def Let_def split: option.split)
  ultimately show "tx_inv (fst (DeleteRelayNode t k))"
    using inv tx_wf_DeleteRelayNode [OF wf, of k] unfolding tx_inv_def cross_iffs by auto
qed

text \<open>
  An operation on the link data marks the transaction, so only the naming of revoked relays is left to show.
\<close>

lemma tx_inv_marked:
  assumes inv: "tx_inv t" and wf: "tx_wf t'" and marked: "tx_links t'"
    and parts: "RelayNodes (payload (tx_m t')) = RelayNodes (payload (tx_m t))"
      "Blacklist (payload (tx_m t')) = Blacklist (payload (tx_m t))"
      "tx_relays t' = tx_relays t" "tx_started t' = tx_started t"
    and named: "\<And>i l k. fmlookup (LinkTokens (payload (tx_m t))) i = Some l \<Longrightarrow> lt_Sub l = k \<or> lt_Aud l = k \<Longrightarrow>
       needs_named (tx_m t) k \<Longrightarrow> \<exists>i l. fmlookup (LinkTokens (payload (tx_m t'))) i = Some l \<and> (lt_Sub l = k \<or> lt_Aud l = k)"
  shows "tx_inv t'"
proof -
  have "checkRelayJTI (tx_m t') k n = None" if "fmlookup (RelayNodes (payload (tx_m t))) k = Some n" for k n
  proof -
    have "needs_named (tx_m t) k" if "rn_Revoked n \<and> rn_JTI n = []"
      using that \<open>fmlookup (RelayNodes (payload (tx_m t))) k = Some n\<close> by (simp add: needs_named_def)
    moreover have "checkRelayJTI (tx_m t) k n = None"
      using inv that by (simp add: tx_inv_def fmpred_iff)
    ultimately show ?thesis using named unfolding checkRelayJTI_None_iff by blast
  qed
  then show ?thesis
    using inv wf marked unfolding tx_inv_def checkRevokedBlacklisted_None_iff fmpred_iff parts by blast
qed

lemma PutLinkToken_cases:
  obtains e where "PutLinkToken t v = (t, Some e)"
  | t2 where "PutLinkToken t v = ((put get_LinkTokens upd_LinkTokens t2 (lt_ID v) v)\<lparr>tx_links := True\<rparr>, None)"
      "payload (tx_m t2) = payload (tx_m t)" "tx_relays t2 = tx_relays t" "tx_started t2 = tx_started t"
proof (cases "checkLinkToken (lt_ID v) v = None \<and>
    \<not> (case fmlookup (linkByJTI (tx_m t)) (lt_JTI v) of None \<Rightarrow> False | Some owner \<Rightarrow> owner \<noteq> lt_ID v)")
  case False
  then have "PutLinkToken t v = (t, Some (case checkLinkToken (lt_ID v) v of None \<Rightarrow> [ErrDuplicate] | Some e \<Rightarrow> e))"
    unfolding PutLinkToken_def by (cases "checkLinkToken (lt_ID v) v") (simp_all only: option.case if_True simp_thms)
  then show thesis by (rule that(1))
next
  case True
  let ?t1 = "case fmlookup (LinkTokens (payload (tx_m t))) (lt_ID v) of None \<Rightarrow> t
     | Some old \<Rightarrow> if lt_JTI old \<noteq> lt_JTI v then idxDel linkByJTI linkByJTI_update t (lt_JTI old) else t"
  let ?t2 = "idxSet linkByJTI linkByJTI_update ?t1 (lt_JTI v) (lt_ID v)"
  have "PutLinkToken t v = ((put get_LinkTokens upd_LinkTokens ?t2 (lt_ID v) v)\<lparr>tx_links := True\<rparr>, None)"
    unfolding PutLinkToken_def Let_def using True by (simp only: option.case if_False simp_thms)
  moreover have "payload (tx_m ?t2) = payload (tx_m t)" "tx_relays ?t2 = tx_relays t" "tx_started ?t2 = tx_started t"
    by (simp_all split: option.split)
  ultimately show thesis by (rule that(2))
qed

lemma tx_m_PutLinkToken:
  "LinkTokens (payload (tx_m (fst (PutLinkToken t v)))) =
     (if snd (PutLinkToken t v) = None then fmupd (lt_ID v) v (LinkTokens (payload (tx_m t))) else LinkTokens (payload (tx_m t)))"
  "RelayNodes (payload (tx_m (fst (PutLinkToken t v)))) = RelayNodes (payload (tx_m t))"
  "Blacklist (payload (tx_m (fst (PutLinkToken t v)))) = Blacklist (payload (tx_m t))"
  "tx_relays (fst (PutLinkToken t v)) = tx_relays t" "tx_started (fst (PutLinkToken t v)) = tx_started t"
  "snd (PutLinkToken t v) = None \<Longrightarrow> tx_links (fst (PutLinkToken t v))"
  "snd (PutLinkToken t v) \<noteq> None \<Longrightarrow> fst (PutLinkToken t v) = t"
  by (cases rule: PutLinkToken_cases [where t = t and v = v]; simp)+

lemma tx_inv_PutLinkToken:
  assumes inv: "tx_inv t" and safe: "safe_op (OpPutLinkToken v) t"
  shows "tx_inv (fst (PutLinkToken t v))"
proof (cases "snd (PutLinkToken t v) = None")
  case False
  with inv show ?thesis by (simp add: tx_m_PutLinkToken(7))
next
  case True
  have wf: "tx_wf (fst (PutLinkToken t v))" using inv by (simp add: tx_inv_def)
  have named: "\<exists>i l. fmlookup (LinkTokens (payload (tx_m (fst (PutLinkToken t v))))) i = Some l \<and> (lt_Sub l = k \<or> lt_Aud l = k)"
    if "fmlookup (LinkTokens (payload (tx_m t))) i = Some l" "lt_Sub l = k \<or> lt_Aud l = k" for i l k
  proof (cases "i = lt_ID v")
    case True
    with that safe have "lt_Sub v = k \<or> lt_Aud v = k" by auto
    with \<open>snd (PutLinkToken t v) = None\<close> show ?thesis by (auto simp: tx_m_PutLinkToken(1))
  next
    case False
    with that \<open>snd (PutLinkToken t v) = None\<close> show ?thesis
      by (intro exI [of _ i] exI [of _ l]) (simp add: tx_m_PutLinkToken(1))
  qed
  show ?thesis
    by (rule tx_inv_marked [OF inv wf tx_m_PutLinkToken(6) [OF True] tx_m_PutLinkToken(2-5)]) (rule named)
qed

lemma tx_m_DeleteLinkToken:
  assumes "fmlookup (LinkTokens (payload (tx_m t))) i = Some old"
  shows "LinkTokens (payload (tx_m (fst (DeleteLinkToken t i)))) = fmdrop i (LinkTokens (payload (tx_m t)))"
    and "tx_links (fst (DeleteLinkToken t i))"
    and "RelayNodes (payload (tx_m (fst (DeleteLinkToken t i)))) = RelayNodes (payload (tx_m t))"
    and "Blacklist (payload (tx_m (fst (DeleteLinkToken t i)))) = Blacklist (payload (tx_m t))"
    and "tx_relays (fst (DeleteLinkToken t i)) = tx_relays t" "tx_started (fst (DeleteLinkToken t i)) = tx_started t"
  using assms by (simp_all add: DeleteLinkToken_def)

lemma tx_inv_DeleteLinkToken:
  assumes inv: "tx_inv t" and safe: "safe_op (OpDeleteLinkToken i) t"
  shows "tx_inv (fst (DeleteLinkToken t i))"
proof (cases "fmlookup (LinkTokens (payload (tx_m t))) i")
  case None
  with inv show ?thesis by (simp add: DeleteLinkToken_def)
next
  case (Some old)
  have wf: "tx_wf (fst (DeleteLinkToken t i))" using inv by (simp add: tx_inv_def)
  have named: "\<exists>i' l. fmlookup (LinkTokens (payload (tx_m (fst (DeleteLinkToken t i))))) i' = Some l \<and> (lt_Sub l = k \<or> lt_Aud l = k)"
    if "fmlookup (LinkTokens (payload (tx_m t))) i' = Some l" "lt_Sub l = k \<or> lt_Aud l = k" "needs_named (tx_m t) k" for i' l k
  proof -
    have "i' \<noteq> i" using that safe Some by auto
    with that show ?thesis unfolding tx_m_DeleteLinkToken(1) [OF Some] by auto
  qed
  show ?thesis
    by (rule tx_inv_marked [OF inv wf tx_m_DeleteLinkToken(2-6) [OF Some]]) (rule named)
qed

lemma tx_inv_SetLinkTrust:
  assumes inv: "tx_inv t"
  shows "tx_inv (fst (SetLinkTrust t v))"
proof (cases "checkLinkTrust v")
  case None
  have wf: "tx_wf (fst (SetLinkTrust t v))" using inv by (simp add: tx_inv_def)
  show ?thesis by (rule tx_inv_marked [OF inv wf]) (use None in \<open>auto simp: SetLinkTrust_def Let_def\<close>)
qed (use inv in \<open>simp add: SetLinkTrust_def\<close>)

lemma tx_inv_config:
  assumes inv: "tx_inv t" and wf: "tx_wf t'"
    and parts: "RelayNodes (payload (tx_m t')) = RelayNodes (payload (tx_m t))"
      "Blacklist (payload (tx_m t')) = Blacklist (payload (tx_m t))" "LinkTokens (payload (tx_m t')) = LinkTokens (payload (tx_m t))"
      "Link_trust (payload (tx_m t')) = Link_trust (payload (tx_m t))"
      "tx_relays t' = tx_relays t" "tx_started t' = tx_started t"
    and cfg: "tx_links t' \<or> (tx_links t' = tx_links t \<and> (\<forall>k. isLinkKeyConfig k \<longrightarrow>
       get_or [] (ServerConfig (payload (tx_m t'))) k = get_or [] (ServerConfig (payload (tx_m t))) k))"
  shows "tx_inv t'"
proof -
  have "checkLinks (tx_m t') (tx_started t) = None" if "\<not> tx_links t'"
  proof -
    have "\<not> tx_links t" and same: "\<And>k. isLinkKeyConfig k \<Longrightarrow>
        get_or [] (ServerConfig (payload (tx_m t'))) k = get_or [] (ServerConfig (payload (tx_m t))) k"
      using that cfg by auto
    with inv have "checkLinks (tx_m t) (tx_started t) = None" by (simp add: tx_inv_def)
    then show ?thesis unfolding checkLinks_None_iff parts using same by (simp add: isLinkKeyConfig_def)
  qed
  then show ?thesis
    using inv wf unfolding tx_inv_def checkRevokedBlacklisted_None_iff checkRelayJTI_None_iff fmpred_iff parts by blast
qed

lemma tx_inv_config_ops:
  assumes inv: "tx_inv t"
  shows "tx_inv (fst (SetConfig t k v))" "tx_inv (DeleteConfig t k)"
proof -
  have wf: "tx_wf (fst (SetConfig t k v))" "tx_wf (DeleteConfig t k)" using inv by (simp_all add: tx_inv_def)
  show "tx_inv (fst (SetConfig t k v))"
    by (rule tx_inv_config [OF inv wf(1)]) (auto simp: SetConfig_def Let_def)
  show "tx_inv (DeleteConfig t k)"
    by (rule tx_inv_config [OF inv wf(2)]) (auto simp: DeleteConfig_def Let_def)
qed

lemma tx_inv_run_op:
  assumes "tx_inv t" "safe_op op t"
  shows "tx_inv (run_op op t)"
  using assms by (cases op) (auto intro: tx_inv_frame_ops tx_inv_PutBlacklist tx_inv_Purge tx_inv_relay
      tx_inv_PutLinkToken tx_inv_DeleteLinkToken tx_inv_SetLinkTrust tx_inv_config_ops simp del: safe_op.simps(1-3))

lemma tx_inv_run_ops: "tx_inv t \<Longrightarrow> safe_ops ops t \<Longrightarrow> tx_inv (run_ops ops t)"
  by (induction ops arbitrary: t) (simp_all add: tx_inv_run_op)

lemma run_op_started: "tx_started (run_op op t) = tx_started t"
  by (cases op) (simp_all add: tx_op_defs PurgeExpiredBlacklist_def purge_loop_frame Let_def
      tx_m_PutLinkToken(5) [unfolded PutLinkToken_def Let_def] split: option.split)

lemma run_ops_started: "tx_started (run_ops ops t) = tx_started t"
  by (induction ops arbitrary: t) (simp_all add: run_op_started)

section \<open>Properties\<close>

text \<open>
  C4. Whatever sequence of writes a mutation made, accepted or refused, rolling the transaction back leaves
  exactly the model it started from: payload, counter, schema and all six indexes.
\<close>

theorem rollback_exact: "tx_m (rollback (run_ops ops (newTx m opts now))) = m"
  by (simp add: tx_m_rollback)

text \<open>
  Uniqueness survives every mutation: from a model whose entries are valid and whose indexes are exact,
  any sequence of writes leads to such a model again, also when the mutation touches the same token or
  node several times. So two tokens never share a hash or identifier, and a lookup by hash never misses
  or returns another entry.
\<close>

theorem writes_keep_indexes_exact:
  assumes "entries_ok (payload m)" and "idxs_ok m"
  shows "entries_ok (payload (tx_m (run_ops ops (newTx m opts now)))) \<and> idxs_ok (tx_m (run_ops ops (newTx m opts now)))"
  using tx_wf_run_ops [of "newTx m opts now" ops] assms by (simp add: tx_wf_def newTx_def)

definition ex_opts :: Options where
  "ex_opts = \<lparr>o_MaxBytes = 8388608, o_Instance = ''relay-a'', o_MasterKey = ''k'', o_InsecureTestMode = False,
     o_RequireEncryptedSecrets = False\<rparr>"

definition ex_link :: LinkToken where
  "ex_link = \<lparr>lt_ID = ''t1'', lt_JTI = ''j1'', lt_Role = RoleRelayChild, lt_Sub = ''edge'', lt_Aud = ''root'',
     lt_KID = ''k1'', lt_CreatedAt = unix_time 0, lt_ExpiresAt = unix_time 100, lt_RevokedAt = None,
     lt_CreatedBy = ''admin'', lt_Description = []\<rparr>"

definition ex_node :: RelayNode where
  "ex_node = \<lparr>rn_ID = ''n1'', rn_RelayID = ''edge'', rn_URLs = [], rn_Description = [], rn_Mode = ModePull,
     rn_IsProxy = True, rn_CreatedAt = unix_time 0, rn_JTI = [], rn_TokenExp = 0, rn_Revoked = False,
     rn_GroupVars = fmempty, rn_TokenHash = ''h1'', rn_TokenSecret = []\<rparr>"

definition ex_black :: BlacklistEntry where
  "ex_black = \<lparr>bl_JTI = ''j1'', bl_Hostname = ''edge'', bl_RevokedAt = unix_time 5, bl_Reason = [], bl_ExpiresAt = unix_time 100\<rparr>"

text \<open>A relay is enrolled with a link token, then revoked: the token is blacklisted and both entries are marked.\<close>

definition ex_enrol :: "tx_op list" where
  "ex_enrol = [OpSetConfig ConfigLinkSigningKeyCurrent ''enc:k'', OpPutLinkToken ex_link, OpPutRelayNode ex_node]"

definition ex_revoke :: "tx_op list" where
  "ex_revoke = [OpPutLinkToken (ex_link\<lparr>lt_RevokedAt := Some (unix_time 5)\<rparr>), OpPutBlacklist ex_black,
     OpPutRelayNode (ex_node\<lparr>rn_Revoked := True\<rparr>)]"

definition ex_model :: model where
  "ex_model = tx_m (run_ops (ex_enrol @ ex_revoke) (newTx (raw_model newPayload 0 2) ex_opts (unix_time 5)))"

theorem writes_keep_indexes_exact_witness:
  "entries_ok (payload ex_model) \<and> idxs_ok ex_model"
  using writes_keep_indexes_exact [of "raw_model newPayload 0 2" "ex_enrol @ ex_revoke" ex_opts "unix_time 5"]
    model_ok_empty [of 0 0 2]
  by (simp add: ex_model_def model_ok_def)

text \<open>
  C5. What a transaction commits is valid: from a valid model, if the writes take nothing away that another
  entry needs and the final check passes, the new model satisfies everything \<open>validateAll\<close> demands (so
  no revoked relay or link token is missing from the blacklist, and no link token exists without a signing key).
\<close>

theorem finish_checks_suffice:
  assumes "model_ok now m" and "safe_ops ops (newTx m opts now)" and "finish (run_ops ops (newTx m opts now)) = None"
  shows "model_ok now (tx_m (run_ops ops (newTx m opts now)))"
proof -
  have inv: "tx_inv (run_ops ops (newTx m opts now))"
    using assms(1,2) by (intro tx_inv_run_ops tx_inv_newTx)
  have "tx_started (run_ops ops t) = tx_started t" for t
    by (rule run_ops_started)
  then show ?thesis using finish_model_ok [OF inv assms(3)] by (simp add: newTx_def)
qed

theorem finish_checks_suffice_witness: "model_ok (unix_time 5) ex_model \<and> ex_model \<noteq> raw_model newPayload 0 2"
proof -
  have safe: "safe_ops (ex_enrol @ ex_revoke) (newTx (raw_model newPayload 0 2) ex_opts (unix_time 5))"
    and fin: "finish (run_ops (ex_enrol @ ex_revoke) (newTx (raw_model newPayload 0 2) ex_opts (unix_time 5))) = None"
    by code_simp+
  have "ex_model \<noteq> raw_model newPayload 0 2" by code_simp
  with finish_checks_suffice [OF model_ok_empty safe fin] show ?thesis by (simp add: ex_model_def)
qed

text \<open>
  The side condition is needed: deleting the only link token that names a revoked relay without
  identifier passes the final check, and the resulting state is one that loading refuses.
\<close>

theorem delete_link_token_unloadable:
  "model_ok (unix_time 5) ex_model \<and>
   finish (run_ops [OpDeleteLinkToken ''t1''] (newTx ex_model ex_opts (unix_time 5))) = None \<and>
   (let m' = tx_m (run_ops [OpDeleteLinkToken ''t1''] (newTx ex_model ex_opts (unix_time 5))) in
    validateAll [''edge''] (raw_model (payload m') 3 2) (unix_time 5) = Inl [ErrInvalid])"
proof -
  have safe: "safe_ops (ex_enrol @ ex_revoke) (newTx (raw_model newPayload 0 2) ex_opts (unix_time 5))"
    and fin: "finish (run_ops (ex_enrol @ ex_revoke) (newTx (raw_model newPayload 0 2) ex_opts (unix_time 5))) = None"
    by code_simp+
  have ok: "model_ok (unix_time 5) ex_model"
    using finish_model_ok [OF tx_inv_run_ops [OF tx_inv_newTx [OF model_ok_empty] safe] fin]
    by (simp add: ex_model_def run_ops_started newTx_def)
  show ?thesis unfolding Let_def by (intro conjI ok; code_simp)
qed

end
