(* ===== verification/State_Engine.thy ===== *)
theory State_Engine
  imports State_Tx State_File
begin

text \<open>
  The state engine (\<open>internal/state/engine.go\<close>): opening and reloading STATE\_DIR, the commit of a batch of
  mutations (guard, private copy, mutations, one atomic write, publication), and the queue that merges
  mutations arriving during a write (group commit), as a step relation between the writer and its callers.
\<close>

section \<open>The engine\<close>

record Engine =
  e_opts :: Options
  e_codec :: codec
  e_cur :: model
  e_fromPrev :: bool
  e_srcFile :: string
  e_writes :: "64 word"

definition DefaultMaxBytes :: int where "DefaultMaxBytes = 67108864"

definition codec_of :: "Lib \<Rightarrow> Options \<Rightarrow> codec res" where
  "codec_of L o' =
     (let c = \<lparr>macKey = None, masterKey = o_MasterKey o', insecure = clearSecretsAllowed o'\<rparr> in
      if o_MasterKey o' \<noteq> [] then and_then (DeriveStateHMACKey L (o_MasterKey o')) (\<lambda>k. Inr (c\<lparr>macKey := Some k\<rparr>))
      else Inr c)"

text \<open>\<open>Open\<close>; \<open>hostpid\<close> is the default instance name.\<close>

definition Open :: "Lib \<Rightarrow> string list \<Rightarrow> string \<Rightarrow> gotime \<Rightarrow> Options \<Rightarrow> ('g fsw, Engine) prog" where
  "Open L ord hostpid now opts =
     (let opts = (if o_MaxBytes opts \<le> 0 then opts\<lparr>o_MaxBytes := DefaultMaxBytes\<rparr> else opts);
          opts = (if o_Instance opts = [] then opts\<lparr>o_Instance := hostpid\<rparr> else opts) in
      if o_InsecureTestMode opts \<and> o_MasterKey opts \<noteq> [] then raise [ErrSecurityInvariant]
      else bindP (of_res (codec_of L opts)) (\<lambda>c.
           bindP (load L ord now c (o_MaxBytes opts)) (\<lambda>ld.
           ret \<lparr>e_opts = opts, e_codec = c, e_cur = ld_m ld, e_fromPrev = ld_fromPrev ld, e_srcFile = srcName ld, e_writes = 0\<rparr>)))"

definition Reload :: "Lib \<Rightarrow> string list \<Rightarrow> gotime \<Rightarrow> Engine \<Rightarrow> ('g fsw, Engine) prog" where
  "Reload L ord now e =
     bindP (load L ord now (e_codec e) (o_MaxBytes (e_opts e))) (\<lambda>ld.
     ret (e\<lparr>e_fromPrev := ld_fromPrev ld, e_srcFile := srcName ld, e_cur := ld_m ld\<rparr>))"

section \<open>Commit\<close>

text \<open>
  A mutation: what the caller does with the transaction, and the error it returns. Each one starts its
  transaction at its own time.
\<close>

type_synonym mutation = "Tx \<Rightarrow> Tx \<times> goerr option"

definition run_mutation :: "Options \<Rightarrow> gotime \<Rightarrow> mutation \<Rightarrow> model \<Rightarrow> model \<times> goerr option" where
  "run_mutation opts now fn work =
     (case fn (newTx work opts now) of (tx, err) \<Rightarrow>
        let err' = (case err of None \<Rightarrow> finish tx | Some e \<Rightarrow> Some e) in
        (case err' of None \<Rightarrow> (tx_m tx, None) | Some e \<Rightarrow> (tx_m (rollback tx), Some e)))"

fun apply_batch :: "Options \<Rightarrow> (gotime \<times> mutation) list \<Rightarrow> model \<Rightarrow> model \<times> goerr option list" where
  "apply_batch opts [] work = (work, [])"
| "apply_batch opts ((now, fn) # batch) work =
     (case run_mutation opts now fn work of (work', err) \<Rightarrow>
      case apply_batch opts batch work' of (work'', results) \<Rightarrow> (work'', err # results))"

definition failAllApplied :: "goerr \<Rightarrow> goerr option list \<Rightarrow> goerr option list" where
  "failAllApplied err results = map (\<lambda>r. case r of None \<Rightarrow> Some err | Some e \<Rightarrow> Some e) results"

text \<open>
  The write of a batch that changed something: backup of a schema 1 file, volatile data, counter, encoding,
  size, atomic replacement. The result is the model to publish.
\<close>

definition write_batch :: "Lib \<Rightarrow> 'g guard \<Rightarrow> (Payload \<Rightarrow> Payload) option \<Rightarrow> Engine \<Rightarrow> gotime \<Rightarrow> model \<Rightarrow> ('g fsw, model) prog" where
  "write_batch L guard piggyback e now work =
     bindP (if schema work = 1 then writeV1Backup (e_srcFile e) (o_MaxBytes (e_opts e)) else ret ()) (\<lambda>_.
     let work1 = (case piggyback of None \<Rightarrow> work | Some f \<Rightarrow> payload_update f work);
         work2 = work1\<lparr>seq := seq work1 + 1, schema := SchemaVersion\<rparr> in
     bindP (of_res (encode L (e_codec e) (payload work2) (seq work2) (o_Instance (e_opts e)) now)) (\<lambda>bytes.
     if int (length bytes) > o_MaxBytes (e_opts e) then raise [ErrTooLarge]
     else bindP (atomicWrite bytes (\<not> e_fromPrev e) (Some guard)) (\<lambda>_. ret work2)))"

definition commit :: "Lib \<Rightarrow> 'g guard option \<Rightarrow> (Payload \<Rightarrow> Payload) option \<Rightarrow> Engine \<Rightarrow> gotime \<Rightarrow> (gotime \<times> mutation) list
    \<Rightarrow> 'g fsw \<Rightarrow> (goerr option list \<times> Engine) \<times> 'g fsw" where
  "commit L guard piggyback e now batch w =
     (case guard of
        None \<Rightarrow> ((map (\<lambda>_. Some [ErrNoWriteGuard]) batch, e), w)
      | Some g \<Rightarrow>
          (case call_guard (Some g) w of
             (Inl err, w1) \<Rightarrow> ((map (\<lambda>_. Some err) batch, e), w1)
           | (Inr _, w1) \<Rightarrow>
               (case apply_batch (e_opts e) batch (e_cur e) of (work, results) \<Rightarrow>
                  if list_all (\<lambda>r. r \<noteq> None) results then ((results, e), w1)
                  else
                    (case write_batch L g piggyback e now work w1 of
                       (Inl err, w2) \<Rightarrow> ((failAllApplied err results, e), w2)
                     | (Inr work', w2) \<Rightarrow>
                         ((results, e\<lparr>e_fromPrev := False, e_writes := e_writes e + 1, e_cur := work'\<rparr>), w2)))))"

section \<open>Snapshots\<close>

text \<open>Reads of the published model; the values are copies, so a snapshot is the model.\<close>

definition Snapshot :: "Engine \<Rightarrow> model" where
  "Snapshot e = e_cur e"

definition Snap_Agent :: "model \<Rightarrow> string \<Rightarrow> Agent option" where
  "Snap_Agent m hostname = fmlookup (Agents (payload m)) hostname"

definition values_of :: "(string, 'v) fmap \<Rightarrow> 'v list" where
  "values_of m = map (\<lambda>k. the (fmlookup m k)) (keys m)"

definition Snap_Agents :: "model \<Rightarrow> Agent list" where
  "Snap_Agents m = sort_key ag_Hostname (values_of (Agents (payload m)))"

definition Snap_AgentCount :: "model \<Rightarrow> nat" where
  "Snap_AgentCount m = fcard (fmdom (Agents (payload m)))"

definition Snap_AuthorizedKey :: "model \<Rightarrow> string \<Rightarrow> AuthorizedKey option" where
  "Snap_AuthorizedKey m hostname = fmlookup (AuthorizedKeys (payload m)) hostname"

definition Snap_EnrollmentToken :: "model \<Rightarrow> string \<Rightarrow> EnrollmentToken option" where
  "Snap_EnrollmentToken m tid = fmlookup (EnrollmentTokens (payload m)) tid"

definition Snap_EnrollmentTokenByHash :: "model \<Rightarrow> string \<Rightarrow> EnrollmentToken option" where
  "Snap_EnrollmentTokenByHash m hash =
     (case fmlookup (enrollByHash m) hash of None \<Rightarrow> None | Some tid \<Rightarrow> Snap_EnrollmentToken m tid)"

definition Snap_EnrollmentTokens :: "model \<Rightarrow> EnrollmentToken list" where
  "Snap_EnrollmentTokens m = sort_key et_ID (values_of (EnrollmentTokens (payload m)))"

definition Snap_PluginToken :: "model \<Rightarrow> string \<Rightarrow> PluginToken option" where
  "Snap_PluginToken m tid = fmlookup (PluginTokens (payload m)) tid"

definition Snap_PluginTokenByHash :: "model \<Rightarrow> string \<Rightarrow> PluginToken option" where
  "Snap_PluginTokenByHash m hash =
     (case fmlookup (pluginByHash m) hash of None \<Rightarrow> None | Some tid \<Rightarrow> Snap_PluginToken m tid)"

definition Snap_PluginTokens :: "model \<Rightarrow> PluginToken list" where
  "Snap_PluginTokens m = sort_key pt_ID (values_of (PluginTokens (payload m)))"

definition Snap_RelayParentToken :: "model \<Rightarrow> string \<Rightarrow> RelayParentToken option" where
  "Snap_RelayParentToken m tid = fmlookup (RelayParentTokens (payload m)) tid"

definition Snap_RelayParentTokenByJTI :: "model \<Rightarrow> string \<Rightarrow> RelayParentToken option" where
  "Snap_RelayParentTokenByJTI m jti =
     (case fmlookup (parentByJTI m) jti of None \<Rightarrow> None | Some tid \<Rightarrow> Snap_RelayParentToken m tid)"

definition Snap_RelayParentTokens :: "model \<Rightarrow> RelayParentToken list" where
  "Snap_RelayParentTokens m = sort_key rp_ID (values_of (RelayParentTokens (payload m)))"

definition Snap_Blacklisted :: "model \<Rightarrow> string \<Rightarrow> bool" where
  "Snap_Blacklisted m jti \<longleftrightarrow> fmlookup (Blacklist (payload m)) jti \<noteq> None"

definition Snap_BlacklistEntries :: "model \<Rightarrow> BlacklistEntry list" where
  "Snap_BlacklistEntries m = sort_key bl_JTI (values_of (Blacklist (payload m)))"

definition Snap_RelayNode :: "model \<Rightarrow> string \<Rightarrow> RelayNode option" where
  "Snap_RelayNode m relayID = fmlookup (RelayNodes (payload m)) relayID"

definition Snap_RelayNodeByID :: "model \<Rightarrow> string \<Rightarrow> RelayNode option" where
  "Snap_RelayNodeByID m tid =
     (case fmlookup (relayByID m) tid of None \<Rightarrow> None | Some rid \<Rightarrow> Snap_RelayNode m rid)"

definition Snap_RelayNodes :: "model \<Rightarrow> RelayNode list" where
  "Snap_RelayNodes m = sort_key rn_RelayID (values_of (RelayNodes (payload m)))"

definition Snap_Config :: "model \<Rightarrow> string \<Rightarrow> string option" where
  "Snap_Config m key = fmlookup (ServerConfig (payload m)) key"

definition Snap_LinkToken :: "model \<Rightarrow> string \<Rightarrow> LinkToken option" where
  "Snap_LinkToken m tid = fmlookup (LinkTokens (payload m)) tid"

definition Snap_LinkTokenByJTI :: "model \<Rightarrow> string \<Rightarrow> LinkToken option" where
  "Snap_LinkTokenByJTI m jti =
     (case fmlookup (linkByJTI m) jti of None \<Rightarrow> None | Some tid \<Rightarrow> Snap_LinkToken m tid)"

definition Snap_LinkTokens :: "model \<Rightarrow> LinkToken list" where
  "Snap_LinkTokens m = sort_key lt_ID (values_of (LinkTokens (payload m)))"

definition Snap_LinkTrust :: "model \<Rightarrow> LinkTrust" where
  "Snap_LinkTrust m = Link_trust (payload m)"

definition Snap_SchemaVersion :: "model \<Rightarrow> int" where
  "Snap_SchemaVersion m = (if schema m = 0 then SchemaVersion else schema m)"

section \<open>What a batch does to the model\<close>

text \<open>A mutation only acts through the transaction, and a safe one takes nothing away that is still needed.\<close>

definition through_tx :: "mutation \<Rightarrow> bool" where
  "through_tx fn \<longleftrightarrow> (\<forall>t. \<exists>ops. fst (fn t) = run_ops ops t)"

definition safe_mutation :: "mutation \<Rightarrow> bool" where
  "safe_mutation fn \<longleftrightarrow> (\<forall>t. \<exists>ops. fst (fn t) = run_ops ops t \<and> (tx_wf t \<longrightarrow> safe_ops ops t))"

lemma safe_through: "safe_mutation fn \<Longrightarrow> through_tx fn"
  unfolding safe_mutation_def through_tx_def by blast

lemma run_mutation_error:
  assumes "through_tx fn" "run_mutation opts now fn work = (m', Some e)"
  shows "m' = work"
proof -
  obtain ops where ops: "fst (fn (newTx work opts now)) = run_ops ops (newTx work opts now)"
    using assms(1) unfolding through_tx_def by blast
  then show ?thesis
    using assms(2) by (auto simp: run_mutation_def Let_def tx_m_rollback split: prod.splits option.splits)
qed

lemma run_mutation_ok:
  assumes "safe_mutation fn" "run_mutation opts now fn work = (m', None)" "model_ok now work"
  shows "model_ok now m'"
proof -
  obtain ops where ops: "fst (fn (newTx work opts now)) = run_ops ops (newTx work opts now)" "safe_ops ops (newTx work opts now)"
    using assms(1) tx_inv_newTx [OF assms(3), of opts] unfolding safe_mutation_def tx_inv_def by blast
  have fin: "finish (run_ops ops (newTx work opts now)) = None" and m': "m' = tx_m (run_ops ops (newTx work opts now))"
    using assms(2) ops(1) by (auto simp: run_mutation_def Let_def split: prod.splits option.splits)
  have "tx_inv (run_ops ops (newTx work opts now))"
    by (rule tx_inv_run_ops [OF tx_inv_newTx [OF assms(3)] ops(2)])
  from finish_model_ok [OF this fin] show ?thesis
    by (simp add: m' run_ops_started newTx_def)
qed

lemma apply_batch_length: "length (snd (apply_batch opts batch work)) = length batch"
  by (induction opts batch work rule: apply_batch.induct) (auto split: prod.splits)

lemma apply_batch_none_applied:
  assumes "list_all (\<lambda>(_, fn). through_tx fn) batch" "list_all (\<lambda>r. r \<noteq> None) (snd (apply_batch opts batch work))"
  shows "fst (apply_batch opts batch work) = work"
  using assms
proof (induction opts batch work rule: apply_batch.induct)
  case (2 opts now fn batch work)
  obtain work' err where run: "run_mutation opts now fn work = (work', err)" by (cases "run_mutation opts now fn work")
  obtain work'' results where rest: "apply_batch opts batch work' = (work'', results)" by (cases "apply_batch opts batch work'")
  obtain e where "err = Some e" using 2(3) run rest by auto
  with run_mutation_error [of fn opts now work work' e] run 2(2) have "work' = work" by simp
  with 2(1) [OF run [symmetric]] 2(2,3) run rest show ?case by simp
qed simp

lemma apply_batch_valid:
  assumes "list_all (\<lambda>(_, fn). safe_mutation fn) batch" "sorted (now0 # map fst batch)" "model_ok now0 work"
  shows "model_ok (last (now0 # map fst batch)) (fst (apply_batch opts batch work))"
  using assms
proof (induction opts batch work arbitrary: now0 rule: apply_batch.induct)
  case (1 opts work)
  then show ?case by simp
next
  case (2 opts now fn batch work)
  obtain work' err where run: "run_mutation opts now fn work = (work', err)" by (cases "run_mutation opts now fn work")
  have safe: "safe_mutation fn" and ok: "model_ok now work"
    using 2(2-4) model_ok_later [of now0 work now] by auto
  have "model_ok now work'"
    using run_mutation_ok [OF safe, of opts now work work'] run_mutation_error [OF safe_through [OF safe], of opts now work work'] run ok
    by (cases err) auto
  from 2(1) [OF run [symmetric], of now] 2(2,3) this run show ?case by (auto split: prod.splits)
qed

text \<open>The mutations of a batch that succeeded.\<close>

definition successes :: "(gotime \<times> mutation) list \<Rightarrow> goerr option list \<Rightarrow> (gotime \<times> mutation) list" where
  "successes batch results = map fst (filter (\<lambda>(_, r). r = None) (zip batch results))"

lemma apply_successes:
  assumes "list_all (\<lambda>(_, fn). through_tx fn) batch"
  shows "apply_batch opts (successes batch (snd (apply_batch opts batch work))) work =
     (fst (apply_batch opts batch work), map (\<lambda>_. None) (successes batch (snd (apply_batch opts batch work))))"
  using assms
proof (induction opts batch work rule: apply_batch.induct)
  case (1 opts work)
  then show ?case by (simp add: successes_def)
next
  case (2 opts now fn batch work)
  obtain work' err where run: "run_mutation opts now fn work = (work', err)" by (cases "run_mutation opts now fn work")
  obtain work'' results where rest: "apply_batch opts batch work' = (work'', results)" by (cases "apply_batch opts batch work'")
  note IH = 2(1) [OF run [symmetric]]
  show ?case
  proof (cases err)
    case None
    with IH 2(2) run rest show ?thesis by (simp add: successes_def)
  next
    case (Some e)
    with run_mutation_error [of fn opts now work work' e] run 2(2) have "work' = work" by simp
    with IH 2(2) run rest Some show ?thesis by (simp add: successes_def)
  qed
qed

section \<open>What a commit guarantees\<close>

definition piggybacked :: "(Payload \<Rightarrow> Payload) option \<Rightarrow> model \<Rightarrow> model" where
  "piggybacked pb m = (case pb of None \<Rightarrow> m | Some f \<Rightarrow> payload_update f m)"

definition next_model :: "(Payload \<Rightarrow> Payload) option \<Rightarrow> model \<Rightarrow> model" where
  "next_model pb work = (piggybacked pb work)\<lparr>seq := seq work + 1, schema := SchemaVersion\<rparr>"

lemma seq_piggybacked [simp]: "seq (piggybacked pb m) = seq m"
  by (cases pb) (simp_all add: piggybacked_def)

lemma write_batch_success:
  assumes "write_batch L g pb e now work w = (Inr m', w')"
  shows "m' = next_model pb work \<and> (\<exists>bytes.
     encode L (e_codec e) (payload m') (seq m') (o_Instance (e_opts e)) now = Inr bytes \<and>
     int (length bytes) \<le> o_MaxBytes (e_opts e) \<and> durable StateFile bytes w')"
proof -
  let ?m = "next_model pb work"
  obtain w1 bytes where enc: "encode L (e_codec e) (payload ?m) (seq ?m) (o_Instance (e_opts e)) now = Inr bytes"
    and small: "int (length bytes) \<le> o_MaxBytes (e_opts e)"
    and wr: "atomicWrite bytes (\<not> e_fromPrev e) (Some g) w1 = (Inr (), w')" and m': "m' = ?m"
    using assms
    by (auto simp: write_batch_def bindP_def of_res_def ret_def raise_def Let_def next_model_def piggybacked_def [symmetric]
        split: prod.splits sum.splits if_splits)
  with atomicWrite_durable [OF wr] show ?thesis by blast
qed

lemma commit_cases:
  obtains (refused) err w1 where "commit L guard pb e now batch w = ((map (\<lambda>_. Some err) batch, e), w1)"
      "files w1 = files w" "trace w1 = trace w"
  | (nothing) g w1 work results where "guard = Some g" "call_guard (Some g) w = (Inr (), w1)"
      "apply_batch (e_opts e) batch (e_cur e) = (work, results)" "list_all (\<lambda>r. r \<noteq> None) results"
      "commit L guard pb e now batch w = ((results, e), w1)"
  | (failed) g w1 work results err w2 where "guard = Some g" "call_guard (Some g) w = (Inr (), w1)"
      "apply_batch (e_opts e) batch (e_cur e) = (work, results)" "\<not> list_all (\<lambda>r. r \<noteq> None) results"
      "write_batch L g pb e now work w1 = (Inl err, w2)" "commit L guard pb e now batch w = ((failAllApplied err results, e), w2)"
  | (written) g w1 work results m' w2 where "guard = Some g" "call_guard (Some g) w = (Inr (), w1)"
      "apply_batch (e_opts e) batch (e_cur e) = (work, results)" "\<not> list_all (\<lambda>r. r \<noteq> None) results"
      "write_batch L g pb e now work w1 = (Inr m', w2)"
      "commit L guard pb e now batch w = ((results, e\<lparr>e_fromPrev := False, e_writes := e_writes e + 1, e_cur := m'\<rparr>), w2)"
proof (cases guard)
  case None
  with refused [of "[ErrNoWriteGuard]" w] show thesis by (simp add: commit_def)
next
  case (Some g)
  obtain r w1 where call: "call_guard (Some g) w = (r, w1)" by (cases "call_guard (Some g) w")
  have same: "files w1 = files w" "trace w1 = trace w"
    using call by (auto simp: call_guard_def split: prod.splits option.splits)
  obtain work results where app: "apply_batch (e_opts e) batch (e_cur e) = (work, results)"
    by (cases "apply_batch (e_opts e) batch (e_cur e)")
  obtain wr w2 where wb: "write_batch L g pb e now work w1 = (wr, w2)" by (cases "write_batch L g pb e now work w1")
  show thesis
  proof (cases r)
    case (Inl err)
    with refused [of err w1] Some call same show thesis by (simp add: commit_def)
  next
    case (Inr u)
    show thesis
    proof (cases "list_all (\<lambda>r. r \<noteq> None) results")
      case True
      show thesis by (rule nothing [of g w1 work results]) (use True Some call app Inr in \<open>simp_all add: commit_def\<close>)
    next
      case False
      show thesis
      proof (cases wr)
        case (Inl err)
        show thesis by (rule failed [of g w1 work results err w2])
          (use False Some call app Inr wb Inl \<open>r = Inr u\<close> in \<open>simp_all add: commit_def\<close>)
      next
        case (Inr m')
        show thesis by (rule written [of g w1 work results m' w2])
          (use False Some call app Inr wb \<open>r = Inr u\<close> in \<open>simp_all add: commit_def\<close>)
      qed
    qed
  qed
qed

lemma failAllApplied_no_success [simp]: "None \<notin> set (failAllApplied err results)"
  by (auto simp: failAllApplied_def split: option.splits)

text \<open>No operation touches the counter or the schema; only the write does.\<close>

lemma run_op_seq: "seq (tx_m (run_op op t)) = seq (tx_m t) \<and> schema (tx_m (run_op op t)) = schema (tx_m t)"
proof (cases op)
  case (OpPutRelayNode v)
  then show ?thesis
    by (cases "relay_put_accepted t v")
      (simp_all add: PutRelayNode_refused PutRelayNode_accepted Let_def split: option.split)
next
  case (OpPutLinkToken v)
  show ?thesis unfolding OpPutLinkToken run_op.simps PutLinkToken_def Let_def by (simp split: option.split)
next
  case (OpPurgeExpiredBlacklist now)
  have "seq (tx_m (fst (purge_loop now ks t n))) = seq (tx_m t) \<and> schema (tx_m (fst (purge_loop now ks t n))) = schema (tx_m t)" for ks n
    by (induction ks arbitrary: t n) (simp_all split: option.split)
  then show ?thesis by (simp add: OpPurgeExpiredBlacklist PurgeExpiredBlacklist_def)
qed (simp_all add: PutAgent_def DeleteAgent_def PutAuthorizedKey_def DeleteAuthorizedKey_def
  PutEnrollmentToken_def DeleteEnrollmentToken_def PutPluginToken_def DeletePluginToken_def
  PutRelayParentToken_def DeleteRelayParentToken_def DeleteLinkToken_def
  SetLinkTrust_def PutBlacklist_def DeleteRelayNode_def SetConfig_def DeleteConfig_def Let_def split: option.split)

lemma run_ops_seq: "seq (tx_m (run_ops ops t)) = seq (tx_m t) \<and> schema (tx_m (run_ops ops t)) = schema (tx_m t)"
  by (induction ops arbitrary: t) (simp_all add: run_op_seq)

lemma run_mutation_seq:
  assumes "through_tx fn"
  shows "seq (fst (run_mutation opts now fn work)) = seq work \<and> schema (fst (run_mutation opts now fn work)) = schema work"
proof (cases "snd (run_mutation opts now fn work)")
  case None
  obtain ops where "fst (fn (newTx work opts now)) = run_ops ops (newTx work opts now)"
    using assms unfolding through_tx_def by blast
  with None run_ops_seq [of ops "newTx work opts now"] show ?thesis
    by (auto simp: run_mutation_def Let_def newTx_def split: prod.splits option.splits)
next
  case (Some e)
  then show ?thesis using run_mutation_error [OF assms, of opts now work _ e] by (metis prod.collapse)
qed

lemma apply_batch_seq:
  assumes "list_all (\<lambda>(_, fn). through_tx fn) batch"
  shows "seq (fst (apply_batch opts batch work)) = seq work \<and> schema (fst (apply_batch opts batch work)) = schema work"
  using assms
proof (induction opts batch work rule: apply_batch.induct)
  case (2 opts now fn batch work)
  obtain work' err where run: "run_mutation opts now fn work = (work', err)" by (cases "run_mutation opts now fn work")
  with run_mutation_seq [of fn opts now work] 2(1) [OF run [symmetric]] 2(2) show ?case by (auto split: prod.splits)
qed simp

lemma model_ok_counter: "model_ok now (m\<lparr>seq := s, schema := v\<rparr>) = model_ok now m"
proof -
  have "cross (m\<lparr>seq := s, schema := v\<rparr>) = cross m" by (simp add: cross_def)
  from cross_checks [OF this] show ?thesis by (simp add: model_ok_def idxs_ok_def relays_ok_def)
qed

section \<open>Properties\<close>

lemma commit_outcome:
  assumes "list_all (\<lambda>(_, fn). through_tx fn) batch"
  shows "case commit L guard pb e now batch w of ((results, e'), w') \<Rightarrow>
     if list_all (\<lambda>r. r \<noteq> None) results then e' = e
     else (\<exists>bytes. encode L (e_codec e) (payload (e_cur e')) (seq (e_cur e')) (o_Instance (e_opts e)) now = Inr bytes \<and>
             durable StateFile bytes w') \<and>
          seq (e_cur e') = seq (e_cur e) + 1 \<and> schema (e_cur e') = 2 \<and> \<not> e_fromPrev e'"
proof (cases rule: commit_cases [of L guard pb e now batch w])
  case (written g w1 work results m' w2)
  have "seq work = seq (e_cur e)" using apply_batch_seq [OF assms, of "e_opts e" "e_cur e"] written(3) by simp
  with write_batch_success [OF written(5)] written show ?thesis
    by (auto simp: next_model_def SchemaVersion_def)
qed (auto simp: list_all_iff)


definition ex_agent :: "string \<Rightarrow> Agent" where
  "ex_agent h = \<lparr>ag_Hostname = h, ag_PublicKeyPEM = ''pem'', ag_TokenJTI = [], ag_PrevTokenJTI = [], ag_EnrolledAt = 5,
     ag_Suspended = False, ag_Revoked = False, ag_Vars = fmempty, ag_LastSeen = None\<rparr>"

definition ex_batch :: "(gotime \<times> mutation) list" where
  "ex_batch = [(9, \<lambda>t. PutAuthorizedKey t \<lparr>ak_Hostname = ''host-1'', ak_PublicKeyPEM = ''pem'', ak_ApprovedAt = 5, ak_ApprovedBy = ''admin''\<rparr>),
     (9, \<lambda>t. PutAgent t (ex_agent []))]"

lemma through_put:
  "through_tx (\<lambda>t. PutAuthorizedKey t k)" "through_tx (\<lambda>t. PutAgent t a)"
proof -
  show "through_tx (\<lambda>t. PutAuthorizedKey t k)" unfolding through_tx_def
    by (intro allI exI [of _ "[OpPutAuthorizedKey k]"]) simp
  show "through_tx (\<lambda>t. PutAgent t a)" unfolding through_tx_def
    by (intro allI exI [of _ "[OpPutAgent a]"]) simp
qed

lemma ex_batch_through: "list_all (\<lambda>(_, fn). through_tx fn) ex_batch"
  by (simp add: ex_batch_def through_put)

definition ex_engine :: Engine where
  "ex_engine = \<lparr>e_opts = ex_opts, e_codec = ex_codec, e_cur = raw_model newPayload 1 2, e_fromPrev = False,
     e_srcFile = StateFile, e_writes = 0\<rparr>"

definition ex_world :: "unit fsw" where
  "ex_world = start (fmap_of_list [(StateFile, (''file 1'', True))]) [] ()"

definition ex_guard :: "unit guard" where
  "ex_guard h = (None, h)"

text \<open>The batch writes one key and is refused one agent without a name: one success, one error.\<close>

lemma ex_commit: "fst (commit ex_lib (Some ex_guard) None ex_engine 9 ex_batch ex_world) =
    ([None, Some [ErrInvalid]], ex_engine\<lparr>e_fromPrev := False, e_writes := 1, e_cur := raw_model ex_payload 2 2\<rparr>)"
  by code_simp


lemma commit_reloads:
  assumes mac: "\<And>k msg. hmac_sha256 L k msg \<noteq> []"
    and safe: "list_all (\<lambda>(_, fn). safe_mutation fn) batch" and clock: "sorted (now0 # map fst batch)" "last (now0 # map fst batch) \<le> now"
    and valid: "model_ok now0 (e_cur e)"
    and pb: "\<And>m t. model_ok t m \<Longrightarrow> model_ok t (piggybacked pb m)"
    and run: "commit L guard pb e now batch w = ((results, e'), w')" and success: "None \<in> set results"
    and json: "json_keeps L (e_codec e) (payload (e_cur e')) (seq (e_cur e')) (o_Instance (e_opts e)) now"
    and ord: "set ord = fset (fmdom (RelayNodes (payload (e_cur e'))))" and crash: "F \<in> set (disk w')" "crash_of F D"
  shows "\<exists>env. fst (load L ord now (e_codec e) (o_MaxBytes (e_opts e)) (start D [] h)) =
     check (checkSecrets L (e_codec e) (e_cur e')) (Inr \<lparr>ld_m = e_cur e', ld_env = env, ld_fromPrev = False\<rparr>)"
proof (cases rule: commit_cases [of L guard pb e now batch w])
  case (written g w1 work res m' w2)
  with run have eqs: "results = res" "e_cur e' = m'" "w' = w2" by auto
  from write_batch_success [OF written(5)] obtain bytes where m': "m' = next_model pb work"
    and enc: "encode L (e_codec e) (payload m') (seq m') (o_Instance (e_opts e)) now = Inr bytes"
    and small: "int (length bytes) \<le> o_MaxBytes (e_opts e)" and disk: "durable StateFile bytes w2"
    by blast
  have "model_ok (last (now0 # map fst batch)) work"
    using apply_batch_valid [OF safe clock(1) valid, of "e_opts e"] written(3) by simp
  from model_ok_later [OF pb [OF this] clock(2)] have "model_ok now (piggybacked pb work)" .
  then have "model_ok now m'"
    unfolding m' next_model_def by (simp add: model_ok_counter)
  moreover have "schema m' = SchemaVersion" by (simp add: m' next_model_def)
  ultimately obtain env where dec: "decode L ord (e_codec e) bytes now = check (checkSecrets L (e_codec e) m') (Inr (m', env))"
    using decode_encode [OF json [unfolded eqs] enc mac, of now m' ord] ord eqs(2) by auto
  have "fmlookup D StateFile = Some (bytes, True)" using disk crash eqs(3) by (simp add: durable_def)
  from load_encoded [OF this small dec, of h] show ?thesis unfolding eqs by blast
qed (use run success in \<open>auto simp: list_all_iff\<close>)


lemma ex_batch_safe: "list_all (\<lambda>(_, fn). safe_mutation fn) ex_batch"
proof -
  have "safe_mutation (\<lambda>t. PutAuthorizedKey t k)" for k unfolding safe_mutation_def
    by (intro allI exI [of _ "[OpPutAuthorizedKey k]"]) simp
  moreover have "safe_mutation (\<lambda>t. PutAgent t a)" for a unfolding safe_mutation_def
    by (intro allI exI [of _ "[OpPutAgent a]"]) simp
  ultimately show ?thesis by (simp add: ex_batch_def)
qed


text \<open>
  Only the confirmed master writes: without a guard, or when the guard refuses at the start of the commit, every
  mutation fails with that error, the engine is unchanged, and the directory is not touched at all (not even a
  temporary file is created).
\<close>

theorem commit_refused_touches_nothing:
  assumes "guard = None \<or> (\<exists>g err h. guard = Some g \<and> g (gst w) = (Some err, h))"
  shows "case commit L guard pb e now batch w of ((results, e'), w') \<Rightarrow>
     length results = length batch \<and> None \<notin> set results \<and> e' = e \<and> files w' = files w \<and> trace w' = trace w"
  using assms by (auto simp: commit_def call_guard_def)

theorem commit_refused_touches_nothing_witness:
  "commit ex_lib (Some (\<lambda>_. (Some [ErrNotMaster], ()))) None ex_engine 9 ex_batch ex_world =
     (([Some [ErrNotMaster], Some [ErrNotMaster]], ex_engine), ex_world)"
proof -
  let ?r = "commit ex_lib (Some (\<lambda>_. (Some [ErrNotMaster], ()))) None ex_engine 9 ex_batch ex_world"
  have "case ?r of ((results, e'), w') \<Rightarrow> length results = length ex_batch \<and> None \<notin> set results \<and>
      e' = ex_engine \<and> files w' = files ex_world \<and> trace w' = trace ex_world"
    by (rule commit_refused_touches_nothing) simp
  then show ?thesis by (simp add: commit_def call_guard_def ex_batch_def)
qed

text \<open>
  C37. Mutations of one batch do not affect each other's failures: the model after the batch is the one obtained by
  applying, in order, only the mutations that succeeded, each of which succeeds again; a mutation that fails leaves
  no trace in what is written.
\<close>

theorem batch_isolates_failures:
  assumes "list_all (\<lambda>(_, fn). through_tx fn) batch" and "apply_batch opts batch work = (work', results)"
  shows "apply_batch opts (successes batch results) work = (work', map (\<lambda>_. None) (successes batch results))"
  using apply_successes [OF assms(1), of opts work] assms(2) by simp

theorem batch_isolates_failures_witness:
  "apply_batch ex_opts (successes ex_batch [None, Some [ErrInvalid]]) (raw_model newPayload 1 2) =
     (raw_model ex_payload 1 2, [None])"
proof -
  have "apply_batch ex_opts ex_batch (raw_model newPayload 1 2) = (raw_model ex_payload 1 2, [None, Some [ErrInvalid]])"
    by code_simp
  from batch_isolates_failures [OF ex_batch_through this] show ?thesis by (simp add: successes_def ex_batch_def)
qed

end
