(* ===== verification/Link_Token.thy ===== *)
theory Link_Token
  imports Encoding State_File Store_Tx
begin

text \<open>
  Link tokens and the signed messages of the relay tree (\<open>internal/auth/linkjwt.go\<close>): the root relay signs the
  tokens relays present to each other, the lists of revoked tokens and the rotations of its own key; every other
  relay verifies them against the key it trusts. Ed25519, SHA-256, the JSON decoders and the JWT library are
  parameters (\<open>LinkLib\<close>); the base64 URL encoding is defined here. The text of an error that wraps another is
  not modelled.
\<close>

section \<open>Base64 URL encoding without padding\<close>

definition url_char :: "nat \<Rightarrow> char" where
  "url_char v =
     (if v < 26 then char_of (65 + v) else if v < 52 then char_of (71 + v)
      else if v < 62 then char_of (v - 4) else if v = 62 then CHR ''-'' else CHR ''_'')"

fun url_encode :: "string \<Rightarrow> string" where
  "url_encode [] = []"
| "url_encode [a] = (let x = of_char a :: nat in [url_char (x div 4), url_char (16 * (x mod 4))])"
| "url_encode [a, b] =
     (let x = of_char a :: nat; y = of_char b :: nat in
      [url_char (x div 4), url_char (16 * (x mod 4) + y div 16), url_char (4 * (y mod 16))])"
| "url_encode (a # b # c # r) =
     (let x = of_char a :: nat; y = of_char b :: nat; z = of_char c :: nat in
      url_char (x div 4) # url_char (16 * (x mod 4) + y div 16) # url_char (4 * (y mod 16) + z div 64) #
      url_char (z mod 64) # url_encode r)"

definition url_decode :: "string \<Rightarrow> string option" where
  "url_decode s = map_option (map char_of) (raw_url_decode s)"

lemma url_char_facts [simp]:
  assumes "v < 64"
  shows "b64_val (url_char v) = Some v" "(of_char (url_char v) :: nat) \<noteq> 10" "(of_char (url_char v) :: nat) \<noteq> 13"
  using assms by (auto simp: url_char_def b64_val_def Let_def)

lemma url_roundtrip [simp]: "url_decode (url_encode s) = Some s"
proof (induction s rule: url_encode.induct)
  case 1
  show ?case by (simp add: url_decode_def raw_url_decode_def)
next
  case (2 a)
  show ?case
    using b64_join(1) [OF of_char_less [of a] of_char_less [of a] of_char_less [of a]]
    by (simp add: url_decode_def raw_url_decode_def Let_def b64_bounds)
next
  case (3 a b)
  show ?case
    using b64_join(2,3) [OF of_char_less [of a] of_char_less [of b] of_char_less [of b]]
    by (simp add: url_decode_def raw_url_decode_def Let_def b64_bounds)
next
  case (4 a b c r)
  from 4 [OF refl refl refl] obtain vs bs where "b64_vals (url_encode r) = Some vs" "b64_bytes vs = Some bs" "map char_of bs = r"
    by (auto simp: url_decode_def raw_url_decode_def Let_def bind_eq_Some_conv)
  then show ?case
    using b64_join(2,4,5) [OF of_char_less [of a] of_char_less [of b] of_char_less [of c]]
    by (simp add: url_decode_def raw_url_decode_def Let_def b64_bounds)
qed

lemma url_encode_Nil_iff [simp]: "url_encode s = [] \<longleftrightarrow> s = []"
  by (cases s rule: url_encode.cases) (simp_all add: Let_def)

lemma url_encode_inj: "url_encode s = url_encode t \<Longrightarrow> s = t"
  by (metis url_roundtrip option.inject)

section \<open>Library and errors\<close>

record LinkError =
  le_Code :: string
  le_Permanent :: bool
  le_cause :: "string option"

definition linkErr :: "string \<Rightarrow> bool \<Rightarrow> string option \<Rightarrow> LinkError" where
  "linkErr code permanent cause = \<lparr>le_Code = code, le_Permanent = permanent, le_cause = cause\<rparr>"

definition LinkErrMalformed :: string where "LinkErrMalformed = ''link_token_malformed''"
definition LinkErrAlg :: string where "LinkErrAlg = ''link_alg_not_allowed''"
definition LinkErrKID :: string where "LinkErrKID = ''jwt_unknown_kid''"
definition LinkErrMissingKID :: string where "LinkErrMissingKID = ''jwt_missing_kid''"
definition LinkErrMissingAud :: string where "LinkErrMissingAud = ''jwt_missing_aud''"
definition LinkErrIssuer :: string where "LinkErrIssuer = ''jwt_wrong_issuer''"
definition LinkErrSignature :: string where "LinkErrSignature = ''link_signature_invalid''"
definition LinkErrExpired :: string where "LinkErrExpired = ''link_token_expired''"
definition LinkErrClaims :: string where "LinkErrClaims = ''link_claims_invalid''"
definition LinkErrAudience :: string where "LinkErrAudience = ''jwt_wrong_aud''"
definition LinkErrRole :: string where "LinkErrRole = ''link_role_mismatch''"
definition LinkErrLegacyRole :: string where "LinkErrLegacyRole = ''link_role_legacy''"
definition LinkErrRevoked :: string where "LinkErrRevoked = ''link_token_revoked''"
definition LinkErrNoTrust :: string where "LinkErrNoTrust = ''link_trust_missing''"
definition LinkErrMsgInvalid :: string where "LinkErrMsgInvalid = ''link_message_invalid''"
definition LinkErrMsgSignature :: string where "LinkErrMsgSignature = ''link_message_signature_invalid''"
definition LinkErrMsgSeq :: string where "LinkErrMsgSeq = ''link_message_seq_replay''"
definition LinkErrMsgChain :: string where "LinkErrMsgChain = ''link_keys_chain_broken''"
definition ErrLinkSeqReplay :: string where "ErrLinkSeqReplay = ''link message seq is not newer than the last accepted one''"

lemmas link_codes = LinkErrMalformed_def LinkErrAlg_def LinkErrKID_def LinkErrMissingKID_def LinkErrMissingAud_def
  LinkErrIssuer_def LinkErrSignature_def LinkErrExpired_def LinkErrClaims_def LinkErrAudience_def LinkErrRole_def
  LinkErrLegacyRole_def LinkErrRevoked_def LinkErrNoTrust_def LinkErrMsgInvalid_def LinkErrMsgSignature_def
  LinkErrMsgSeq_def LinkErrMsgChain_def

definition RoleRelayLegacy :: string where "RoleRelayLegacy = ''relay''"
definition linkAlg :: string where "linkAlg = ''EdDSA''"
definition linkIATLeeway :: duration where "linkIATLeeway = 60 * second"
definition maxLinkEntries :: int where "maxLinkEntries = 10000"
definition maxLinkMessageLen :: int where "maxLinkMessageLen = 2097152"
definition MaxLinkTTL :: duration where "MaxLinkTTL = 365 * 24 * 3600 * second"
definition PublicKeySize :: nat where "PublicKeySize = 32"
definition PrivateKeySize :: nat where "PrivateKeySize = 64"
definition SignatureSize :: nat where "SignatureSize = 64"

record linkRevocationsMsg =
  rm_Seq :: "64 word"
  rm_Entries :: "LinkRevocation list"
  rm_Sig :: string

record linkKeysMsg =
  km_CurrentPub :: string
  km_CurrentKID :: string
  km_PreviousPub :: string
  km_PreviousKID :: string
  km_Seq :: "64 word"
  km_Sig :: string

text \<open>
  What the JWT library shows of a parsed token: the header, the claims read as strings (the empty string for an
  absent one or one of another type), and the typed claims with \<open>None\<close> for an error.
\<close>

record jwtToken =
  tk_alg :: string
  tk_Method :: string
  tk_kid :: string
  tk_str :: "string \<Rightarrow> string"
  tk_Audience :: "string list option"
  tk_IssuedAt :: "gotime option option"
  tk_ExpirationTime :: "gotime option option"
  tk_Valid :: bool

text \<open>A parse error: the refusal of the key function when it wraps one, and whether it is one of two sentinels.\<close>

record jwtError =
  je_link :: "LinkError option"
  je_expired :: bool
  je_signature :: bool

record jwtClaims =
  cl_iss :: string
  cl_sub :: string
  cl_aud :: string
  cl_role :: string
  cl_jti :: string
  cl_iat :: int
  cl_exp :: int

record LinkLib =
  lk_sha256 :: "string \<Rightarrow> string"
  ed_public :: "string \<Rightarrow> string"
  ed_Sign :: "string \<Rightarrow> string \<Rightarrow> string"
  ed_Verify :: "string \<Rightarrow> string \<Rightarrow> string \<Rightarrow> bool"
  json_keys :: "string \<Rightarrow> linkKeysMsg option"
  json_revs :: "string \<Rightarrow> linkRevocationsMsg option"
  marshal_keys :: "linkKeysMsg \<Rightarrow> string res"
  marshal_revs :: "linkRevocationsMsg \<Rightarrow> string res"
  jwt_ParseUnverified :: "string \<Rightarrow> jwtToken option"
  jwt_Parse :: "(jwtToken \<Rightarrow> LinkError + string) \<Rightarrow> gotime \<Rightarrow> string \<Rightarrow> jwtError + jwtToken"
  jwt_Signed :: "string \<Rightarrow> jwtClaims \<Rightarrow> string \<Rightarrow> string res"

section \<open>Keys and signed texts\<close>

definition LinkKID :: "LinkLib \<Rightarrow> string \<Rightarrow> string" where
  "LinkKID L pub = url_encode (take 16 (lk_sha256 L pub))"

text \<open>
  The strict decoder refuses set bits after the last byte: a string of 22 characters is the encoding of 16 bytes
  exactly when it is the encoding of what it decodes to.
\<close>

definition ValidLinkKID :: "string \<Rightarrow> bool" where
  "ValidLinkKID s \<longleftrightarrow> length s = 22 \<and>
     (case url_decode s of None \<Rightarrow> False | Some b \<Rightarrow> length b = 16 \<and> url_encode b = s)"

definition validLinkRole :: "string \<Rightarrow> bool" where
  "validLinkRole r \<longleftrightarrow> r = RoleRelayChild \<or> r = RoleRelayParent"

definition linkSignDomainRevoke :: string where "linkSignDomainRevoke = ''ansible-secagent/link_revocations/v1'' @ [NL]"
definition linkSignDomainKeys :: string where "linkSignDomainKeys = ''ansible-secagent/link_keys/v1'' @ [NL]"

fun rev_entries_text :: "LinkRevocation list \<Rightarrow> string" where
  "rev_entries_text [] = []"
| "rev_entries_text (e # es) =
     itoa (length (lr_JTI e)) @ [CHR '':''] @ lr_JTI e @ itoa_int (lr_Exp e) @ [NL] @ rev_entries_text es"

definition revocationsSigInput :: "64 word \<Rightarrow> LinkRevocation list \<Rightarrow> string" where
  "revocationsSigInput sq entries = linkSignDomainRevoke @ format_uint sq @ [NL] @ rev_entries_text entries"

text \<open>\<open>binary.BigEndian.AppendUint16(b, uint16(n))\<close>\<close>

definition be16 :: "nat \<Rightarrow> string" where
  "be16 n = [char_of (n div 256 mod 256), char_of (n mod 256)]"

definition linkKeysSigInput :: "string \<Rightarrow> string \<Rightarrow> 64 word \<Rightarrow> string" where
  "linkKeysSigInput newCurrent previous sq =
     linkSignDomainKeys @ format_uint sq @ [NL] @ newCurrent @ be16 (length previous) @ previous"

definition checkEntries :: "LinkRevocation list \<Rightarrow> string option" where
  "checkEntries entries =
     (if int (length entries) > maxLinkEntries then Some ''too many entries''
      else if list_ex (\<lambda>e. lr_JTI e = [] \<or> length (lr_JTI e) > 128) entries then Some ''invalid jti'' else None)"

section \<open>Messages of the root\<close>

definition SignLinkRevocations :: "LinkLib \<Rightarrow> string \<Rightarrow> 64 word \<Rightarrow> LinkRevocation list \<Rightarrow> string res" where
  "SignLinkRevocations L priv sq entries =
     (if length priv \<noteq> PrivateKeySize then Inl [ErrText ''link_signing_key_invalid'']
      else case checkEntries entries of
        Some e \<Rightarrow> Inl [ErrText e]
      | None \<Rightarrow> marshal_revs L \<lparr>rm_Seq = sq, rm_Entries = entries,
          rm_Sig = url_encode (ed_Sign L priv (revocationsSigInput sq entries))\<rparr>)"

definition SignLinkKeys :: "LinkLib \<Rightarrow> string \<Rightarrow> string \<Rightarrow> string \<Rightarrow> 64 word \<Rightarrow> string res" where
  "SignLinkKeys L oldPriv newCurrent previous sq =
     (if length oldPriv \<noteq> PrivateKeySize \<or> length newCurrent \<noteq> PublicKeySize \<or>
         (length previous \<noteq> 0 \<and> length previous \<noteq> PublicKeySize) then Inl [ErrText ''link_keys: invalid key'']
      else marshal_keys L \<lparr>km_CurrentPub = url_encode newCurrent, km_CurrentKID = LinkKID L newCurrent,
             km_PreviousPub = (if length previous \<noteq> 0 then url_encode previous else []),
             km_PreviousKID = (if length previous \<noteq> 0 then LinkKID L previous else []),
             km_Seq = sq, km_Sig = url_encode (ed_Sign L oldPriv (linkKeysSigInput newCurrent previous sq))\<rparr>)"

text \<open>\<open>SignLinkToken\<close>; the random identifier and the clock are arguments.\<close>

definition SignLinkToken :: "LinkLib \<Rightarrow> string \<Rightarrow> string \<Rightarrow> string \<Rightarrow> string \<Rightarrow> string \<Rightarrow> duration \<Rightarrow> string \<Rightarrow> gotime
    \<Rightarrow> (string \<times> string) res" where
  "SignLinkToken L priv iss sub aud role ttl jti now =
     (if length priv \<noteq> PrivateKeySize then Inl [ErrText ''link_signing_key_invalid'']
      else if iss = [] \<or> sub = [] \<or> aud = [] then Inl [ErrText ''link_token_requires_iss_sub_aud'']
      else if \<not> validLinkRole role then Inl [ErrText ''link_token_invalid_role'']
      else if ttl \<le> 0 then Inl [ErrText ''link_token_requires_expiry'']
      else if ttl > MaxLinkTTL then Inl [ErrText ''link_token_ttl_too_long'']
      else and_then (jwt_Signed L (LinkKID L (ed_public L priv))
        \<lparr>cl_iss = iss, cl_sub = sub, cl_aud = aud, cl_role = role, cl_jti = jti, cl_iat = unix_sec now, cl_exp = unix_sec (now + ttl)\<rparr> priv)
        (\<lambda>token. Inr (token, jti)))"

section \<open>What a relay trusts\<close>

text \<open>\<open>auth.LinkTrust\<close>; the closure \<open>Blacklisted\<close> is an argument of the token check instead of a field.\<close>

record auth_trust =
  at_Current :: string
  at_Previous :: "string option"
  at_LastSeq :: "64 word"

record LinkWant =
  w_LocalID :: string
  w_RootID :: string
  w_Role :: string

record LinkClaims =
  c_Issuer :: string
  c_Subject :: string
  c_Audience :: string
  c_RoleClaim :: string
  c_JTI :: string
  c_IssuedAt :: gotime
  c_ExpiresAt :: gotime
  c_KID :: string

definition VerifyLinkRevocations :: "LinkLib \<Rightarrow> auth_trust \<Rightarrow> string \<Rightarrow> LinkError + (64 word \<times> LinkRevocation list)" where
  "VerifyLinkRevocations L trust msg =
     (if length (at_Current trust) \<noteq> PublicKeySize then Inl (linkErr LinkErrNoTrust False None)
      else if int (length msg) > maxLinkMessageLen then Inl (linkErr LinkErrMsgInvalid True (Some ''message too large''))
      else case json_revs L msg of
        None \<Rightarrow> Inl (linkErr LinkErrMsgInvalid True None)
      | Some m \<Rightarrow>
          if rm_Sig m = [] then Inl (linkErr LinkErrMsgInvalid True None)
          else (case checkEntries (rm_Entries m) of
             Some e \<Rightarrow> Inl (linkErr LinkErrMsgInvalid True (Some e))
           | None \<Rightarrow>
               (case url_decode (rm_Sig m) of
                  None \<Rightarrow> Inl (linkErr LinkErrMsgSignature True None)
                | Some sig \<Rightarrow>
                    if length sig \<noteq> SignatureSize \<or> \<not> ed_Verify L (at_Current trust) (revocationsSigInput (rm_Seq m) (rm_Entries m)) sig
                    then Inl (linkErr LinkErrMsgSignature True None)
                    else if rm_Seq m \<le> at_LastSeq trust then Inl (linkErr LinkErrMsgSeq True (Some ErrLinkSeqReplay))
                    else Inr (rm_Seq m, rm_Entries m))))"

text \<open>The keys and the signature of a rotation message: an absent previous key is the empty string.\<close>

definition decode_previous :: "string \<Rightarrow> string option" where
  "decode_previous s = (if s = [] then Some [] else url_decode s)"

definition ApplyLinkKeys :: "LinkLib \<Rightarrow> auth_trust \<Rightarrow> string \<Rightarrow> LinkError + auth_trust" where
  "ApplyLinkKeys L trust msg =
     (if length (at_Current trust) \<noteq> PublicKeySize then Inl (linkErr LinkErrNoTrust False None)
      else if int (length msg) > maxLinkMessageLen then Inl (linkErr LinkErrMsgInvalid True (Some ''message too large''))
      else case json_keys L msg of
        None \<Rightarrow> Inl (linkErr LinkErrMsgInvalid True None)
      | Some m \<Rightarrow>
          (case (url_decode (km_CurrentPub m), decode_previous (km_PreviousPub m), url_decode (km_Sig m)) of
             (Some newCur, Some prev, Some sig) \<Rightarrow>
               if length newCur \<noteq> PublicKeySize \<or> (length prev \<noteq> 0 \<and> length prev \<noteq> PublicKeySize) \<or> length sig \<noteq> SignatureSize
               then Inl (linkErr LinkErrMsgInvalid True None)
               else if (km_CurrentKID m \<noteq> [] \<and> km_CurrentKID m \<noteq> LinkKID L newCur) \<or>
                 (length prev \<noteq> 0 \<and> km_PreviousKID m \<noteq> [] \<and> km_PreviousKID m \<noteq> LinkKID L prev)
               then Inl (linkErr LinkErrMsgInvalid True (Some ''kid does not match key''))
               else if km_Seq m \<le> at_LastSeq trust then Inl (linkErr LinkErrMsgSeq True (Some ErrLinkSeqReplay))
               else if \<not> ed_Verify L (at_Current trust) (linkKeysSigInput newCur prev (km_Seq m)) sig
               then Inl (linkErr LinkErrMsgChain True None)
               else if (length prev \<noteq> 0 \<and> prev = at_Current trust \<and> newCur \<noteq> at_Current trust) \<or>
                 (length prev = 0 \<and> newCur = at_Current trust)
               then Inr (trust\<lparr>at_Current := newCur, at_Previous := (if length prev \<noteq> 0 then Some prev else None), at_LastSeq := km_Seq m\<rparr>)
               else Inl (linkErr LinkErrMsgChain True (Some ''previous key is not the trusted current key''))
           | _ \<Rightarrow> Inl (linkErr LinkErrMsgInvalid True None)))"

definition VerifyLinkKeysReplay :: "LinkLib \<Rightarrow> auth_trust \<Rightarrow> string \<Rightarrow> LinkError + 64 word" where
  "VerifyLinkKeysReplay L trust msg =
     (if length (at_Current trust) \<noteq> PublicKeySize then Inl (linkErr LinkErrNoTrust False None)
      else if int (length msg) > maxLinkMessageLen then Inl (linkErr LinkErrMsgInvalid True (Some ''message too large''))
      else case json_keys L msg of
        None \<Rightarrow> Inl (linkErr LinkErrMsgInvalid True None)
      | Some m \<Rightarrow>
          (case (url_decode (km_CurrentPub m), decode_previous (km_PreviousPub m), url_decode (km_Sig m)) of
             (Some cur, Some prev, Some sig) \<Rightarrow>
               if length sig \<noteq> SignatureSize then Inl (linkErr LinkErrMsgInvalid True None)
               else if at_Current trust \<noteq> cur then Inl (linkErr LinkErrMsgChain True None)
               else (case at_Previous trust of
                  Some p \<Rightarrow>
                    if p \<noteq> prev \<or> \<not> ed_Verify L p (linkKeysSigInput cur prev (km_Seq m)) sig
                    then Inl (linkErr LinkErrMsgChain True None) else Inr (km_Seq m)
                | None \<Rightarrow>
                    if length prev \<noteq> 0 \<or> \<not> ed_Verify L (at_Current trust) (linkKeysSigInput cur prev (km_Seq m)) sig
                    then Inl (linkErr LinkErrMsgChain True None) else Inr (km_Seq m))
           | _ \<Rightarrow> Inl (linkErr LinkErrMsgInvalid True None)))"

section \<open>The token check\<close>

definition link_keyfunc :: "LinkLib \<Rightarrow> auth_trust \<Rightarrow> jwtToken \<Rightarrow> LinkError + string" where
  "link_keyfunc L trust t =
     (if tk_Method t \<noteq> linkAlg then Inl (linkErr LinkErrAlg True None)
      else if tk_kid t = [] then Inl (linkErr LinkErrMissingKID True None)
      else if tk_kid t = LinkKID L (at_Current trust) then Inr (at_Current trust)
      else case at_Previous trust of
        Some p \<Rightarrow> if length p = PublicKeySize \<and> tk_kid t = LinkKID L p then Inr p else Inl (linkErr LinkErrKID True None)
      | None \<Rightarrow> Inl (linkErr LinkErrKID True None))"

definition parse_refusal :: "jwtError \<Rightarrow> LinkError" where
  "parse_refusal e =
     (case je_link e of
        Some le \<Rightarrow> le
      | None \<Rightarrow> if je_expired e then linkErr LinkErrExpired True None
                else if je_signature e then linkErr LinkErrSignature True None
                else linkErr LinkErrMalformed True None)"

definition check_times :: "jwtToken \<Rightarrow> gotime \<Rightarrow> LinkError + (gotime \<times> gotime)" where
  "check_times t now =
     (case tk_IssuedAt t of
        Some (Some iat) \<Rightarrow>
          if iat > now + linkIATLeeway then Inl (linkErr LinkErrClaims True None)
          else (case tk_ExpirationTime t of
             Some (Some exp) \<Rightarrow> if \<not> exp > iat then Inl (linkErr LinkErrClaims True None) else Inr (iat, exp)
           | _ \<Rightarrow> Inl (linkErr LinkErrClaims True None))
      | _ \<Rightarrow> Inl (linkErr LinkErrClaims True None))"

definition check_claims :: "(string \<Rightarrow> bool) \<Rightarrow> LinkWant \<Rightarrow> gotime \<Rightarrow> jwtToken \<Rightarrow> LinkError + LinkClaims" where
  "check_claims blacklisted want now t =
     (let sub = tk_str t ''sub''; jti = tk_str t ''jti''; role = tk_str t ''role'' in
      if \<not> tk_Valid t then Inl (linkErr LinkErrMalformed True None)
      else if sub = [] \<or> jti = [] \<or> role = [] then Inl (linkErr LinkErrClaims True None)
      else if tk_str t ''iss'' \<noteq> w_RootID want then Inl (linkErr LinkErrIssuer True None)
      else (case tk_Audience t of
         None \<Rightarrow> Inl (linkErr LinkErrMissingAud True None)
       | Some [] \<Rightarrow> Inl (linkErr LinkErrMissingAud True None)
       | Some (aud # auds) \<Rightarrow>
           if aud = [] then Inl (linkErr LinkErrMissingAud True None)
           else if auds \<noteq> [] then Inl (linkErr LinkErrAudience True None)
           else if aud \<noteq> w_LocalID want then Inl (linkErr LinkErrAudience True None)
           else if sub = aud then Inl (linkErr LinkErrClaims True (Some ''sub equals aud''))
           else if role = RoleRelayLegacy then Inl (linkErr LinkErrLegacyRole True None)
           else if \<not> validLinkRole role \<or> role \<noteq> w_Role want then Inl (linkErr LinkErrRole True None)
           else (case check_times t now of
              Inl e \<Rightarrow> Inl e
            | Inr (iat, exp) \<Rightarrow>
                if blacklisted jti then Inl (linkErr LinkErrRevoked True None)
                else Inr \<lparr>c_Issuer = tk_str t ''iss'', c_Subject = sub, c_Audience = aud, c_RoleClaim = role, c_JTI = jti,
                  c_IssuedAt = iat, c_ExpiresAt = exp, c_KID = tk_kid t\<rparr>)))"

definition VerifyLinkToken :: "LinkLib \<Rightarrow> (string \<Rightarrow> bool) \<Rightarrow> auth_trust \<Rightarrow> string \<Rightarrow> LinkWant \<Rightarrow> gotime \<Rightarrow> LinkError + LinkClaims" where
  "VerifyLinkToken L blacklisted trust tokenStr want now =
     (if length (at_Current trust) \<noteq> PublicKeySize then Inl (linkErr LinkErrNoTrust False None)
      else if \<not> validLinkRole (w_Role want) \<or> w_LocalID want = [] \<or> w_RootID want = []
      then Inl (linkErr LinkErrClaims True (Some ''local expectation is not set''))
      else case jwt_ParseUnverified L tokenStr of
        None \<Rightarrow> Inl (linkErr LinkErrMalformed True None)
      | Some unverified \<Rightarrow>
          if tk_alg unverified \<noteq> linkAlg then Inl (linkErr LinkErrAlg True None)
          else (case jwt_Parse L (link_keyfunc L trust) now tokenStr of
             Inl e \<Rightarrow> Inl (parse_refusal e)
           | Inr tok \<Rightarrow> check_claims blacklisted want now tok))"

section \<open>Signed texts are unambiguous\<close>

lemma NL_not_itoa: "NL \<notin> set (itoa n)"
  using NL_not_itoa_int [of "int n"] by (simp add: itoa_int_def)

lemma colon_not_itoa: "CHR '':'' \<notin> set (itoa n)"
  using itoa_digits [of n] by (auto simp: list_all_iff is_digit_def)

lemma rev_entries_text_inj: "rev_entries_text es = rev_entries_text es' \<Longrightarrow> es = es'"
proof (induction es arbitrary: es')
  case Nil
  then show ?case by (cases es') simp_all
next
  case (Cons e es)
  then obtain e' es1 where es': "es' = e' # es1" by (cases es') simp_all
  from Cons.prems [unfolded es' rev_entries_text.simps]
  have len: "itoa (length (lr_JTI e)) = itoa (length (lr_JTI e'))" and
    rest: "lr_JTI e @ itoa_int (lr_Exp e) @ [NL] @ rev_entries_text es = lr_JTI e' @ itoa_int (lr_Exp e') @ [NL] @ rev_entries_text es1"
    using sep_unique [OF _ colon_not_itoa colon_not_itoa] by fastforce+
  from len have "length (lr_JTI e) = length (lr_JTI e')" by (rule itoa_inj)
  with rest have jti: "lr_JTI e = lr_JTI e'" and
    tail: "itoa_int (lr_Exp e) @ [NL] @ rev_entries_text es = itoa_int (lr_Exp e') @ [NL] @ rev_entries_text es1" by simp_all
  from tail have "itoa_int (lr_Exp e) = itoa_int (lr_Exp e')" "rev_entries_text es = rev_entries_text es1"
    using sep_unique [OF _ NL_not_itoa_int NL_not_itoa_int] by fastforce+
  with jti Cons.IH show ?case by (auto simp: es' dest: itoa_int_inj)
qed

lemma NL_not_format_uint: "NL \<notin> set (format_uint w)"
  by (simp add: format_uint_def NL_not_itoa)

lemma counter_unique:
  assumes "d @ format_uint s @ [NL] @ r = d @ format_uint s' @ [NL] @ r'"
  shows "s = s' \<and> r = r'"
  using sep_unique [OF assms [unfolded same_append_eq] NL_not_format_uint NL_not_format_uint] format_uint_inj by blast

lemma revocationsSigInput_inj: "revocationsSigInput s es = revocationsSigInput s' es' \<Longrightarrow> s = s' \<and> es = es'"
  unfolding revocationsSigInput_def by (drule counter_unique) (blast dest: rev_entries_text_inj)

lemma linkKeysSigInput_inj:
  assumes "linkKeysSigInput c p s = linkKeysSigInput c' p' s'" "length c = length c'"
  shows "c = c' \<and> p = p' \<and> s = s'"
proof -
  from counter_unique [OF assms(1) [unfolded linkKeysSigInput_def]]
  have "s = s'" "c @ be16 (length p) @ p = c' @ be16 (length p') @ p'" by simp_all
  with assms(2) show ?thesis by (simp add: be16_def)
qed

lemma domains_apart: "revocationsSigInput s es \<noteq> linkKeysSigInput c p s'"
  by (simp add: revocationsSigInput_def linkKeysSigInput_def linkSignDomainRevoke_def linkSignDomainKeys_def)

text \<open>
  A signed text stands for one message: the text of a revocation list determines its counter and entries, the text
  of a key rotation its counter and both keys (the current key being 32 bytes long), and no text is both. A signature
  of the root made for one message never fits another.
\<close>

theorem signed_text_unambiguous:
  "(revocationsSigInput sq es = revocationsSigInput sq' es' \<longrightarrow> sq = sq' \<and> es = es') \<and>
   (length c = PublicKeySize \<and> length c' = PublicKeySize \<and> linkKeysSigInput c p sq = linkKeysSigInput c' p' sq' \<longrightarrow>
      c = c' \<and> p = p' \<and> sq = sq') \<and>
   revocationsSigInput sq es \<noteq> linkKeysSigInput c p sq'"
  using revocationsSigInput_inj linkKeysSigInput_inj domains_apart by metis

theorem signed_text_unambiguous_witness:
  "revocationsSigInput 1 [\<lparr>lr_JTI = ''1:j'', lr_Exp = 5\<rparr>] \<noteq> revocationsSigInput 1 [\<lparr>lr_JTI = ''1'', lr_Exp = 5\<rparr>] \<and>
   linkKeysSigInput (replicate 32 CHR ''a'') [] 1 \<noteq> linkKeysSigInput (replicate 32 CHR ''b'') [] 1"
proof -
  have "length (replicate 32 CHR ''a'') = PublicKeySize" "length (replicate 32 CHR ''b'') = PublicKeySize"
    "replicate 32 CHR ''a'' \<noteq> replicate 32 CHR ''b''" by (simp_all add: PublicKeySize_def)
  then show ?thesis
    using signed_text_unambiguous [of 1 "[\<lparr>lr_JTI = ''1:j'', lr_Exp = 5\<rparr>]" 1 "[\<lparr>lr_JTI = ''1'', lr_Exp = 5\<rparr>]"
        "replicate 32 CHR ''a''" "replicate 32 CHR ''b''" "[]" "[]"] by auto
qed

section \<open>What is accepted\<close>

lemma check_times_Inr:
  "check_times t now = Inr (iat, exp) \<longleftrightarrow>
     tk_IssuedAt t = Some (Some iat) \<and> tk_ExpirationTime t = Some (Some exp) \<and> iat \<le> now + linkIATLeeway \<and> iat < exp"
  by (auto simp: check_times_def split: option.splits)

lemma check_claims_Inr:
  "check_claims bl want now t = Inr c \<longleftrightarrow>
     tk_Valid t \<and> c_Subject c \<noteq> [] \<and> c_JTI c \<noteq> [] \<and> w_LocalID want \<noteq> [] \<and> c_Subject c \<noteq> c_Audience c \<and>
     c_Issuer c = w_RootID want \<and> c_Audience c = w_LocalID want \<and> c_RoleClaim c = w_Role want \<and> validLinkRole (w_Role want) \<and>
     tk_Audience t = Some [c_Audience c] \<and> check_times t now = Inr (c_IssuedAt c, c_ExpiresAt c) \<and> \<not> bl (c_JTI c) \<and>
     c_Issuer c = tk_str t ''iss'' \<and> c_Subject c = tk_str t ''sub'' \<and> c_JTI c = tk_str t ''jti'' \<and> c_RoleClaim c = tk_str t ''role'' \<and>
     c_KID c = tk_kid t" (is "_ \<longleftrightarrow> ?R")
proof
  assume "check_claims bl want now t = Inr c"
  then show ?R by (auto simp: check_claims_def Let_def split: if_splits option.splits list.splits sum.splits prod.splits)
next
  assume R: ?R
  then have "w_Role want \<noteq> [] \<and> w_Role want \<noteq> RoleRelayLegacy" by (auto simp: validLinkRole_def RoleRelayLegacy_def)
  with R show "check_claims bl want now t = Inr c" by (cases c) (auto simp: check_claims_def Let_def)
qed

lemma link_keyfunc_Inr:
  "link_keyfunc L trust t = Inr k \<Longrightarrow>
     tk_Method t = linkAlg \<and> tk_kid t = LinkKID L k \<and> (k = at_Current trust \<or> at_Previous trust = Some k)"
  by (auto simp: link_keyfunc_def split: if_splits option.splits)

lemma VerifyLinkToken_Inr:
  assumes "VerifyLinkToken L bl trust tok want now = Inr c"
  shows "\<exists>t. jwt_Parse L (link_keyfunc L trust) now tok = Inr t \<and> check_claims bl want now t = Inr c"
  using assms by (auto simp: VerifyLinkToken_def split: if_splits option.splits sum.splits)

definition jwt_sound :: "LinkLib \<Rightarrow> (string \<Rightarrow> string \<Rightarrow> bool) \<Rightarrow> bool" where
  "jwt_sound L genuine \<longleftrightarrow> (\<forall>kf now s t. jwt_Parse L kf now s = Inr t \<longrightarrow> (\<exists>k. kf t = Inr k \<and> genuine k s))"

text \<open>
  C31. A link token is accepted only if it is genuine and meant for this relay: it verifies under the current or the
  previous trusted key, named by its key id; it was issued by the trusted root to another relay, for this relay
  alone, in the expected role; it is not revoked, not issued in the future (a minute of leeway) and expires after its
  issue. The JWT library is relied on to accept a token only under a key its key function returned for it.
\<close>

theorem link_token_accepted_only_if:
  assumes "VerifyLinkToken L blacklisted trust tok want now = Inr c"
    and "jwt_sound L genuine"
  shows "(\<exists>k. genuine k tok \<and> c_KID c = LinkKID L k \<and> (k = at_Current trust \<or> at_Previous trust = Some k)) \<and>
    c_Issuer c = w_RootID want \<and> c_Audience c = w_LocalID want \<and> c_RoleClaim c = w_Role want \<and>
    c_Subject c \<noteq> [] \<and> c_Subject c \<noteq> w_LocalID want \<and> \<not> blacklisted (c_JTI c) \<and>
    c_IssuedAt c \<le> now + linkIATLeeway \<and> c_IssuedAt c < c_ExpiresAt c"
proof -
  obtain t where t: "jwt_Parse L (link_keyfunc L trust) now tok = Inr t" and c: "check_claims blacklisted want now t = Inr c"
    using VerifyLinkToken_Inr [OF assms(1)] by blast
  from assms(2) t obtain k where "link_keyfunc L trust t = Inr k" "genuine k tok"
    unfolding jwt_sound_def by blast
  with link_keyfunc_Inr c show ?thesis by (fastforce simp: check_claims_Inr check_times_Inr)
qed

section \<open>Round trips\<close>

text \<open>The token as the library shows it after minting.\<close>

definition token_of :: "string \<Rightarrow> jwtClaims \<Rightarrow> jwtToken" where
  "token_of kid cl = \<lparr>tk_alg = linkAlg, tk_Method = linkAlg, tk_kid = kid,
     tk_str = (\<lambda>k. if k = ''iss'' then cl_iss cl else if k = ''sub'' then cl_sub cl else if k = ''role'' then cl_role cl
       else if k = ''jti'' then cl_jti cl else []),
     tk_Audience = Some [cl_aud cl], tk_IssuedAt = Some (Some (unix_time (cl_iat cl))),
     tk_ExpirationTime = Some (Some (unix_time (cl_exp cl))), tk_Valid = True\<rparr>"

text \<open>A token signed by the library parses back, before its expiry, under the public key of the signer.\<close>

definition jwt_roundtrip :: "LinkLib \<Rightarrow> bool" where
  "jwt_roundtrip L \<longleftrightarrow> (\<forall>kid cl priv tok. jwt_Signed L kid cl priv = Inr tok \<longrightarrow>
     jwt_ParseUnverified L tok = Some (token_of kid cl) \<and>
     (\<forall>kf now. kf (token_of kid cl) = Inr (ed_public L priv) \<and> now < unix_time (cl_exp cl) \<longrightarrow>
        jwt_Parse L kf now tok = Inr (token_of kid cl)))"

definition knows_key :: "LinkLib \<Rightarrow> auth_trust \<Rightarrow> string \<Rightarrow> bool" where
  "knows_key L trust k \<longleftrightarrow> length k = PublicKeySize \<and> length (at_Current trust) = PublicKeySize \<and> LinkKID L k \<noteq> [] \<and>
     (k = at_Current trust \<or> at_Previous trust = Some k \<and> LinkKID L k \<noteq> LinkKID L (at_Current trust))"

lemma link_keyfunc_known: "knows_key L trust k \<Longrightarrow> link_keyfunc L trust (token_of (LinkKID L k) cl) = Inr k"
  by (auto simp: knows_key_def link_keyfunc_def token_of_def)

text \<open>
  A token the root minted is accepted by the relay it was minted for, with exactly the minted claims, whenever that
  relay trusts the signing key as its current or previous one, expects the role, has not blacklisted the identifier
  and reads a clock between the issue (a minute of leeway) and the expiry.
\<close>

theorem link_token_roundtrip:
  assumes "jwt_roundtrip L" "SignLinkToken L priv iss sub aud role ttl jti issued = Inr (tok, j)"
    and "knows_key L trust (ed_public L priv)" "sub \<noteq> aud" "jti \<noteq> []" "\<not> blacklisted jti"
    and "issued \<le> now + linkIATLeeway" "now < unix_time (unix_sec (issued + ttl))" "unix_sec issued < unix_sec (issued + ttl)"
  shows "VerifyLinkToken L blacklisted trust tok \<lparr>w_LocalID = aud, w_RootID = iss, w_Role = role\<rparr> now =
    Inr \<lparr>c_Issuer = iss, c_Subject = sub, c_Audience = aud, c_RoleClaim = role, c_JTI = j,
         c_IssuedAt = unix_time (unix_sec issued), c_ExpiresAt = unix_time (unix_sec (issued + ttl)),
         c_KID = LinkKID L (ed_public L priv)\<rparr>"
proof -
  let ?kid = "LinkKID L (ed_public L priv)"
  define cl where "cl = \<lparr>cl_iss = iss, cl_sub = sub, cl_aud = aud, cl_role = role, cl_jti = jti,
    cl_iat = unix_sec issued, cl_exp = unix_sec (issued + ttl)\<rparr>"
  from assms(2) have signed: "jwt_Signed L ?kid cl priv = Inr tok" and j: "j = jti"
    and ne: "iss \<noteq> []" "sub \<noteq> []" "aud \<noteq> []" "validLinkRole role"
    by (auto simp: SignLinkToken_def cl_def and_then_Inr_iff split: if_splits)
  have exp: "cl_exp cl = unix_sec (issued + ttl)" by (simp add: cl_def)
  have parse: "jwt_ParseUnverified L tok = Some (token_of ?kid cl)"
    "jwt_Parse L (link_keyfunc L trust) now tok = Inr (token_of ?kid cl)"
    using assms(1) signed link_keyfunc_known [OF assms(3)] assms(8) by (auto simp: jwt_roundtrip_def exp)
  have "unix_time (unix_sec issued) \<le> issued" by (simp add: unix_time_le_iff)
  then have "check_times (token_of ?kid cl) now = Inr (unix_time (unix_sec issued), unix_time (unix_sec (issued + ttl)))"
    using assms(7,9) by (simp add: check_times_Inr token_of_def cl_def unix_time_def second_def)
  then have "check_claims blacklisted \<lparr>w_LocalID = aud, w_RootID = iss, w_Role = role\<rparr> now (token_of ?kid cl) =
    Inr \<lparr>c_Issuer = iss, c_Subject = sub, c_Audience = aud, c_RoleClaim = role, c_JTI = jti,
         c_IssuedAt = unix_time (unix_sec issued), c_ExpiresAt = unix_time (unix_sec (issued + ttl)), c_KID = ?kid\<rparr>"
    using ne assms(4-6) by (simp add: check_claims_Inr) (simp add: token_of_def cl_def)
  then show ?thesis
    using assms(3) ne parse by (simp add: VerifyLinkToken_def knows_key_def j) (simp add: token_of_def)
qed

text \<open>What is documented of the JSON coder and of Ed25519.\<close>

definition json_messages :: "LinkLib \<Rightarrow> bool" where
  "json_messages L \<longleftrightarrow> (\<forall>m s. marshal_keys L m = Inr s \<longrightarrow> json_keys L s = Some m) \<and>
     (\<forall>m s. marshal_revs L m = Inr s \<longrightarrow> json_revs L s = Some m)"

definition ed_correct :: "LinkLib \<Rightarrow> bool" where
  "ed_correct L \<longleftrightarrow> (\<forall>priv msg. length priv = PrivateKeySize \<longrightarrow>
     length (ed_public L priv) = PublicKeySize \<and> length (ed_Sign L priv msg) = SignatureSize \<and>
     ed_Verify L (ed_public L priv) msg (ed_Sign L priv msg))"

lemma PublicKeySize_pos [simp]: "PublicKeySize \<noteq> 0"
  by (simp add: PublicKeySize_def)

text \<open>A signed rotation as every relay decodes it.\<close>

lemma signed_keys_decoded:
  assumes "json_messages L" "ed_correct L" "SignLinkKeys L priv new prev sq = Inr msg"
  shows "length priv = PrivateKeySize" "length new = PublicKeySize" "prev = [] \<or> length prev = PublicKeySize"
    "length (ed_public L priv) = PublicKeySize"
    "\<exists>m sig. json_keys L msg = Some m \<and> url_decode (km_CurrentPub m) = Some new \<and> decode_previous (km_PreviousPub m) = Some prev \<and>
       url_decode (km_Sig m) = Some sig \<and> length sig = SignatureSize \<and> km_Seq m = sq \<and> km_CurrentKID m = LinkKID L new \<and>
       (prev = [] \<or> km_PreviousKID m = LinkKID L prev) \<and> ed_Verify L (ed_public L priv) (linkKeysSigInput new prev sq) sig"
proof -
  let ?m = "\<lparr>km_CurrentPub = url_encode new, km_CurrentKID = LinkKID L new, km_PreviousPub = (if prev \<noteq> [] then url_encode prev else []),
     km_PreviousKID = (if prev \<noteq> [] then LinkKID L prev else []), km_Seq = sq, km_Sig = url_encode (ed_Sign L priv (linkKeysSigInput new prev sq))\<rparr>"
  from assms(3) show sizes: "length priv = PrivateKeySize" "length new = PublicKeySize" "prev = [] \<or> length prev = PublicKeySize"
    by (auto simp: SignLinkKeys_def split: if_splits)
  with assms(2) show "length (ed_public L priv) = PublicKeySize" by (simp add: ed_correct_def)
  have "marshal_keys L ?m = Inr msg" using assms(3) by (auto simp: SignLinkKeys_def split: if_splits)
  with assms(1) have "json_keys L msg = Some ?m" by (simp add: json_messages_def)
  with assms(2) sizes(1) show "\<exists>m sig. json_keys L msg = Some m \<and> url_decode (km_CurrentPub m) = Some new \<and>
       decode_previous (km_PreviousPub m) = Some prev \<and>
       url_decode (km_Sig m) = Some sig \<and> length sig = SignatureSize \<and> km_Seq m = sq \<and> km_CurrentKID m = LinkKID L new \<and>
       (prev = [] \<or> km_PreviousKID m = LinkKID L prev) \<and> ed_Verify L (ed_public L priv) (linkKeysSigInput new prev sq) sig"
    by (intro exI [of _ ?m] exI [of _ "ed_Sign L priv (linkKeysSigInput new prev sq)"]) (simp add: ed_correct_def decode_previous_def)
qed

lemma ApplyLinkKeys_signed:
  assumes "json_messages L" "ed_correct L" "SignLinkKeys L priv new prev sq = Inr msg" "int (length msg) \<le> maxLinkMessageLen"
    and "length (at_Current trust) = PublicKeySize"
  shows "at_Current trust = ed_public L priv \<or> sq \<le> at_LastSeq trust \<Longrightarrow> ApplyLinkKeys L trust msg =
    (if sq \<le> at_LastSeq trust then Inl (linkErr LinkErrMsgSeq True (Some ErrLinkSeqReplay))
     else if prev = at_Current trust \<and> new \<noteq> at_Current trust \<or> prev = [] \<and> new = at_Current trust
     then Inr (trust\<lparr>at_Current := new, at_Previous := (if prev \<noteq> [] then Some prev else None), at_LastSeq := sq\<rparr>)
     else Inl (linkErr LinkErrMsgChain True (Some ''previous key is not the trusted current key'')))"
  using signed_keys_decoded [OF assms(1-3)] assms(4,5)
  by (cases "prev = []") (auto simp: ApplyLinkKeys_def not_less)

lemma VerifyLinkKeysReplay_signed:
  assumes "json_messages L" "ed_correct L" "SignLinkKeys L priv new prev sq = Inr msg" "int (length msg) \<le> maxLinkMessageLen"
    and "at_Current t = new" "at_Previous t = Some prev" "prev = ed_public L priv"
  shows "VerifyLinkKeysReplay L t msg = Inr sq"
  using signed_keys_decoded [OF assms(1-3)] assms(4-7) by (auto simp: VerifyLinkKeysReplay_def not_less)

lemma VerifyLinkRevocations_signed:
  assumes "json_messages L" "ed_correct L" "SignLinkRevocations L priv sq entries = Inr msg" "int (length msg) \<le> maxLinkMessageLen"
    and "at_Current trust = ed_public L priv" "at_LastSeq trust < sq"
  shows "VerifyLinkRevocations L trust msg = Inr (sq, entries)"
proof -
  from assms(3) have priv: "length priv = PrivateKeySize" and ok: "checkEntries entries = None"
    and "marshal_revs L \<lparr>rm_Seq = sq, rm_Entries = entries, rm_Sig = url_encode (ed_Sign L priv (revocationsSigInput sq entries))\<rparr> = Inr msg"
    by (auto simp: SignLinkRevocations_def split: if_splits option.splits)
  with assms(1) have "json_revs L msg = Some \<lparr>rm_Seq = sq, rm_Entries = entries,
      rm_Sig = url_encode (ed_Sign L priv (revocationsSigInput sq entries))\<rparr>" by (simp add: json_messages_def)
  moreover have "length (ed_Sign L priv (revocationsSigInput sq entries)) = 64"
    using assms(2) priv by (simp add: ed_correct_def SignatureSize_def)
  then have "ed_Sign L priv (revocationsSigInput sq entries) \<noteq> []" by auto
  ultimately show ?thesis
    using assms(2,4-6) priv ok by (auto simp: VerifyLinkRevocations_def ed_correct_def)
qed

text \<open>
  A rotation the root signs with its old key moves every relay that trusts the old key, and has seen no newer
  message, to exactly the new key with the old one as previous; sent again, it is refused as a replay by the
  rotation and recognised as a genuine repetition; a revocation list it signs with the new key is then accepted
  as it was signed.
\<close>

theorem link_messages_roundtrip:
  assumes "json_messages L" "ed_correct L" "SignLinkKeys L priv new (ed_public L priv) sq = Inr msg" "int (length msg) \<le> maxLinkMessageLen"
    and "at_Current trust = ed_public L priv" "new \<noteq> ed_public L priv" "at_LastSeq trust < sq"
    and "SignLinkRevocations L newPriv sq' entries = Inr revs" "int (length revs) \<le> maxLinkMessageLen" "new = ed_public L newPriv" "sq < sq'"
  shows "\<exists>t'. ApplyLinkKeys L trust msg = Inr t' \<and> at_Current t' = new \<and> at_Previous t' = Some (ed_public L priv) \<and> at_LastSeq t' = sq \<and>
    ApplyLinkKeys L t' msg = Inl (linkErr LinkErrMsgSeq True (Some ErrLinkSeqReplay)) \<and>
    VerifyLinkKeysReplay L t' msg = Inr sq \<and> VerifyLinkRevocations L t' revs = Inr (sq', entries)"
proof -
  define t' where "t' = trust\<lparr>at_Current := new, at_Previous := Some (ed_public L priv), at_LastSeq := sq\<rparr>"
  note sizes = signed_keys_decoded(2,4) [OF assms(1-3)]
  then have "ed_public L priv \<noteq> []" by auto
  with assms(5-7) have "ApplyLinkKeys L trust msg = Inr t'"
    using ApplyLinkKeys_signed [OF assms(1-4), of trust] sizes by (auto simp: t'_def not_le)
  moreover have "ApplyLinkKeys L t' msg = Inl (linkErr LinkErrMsgSeq True (Some ErrLinkSeqReplay))"
    using ApplyLinkKeys_signed [OF assms(1-4), of t'] sizes by (simp add: t'_def)
  moreover have "VerifyLinkKeysReplay L t' msg = Inr sq"
    using VerifyLinkKeysReplay_signed [OF assms(1-4), of t'] by (simp add: t'_def)
  moreover have "VerifyLinkRevocations L t' revs = Inr (sq', entries)"
    using VerifyLinkRevocations_signed [OF assms(1,2,8,9), of t'] assms(10,11) by (simp add: t'_def)
  ultimately show ?thesis by (auto simp: t'_def)
qed

section \<open>An example library\<close>

text \<open>Keys are repeated letters, a signature repeats the letter of the key; one token, one rotation and one list exist.\<close>

definition ex_priv :: "char \<Rightarrow> string" where "ex_priv c = replicate 64 c"
definition ex_pub :: "char \<Rightarrow> string" where "ex_pub c = replicate 32 c"
definition ex_kid :: "char \<Rightarrow> string" where "ex_kid c = url_encode (replicate 16 c)"

definition ex_claims :: jwtClaims where
  "ex_claims = \<lparr>cl_iss = ''root'', cl_sub = ''west'', cl_aud = ''east'', cl_role = RoleRelayChild, cl_jti = ''j1'',
     cl_iat = unix_sec 0, cl_exp = unix_sec (3600 * second)\<rparr>"

definition ex_rotation :: linkKeysMsg where
  "ex_rotation = \<lparr>km_CurrentPub = url_encode (ex_pub CHR ''b''), km_CurrentKID = ex_kid CHR ''b'',
     km_PreviousPub = url_encode (ex_pub CHR ''a''), km_PreviousKID = ex_kid CHR ''a'', km_Seq = 4, km_Sig = url_encode (ex_priv CHR ''a'')\<rparr>"

definition ex_revocations :: linkRevocationsMsg where
  "ex_revocations = \<lparr>rm_Seq = 5, rm_Entries = [\<lparr>lr_JTI = ''j1'', lr_Exp = 90\<rparr>], rm_Sig = url_encode (ex_priv CHR ''b'')\<rparr>"

definition ex_links :: LinkLib where
  "ex_links = \<lparr>lk_sha256 = (\<lambda>s. s), ed_public = take 32, ed_Sign = (\<lambda>priv _. replicate 64 (hd priv)),
     ed_Verify = (\<lambda>pub _ sig. sig = replicate 64 (hd pub)),
     json_keys = (\<lambda>s. if s = ''rot'' then Some ex_rotation else None),
     json_revs = (\<lambda>s. if s = ''revs'' then Some ex_revocations else None),
     marshal_keys = (\<lambda>m. if m = ex_rotation then Inr ''rot'' else Inl [ErrText ''json'']),
     marshal_revs = (\<lambda>m. if m = ex_revocations then Inr ''revs'' else Inl [ErrText ''json'']),
     jwt_ParseUnverified = (\<lambda>s. if s = ''tok'' then Some (token_of (ex_kid CHR ''a'') ex_claims) else None),
     jwt_Parse = (\<lambda>kf now s. if s \<noteq> ''tok'' then Inl \<lparr>je_link = None, je_expired = False, je_signature = False\<rparr>
        else case kf (token_of (ex_kid CHR ''a'') ex_claims) of
          Inl e \<Rightarrow> Inl \<lparr>je_link = Some e, je_expired = False, je_signature = False\<rparr>
        | Inr k \<Rightarrow> if k \<noteq> ex_pub CHR ''a'' then Inl \<lparr>je_link = None, je_expired = False, je_signature = True\<rparr>
            else if now < unix_time (cl_exp ex_claims) then Inr (token_of (ex_kid CHR ''a'') ex_claims)
            else Inl \<lparr>je_link = None, je_expired = True, je_signature = False\<rparr>),
     jwt_Signed = (\<lambda>kid cl priv. if kid = ex_kid CHR ''a'' \<and> cl = ex_claims \<and> priv = ex_priv CHR ''a'' then Inr ''tok''
        else Inl [ErrText ''sign''])\<rparr>"

definition ex_trust :: auth_trust where
  "ex_trust = \<lparr>at_Current = ex_pub CHR ''a'', at_Previous = None, at_LastSeq = 3\<rparr>"

lemma ex_keys [simp]:
  "length (ex_priv c) = PrivateKeySize" "length (ex_pub c) = PublicKeySize" "ed_public ex_links (ex_priv c) = ex_pub c"
  "LinkKID ex_links (ex_pub c) = ex_kid c" "ex_kid c \<noteq> []" "ed_Sign ex_links (ex_priv c) msg = ex_priv c"
  by (simp_all add: ex_priv_def ex_pub_def ex_kid_def ex_links_def LinkKID_def PrivateKeySize_def PublicKeySize_def)

lemma ex_pub_inj [simp]: "ex_pub c = ex_pub d \<longleftrightarrow> c = d"
  by (simp add: ex_pub_def replicate_eq_replicate)

lemma ex_links_laws: "json_messages ex_links" "ed_correct ex_links" "jwt_roundtrip ex_links"
proof -
  show "json_messages ex_links" by (auto simp: json_messages_def ex_links_def)
  have "hd (take 32 priv) = hd priv" if "length priv = 64" for priv :: string using that by (cases priv) auto
  then show "ed_correct ex_links" by (simp add: ed_correct_def ex_links_def PublicKeySize_def PrivateKeySize_def SignatureSize_def)
  have "take 32 (ex_priv CHR ''a'') = ex_pub CHR ''a''" by (simp add: ex_priv_def ex_pub_def)
  then show "jwt_roundtrip ex_links" by (auto simp: jwt_roundtrip_def ex_links_def)
qed

lemma ex_minted:
  "SignLinkToken ex_links (ex_priv CHR ''a'') ''root'' ''west'' ''east'' RoleRelayChild (3600 * second) ''j1'' 0 = Inr (''tok'', ''j1'')"
  by (simp add: SignLinkToken_def validLinkRole_def MaxLinkTTL_def second_def) (simp add: ex_links_def ex_claims_def second_def)

definition ex_want :: LinkWant where
  "ex_want = \<lparr>w_LocalID = ''east'', w_RootID = ''root'', w_Role = RoleRelayChild\<rparr>"

theorem link_token_roundtrip_witness:
  "VerifyLinkToken ex_links (\<lambda>j. j = ''other'') ex_trust ''tok'' ex_want (10 * second) =
    Inr \<lparr>c_Issuer = ''root'', c_Subject = ''west'', c_Audience = ''east'', c_RoleClaim = RoleRelayChild, c_JTI = ''j1'',
         c_IssuedAt = unix_time (unix_sec 0), c_ExpiresAt = unix_time (unix_sec (0 + 3600 * second)), c_KID = ex_kid CHR ''a''\<rparr>"
proof -
  have "knows_key ex_links ex_trust (ed_public ex_links (ex_priv CHR ''a''))" by (simp add: knows_key_def ex_trust_def)
  moreover have "0 \<le> 10 * second + linkIATLeeway" "10 * second < unix_time (unix_sec (0 + 3600 * second))"
    "unix_sec 0 < unix_sec (0 + 3600 * second)"
    by (simp_all add: linkIATLeeway_def second_def unix_time_def unix_sec_def)
  ultimately show ?thesis
    using link_token_roundtrip [OF ex_links_laws(3) ex_minted, of ex_trust "\<lambda>j. j = ''other''" "10 * second"]
    by (simp add: ex_want_def)
qed

lemma ex_parse_law: "jwt_sound ex_links (\<lambda>k s. k = ex_pub CHR ''a'' \<and> s = ''tok'')"
  by (auto simp: jwt_sound_def ex_links_def split: if_splits sum.splits)

theorem link_token_accepted_only_if_witness:
  "\<exists>c. VerifyLinkToken ex_links (\<lambda>j. j = ''other'') ex_trust ''tok'' ex_want (10 * second) = Inr c \<and>
    c_Audience c = ''east'' \<and> c_Issuer c = ''root'' \<and> c_KID c = ex_kid CHR ''a''"
proof -
  have "\<exists>c. VerifyLinkToken ex_links (\<lambda>j. j = ''other'') ex_trust ''tok'' ex_want (10 * second) = Inr c \<and> c_KID c = ex_kid CHR ''a''"
    by (simp add: VerifyLinkToken_def ex_trust_def ex_want_def validLinkRole_def)
      (simp add: ex_links_def token_of_def ex_claims_def linkAlg_def second_def unix_time_def unix_sec_def link_keyfunc_def
        check_claims_def check_times_def validLinkRole_def RoleRelayLegacy_def linkIATLeeway_def LinkKID_def ex_kid_def ex_pub_def Let_def)
  then obtain c where c: "VerifyLinkToken ex_links (\<lambda>j. j = ''other'') ex_trust ''tok'' ex_want (10 * second) = Inr c"
    "c_KID c = ex_kid CHR ''a''" by blast
  have "c_Issuer c = w_RootID ex_want \<and> c_Audience c = w_LocalID ex_want"
    using link_token_accepted_only_if [OF c(1) ex_parse_law] by blast
  with c show ?thesis by (auto simp: ex_want_def)
qed

theorem link_messages_roundtrip_witness:
  "\<exists>t'. ApplyLinkKeys ex_links ex_trust ''rot'' = Inr t' \<and> at_Current t' = ex_pub CHR ''b'' \<and> at_Previous t' = Some (ex_pub CHR ''a'') \<and>
    VerifyLinkRevocations ex_links t' ''revs'' = Inr (5, [\<lparr>lr_JTI = ''j1'', lr_Exp = 90\<rparr>])"
proof -
  have rot: "SignLinkKeys ex_links (ex_priv CHR ''a'') (ex_pub CHR ''b'') (ed_public ex_links (ex_priv CHR ''a'')) 4 = Inr ''rot''"
    using ex_keys(2) [of "CHR ''a''"] PublicKeySize_pos
    by (simp add: SignLinkKeys_def del: PublicKeySize_pos) (simp add: ex_rotation_def ex_links_def)
  have revs: "SignLinkRevocations ex_links (ex_priv CHR ''b'') 5 [\<lparr>lr_JTI = ''j1'', lr_Exp = 90\<rparr>] = Inr ''revs''"
    by (simp add: SignLinkRevocations_def checkEntries_def maxLinkEntries_def) (simp add: ex_revocations_def ex_links_def)
  have len: "int (length ''rot'') \<le> maxLinkMessageLen" "int (length ''revs'') \<le> maxLinkMessageLen"
    by (simp_all add: maxLinkMessageLen_def)
  have trust: "at_Current ex_trust = ed_public ex_links (ex_priv CHR ''a'')" "at_LastSeq ex_trust < 4" "(4 :: 64 word) < 5"
    "ex_pub CHR ''b'' \<noteq> ed_public ex_links (ex_priv CHR ''a'')" "ex_pub CHR ''b'' = ed_public ex_links (ex_priv CHR ''b'')"
    by (simp_all add: ex_trust_def)
  from link_messages_roundtrip [OF ex_links_laws(1,2) rot len(1) trust(1,4,2) revs len(2) trust(5,3)]
  show ?thesis unfolding ex_keys(3) by blast
qed

end
