(* ===== verification/Store_History.thy ===== *)
theory Store_History
  imports Store_Tx
begin

text \<open>
  Histories of the data store: the mutations of \<open>internal/storage\<close> as a datatype, what any sequence of them
  preserves (validity of the state, persistence of a revocation), and what the single mutations that the
  security of the relay rests on achieve: enrollment, revocation of agents, relays and link tokens, rotation of
  the link keys.
\<close>

section \<open>The mutations as data\<close>

datatype store_op =
    SAddAuthorizedKey string string string | SRevokeKey string
  | SRegisterAgent string string string | SEnrollAgent string string string string string
  | SDeleteAgent string | SUpdateTokenJTI string string | SConfirmTokenJTI string string
  | SUpdateTokenJTIUnlessRevoked string string | SSetSuspended string bool
  | SSetAgentVar string string "json res" | SDeleteAgentVar string string
  | SAddToBlacklist string string string gotime | SPurgeBlacklist | SRevokeAgent string string string gotime | SRepairRevokedFlags
  | SConfigSet string string | SConfigDelete string
  | SCreateEnrollmentToken EnrollmentToken | SConsumeEnrollmentToken string | SDeleteEnrollmentToken string
  | SPurgeEnrollmentTokens "EnrollmentToken list"
  | SCreatePluginToken PluginToken | SRevokePluginToken string | SDeletePluginToken string
  | SUpsertRelayNode RelayInput | SDeleteRelayNode string | SSetRelayIsProxy string bool | SSetRelayGroupVars string "(string, json) fmap"
  | SCreateRelayParentToken RelayParentToken | SRevokeRelayParentToken string
  | SSetRelayTokenInfo string string int | SRevokeRelayNode string string
  | SSetLinkSigningKeyIfAbsent string | SRotateLinkKey string string string | SRetireLinkPrevious
  | SCreateLinkToken LinkToken | SRevokeLinkToken string | SSetLinkTrust LinkTrust
  | SApplyLinkRevocations "64 word" "LinkRevocation list"

definition void :: "('s, 'a) prog \<Rightarrow> ('s, unit) prog" where
  "void p = bindP p (\<lambda>_. ret ())"

text \<open>The purges of enrollment tokens delete by id the tokens that matched in the published state.\<close>

fun store_body :: "store_op \<Rightarrow> gotime \<Rightarrow> (Tx, unit) prog" where
  "store_body (SAddAuthorizedKey h pem ap) now = AddAuthorizedKey_tx h pem ap now"
| "store_body (SRevokeKey h) now = void (RevokeKey_tx h)"
| "store_body (SRegisterAgent h pem jti) now = putEnrolledAgent h pem jti now"
| "store_body (SEnrollAgent tid h pem jti ap) now = EnrollAgent_tx tid h pem jti ap now"
| "store_body (SDeleteAgent h) now = void (DeleteAgent_tx h)"
| "store_body (SUpdateTokenJTI h jti) now = void (UpdateTokenJTI_tx h jti)"
| "store_body (SConfirmTokenJTI h jti) now = ConfirmTokenJTI_tx h jti"
| "store_body (SUpdateTokenJTIUnlessRevoked h jti) now = void (UpdateTokenJTIUnlessRevoked_tx h jti)"
| "store_body (SSetSuspended h b) now = void (SetSuspended_tx h b)"
| "store_body (SSetAgentVar h key v) now = SetAgentVar_tx h key v"
| "store_body (SDeleteAgentVar h key) now = void (DeleteAgentVar_tx h key)"
| "store_body (SAddToBlacklist jti h reason exp) now = putBlacklist jti h reason now exp"
| "store_body SPurgeBlacklist now = void (purgeBlacklist_tx now)"
| "store_body (SRevokeAgent h jti reason until) now = void (RevokeAgent_tx h jti reason until now)"
| "store_body SRepairRevokedFlags now = void RepairRevokedFlags_tx"
| "store_body (SConfigSet key v) now = ConfigSet_tx key v"
| "store_body (SConfigDelete key) now = ConfigDelete_tx key"
| "store_body (SCreateEnrollmentToken tok) now = CreateEnrollmentToken_tx tok"
| "store_body (SConsumeEnrollmentToken tid) now = use_token tid now"
| "store_body (SDeleteEnrollmentToken tid) now = void (DeleteEnrollmentToken_tx tid)"
| "store_body (SPurgeEnrollmentTokens toks) now = void (purge_tokens_loop (\<lambda>_. True) toks 0)"
| "store_body (SCreatePluginToken tok) now = CreatePluginToken_tx tok"
| "store_body (SRevokePluginToken tid) now = void (RevokePluginToken_tx tid)"
| "store_body (SDeletePluginToken tid) now = void (DeletePluginToken_tx tid)"
| "store_body (SUpsertRelayNode node) now = UpsertRelayNode_tx node"
| "store_body (SDeleteRelayNode nid) now = void (DeleteRelayNode_tx nid)"
| "store_body (SSetRelayIsProxy rid b) now = SetRelayIsProxy_tx rid b"
| "store_body (SSetRelayGroupVars rid gv) now = void (SetRelayGroupVars_tx rid gv)"
| "store_body (SCreateRelayParentToken tok) now = CreateRelayParentToken_tx tok"
| "store_body (SRevokeRelayParentToken tid) now = void (RevokeRelayParentToken_tx tid now)"
| "store_body (SSetRelayTokenInfo rid jti exp) now = SetRelayTokenInfo_tx rid jti exp"
| "store_body (SRevokeRelayNode rid reason) now = void (RevokeRelayNode_tx rid reason now)"
| "store_body (SSetLinkSigningKeyIfAbsent sealed) now = SetLinkSigningKeyIfAbsent_tx sealed"
| "store_body (SRotateLinkKey new prev want) now = void (RotateLinkKey_tx new prev want)"
| "store_body SRetireLinkPrevious now = void RetireLinkPrevious_tx"
| "store_body (SCreateLinkToken tok) now = CreateLinkToken_tx tok"
| "store_body (SRevokeLinkToken tid) now = void (RevokeLinkToken_tx tid now)"
| "store_body (SSetLinkTrust lt) now = SetLinkTrust_tx lt"
| "store_body (SApplyLinkRevocations sq es) now = ApplyLinkRevocations_tx sq es now"

text \<open>A history: operations with the time at which each one runs, as the engine applies them.\<close>

definition store_batch :: "(gotime \<times> store_op) list \<Rightarrow> (gotime \<times> mutation) list" where
  "store_batch ops = map (\<lambda>(now, op). (now, mutation_of (store_body op now))) ops"

section \<open>Validity\<close>

text \<open>
  All but two operations take nothing away by construction: a purge depends on the expiry times in the
  blacklist, and a registration of a link token on its id being new.
\<close>

fun routine :: "store_op \<Rightarrow> bool" where
  "routine SPurgeBlacklist = False"
| "routine (SCreateLinkToken _) = False"
| "routine _ = True"

lemma tx_safe_void: "tx_safe p \<Longrightarrow> tx_safe (void p)"
  unfolding void_def by (intro tx_safe_bind tx_safe_read)

lemmas tx_safe_all = tx_safe_agents tx_safe_tokens tx_safe_relays tx_safe_link_keys tx_safe_RevokeLinkToken tx_safe_config_delete
  tx_safe_putBlacklist tx_safe_loops

lemma tx_safe_store_body: "routine op \<Longrightarrow> tx_safe (store_body op now)"
  by (cases op) (simp_all add: tx_safe_all tx_safe_void)

lemma store_batch_safe: "list_all (\<lambda>(_, op). routine op) ops \<Longrightarrow> list_all (\<lambda>(_, fn). safe_mutation fn) (store_batch ops)"
  by (auto simp: store_batch_def list_all_iff intro!: tx_safe_mutation tx_safe_store_body)

lemma store_batch_times: "map fst (store_batch ops) = map fst ops"
  by (simp add: store_batch_def split_beta)

section \<open>The record of a host along the operations\<close>

definition agent_of :: "string \<Rightarrow> Tx \<Rightarrow> Agent option" where
  "agent_of h t = fmlookup (Agents (payload (tx_m t))) h"

text \<open>The host is registered and its record satisfies the predicate; hosts are filed under their name.\<close>

definition host_sat :: "string \<Rightarrow> (Agent \<Rightarrow> bool) \<Rightarrow> Tx \<Rightarrow> bool" where
  "host_sat h P t \<longleftrightarrow>
     fmpred (\<lambda>k a. ag_Hostname a = k) (Agents (payload (tx_m t))) \<and>
     (case fmlookup (Agents (payload (tx_m t))) h of None \<Rightarrow> False | Some a \<Rightarrow> P a)"

lemma snd_tx_do: "snd (tx_do f t) = fst (f t)"
  by (simp add: tx_do_def split: prod.split option.split)

lemma snd_tx_val: "snd (tx_val f t) = fst (f t)"
  by (simp add: tx_val_def split: prod.split)

lemma keeps_do: "(\<And>t. I t \<Longrightarrow> I (fst (f t))) \<Longrightarrow> keeps I (tx_do f)"
  by (rule keepsI) (simp add: snd_tx_do)

lemma keeps_val: "(\<And>t. I t \<Longrightarrow> I (fst (f t))) \<Longrightarrow> keeps I (tx_val f)"
  by (rule keepsI) (simp add: snd_tx_val)

lemma Agents_frame:
  "Agents (payload (tx_m (fst (PutAuthorizedKey t ak)))) = Agents (payload (tx_m t))"
  "Agents (payload (tx_m (fst (DeleteAuthorizedKey t i)))) = Agents (payload (tx_m t))"
  "Agents (payload (tx_m (fst (PutEnrollmentToken t et)))) = Agents (payload (tx_m t))"
  "Agents (payload (tx_m (fst (DeleteEnrollmentToken t i)))) = Agents (payload (tx_m t))"
  "Agents (payload (tx_m (fst (PutPluginToken t pt)))) = Agents (payload (tx_m t))"
  "Agents (payload (tx_m (fst (DeletePluginToken t i)))) = Agents (payload (tx_m t))"
  "Agents (payload (tx_m (fst (PutRelayParentToken t rp)))) = Agents (payload (tx_m t))"
  "Agents (payload (tx_m (fst (PutLinkToken t lt)))) = Agents (payload (tx_m t))"
  "Agents (payload (tx_m (fst (SetLinkTrust t tr)))) = Agents (payload (tx_m t))"
  "Agents (payload (tx_m (fst (PutBlacklist t b)))) = Agents (payload (tx_m t))"
  "Agents (payload (tx_m (fst (DeleteRelayNode t i)))) = Agents (payload (tx_m t))"
  "Agents (payload (tx_m (fst (SetConfig t i v)))) = Agents (payload (tx_m t))"
  "Agents (payload (tx_m (DeleteConfig t i))) = Agents (payload (tx_m t))"
  by (auto simp: tx_op_defs Let_def split: option.split)

lemma Agents_PutRelayNode: "Agents (payload (tx_m (fst (PutRelayNode t rn)))) = Agents (payload (tx_m t))"
  by (cases "relay_put_accepted t rn") (simp_all add: PutRelayNode_refused tx_m_PutRelayNode(1) [OF _ refl])

lemma Agents_purge: "Agents (payload (tx_m (fst (purge_loop now ks t n)))) = Agents (payload (tx_m t))"
  by (induction ks arbitrary: t n) (auto split: option.split)

text \<open>An operation that leaves the agents alone.\<close>

lemma keeps_host_do:
  "(\<And>t. Agents (payload (tx_m (fst (f t)))) = Agents (payload (tx_m t))) \<Longrightarrow> keeps (host_sat h P) (tx_do f)"
  by (rule keeps_do) (simp add: host_sat_def)

lemma keeps_host_val:
  "(\<And>t. Agents (payload (tx_m (fst (f t)))) = Agents (payload (tx_m t))) \<Longrightarrow> keeps (host_sat h P) (tx_val f)"
  by (rule keeps_val) (simp add: host_sat_def)

lemmas keeps_host_frames =
  keeps_host_do [OF Agents_frame(1)] keeps_host_val [OF Agents_frame(2)] keeps_host_do [OF Agents_frame(3)]
  keeps_host_val [OF Agents_frame(4)] keeps_host_do [OF Agents_frame(5)] keeps_host_val [OF Agents_frame(6)]
  keeps_host_do [OF Agents_frame(7)] keeps_host_do [OF Agents_frame(8)] keeps_host_do [OF Agents_frame(9)]
  keeps_host_do [OF Agents_frame(10)] keeps_host_val [OF Agents_frame(11)] keeps_host_do [OF Agents_frame(12)]
  keeps_host_do [OF Agents_PutRelayNode]

lemma keeps_host_rest:
  "keeps (host_sat h P) (ConfigDelete_tx key)" "keeps (host_sat h P) (purgeBlacklist_tx now)"
  unfolding ConfigDelete_tx_def purgeBlacklist_tx_def
  by (rule keeps_host_val, simp add: Agents_frame(13) PurgeExpiredBlacklist_def Agents_purge)+

lemma keeps_prod: "(\<And>x y. keeps I (q x y)) \<Longrightarrow> keeps I (case xy of (x, y) \<Rightarrow> q x y)"
  by (cases xy) simp

lemma keeps_void: "keeps I p \<Longrightarrow> keeps I (void p)"
  unfolding void_def by (intro keeps_bind keeps_ret)

lemma keeps_putBlacklist: "keeps (host_sat h P) (putBlacklist jti k reason at until)"
  unfolding putBlacklist_def by (intro keeps_basic keeps_host_frames)

lemma keeps_purge_tokens: "keeps (host_sat h P) (purge_tokens_loop match toks n)"
  by (induction toks arbitrary: n) (simp_all only: purge_tokens_loop.simps, (intro keeps_basic keeps_host_frames | assumption)+)

lemma keeps_revocations: "keeps (host_sat h P) (revocations_loop now es)"
  by (induction es) (simp_all only: revocations_loop.simps, (intro keeps_basic keeps_putBlacklist | assumption)+)

lemma keeps_RevokeLinkToken: "keeps (host_sat h P) (RevokeLinkToken_tx tid now)"
  unfolding RevokeLinkToken_tx_def Let_def
  by (intro keeps_basic keeps_prod keeps_putBlacklist keeps_host_frames)

text \<open>The operations that write records of agents; the others leave every record alone.\<close>

fun writes_agents :: "store_op \<Rightarrow> bool" where
  "writes_agents (SRegisterAgent _ _ _) = True"
| "writes_agents (SEnrollAgent _ _ _ _ _) = True"
| "writes_agents (SDeleteAgent _) = True"
| "writes_agents (SUpdateTokenJTI _ _) = True"
| "writes_agents (SConfirmTokenJTI _ _) = True"
| "writes_agents (SUpdateTokenJTIUnlessRevoked _ _) = True"
| "writes_agents (SSetSuspended _ _) = True"
| "writes_agents (SSetAgentVar _ _ _) = True"
| "writes_agents (SDeleteAgentVar _ _) = True"
| "writes_agents (SRevokeAgent _ _ _ _) = True"
| "writes_agents SRepairRevokedFlags = True"
| "writes_agents _ = False"

lemma keeps_host_others: "\<not> writes_agents op \<Longrightarrow> keeps (host_sat h P) (store_body op now)"
  by (cases op)
    (simp_all add: keeps_putBlacklist keeps_host_rest keeps_void keeps_purge_tokens keeps_RevokeLinkToken,
    (unfold AddAuthorizedKey_tx_def RevokeKey_tx_def ConfigSet_tx_def CreateEnrollmentToken_tx_def use_token_def DeleteEnrollmentToken_tx_def
      CreatePluginToken_tx_def RevokePluginToken_tx_def DeletePluginToken_tx_def UpsertRelayNode_tx_def DeleteRelayNode_tx_def SetRelayIsProxy_tx_def
      SetRelayGroupVars_tx_def CreateRelayParentToken_tx_def RevokeRelayParentToken_tx_def SetRelayTokenInfo_tx_def RevokeRelayNode_tx_def
      SetLinkSigningKeyIfAbsent_tx_def RotateLinkKey_tx_def RetireLinkPrevious_tx_def CreateLinkToken_tx_def SetLinkTrust_tx_def
      ApplyLinkRevocations_tx_def Let_def)?,
    (intro keeps_void keeps_basic keeps_prod keeps_putBlacklist keeps_host_frames keeps_host_rest keeps_revocations)+)

subsection \<open>Writing a record\<close>

text \<open>The program that follows a read starts in the state that was read.\<close>

lemma keeps_read: "(\<And>t. I t \<Longrightarrow> I (snd (k (f t) t))) \<Longrightarrow> keeps I (bindP (gets f) k)"
  by (rule keepsI) (simp add: bindP_gets)

lemma host_PutAgent: "host_sat h P t \<Longrightarrow> (ag_Hostname a = h \<Longrightarrow> P a) \<Longrightarrow> host_sat h P (fst (PutAgent t a))"
  by (auto simp: host_sat_def PutAgent_def split: option.splits)

lemma host_agent: "host_sat h P t \<Longrightarrow> Tx_Agent t k = Some a \<Longrightarrow> ag_Hostname a = k \<and> (k = h \<longrightarrow> P a)"
  by (auto simp: host_sat_def Tx_Agent_def fmpred_iff)

lemma snd_bind_do_ret: "snd (bindP (tx_do f) (\<lambda>_. ret x) t) = fst (f t)"
  by (simp add: bindP_def tx_do_def ret_def split: prod.split option.split)

text \<open>Read an agent, then go on with it: the two shapes of the code.\<close>

lemma keeps_read_agent:
  assumes "keeps (host_sat h P) p"
    and "\<And>t a. host_sat h P t \<Longrightarrow> ag_Hostname a = k \<Longrightarrow> (k = h \<Longrightarrow> P a) \<Longrightarrow> host_sat h P (snd (q a t))"
  shows "keeps (host_sat h P) (bindP (gets (\<lambda>t. Tx_Agent t k)) (\<lambda>o'. case o' of None \<Rightarrow> p | Some a \<Rightarrow> q a))"
proof (rule keeps_read)
  fix t assume r: "host_sat h P t"
  show "host_sat h P (snd ((case Tx_Agent t k of None \<Rightarrow> p | Some a \<Rightarrow> q a) t))"
    using r assms(2) [OF r] host_agent [OF r, of k] keepsD [OF assms(1) r] by (cases "Tx_Agent t k") simp_all
qed

lemma keeps_update_agent:
  assumes "\<And>a. ag_Hostname (f a) = ag_Hostname a" "\<And>a. k = h \<Longrightarrow> P a \<Longrightarrow> P (f a)"
  shows "keeps (host_sat h P) (update_agent k f)"
  unfolding update_agent_def
  by (rule keeps_read_agent [OF keeps_ret]) (auto simp: snd_bind_do_ret assms intro!: host_PutAgent)

text \<open>What the writes of enrollment and renewal leave of a record that is not revoked.\<close>

definition token_blind :: "(Agent \<Rightarrow> bool) \<Rightarrow> bool" where
  "token_blind P \<longleftrightarrow> (\<forall>a pem jti prev enrolled seen. \<not> ag_Revoked a \<and> P a \<longrightarrow>
     P (a\<lparr>ag_PublicKeyPEM := pem, ag_TokenJTI := jti, ag_PrevTokenJTI := prev, ag_EnrolledAt := enrolled, ag_LastSeen := seen\<rparr>))"

lemma keeps_putEnrolledAgent:
  assumes "token_blind P"
  shows "keeps (host_sat h P) (putEnrolledAgent k pem jti now)"
proof (rule keepsI)
  fix t assume r: "host_sat h P t"
  then have known: "Tx_Agent t h \<noteq> None" by (auto simp: host_sat_def Tx_Agent_def split: option.splits)
  show "host_sat h P (snd (putEnrolledAgent k pem jti now t))"
  proof (cases "Tx_Agent t k")
    case None
    with known have "k \<noteq> h" by auto
    with None r show ?thesis
      by (auto simp: putEnrolledAgent_def bindP_gets raise_def snd_tx_do zero_agent_def intro!: host_PutAgent)
  next
    case (Some a)
    have same: "a\<lparr>ag_Hostname := k, ag_PublicKeyPEM := pem, ag_TokenJTI := jti, ag_PrevTokenJTI := [], ag_EnrolledAt := now, ag_LastSeen := Some now\<rparr> =
        a\<lparr>ag_PublicKeyPEM := pem, ag_TokenJTI := jti, ag_PrevTokenJTI := [], ag_EnrolledAt := now, ag_LastSeen := Some now\<rparr>"
      using host_agent [OF r Some] by auto
    from Some r host_agent [OF r Some] assms show ?thesis
      by (auto simp: putEnrolledAgent_def bindP_gets raise_def snd_tx_do same token_blind_def intro!: host_PutAgent)
  qed
qed

lemma keeps_EnrollAgent: "token_blind P \<Longrightarrow> keeps (host_sat h P) (EnrollAgent_tx tid k pem jti ap now)"
  unfolding EnrollAgent_tx_def AddAuthorizedKey_tx_def use_token_def
  by (intro keeps_basic keeps_host_frames keeps_putEnrolledAgent)

lemma renewed_blind:
  assumes "token_blind P" "\<not> ag_Revoked a" "P a"
  shows "P (a\<lparr>ag_PrevTokenJTI := prev, ag_TokenJTI := jti\<rparr>)"
proof -
  have "P (a\<lparr>ag_PublicKeyPEM := ag_PublicKeyPEM a, ag_TokenJTI := jti, ag_PrevTokenJTI := prev, ag_EnrolledAt := ag_EnrolledAt a,
      ag_LastSeen := ag_LastSeen a\<rparr>)" using assms unfolding token_blind_def by blast
  then show ?thesis by (cases a) simp
qed

lemma keeps_renewal:
  assumes "token_blind P"
  shows "keeps (host_sat h P) (UpdateTokenJTIUnlessRevoked_tx k jti)"
  unfolding UpdateTokenJTIUnlessRevoked_tx_def
proof (rule keeps_read_agent [OF keeps_ret])
  fix t a assume r: "host_sat h P t" "ag_Hostname a = k" "k = h \<Longrightarrow> P a"
  have "host_sat h P (fst (PutAgent t (a\<lparr>ag_PrevTokenJTI := ag_TokenJTI a, ag_TokenJTI := jti\<rparr>)))" if "\<not> ag_Revoked a"
    by (rule host_PutAgent [OF r(1)], rule renewed_blind) (use that assms r in auto)
  with r(1) show "host_sat h P (snd ((if ag_Revoked a then raise [ErrAgentRevoked]
      else bindP (tx_do (\<lambda>t. PutAgent t (a\<lparr>ag_PrevTokenJTI := ag_TokenJTI a, ag_TokenJTI := jti\<rparr>))) (\<lambda>_. ret True)) t))"
    by (cases "ag_Revoked a") (simp_all add: raise_def snd_bind_do_ret)
qed

lemma keeps_agent_rewrites:
  assumes "\<And>a vs. P a \<Longrightarrow> P (a\<lparr>ag_Vars := vs\<rparr>)" "\<And>a. P a \<Longrightarrow> P (a\<lparr>ag_PrevTokenJTI := []\<rparr>)"
  shows "keeps (host_sat h P) (ConfirmTokenJTI_tx k jti)" "keeps (host_sat h P) (SetAgentVar_tx k key v)"
    "keeps (host_sat h P) (DeleteAgentVar_tx k key)"
proof -
  show "keeps (host_sat h P) (ConfirmTokenJTI_tx k jti)"
    unfolding ConfirmTokenJTI_tx_def
    by (rule keeps_read_agent [OF keeps_ret]) (auto simp: ret_def snd_tx_do assms intro!: host_PutAgent)
  show "keeps (host_sat h P) (SetAgentVar_tx k key v)"
    unfolding SetAgentVar_tx_def
    by (rule keeps_read_agent [OF keeps_raise]; cases v) (auto simp: of_res_def bindP_def snd_tx_do assms intro!: host_PutAgent)
  show "keeps (host_sat h P) (DeleteAgentVar_tx k key)"
    unfolding DeleteAgentVar_tx_def
    by (rule keeps_read_agent [OF keeps_raise]) (auto simp: ret_def snd_bind_do_ret assms intro!: host_PutAgent)
qed

lemma keeps_DeleteAgent: "k \<noteq> h \<Longrightarrow> keeps (host_sat h P) (DeleteAgent_tx k)"
proof -
  assume "k \<noteq> h"
  then have "keeps (host_sat h P) (tx_val (\<lambda>t. DeleteAgent t k))"
    by (intro keeps_val) (auto simp: host_sat_def DeleteAgent_def fmpred_iff)
  then show ?thesis unfolding DeleteAgent_tx_def by (intro keeps_basic keeps_host_frames)
qed

lemma keeps_RevokeAgent: "(\<And>a. k = h \<Longrightarrow> P a \<Longrightarrow> P (a\<lparr>ag_Revoked := True\<rparr>)) \<Longrightarrow> keeps (host_sat h P) (RevokeAgent_tx k jti reason until now)"
  unfolding RevokeAgent_tx_def by (intro keeps_basic keeps_update_agent keeps_putBlacklist) auto

section \<open>Persistence of a revocation\<close>

text \<open>The host is registered, revoked, and its current token is the given one.\<close>

abbreviation revoked_with :: "string \<Rightarrow> Agent \<Rightarrow> bool" where
  "revoked_with j a \<equiv> ag_Revoked a \<and> ag_TokenJTI a = j"

definition stays_revoked :: "string \<Rightarrow> string \<Rightarrow> Tx \<Rightarrow> bool" where
  "stays_revoked h j = host_sat h (revoked_with j)"

lemma stays_revoked_alt: "stays_revoked h j t \<longleftrightarrow>
     fmpred (\<lambda>k a. ag_Hostname a = k) (Agents (payload (tx_m t))) \<and>
     (case fmlookup (Agents (payload (tx_m t))) h of None \<Rightarrow> False | Some a \<Rightarrow> ag_Revoked a \<and> ag_TokenJTI a = j)"
  by (simp add: stays_revoked_def host_sat_def)

lemma keeps_repair_loop:
  assumes "list_all (\<lambda>a. ag_Hostname a = h \<longrightarrow> ag_Revoked a) as"
  shows "keeps (host_sat h (revoked_with j)) (repair_loop as n)"
  using assms
proof (induction as arbitrary: n)
  case (Cons a as)
  have put: "keeps (host_sat h (revoked_with j)) (tx_do (\<lambda>t. PutAgent t (a\<lparr>ag_Revoked := True\<rparr>)))" if "\<not> ag_Revoked a"
    by (rule keeps_do, rule host_PutAgent) (use that Cons.prems in auto)
  have "keeps (host_sat h (revoked_with j)) (bindP (tx_do (\<lambda>t. PutAgent t (a\<lparr>ag_Revoked := True\<rparr>))) (\<lambda>_. repair_loop as (Suc n)))"
    if "\<not> ag_Revoked a" using Cons by (intro keeps_bind put that) simp
  then show ?case using Cons
    by (cases "ag_Revoked a") (auto intro!: keeps_read intro: keepsD)
qed (simp add: keeps_ret)

lemma keeps_RepairRevokedFlags: "keeps (host_sat h (revoked_with j)) RepairRevokedFlags_tx"
  unfolding RepairRevokedFlags_tx_def
proof (rule keeps_read)
  fix t assume r: "host_sat h (revoked_with j) t"
  have "list_all (\<lambda>a. ag_Hostname a = h \<longrightarrow> ag_Revoked a) (Tx_Agents t)"
    using r by (auto simp: list_all_iff Tx_Agents_def host_sat_def fmpred_iff keys_def split: option.splits)
  from keepsD [OF keeps_repair_loop [OF this] r] show "host_sat h (revoked_with j) (snd (repair_loop (Tx_Agents t) 0 t))" .
qed

text \<open>The operations that may lift a revocation or replace the token of the host.\<close>

fun spares :: "string \<Rightarrow> store_op \<Rightarrow> bool" where
  "spares h (SDeleteAgent k) = (k \<noteq> h)"
| "spares h (SUpdateTokenJTI k _) = (k \<noteq> h)"
| "spares h _ = True"

lemma keeps_revoked_store_body:
  assumes "spares h op"
  shows "keeps (stays_revoked h j) (store_body op now)"
proof (cases "writes_agents op")
  case True
  have "token_blind (revoked_with j)" by (simp add: token_blind_def)
  with True assms show ?thesis unfolding stays_revoked_def
    by (cases op) (auto simp: UpdateTokenJTI_tx_def SetSuspended_tx_def intro!: keeps_void keeps_EnrollAgent keeps_putEnrolledAgent keeps_renewal
        keeps_agent_rewrites keeps_DeleteAgent keeps_RevokeAgent keeps_RepairRevokedFlags keeps_update_agent)
qed (simp add: stays_revoked_def keeps_host_others)

text \<open>One mutation, then a history.\<close>

lemma through_store_body: "through_tx (mutation_of (store_body op now))"
proof (cases "routine op")
  case True
  then show ?thesis by (intro safe_through tx_safe_mutation tx_safe_store_body)
next
  case False
  have "\<exists>ops. fst (mutation_of (store_body op now) t) = run_ops ops t" for t
    using False
    by (cases op) (auto simp: fst_mutation_of void_def bindP_def ret_def purgeBlacklist_tx_def tx_val_def CreateLinkToken_tx_def snd_tx_do
        split: prod.splits intro: exI [of _ "[OpPurgeExpiredBlacklist now]"] exI [of _ "[OpPutLinkToken _]"])
  then show ?thesis by (simp add: through_tx_def)
qed

definition revoked_in :: "string \<Rightarrow> string \<Rightarrow> model \<Rightarrow> bool" where
  "revoked_in h j m \<longleftrightarrow>
     (case fmlookup (Agents (payload m)) h of None \<Rightarrow> False | Some a \<Rightarrow> ag_Revoked a \<and> ag_TokenJTI a = j)"

lemma run_mutation_keeps_revoked:
  assumes "spares h op" "stays_revoked h j (newTx m opts now)"
  shows "stays_revoked h j (newTx (fst (run_mutation opts now (mutation_of (store_body op now)) m)) opts' now')"
proof (cases "run_mutation opts now (mutation_of (store_body op now)) m")
  case (Pair m' err)
  show ?thesis
  proof (cases err)
    case (Some e)
    with run_mutation_error [OF through_store_body, of opts now op now m m' e] Pair assms(2) show ?thesis
      by (simp add: stays_revoked_alt newTx_def)
  next
    case None
    with Pair have "m' = tx_m (snd (store_body op now (newTx m opts now)))"
      by (auto simp: run_mutation_def Let_def fst_mutation_of [symmetric] split: prod.splits option.splits)
    with keepsD [OF keeps_revoked_store_body [OF assms(1)] assms(2), of now] Pair show ?thesis
      by (simp add: stays_revoked_alt newTx_def)
  qed
qed

lemma history_keeps_revoked:
  assumes "list_all (\<lambda>(_, op). spares h op) ops" "stays_revoked h j (newTx m opts now0)"
  shows "stays_revoked h j (newTx (fst (apply_batch opts (store_batch ops) m)) opts now1)"
  using assms
proof (induction ops arbitrary: m)
  case Nil
  then show ?case by (simp add: store_batch_def stays_revoked_alt newTx_def)
next
  case (Cons x ops)
  obtain now op where x: "x = (now, op)" by (cases x)
  have "stays_revoked h j (newTx m opts now)" using Cons.prems(2) by (simp add: stays_revoked_alt newTx_def)
  then have "stays_revoked h j (newTx (fst (run_mutation opts now (mutation_of (store_body op now)) m)) opts now0)"
    using Cons.prems(1) x by (intro run_mutation_keeps_revoked) simp_all
  from Cons.IH [OF _ this] Cons.prems(1) x show ?case
    by (auto simp: store_batch_def split: prod.splits)
qed

section \<open>Properties of histories\<close>

definition ex_base :: model where
  "ex_base = raw_model newPayload 0 2"

definition ex_history :: "(gotime \<times> store_op) list" where
  "ex_history = [(unix_time 10, SEnrollAgent [] ''web1'' ''pem'' ''jti1'' ''admin''),
     (unix_time 11, SRevokeAgent ''web1'' ''jti1'' ''lost'' (unix_time 100)),
     (unix_time 12, SEnrollAgent [] ''web1'' ''pem2'' ''jti2'' ''admin''),
     (unix_time 13, SUpdateTokenJTIUnlessRevoked ''web1'' ''jti3'')]"

text \<open>
  C10. Validity of histories. From a valid state, any sequence of store operations (at non-decreasing times,
  each accepted or refused, purges of the blacklist and registrations of link tokens apart) leads to a state
  whose entries, indexes, links and relay nodes satisfy all that \<open>validateAll\<close> demands. The check of the
  encrypted values that a load makes besides is not part of it: a configuration value that merely looks
  encrypted is stored and refused by that check.
\<close>

theorem store_history_valid:
  assumes "list_all (\<lambda>(_, op). routine op) ops" "sorted (now0 # map fst ops)" "model_ok now0 m"
  shows "model_ok (last (now0 # map fst ops)) (fst (apply_batch opts (store_batch ops) m))"
  using apply_batch_valid [OF store_batch_safe [OF assms(1)], of now0 m opts] assms(2,3) by (simp add: store_batch_times)

theorem store_history_valid_witness:
  "model_ok (unix_time 13) (fst (apply_batch ex_opts (store_batch ex_history) ex_base))"
proof -
  have "model_ok (unix_time 0) ex_base" unfolding ex_base_def by (rule model_ok_empty)
  moreover have "sorted (unix_time 0 # map fst ex_history)" by (simp add: ex_history_def unix_time_def second_def)
  ultimately show ?thesis
    using store_history_valid [of ex_history "unix_time 0" ex_base ex_opts] by (simp add: ex_history_def)
qed

text \<open>
  C9. A revocation is final. Once a host is revoked, no sequence of store operations other than its deletion
  and the unconditional replacement of its token lifts the flag or gives it another token: enrollment,
  registration and renewal are refused or leave it alone.
\<close>

theorem revocation_is_final:
  assumes "list_all (\<lambda>(_, op). spares h op) ops" "revoked_in h j m" "entries_ok (payload m)"
  shows "revoked_in h j (fst (apply_batch opts (store_batch ops) m))"
proof -
  have "fmpred (\<lambda>k a. ag_Hostname a = k) (Agents (payload m))"
    using assms(3) by (auto simp: entries_ok_def fmpred_iff split: if_splits)
  then have "stays_revoked h j (newTx m opts 0)"
    using assms(2) by (simp add: stays_revoked_alt revoked_in_def newTx_def)
  from history_keeps_revoked [OF assms(1) this, of 0] show ?thesis
    by (simp add: stays_revoked_alt revoked_in_def newTx_def)
qed

definition ex_revoked :: model where
  "ex_revoked = fst (apply_batch ex_opts (store_batch (take 2 ex_history)) ex_base)"

theorem revocation_is_final_witness:
  "revoked_in ''web1'' ''jti1'' (fst (apply_batch ex_opts (store_batch (drop 2 ex_history)) ex_revoked))"
proof -
  have "revoked_in ''web1'' ''jti1'' ex_revoked" by code_simp
  moreover have "model_ok (unix_time 11) ex_revoked"
  proof -
    have "model_ok (unix_time 0) ex_base" unfolding ex_base_def by (rule model_ok_empty)
    then show ?thesis
      using apply_batch_valid [OF store_batch_safe, of "take 2 ex_history" "unix_time 0" ex_base ex_opts]
      by (simp add: ex_history_def ex_revoked_def store_batch_times unix_time_def second_def)
  qed
  then have "entries_ok (payload ex_revoked)" by (simp add: model_ok_def)
  ultimately show ?thesis
    using revocation_is_final [of "''web1''" "drop 2 ex_history" "''jti1''" ex_revoked ex_opts] by (simp add: ex_history_def)
qed

end
