(* ===== verification/Store_Security.thy ===== *)
theory Store_Security
  imports Store_History
begin

text \<open>
  What the single store mutations achieve that the security of the relay rests on: an enrollment happens as a
  whole or not at all, a revocation of a relay or of a link token sets the flag, the blacklist and the
  counter together, and the rotation of the link keys follows a small abstract protocol. The last property shows
  a history that the final checks accept and that loading refuses.
\<close>

section \<open>Outcome of a mutation\<close>

lemma run_mutation_success:
  assumes "run_mutation opts now (mutation_of p) m = (m', None)"
  obtains x t where "p (newTx m opts now) = (Inr x, t)" "m' = tx_m t" "finish t = None"
  using assms by (auto simp: run_mutation_def mutation_of_def Let_def split: prod.splits sum.splits option.splits)

lemma run_mutation_refused:
  assumes "tx_safe p" "run_mutation opts now (mutation_of p) m = (m', Some e)"
  shows "m' = m"
  by (rule run_mutation_error [OF safe_through [OF tx_safe_mutation [OF assms(1)]] assms(2)])

lemma tx_do_success: "tx_do f t = (Inr x, t') \<longleftrightarrow> f t = (t', None)"
  by (auto simp: tx_do_def split: prod.splits option.splits)

lemma bindP_success: "bindP p k t = (Inr y, t') \<longleftrightarrow> (\<exists>x t1. p t = (Inr x, t1) \<and> k x t1 = (Inr y, t'))"
  by (auto simp: bindP_def split: prod.splits sum.splits)

lemmas success_simps = bindP_success tx_do_success gets_def ret_def raise_def

section \<open>Sections after an accepted write\<close>

lemma payload_PutAgent: "PutAgent t a = (t', None) \<Longrightarrow> payload (tx_m t') = Agents_update (fmupd (ag_Hostname a) a) (payload (tx_m t))"
  by (auto simp: PutAgent_def split: if_splits)

lemma payload_PutAuthorizedKey:
  "PutAuthorizedKey t k = (t', None) \<Longrightarrow> payload (tx_m t') = AuthorizedKeys_update (fmupd (ak_Hostname k) k) (payload (tx_m t))"
  by (auto simp: PutAuthorizedKey_def split: if_splits)

lemma payload_put_unique:
  assumes "PutEnrollmentToken t et = (t', None)"
  shows "payload (tx_m t') = EnrollmentTokens_update (fmupd (et_ID et) et) (payload (tx_m t))"
  using assms by (auto simp: PutEnrollmentToken_def Let_def split: option.splits if_splits)

lemma payload_PutBlacklist:
  "PutBlacklist t b = (t', None) \<Longrightarrow> payload (tx_m t') = Blacklist_update (fmupd (bl_JTI b) b) (payload (tx_m t))"
  by (auto simp: PutBlacklist_def split: option.splits)

lemma payload_SetConfig:
  "SetConfig t key v = (t', None) \<Longrightarrow> payload (tx_m t') = ServerConfig_update (fmupd key v) (payload (tx_m t))"
  by (auto simp: SetConfig_def Let_def split: if_splits)

lemma payload_PutLinkToken:
  assumes "PutLinkToken t v = (t', None)"
  shows "payload (tx_m t') = LinkTokens_update (fmupd (lt_ID v) v) (payload (tx_m t))"
  using assms by (cases rule: PutLinkToken_cases [where t = t and v = v]) auto

lemma payload_PutRelayNode:
  assumes "PutRelayNode t v = (t', None)"
  shows "payload (tx_m t') = RelayNodes_update (fmupd (rn_RelayID v) v) (payload (tx_m t))"
proof -
  have "relay_put_accepted t v"
    using assms by (auto simp: PutRelayNode_def relay_put_accepted_def split: option.splits if_splits)
  from tx_m_PutRelayNode(1) [OF this refl] assms show ?thesis by simp
qed

lemmas payload_writes = payload_PutAgent payload_PutAuthorizedKey payload_put_unique payload_PutBlacklist payload_SetConfig
  payload_PutLinkToken payload_PutRelayNode

text \<open>Whether the entry was new or not, the identifier is listed afterwards, and only the blacklist changed.\<close>

lemma putBlacklist_success:
  assumes "putBlacklist jti h reason at until t = (Inr x, t')"
  shows "(\<exists>f. payload (tx_m t') = Blacklist_update f (payload (tx_m t))) \<and> fmlookup (Blacklist (payload (tx_m t'))) jti \<noteq> None"
proof (cases "Tx_Blacklisted t jti")
  case True
  with assms have "t' = t" by (auto simp: putBlacklist_def success_simps)
  with True show ?thesis by (auto simp: Tx_Blacklisted_def intro: exI [of _ "\<lambda>x. x"])
next
  case False
  with assms have "PutBlacklist t \<lparr>bl_JTI = jti, bl_Hostname = h, bl_RevokedAt = at, bl_Reason = reason, bl_ExpiresAt = until\<rparr> = (t', None)"
    by (auto simp: putBlacklist_def success_simps)
  from payload_PutBlacklist [OF this] show ?thesis by auto
qed

section \<open>Enrollment\<close>

text \<open>
  C11. Enrollment is atomic. When an enrollment is accepted, the host was not revoked, its key is authorized, the
  agent is registered with the key and the token, and the enrollment token (when one is used) existed and
  counts one more use; the other agents are untouched. When it is refused, for whatever reason, nothing changed.
\<close>

theorem enrollment_is_atomic:
  assumes "run_mutation opts now (mutation_of (EnrollAgent_tx tid h pem jti ap now)) m = (m', err)" "entries_ok (payload m)"
  shows "case err of
      Some _ \<Rightarrow> m' = m
    | None \<Rightarrow>
        (\<exists>a. fmlookup (Agents (payload m')) h = Some a \<and> \<not> ag_Revoked a \<and> ag_PublicKeyPEM a = pem \<and> ag_TokenJTI a = jti \<and>
           ag_PrevTokenJTI a = [] \<and> Agents (payload m') = fmupd h a (Agents (payload m))) \<and>
        AuthorizedKeys (payload m') = fmupd h \<lparr>ak_Hostname = h, ak_PublicKeyPEM = pem, ak_ApprovedAt = now, ak_ApprovedBy = ap\<rparr>
          (AuthorizedKeys (payload m)) \<and>
        (\<forall>a. fmlookup (Agents (payload m)) h = Some a \<longrightarrow> \<not> ag_Revoked a) \<and>
        (tid \<noteq> [] \<longrightarrow> (\<exists>tok. fmlookup (EnrollmentTokens (payload m)) tid = Some tok \<and>
           EnrollmentTokens (payload m') = fmupd tid (tok\<lparr>et_UseCount := et_UseCount tok + 1, et_LastUsedAt := Some now\<rparr>)
             (EnrollmentTokens (payload m))))"
proof (cases err)
  case (Some e)
  with run_mutation_refused [OF tx_safe_agents(5), of opts now tid h pem jti ap now m m' e] assms(1) show ?thesis by simp
next
  case None
  let ?t0 = "newTx m opts now" and ?key = "\<lparr>ak_Hostname = h, ak_PublicKeyPEM = pem, ak_ApprovedAt = now, ak_ApprovedBy = ap\<rparr>"
  from assms(1) None obtain t1 t2 t3 where
    use: "(if tid \<noteq> [] then use_token tid now else ret ()) ?t0 = (Inr (), t1)" and
    key: "PutAuthorizedKey t1 ?key = (t2, None)" and put: "putEnrolledAgent h pem jti now t2 = (Inr (), t3)" and m': "m' = tx_m t3"
    by (auto elim!: run_mutation_success simp: EnrollAgent_tx_def AddAuthorizedKey_tx_def success_simps)
  have tok: "Agents (payload (tx_m t1)) = Agents (payload m) \<and> AuthorizedKeys (payload (tx_m t1)) = AuthorizedKeys (payload m) \<and>
      (tid \<noteq> [] \<longrightarrow> (\<exists>tok. fmlookup (EnrollmentTokens (payload m)) tid = Some tok \<and> EnrollmentTokens (payload (tx_m t1)) =
        fmupd tid (tok\<lparr>et_UseCount := et_UseCount tok + 1, et_LastUsedAt := Some now\<rparr>) (EnrollmentTokens (payload m))))"
  proof (cases "tid = []")
    case True
    with use show ?thesis by (auto simp: ret_def newTx_def)
  next
    case False
    with use obtain tok where tok: "fmlookup (EnrollmentTokens (payload m)) tid = Some tok"
      and wr: "PutEnrollmentToken ?t0 (tok\<lparr>et_UseCount := et_UseCount tok + 1, et_LastUsedAt := Some now\<rparr>) = (t1, None)"
      by (auto simp: use_token_def success_simps Tx_EnrollmentToken_def newTx_def split: option.splits)
    have "et_ID tok = tid" using tok assms(2) by (auto simp: entries_ok_def fmpred_iff checkEnrollmentToken_def split: if_splits)
    with payload_put_unique [OF wr] tok show ?thesis by (simp add: newTx_def)
  qed
  let ?a = "case fmlookup (Agents (payload m)) h of None \<Rightarrow> zero_agent | Some a \<Rightarrow> a"
  let ?b = "?a\<lparr>ag_Hostname := h, ag_PublicKeyPEM := pem, ag_TokenJTI := jti, ag_PrevTokenJTI := [], ag_EnrolledAt := now, ag_LastSeen := Some now\<rparr>"
  have p2: "payload (tx_m t2) = AuthorizedKeys_update (fmupd h ?key) (payload (tx_m t1))" using payload_PutAuthorizedKey [OF key] by simp
  have agent: "Tx_Agent t2 h = fmlookup (Agents (payload m)) h" using p2 tok by (simp add: Tx_Agent_def)
  have ok: "\<not> ag_Revoked ?a" and wr: "PutAgent t2 ?b = (t3, None)"
    using put agent by (auto simp: putEnrolledAgent_def success_simps Let_def split: if_splits)
  have p3: "payload (tx_m t3) = Agents_update (fmupd h ?b) (payload (tx_m t2))" using payload_PutAgent [OF wr] by simp
  have "\<forall>a. fmlookup (Agents (payload m)) h = Some a \<longrightarrow> \<not> ag_Revoked a" using ok by auto
  with p3 p2 tok ok m' None show ?thesis by simp
qed

definition ex_enrolled :: "model \<times> goerr option" where
  "ex_enrolled = run_mutation ex_opts (unix_time 10) (mutation_of (EnrollAgent_tx [] ''web1'' ''pem'' ''jti1'' ''admin'' (unix_time 10))) ex_base"

theorem enrollment_is_atomic_witness:
  "snd ex_enrolled = None \<and> fmlookup (AuthorizedKeys (payload (fst ex_enrolled))) ''web1'' \<noteq> None"
proof -
  have ok: "snd ex_enrolled = None" by code_simp
  have "entries_ok (payload ex_base)"
    using model_ok_empty [of 0 0 2] by (simp add: ex_base_def model_ok_def)
  then have "AuthorizedKeys (payload (fst ex_enrolled)) = fmupd ''web1'' \<lparr>ak_Hostname = ''web1'', ak_PublicKeyPEM = ''pem'',
      ak_ApprovedAt = unix_time 10, ak_ApprovedBy = ''admin''\<rparr> (AuthorizedKeys (payload ex_base))"
    using enrollment_is_atomic [of ex_opts "unix_time 10" "[]" "''web1''" "''pem''" "''jti1''" "''admin''" ex_base "fst ex_enrolled" "snd ex_enrolled"] ok
    by (simp add: ex_enrolled_def)
  with ok show ?thesis by simp
qed

section \<open>Revocation of relays and link tokens\<close>

text \<open>
  Revoking a relay. When the revocation of a known relay is accepted, the relay carries the revoked flag and
  a token identifier (its own, or the synthetic one), and that identifier is blacklisted in the same state.
\<close>

theorem relay_revocation_complete:
  assumes "run_mutation opts now (mutation_of (RevokeRelayNode_tx rid reason now)) m = (m', None)"
    and "fmlookup (RelayNodes (payload m)) rid = Some n" "entries_ok (payload m)"
  shows "\<exists>n'. fmlookup (RelayNodes (payload m')) rid = Some n' \<and> rn_Revoked n' \<and>
     rn_JTI n' = (if rn_JTI n = [] then ''no-token:'' @ rid else rn_JTI n) \<and>
     fmlookup (Blacklist (payload m')) (rn_JTI n') \<noteq> None"
proof -
  let ?exp = "if rn_TokenExp n > 0 then unix_time (rn_TokenExp n) else now + thirty_days"
  let ?jti = "if rn_JTI n = [] then ''no-token:'' @ rid else rn_JTI n"
  let ?n = "(if rn_JTI n = [] then n\<lparr>rn_JTI := ?jti, rn_TokenExp := unix_sec ?exp\<rparr> else n)\<lparr>rn_Revoked := True\<rparr>"
  from assms(1) obtain x t where run: "RevokeRelayNode_tx rid reason now (newTx m opts now) = (Inr x, t)" and m': "m' = tx_m t"
    by (rule run_mutation_success)
  have "Tx_RelayNode (newTx m opts now) rid = Some n" using assms(2) by (simp add: Tx_RelayNode_def newTx_def)
  with run obtain y t1 where bl: "putBlacklist ?jti rid reason now ?exp (newTx m opts now) = (Inr y, t1)" and put: "PutRelayNode t1 ?n = (t, None)"
    by (auto simp: RevokeRelayNode_tx_def success_simps Let_def cong: if_cong)
  have "rn_RelayID n = rid" using assms(2,3) by (auto simp: entries_ok_def fmpred_iff checkRelayNode_def split: if_splits)
  then have "payload (tx_m t) = RelayNodes_update (fmupd rid ?n) (payload (tx_m t1))" using payload_PutRelayNode [OF put] by simp
  with putBlacklist_success [OF bl] m' show ?thesis by auto
qed

definition ex_relay :: RelayInput where
  "ex_relay = \<lparr>ri_ID = ''n1'', ri_RelayID = ''edge'', ri_URLs = [], ri_Description = [], ri_TokenHash = ''h1'', ri_TokenSecret = [],
     ri_Mode = ModePull, ri_IsProxy = False, ri_CreatedAt = 10, ri_LastSeen = None, ri_Status = ''pending''\<rparr>"

definition ex_with_relay :: model where
  "ex_with_relay = fst (apply_batch ex_opts (store_batch [(unix_time 10, SUpsertRelayNode ex_relay),
     (unix_time 11, SSetRelayTokenInfo ''edge'' ''jti-edge'' 0)]) ex_base)"

lemma ex_with_relay_ok: "model_ok (unix_time 11) ex_with_relay"
proof -
  have "model_ok (unix_time 0) ex_base" unfolding ex_base_def by (rule model_ok_empty)
  then show ?thesis
    using apply_batch_valid [OF store_batch_safe, of "[(unix_time 10, SUpsertRelayNode ex_relay),
      (unix_time 11, SSetRelayTokenInfo ''edge'' ''jti-edge'' 0)]" "unix_time 0" ex_base ex_opts]
    by (simp add: ex_with_relay_def store_batch_times unix_time_def second_def)
qed

definition ex_relay_revoked :: "model \<times> goerr option" where
  "ex_relay_revoked = run_mutation ex_opts (unix_time 12) (mutation_of (RevokeRelayNode_tx ''edge'' ''lost'' (unix_time 12))) ex_with_relay"

theorem relay_revocation_complete_witness:
  "\<exists>n'. fmlookup (RelayNodes (payload (fst ex_relay_revoked))) ''edge'' = Some n' \<and> rn_Revoked n' \<and> rn_JTI n' = ''jti-edge''"
proof -
  have ok: "run_mutation ex_opts (unix_time 12) (mutation_of (RevokeRelayNode_tx ''edge'' ''lost'' (unix_time 12))) ex_with_relay =
      (fst ex_relay_revoked, None)"
  proof -
    have "snd ex_relay_revoked = None" by code_simp
    then show ?thesis by (metis ex_relay_revoked_def prod.collapse)
  qed
  have n: "fmlookup (RelayNodes (payload ex_with_relay)) ''edge'' =
      Some (ex_node\<lparr>rn_IsProxy := False, rn_CreatedAt := unix_time 10, rn_JTI := ''jti-edge''\<rparr>)" by code_simp
  have "entries_ok (payload ex_with_relay)" using ex_with_relay_ok by (simp add: model_ok_def)
  from relay_revocation_complete [OF ok n this] show ?thesis by (auto simp: ex_node_def)
qed

text \<open>
  Revoking a link token. When the revocation of a token that was still valid is accepted, the token is
  marked, its identifier is blacklisted and the link counter has advanced by one, all in the same state; the
  caller gets the new counter. A second revocation reports the same token and counter and writes nothing.
\<close>

theorem link_revocation_complete:
  assumes "RevokeLinkToken_tx tid now t = (Inr (Some (tok', sq)), t')" "Tx_LinkToken t tid = Some tok" "lt_RevokedAt tok = None"
    and "lt_ID tok = tid"
  shows "tok' = tok\<lparr>lt_RevokedAt := Some now\<rparr> \<and> Tx_LinkToken t' tid = Some tok' \<and> Tx_Blacklisted t' (lt_JTI tok) \<and>
     sq = txConfigUint t configLinkSeq + 1 \<and> txConfigUint t' configLinkSeq = sq \<and>
     RevokeLinkToken_tx tid now' t' = (Inr (Some (tok', sq)), t')"
proof -
  let ?tok = "tok\<lparr>lt_RevokedAt := Some now\<rparr>" and ?sq = "txConfigUint t configLinkSeq + 1"
  from assms obtain y t1 t2 where
    bl: "putBlacklist (lt_JTI ?tok) (lt_Sub ?tok) ''link token revoked'' now (lt_ExpiresAt ?tok) t = (Inr y, t1)" and
    put: "PutLinkToken t1 ?tok = (t2, None)" and cfg: "SetConfig t2 configLinkSeq (format_uint ?sq) = (t', None)" and
    out: "tok' = ?tok" "sq = ?sq"
    by (auto simp: RevokeLinkToken_tx_def success_simps Let_def)
  have p: "payload (tx_m t') = ServerConfig_update (fmupd configLinkSeq (format_uint ?sq))
      (LinkTokens_update (fmupd tid ?tok) (payload (tx_m t1)))"
    using payload_SetConfig [OF cfg] payload_PutLinkToken [OF put] assms(4) by simp
  have here: "Tx_LinkToken t' tid = Some ?tok" "Tx_Blacklisted t' (lt_JTI tok)" "txConfigUint t' configLinkSeq = ?sq"
    using p putBlacklist_success [OF bl] by (auto simp: Tx_LinkToken_def Tx_Blacklisted_def txConfigUint_def txConfig_def Tx_Config_def)
  then show ?thesis using out by (simp add: RevokeLinkToken_tx_def bindP_gets ret_def)
qed

definition ex_link_tx :: Tx where
  "ex_link_tx = run_ops ex_enrol (newTx (raw_model newPayload 0 2) ex_opts (unix_time 5))"

theorem link_revocation_complete_witness:
  "Tx_Blacklisted (snd (RevokeLinkToken_tx ''t1'' (unix_time 6) ex_link_tx)) ''j1'' \<and>
   txConfigUint (snd (RevokeLinkToken_tx ''t1'' (unix_time 6) ex_link_tx)) configLinkSeq = 1"
proof -
  have "fst (RevokeLinkToken_tx ''t1'' (unix_time 6) ex_link_tx) = Inr (Some (ex_link\<lparr>lt_RevokedAt := Some (unix_time 6)\<rparr>, 1))"
    by code_simp
  then have run: "RevokeLinkToken_tx ''t1'' (unix_time 6) ex_link_tx =
      (Inr (Some (ex_link\<lparr>lt_RevokedAt := Some (unix_time 6)\<rparr>, 1)), snd (RevokeLinkToken_tx ''t1'' (unix_time 6) ex_link_tx))"
    by (metis prod.collapse)
  have tok: "Tx_LinkToken ex_link_tx ''t1'' = Some ex_link" by code_simp
  from link_revocation_complete [OF run tok] show ?thesis by (simp add: ex_link_def)
qed

section \<open>The link keys\<close>

text \<open>
  The abstract protocol: a ring of at most two keys, the counter, and the counter value that opened the
  window in which both keys are accepted.
\<close>

record key_ring =
  kr_current :: string
  kr_previous :: string
  kr_seq :: "64 word"
  kr_rotation :: "64 word"

definition kr_rotate :: "string \<Rightarrow> string \<Rightarrow> string \<Rightarrow> key_ring \<Rightarrow> key_ring res" where
  "kr_rotate new prev want r =
     (if kr_current r = [] \<or> kr_current r \<noteq> want then Inl [ErrInvalid]
      else if kr_previous r \<noteq> [] then Inl [ErrPreviousNotRetired]
      else Inr \<lparr>kr_current = new, kr_previous = prev, kr_seq = kr_seq r + 1, kr_rotation = kr_seq r + 1\<rparr>)"

definition kr_retire :: "key_ring \<Rightarrow> key_ring res" where
  "kr_retire r =
     (if kr_previous r = [] then Inl [ErrNoPreviousKey]
      else Inr (r\<lparr>kr_previous := [], kr_seq := kr_seq r + 1, kr_rotation := 0\<rparr>))"

definition ring_of :: "Tx \<Rightarrow> key_ring" where
  "ring_of t = \<lparr>kr_current = txConfig t ConfigLinkSigningKeyCurrent, kr_previous = txConfig t ConfigLinkSigningKeyPrevious,
     kr_seq = txConfigUint t configLinkSeq, kr_rotation = txConfigUint t configLinkRotationSeq\<rparr>"

definition ring_result :: "64 word res \<times> Tx \<Rightarrow> key_ring res" where
  "ring_result r = (case r of (Inl e, _) \<Rightarrow> Inl e | (Inr _, t') \<Rightarrow> Inr (ring_of t'))"

lemma SetConfig_sealed:
  assumes "key \<noteq> []" "IsSecretConfigKey key \<Longrightarrow> has_prefix v EncPrefix"
  shows "\<exists>t'. SetConfig t key v = (t', None)"
  using assms by (auto simp: SetConfig_def Let_def)

lemma parse_uint_Nil: "parse_uint [] = 0"
  by code_simp

text \<open>
  C12. Key rotation refines its protocol. On the stored keys and counters, rotating (with sealed keys) and retiring
  do exactly what the abstract ring does, errors included: one rotation at a time, never from a key other than
  the one the caller saw, the counter advanced by one each time and returned.
\<close>

theorem key_rotation_refines:
  assumes "has_prefix new EncPrefix" "has_prefix prev EncPrefix"
  shows "ring_result (RotateLinkKey_tx new prev want t) = kr_rotate new prev want (ring_of t) \<and>
     ring_result (RetireLinkPrevious_tx t) = kr_retire (ring_of t) \<and>
     (\<forall>sq t'. RotateLinkKey_tx new prev want t = (Inr sq, t') \<longrightarrow> sq = kr_seq (ring_of t') \<and> sq = kr_seq (ring_of t) + 1)"
proof -
  let ?cur = "txConfig t ConfigLinkSigningKeyCurrent" and ?prev = "txConfig t ConfigLinkSigningKeyPrevious"
    and ?sq = "txConfigUint t configLinkSeq + 1"
  have view: "payload (tx_m t') = ServerConfig_update f (payload (tx_m t)) \<Longrightarrow> txConfig t' key =
      (case fmlookup (f (ServerConfig (payload (tx_m t)))) key of None \<Rightarrow> [] | Some v \<Rightarrow> v)" for t' f key
    by (simp add: txConfig_def Tx_Config_def)
  have rot: "ring_result (RotateLinkKey_tx new prev want t) = kr_rotate new prev want (ring_of t) \<and>
     (\<forall>sq t'. RotateLinkKey_tx new prev want t = (Inr sq, t') \<longrightarrow> sq = kr_seq (ring_of t') \<and> sq = kr_seq (ring_of t) + 1)"
  proof (cases "?cur = [] \<or> ?cur \<noteq> want \<or> ?prev \<noteq> []")
    case True
    then show ?thesis by (auto simp: RotateLinkKey_tx_def bindP_gets raise_def ring_result_def kr_rotate_def ring_of_def)
  next
    case False
    obtain t1 where 1: "SetConfig t ConfigLinkSigningKeyPrevious prev = (t1, None)"
      using SetConfig_sealed [of ConfigLinkSigningKeyPrevious prev t] assms by auto
    obtain t2 where 2: "SetConfig t1 ConfigLinkSigningKeyCurrent new = (t2, None)"
      using SetConfig_sealed [of ConfigLinkSigningKeyCurrent new t1] assms by auto
    obtain t3 where 3: "SetConfig t2 configLinkSeq (format_uint ?sq) = (t3, None)"
      using SetConfig_sealed [of configLinkSeq _ t2] by (auto simp: IsSecretConfigKey_def secretConfigKeys_def)
    obtain t4 where 4: "SetConfig t3 configLinkRotationSeq (format_uint ?sq) = (t4, None)"
      using SetConfig_sealed [of configLinkRotationSeq _ t3] by (auto simp: IsSecretConfigKey_def secretConfigKeys_def)
    have run: "RotateLinkKey_tx new prev want t = (Inr ?sq, t4)"
      using False 1 2 3 4 by (simp add: RotateLinkKey_tx_def bindP_def gets_def tx_do_def ret_def)
    have "payload (tx_m t4) = ServerConfig_update (\<lambda>c. fmupd configLinkRotationSeq (format_uint ?sq) (fmupd configLinkSeq (format_uint ?sq)
        (fmupd ConfigLinkSigningKeyCurrent new (fmupd ConfigLinkSigningKeyPrevious prev c)))) (payload (tx_m t))"
      using payload_SetConfig [OF 1] payload_SetConfig [OF 2] payload_SetConfig [OF 3] payload_SetConfig [OF 4] by (simp add: o_def)
    note v = view [OF this]
    show ?thesis using False by (auto simp: run ring_result_def kr_rotate_def ring_of_def txConfigUint_def v)
  qed
  have "ring_result (RetireLinkPrevious_tx t) = kr_retire (ring_of t)"
  proof (cases "?prev = []")
    case True
    then show ?thesis by (simp add: RetireLinkPrevious_tx_def bindP_gets raise_def ring_result_def kr_retire_def ring_of_def)
  next
    case False
    let ?t2 = "DeleteConfig (DeleteConfig t ConfigLinkSigningKeyPrevious) configLinkRotationSeq"
    have p2: "payload (tx_m ?t2) = ServerConfig_update (\<lambda>c. fmdrop configLinkRotationSeq (fmdrop ConfigLinkSigningKeyPrevious c)) (payload (tx_m t))"
      by (simp add: DeleteConfig_def Let_def isLinkKeyConfig_def o_def)
    have sq: "txConfigUint ?t2 configLinkSeq = txConfigUint t configLinkSeq"
      unfolding txConfigUint_def view [OF p2] by (simp add: txConfig_def Tx_Config_def)
    obtain t3 where 3: "SetConfig ?t2 configLinkSeq (format_uint ?sq) = (t3, None)"
      using SetConfig_sealed [of configLinkSeq _ ?t2] by (auto simp: IsSecretConfigKey_def secretConfigKeys_def)
    have run: "RetireLinkPrevious_tx t = (Inr ?sq, t3)"
      using False 3 sq by (simp add: RetireLinkPrevious_tx_def ConfigDelete_tx_def tx_val_def bindP_def gets_def tx_do_def ret_def)
    have "payload (tx_m t3) = ServerConfig_update (\<lambda>c. fmupd configLinkSeq (format_uint ?sq)
        (fmdrop configLinkRotationSeq (fmdrop ConfigLinkSigningKeyPrevious c))) (payload (tx_m t))"
      using payload_SetConfig [OF 3] p2 by (simp add: o_def)
    note v = view [OF this]
    show ?thesis using False
      by (simp add: run ring_result_def kr_retire_def ring_of_def txConfigUint_def v parse_uint_Nil) (simp add: txConfig_def Tx_Config_def)
  qed
  with rot show ?thesis by simp
qed

theorem key_rotation_refines_witness:
  "ring_result (RotateLinkKey_tx ''enc:b'' ''enc:a'' ''enc:k'' ex_link_tx) =
     Inr \<lparr>kr_current = ''enc:b'', kr_previous = ''enc:a'', kr_seq = 1, kr_rotation = 1\<rparr>"
proof -
  have "ring_of ex_link_tx = \<lparr>kr_current = ''enc:k'', kr_previous = [], kr_seq = 0, kr_rotation = 0\<rparr>" by code_simp
  then show ?thesis
    using key_rotation_refines [of "''enc:b''" "''enc:a''" "''enc:k''" ex_link_tx] by (simp add: has_prefix_def kr_rotate_def)
qed

section \<open>A purge that makes the state unloadable\<close>

text \<open>
  A relay whose token expiry is unknown is blacklisted for thirty days when it is revoked. The purge after that
  delay drops the entry and is accepted, but the relay still counts as revoked with a usable token: the state
  that the engine writes is one that loading refuses.
\<close>

theorem purge_after_revocation_unloadable:
  "model_ok (unix_time 11) ex_with_relay \<and> snd ex_relay_revoked = None \<and>
   (let later = unix_time (12 + 31 * 24 * 3600);
        purged = run_mutation ex_opts later (mutation_of (purgeBlacklist_tx later)) (fst ex_relay_revoked) in
    snd purged = None \<and>
    validateAll [''edge''] (raw_model (payload (fst purged)) 4 2) later = Inl [ErrInvalid])"
  unfolding Let_def by (intro conjI ex_with_relay_ok; code_simp)

end
