(* ===== verification/Store.thy ===== *)
theory Store
  imports Store_Security "HOL-Library.Product_Lexorder"
begin

text \<open>
  The data store (\<open>internal/storage\<close>): the engine, the volatile data kept beside it, and every operation the
  servers call, composed of the mutations of the theory Store_Tx, reads of the published state and updates of
  the volatile data. The last part is the routing table of the relay tree.

  A mutation goes through the group commit of the engine, so the batch in which it is written may hold
  mutations of other callers before and after it; they are arguments of the operations (\<open>senv\<close>).
\<close>

section \<open>Store\<close>

record agentVolatile =
  av_status :: string
  av_lastSeen :: gotime

record pluginVolatile =
  pv_at :: gotime
  pv_ip :: string

record relayVolatile =
  rv_status :: string
  rv_lastSeen :: "int option"
  rv_chain :: "string list"

definition zero_relayVolatile :: relayVolatile where
  "zero_relayVolatile = \<lparr>rv_status = [], rv_lastSeen = None, rv_chain = []\<rparr>"

record RelayRoute =
  rr_Hostname :: string
  rr_RelayID :: string
  rr_HopType :: string
  rr_RelayChain :: "string list"
  rr_UpdatedAt :: int
  rr_Suspended :: bool

text \<open>\<open>st_written\<close> lists the counters given to the callback of \<open>SetOnWrite\<close>; \<open>st_fs\<close> is the world of the engine.\<close>

record 'g store =
  st_eng :: Engine
  st_agentVol :: "(string, agentVolatile) fmap"
  st_pluginVol :: "(string, pluginVolatile) fmap"
  st_relayVol :: "(string, relayVolatile) fmap"
  st_routes :: "(string, RelayRoute) fmap"
  st_remoteSuspended :: "string fset"
  st_written :: "64 word list"
  st_fs :: "'g fsw"

text \<open>
  What a call finds around it: the library, the guard, the time, the other mutations of its batch, the number of
  commits of other callers that are published between the return of \<open>Mutate\<close> and the snapshot the callback is given
  the counter of, and the conversions of JSON and of RFC 3339 times.
\<close>

record 'g senv =
  sv_lib :: Lib
  sv_guard :: "'g guard option"
  sv_userPiggy :: "(Payload \<Rightarrow> Payload) option"
  sv_before :: "(gotime \<times> mutation) list"
  sv_after :: "(gotime \<times> mutation) list"
  sv_now :: gotime
  sv_meanwhile :: nat
  sv_marshal :: "(string, json) fmap \<Rightarrow> string option"
  sv_unmarshal :: "string \<Rightarrow> (string, json) fmap option"
  sv_parseTime :: "string \<Rightarrow> gotime option"
  sv_formatTime :: "gotime \<Rightarrow> string"

definition newStore :: "Engine \<Rightarrow> 'g fsw \<Rightarrow> 'g store" where
  "newStore e w = \<lparr>st_eng = e, st_agentVol = fmempty, st_pluginVol = fmempty, st_relayVol = fmempty, st_routes = fmempty,
     st_remoteSuspended = {||}, st_written = [], st_fs = w\<rparr>"

definition Store_Open :: "Lib \<Rightarrow> string list \<Rightarrow> string \<Rightarrow> gotime \<Rightarrow> Options \<Rightarrow> 'g fsw \<Rightarrow> 'g store res" where
  "Store_Open L ord hostpid now opts w =
     (case Open L ord hostpid now opts w of (Inl e, _) \<Rightarrow> Inl e | (Inr eng, w') \<Rightarrow> Inr (newStore eng w'))"

definition piggyback :: "'g store \<Rightarrow> Payload \<Rightarrow> Payload" where
  "piggyback s p =
     p\<lparr>Agents := fmmap_keys (\<lambda>host a. case fmlookup (st_agentVol s) host of
           None \<Rightarrow> a | Some v \<Rightarrow> a\<lparr>ag_LastSeen := Some (av_lastSeen v)\<rparr>) (Agents p),
       PluginTokens := fmmap_keys (\<lambda>tid t. case fmlookup (st_pluginVol s) tid of
           None \<Rightarrow> t | Some v \<Rightarrow> t\<lparr>pt_LastUsedAt := Some (pv_at v), pt_LastUsedIP := pv_ip v\<rparr>) (PluginTokens p)\<rparr>"

definition store_piggyback :: "'g senv \<Rightarrow> 'g store \<Rightarrow> Payload \<Rightarrow> Payload" where
  "store_piggyback env s p = (case sv_userPiggy env of None \<Rightarrow> piggyback s p | Some f \<Rightarrow> f (piggyback s p))"

definition snap :: "'g store \<Rightarrow> model" where
  "snap s = Snapshot (st_eng s)"

text \<open>
  \<open>mutate\<close>: the closure runs on the model that the mutations before it in the batch left; when the engine
  reports success the callback gets the counter of the snapshot read then, which later commits may have advanced.
\<close>

definition mutate :: "'g senv \<Rightarrow> (Tx, 'a) prog \<Rightarrow> ('g store, 'a) prog" where
  "mutate env p s =
     (let e = st_eng s;
          batch = sv_before env @ (sv_now env, mutation_of p) # sv_after env in
      case commit (sv_lib env) (sv_guard env) (Some (store_piggyback env s)) e (sv_now env) batch (st_fs s) of
        ((results, e'), w') \<Rightarrow>
          let s' = s\<lparr>st_eng := e', st_fs := w'\<rparr> in
          (case results ! length (sv_before env) of
             Some err \<Rightarrow> (Inl err, s')
           | None \<Rightarrow>
               (fst (p (newTx (fst (apply_batch (e_opts e) (sv_before env) (e_cur e))) (e_opts e) (sv_now env))),
                s'\<lparr>st_written := st_written s' @ [seq (snap s') + of_nat (sv_meanwhile env)]\<rparr>)))"

definition WriteSeq :: "'g store \<Rightarrow> 64 word" where
  "WriteSeq s = seq (snap s)"

definition nowUTC :: "'g senv \<Rightarrow> gotime" where
  "nowUTC env = trunc_second (sv_now env)"

section \<open>Keys and agents\<close>

definition Store_AddAuthorizedKey :: "'g senv \<Rightarrow> string \<Rightarrow> string \<Rightarrow> string \<Rightarrow> ('g store, unit) prog" where
  "Store_AddAuthorizedKey env hostname pem approvedBy = mutate env (AddAuthorizedKey_tx hostname pem approvedBy (nowUTC env))"

definition GetAuthorizedKey :: "string \<Rightarrow> 'g store \<Rightarrow> AuthorizedKey option" where
  "GetAuthorizedKey hostname s = Snap_AuthorizedKey (snap s) hostname"

definition RevokeKey :: "'g senv \<Rightarrow> string \<Rightarrow> ('g store, bool) prog" where
  "RevokeKey env hostname = mutate env (RevokeKey_tx hostname)"

record AgentRecord =
  ar_Hostname :: string
  ar_PublicKeyPEM :: string
  ar_TokenJTI :: string
  ar_PrevTokenJTI :: string
  ar_EnrolledAt :: gotime
  ar_LastSeen :: gotime
  ar_Status :: string
  ar_Suspended :: bool
  ar_Revoked :: bool
  ar_Vars :: string

definition varsJSON :: "'g senv \<Rightarrow> (string, json) fmap \<Rightarrow> string" where
  "varsJSON env m = (if m = fmempty then ''{}'' else case sv_marshal env m of None \<Rightarrow> ''{}'' | Some b \<Rightarrow> b)"

definition agentRecord :: "'g senv \<Rightarrow> 'g store \<Rightarrow> Agent \<Rightarrow> AgentRecord" where
  "agentRecord env s a =
     (let seen = (case ag_LastSeen a of None \<Rightarrow> ag_EnrolledAt a | Some t \<Rightarrow> t);
          rec = \<lparr>ar_Hostname = ag_Hostname a, ar_PublicKeyPEM = ag_PublicKeyPEM a, ar_TokenJTI = ag_TokenJTI a,
            ar_PrevTokenJTI = ag_PrevTokenJTI a, ar_EnrolledAt = ag_EnrolledAt a, ar_LastSeen = seen, ar_Status = ''disconnected'',
            ar_Suspended = ag_Suspended a, ar_Revoked = ag_Revoked a, ar_Vars = varsJSON env (ag_Vars a)\<rparr> in
      case fmlookup (st_agentVol s) (ag_Hostname a) of
        None \<Rightarrow> rec
      | Some v \<Rightarrow> rec\<lparr>ar_Status := av_status v, ar_LastSeen := (if av_lastSeen v > seen then av_lastSeen v else seen)\<rparr>)"

definition touchAgent :: "string \<Rightarrow> string \<Rightarrow> gotime \<Rightarrow> bool \<Rightarrow> 'g store \<Rightarrow> 'g store" where
  "touchAgent hostname status at bumpOnlyIfNewer s =
     (let at' = (case fmlookup (st_agentVol s) hostname of
           Some cur \<Rightarrow> if bumpOnlyIfNewer \<and> av_lastSeen cur > at then av_lastSeen cur else at
         | None \<Rightarrow> at)
      in s\<lparr>st_agentVol := fmupd hostname \<lparr>av_status = status, av_lastSeen = at'\<rparr> (st_agentVol s)\<rparr>)"

definition RegisterAgent :: "'g senv \<Rightarrow> string \<Rightarrow> string \<Rightarrow> string \<Rightarrow> ('g store, string) prog" where
  "RegisterAgent env hostname pem jti =
     bindP (mutate env (putEnrolledAgent hostname pem jti (nowUTC env))) (\<lambda>_.
     bindP (modify (touchAgent hostname ''disconnected'' (nowUTC env) False)) (\<lambda>_. ret hostname))"

definition EnrollAgent :: "'g senv \<Rightarrow> string \<Rightarrow> string \<Rightarrow> string \<Rightarrow> string \<Rightarrow> string \<Rightarrow> ('g store, unit) prog" where
  "EnrollAgent env tokenID hostname pem jti approvedBy =
     bindP (mutate env (EnrollAgent_tx tokenID hostname pem jti approvedBy (nowUTC env))) (\<lambda>_.
     modify (touchAgent hostname ''disconnected'' (nowUTC env) False))"

definition UpsertAgent :: "'g senv \<Rightarrow> string \<Rightarrow> string \<Rightarrow> string \<Rightarrow> ('g store, unit) prog" where
  "UpsertAgent env hostname pem jti = bindP (RegisterAgent env hostname pem jti) (\<lambda>_. ret ())"

definition GetAgent :: "'g senv \<Rightarrow> string \<Rightarrow> 'g store \<Rightarrow> AgentRecord option" where
  "GetAgent env hostname s = map_option (agentRecord env s) (Snap_Agent (snap s) hostname)"

definition ListAgents :: "'g senv \<Rightarrow> bool \<Rightarrow> 'g store \<Rightarrow> AgentRecord list" where
  "ListAgents env onlyConnected s =
     filter (\<lambda>rec. \<not> (onlyConnected \<and> ar_Status rec \<noteq> ''connected'')) (map (agentRecord env s) (Snap_Agents (snap s)))"

definition Store_DeleteAgent :: "'g senv \<Rightarrow> string \<Rightarrow> ('g store, bool) prog" where
  "Store_DeleteAgent env hostname =
     bindP (mutate env (DeleteAgent_tx hostname)) (\<lambda>deleted.
     bindP (modify (\<lambda>s. if deleted then s\<lparr>st_agentVol := fmdrop hostname (st_agentVol s)\<rparr> else s)) (\<lambda>_. ret deleted))"

definition UpdateLastSeen :: "'g senv \<Rightarrow> string \<Rightarrow> ('g store, bool) prog" where
  "UpdateLastSeen env hostname =
     bindP (gets (\<lambda>s. Snap_Agent (snap s) hostname \<noteq> None)) (\<lambda>known.
     if known then bindP (modify (touchAgent hostname ''connected'' (sv_now env) False)) (\<lambda>_. ret True) else ret False)"

definition UpdateAgentStatus :: "'g senv \<Rightarrow> string \<Rightarrow> string \<Rightarrow> string \<Rightarrow> ('g store, unit) prog" where
  "UpdateAgentStatus env hostname status lastSeen =
     (let at = (if lastSeen \<noteq> [] then case sv_parseTime env lastSeen of None \<Rightarrow> sv_now env | Some t \<Rightarrow> t else sv_now env) in
      bindP (gets (\<lambda>s. Snap_Agent (snap s) hostname \<noteq> None)) (\<lambda>known.
      if known then modify (touchAgent hostname status at False) else ret ()))"

definition UpdateTokenJTI :: "'g senv \<Rightarrow> string \<Rightarrow> string \<Rightarrow> ('g store, bool) prog" where
  "UpdateTokenJTI env hostname jti = mutate env (UpdateTokenJTI_tx hostname jti)"

definition ConfirmTokenJTI :: "'g senv \<Rightarrow> string \<Rightarrow> string \<Rightarrow> ('g store, unit) prog" where
  "ConfirmTokenJTI env hostname jti =
     bindP (gets (\<lambda>s. Snap_Agent (snap s) hostname)) (\<lambda>o'. case o' of
       None \<Rightarrow> ret ()
     | Some a \<Rightarrow>
         if ag_TokenJTI a \<noteq> jti \<or> ag_PrevTokenJTI a = [] then ret () else mutate env (ConfirmTokenJTI_tx hostname jti))"

definition UpdateTokenJTIUnlessRevoked :: "'g senv \<Rightarrow> string \<Rightarrow> string \<Rightarrow> ('g store, bool) prog" where
  "UpdateTokenJTIUnlessRevoked env hostname jti = mutate env (UpdateTokenJTIUnlessRevoked_tx hostname jti)"

definition SetSuspended :: "'g senv \<Rightarrow> string \<Rightarrow> bool \<Rightarrow> ('g store, bool) prog" where
  "SetSuspended env hostname suspended = mutate env (SetSuspended_tx hostname suspended)"

definition IsAgentRevoked :: "string \<Rightarrow> 'g store \<Rightarrow> bool" where
  "IsAgentRevoked hostname s \<longleftrightarrow> (case Snap_Agent (snap s) hostname of None \<Rightarrow> False | Some a \<Rightarrow> ag_Revoked a)"

definition IsAgentSuspended :: "string \<Rightarrow> 'g store \<Rightarrow> bool" where
  "IsAgentSuspended hostname s \<longleftrightarrow> (case Snap_Agent (snap s) hostname of None \<Rightarrow> False | Some a \<Rightarrow> ag_Suspended a)"

definition RevokeAgent :: "'g senv \<Rightarrow> string \<Rightarrow> string \<Rightarrow> string \<Rightarrow> gotime \<Rightarrow> ('g store, bool) prog" where
  "RevokeAgent env hostname jti reason blacklistUntil =
     mutate env (RevokeAgent_tx hostname jti reason blacklistUntil (nowUTC env))"

definition RepairRevokedFlags :: "'g senv \<Rightarrow> ('g store, nat) prog" where
  "RepairRevokedFlags env =
     bindP (gets (\<lambda>s. list_ex (\<lambda>a. \<not> ag_Revoked a \<and> ag_TokenJTI a \<noteq> [] \<and> Snap_Blacklisted (snap s) (ag_TokenJTI a))
        (Snap_Agents (snap s)))) (\<lambda>need.
     if need then mutate env RepairRevokedFlags_tx else ret 0)"

definition GetAgentVars :: "'g senv \<Rightarrow> string \<Rightarrow> 'g store \<Rightarrow> string" where
  "GetAgentVars env hostname s = (case Snap_Agent (snap s) hostname of None \<Rightarrow> [] | Some a \<Rightarrow> varsJSON env (ag_Vars a))"

definition SetAgentVar :: "'g senv \<Rightarrow> string \<Rightarrow> string \<Rightarrow> json res \<Rightarrow> ('g store, unit) prog" where
  "SetAgentVar env hostname key normalised = mutate env (SetAgentVar_tx hostname key normalised)"

definition DeleteAgentVar :: "'g senv \<Rightarrow> string \<Rightarrow> string \<Rightarrow> ('g store, bool) prog" where
  "DeleteAgentVar env hostname key = mutate env (DeleteAgentVar_tx hostname key)"

section \<open>Blacklist and configuration\<close>

definition AddToBlacklist :: "'g senv \<Rightarrow> string \<Rightarrow> string \<Rightarrow> string \<Rightarrow> string option \<Rightarrow> ('g store, unit) prog" where
  "AddToBlacklist env jti hostname expiresAt reason =
     (case sv_parseTime env expiresAt of
        None \<Rightarrow> raise [ErrText ''invalid expires_at'']
      | Some exp \<Rightarrow> mutate env (putBlacklist jti hostname (case reason of None \<Rightarrow> [] | Some r \<Rightarrow> r) (nowUTC env) exp))"

definition IsJTIBlacklisted :: "string \<Rightarrow> 'g store \<Rightarrow> bool" where
  "IsJTIBlacklisted jti s = Snap_Blacklisted (snap s) jti"

definition purgeBlacklist :: "'g senv \<Rightarrow> gotime \<Rightarrow> ('g store, nat) prog" where
  "purgeBlacklist env now =
     bindP (gets (\<lambda>s. list_ex (\<lambda>e. \<not> bl_ExpiresAt e > now) (Snap_BlacklistEntries (snap s)))) (\<lambda>expired.
     if expired then mutate env (purgeBlacklist_tx now) else ret 0)"

definition Store_PurgeExpiredBlacklist :: "'g senv \<Rightarrow> ('g store, nat) prog" where
  "Store_PurgeExpiredBlacklist env = purgeBlacklist env (sv_now env)"

definition ListBlacklistEntries :: "'g store \<Rightarrow> BlacklistEntry list" where
  "ListBlacklistEntries s = sort_key (\<lambda>e. (- bl_RevokedAt e, bl_JTI e)) (Snap_BlacklistEntries (snap s))"

definition ConfigGet :: "string \<Rightarrow> 'g store \<Rightarrow> string" where
  "ConfigGet key s = (case Snap_Config (snap s) key of None \<Rightarrow> [] | Some v \<Rightarrow> v)"

definition ConfigSet :: "'g senv \<Rightarrow> string \<Rightarrow> string \<Rightarrow> ('g store, unit) prog" where
  "ConfigSet env key v = mutate env (ConfigSet_tx key v)"

definition ConfigDelete :: "'g senv \<Rightarrow> string \<Rightarrow> ('g store, unit) prog" where
  "ConfigDelete env key = mutate env (ConfigDelete_tx key)"

section \<open>Enrollment and plugin tokens\<close>

definition Store_CreateEnrollmentToken :: "'g senv \<Rightarrow> EnrollmentToken \<Rightarrow> ('g store, unit) prog" where
  "Store_CreateEnrollmentToken env tok = mutate env (CreateEnrollmentToken_tx tok)"

definition GetEnrollmentTokenByHash :: "string \<Rightarrow> 'g store \<Rightarrow> EnrollmentToken option" where
  "GetEnrollmentTokenByHash hash s = Snap_EnrollmentTokenByHash (snap s) hash"

definition GetEnrollmentTokenByID :: "string \<Rightarrow> 'g store \<Rightarrow> EnrollmentToken option" where
  "GetEnrollmentTokenByID tid s = Snap_EnrollmentToken (snap s) tid"

definition ListEnrollmentTokens :: "'g store \<Rightarrow> EnrollmentToken list" where
  "ListEnrollmentTokens s = sort_key (\<lambda>t. - et_CreatedAt t) (Snap_EnrollmentTokens (snap s))"

definition ConsumeEnrollmentToken :: "'g senv \<Rightarrow> string \<Rightarrow> ('g store, unit) prog" where
  "ConsumeEnrollmentToken env tid = mutate env (use_token tid (nowUTC env))"

definition Store_DeleteEnrollmentToken :: "'g senv \<Rightarrow> string \<Rightarrow> ('g store, bool) prog" where
  "Store_DeleteEnrollmentToken env tid = mutate env (DeleteEnrollmentToken_tx tid)"

text \<open>The closure reads the published state again, which the batch in flight has not changed yet.\<close>

definition purgeEnrollmentTokens :: "'g senv \<Rightarrow> (EnrollmentToken \<Rightarrow> bool) \<Rightarrow> ('g store, nat) prog" where
  "purgeEnrollmentTokens env match =
     bindP (gets (\<lambda>s. Snap_EnrollmentTokens (snap s))) (\<lambda>toks.
     if list_ex match toks then mutate env (purge_tokens_loop match toks 0) else ret 0)"

definition PurgeExpiredEnrollmentTokens :: "'g senv \<Rightarrow> ('g store, nat) prog" where
  "PurgeExpiredEnrollmentTokens env =
     purgeEnrollmentTokens env (\<lambda>t. case et_ExpiresAt t of None \<Rightarrow> False | Some exp \<Rightarrow> \<not> exp > sv_now env)"

definition PurgeUsedOneShotEnrollmentTokens :: "'g senv \<Rightarrow> ('g store, nat) prog" where
  "PurgeUsedOneShotEnrollmentTokens env = purgeEnrollmentTokens env (\<lambda>t. \<not> et_Reusable t \<and> et_UseCount t > 0)"

definition pluginFromState :: "'g store \<Rightarrow> PluginToken \<Rightarrow> PluginToken" where
  "pluginFromState s t =
     (case fmlookup (st_pluginVol s) (pt_ID t) of
        None \<Rightarrow> t
      | Some v \<Rightarrow>
          if (case pt_LastUsedAt t of None \<Rightarrow> True | Some used \<Rightarrow> pv_at v > used)
          then t\<lparr>pt_LastUsedAt := Some (pv_at v), pt_LastUsedIP := pv_ip v\<rparr> else t)"

definition Store_CreatePluginToken :: "'g senv \<Rightarrow> PluginToken \<Rightarrow> ('g store, unit) prog" where
  "Store_CreatePluginToken env tok = mutate env (CreatePluginToken_tx tok)"

definition GetPluginTokenByHash :: "string \<Rightarrow> 'g store \<Rightarrow> PluginToken option" where
  "GetPluginTokenByHash hash s = map_option (pluginFromState s) (Snap_PluginTokenByHash (snap s) hash)"

definition GetPluginTokenByID :: "string \<Rightarrow> 'g store \<Rightarrow> PluginToken option" where
  "GetPluginTokenByID tid s = map_option (pluginFromState s) (Snap_PluginToken (snap s) tid)"

definition ListPluginTokens :: "'g store \<Rightarrow> PluginToken list" where
  "ListPluginTokens s = sort_key (\<lambda>t. - pt_CreatedAt t) (map (pluginFromState s) (Snap_PluginTokens (snap s)))"

definition RevokePluginToken :: "'g senv \<Rightarrow> string \<Rightarrow> ('g store, bool) prog" where
  "RevokePluginToken env tid = mutate env (RevokePluginToken_tx tid)"

definition Store_DeletePluginToken :: "'g senv \<Rightarrow> string \<Rightarrow> ('g store, bool) prog" where
  "Store_DeletePluginToken env tid =
     bindP (mutate env (DeletePluginToken_tx tid)) (\<lambda>deleted.
     bindP (modify (\<lambda>s. if deleted then s\<lparr>st_pluginVol := fmdrop tid (st_pluginVol s)\<rparr> else s)) (\<lambda>_. ret deleted))"

definition TouchPluginToken :: "'g senv \<Rightarrow> string \<Rightarrow> string \<Rightarrow> ('g store, unit) prog" where
  "TouchPluginToken env tid remoteIP =
     bindP (gets (\<lambda>s. Snap_PluginToken (snap s) tid)) (\<lambda>o'.
     if o' = None then raise [ErrText ''token not found'']
     else modify (\<lambda>s. s\<lparr>st_pluginVol := fmupd tid \<lparr>pv_at = nowUTC env, pv_ip = remoteIP\<rparr> (st_pluginVol s)\<rparr>))"

section \<open>Well-formed identifiers\<close>

definition is_alnum :: "char \<Rightarrow> bool" where
  "is_alnum c \<longleftrightarrow> (let n = of_char c :: nat in 48 \<le> n \<and> n \<le> 57 \<or> 65 \<le> n \<and> n \<le> 90 \<or> 97 \<le> n \<and> n \<le> 122)"

text \<open>\<open>^[A-Za-z0-9]([A-Za-z0-9._-]{0,251}[A-Za-z0-9])?$\<close>\<close>

definition hostnameShape :: "string \<Rightarrow> bool" where
  "hostnameShape h \<longleftrightarrow>
     h \<noteq> [] \<and> length h \<le> 253 \<and> is_alnum (hd h) \<and> is_alnum (last h) \<and>
     list_all (\<lambda>c. is_alnum c \<or> c = CHR ''.'' \<or> c = CHR ''_'' \<or> c = CHR ''-'') h"

text \<open>\<open>^[A-Za-z0-9][A-Za-z0-9_-]{0,62}$\<close>\<close>

definition ValidRelayID :: "string \<Rightarrow> bool" where
  "ValidRelayID r \<longleftrightarrow>
     r \<noteq> [] \<and> length r \<le> 63 \<and> is_alnum (hd r) \<and> list_all (\<lambda>c. is_alnum c \<or> c = CHR ''_'' \<or> c = CHR ''-'') r"

definition validRoute :: "string \<Rightarrow> string \<Rightarrow> string list \<Rightarrow> bool" where
  "validRoute hostname relayID chain \<longleftrightarrow> hostnameShape hostname \<and> ValidRelayID relayID \<and> list_all ValidRelayID chain"

definition checkRelayID :: "string \<Rightarrow> goerr option" where
  "checkRelayID relayID = (if ValidRelayID relayID then None else Some [ErrText ''invalid relay_id''])"

text \<open>The bookkeeping of the warnings: what was reported, and how many came after the bound.\<close>

record ignored_log =
  ig_warned :: "string fset"
  ig_overflow :: int

definition maxIgnoredWarned :: nat where "maxIgnoredWarned = 10000"

text \<open>The second component tells whether a line is logged.\<close>

definition warnIgnoredOnce :: "string \<Rightarrow> string \<Rightarrow> ignored_log \<Rightarrow> ignored_log \<times> bool" where
  "warnIgnoredOnce kind i ig =
     (let key = kind @ char_of (0 :: nat) # i in
      if key |\<in>| ig_warned ig then (ig, False)
      else if fcard (ig_warned ig) \<ge> maxIgnoredWarned
      then (let ig' = ig\<lparr>ig_overflow := ig_overflow ig + 1\<rparr> in (ig', ig_overflow ig' = 1))
      else (ig\<lparr>ig_warned := finsert key (ig_warned ig)\<rparr>, True))"

section \<open>Relay nodes and links\<close>

definition relayFromState :: "'g store \<Rightarrow> RelayNode \<Rightarrow> RelayInput" where
  "relayFromState s n =
     (let out = \<lparr>ri_ID = rn_ID n, ri_RelayID = rn_RelayID n, ri_URLs = rn_URLs n, ri_Description = rn_Description n,
            ri_TokenHash = rn_TokenHash n, ri_TokenSecret = rn_TokenSecret n, ri_Mode = rn_Mode n, ri_IsProxy = rn_IsProxy n,
            ri_CreatedAt = unix_sec (rn_CreatedAt n), ri_LastSeen = None, ri_Status = ''pending''\<rparr> in
      case fmlookup (st_relayVol s) (rn_RelayID n) of
        None \<Rightarrow> out
      | Some v \<Rightarrow> out\<lparr>ri_Status := (if rv_status v \<noteq> [] then rv_status v else ''pending''), ri_LastSeen := rv_lastSeen v\<rparr>)"

definition relay_vol :: "'g store \<Rightarrow> string \<Rightarrow> relayVolatile" where
  "relay_vol s relayID = (case fmlookup (st_relayVol s) relayID of None \<Rightarrow> zero_relayVolatile | Some v \<Rightarrow> v)"

definition UpsertRelayNode :: "'g senv \<Rightarrow> RelayInput \<Rightarrow> ('g store, unit) prog" where
  "UpsertRelayNode env node0 =
     bindP (of_err (checkRelayID (ri_RelayID node0))) (\<lambda>_.
     let node = node0\<lparr>ri_CreatedAt := (if ri_CreatedAt node0 = 0 then unix_sec (sv_now env) else ri_CreatedAt node0),
           ri_Status := (if ri_Status node0 = [] then ''pending'' else ri_Status node0),
           ri_Mode := (if ri_Mode node0 = [] then ModePull else ri_Mode node0)\<rparr> in
     bindP (mutate env (UpsertRelayNode_tx node)) (\<lambda>_.
     modify (\<lambda>s. s\<lparr>st_relayVol := fmupd (ri_RelayID node)
       ((relay_vol s (ri_RelayID node))\<lparr>rv_status := ri_Status node, rv_lastSeen := ri_LastSeen node\<rparr>) (st_relayVol s)\<rparr>)))"

definition GetRelayNode :: "string \<Rightarrow> 'g store \<Rightarrow> RelayInput option" where
  "GetRelayNode relayID s = map_option (relayFromState s) (Snap_RelayNode (snap s) relayID)"

definition GetRelayNodeByID :: "string \<Rightarrow> 'g store \<Rightarrow> RelayInput option" where
  "GetRelayNodeByID nid s = map_option (relayFromState s) (Snap_RelayNodeByID (snap s) nid)"

definition ListRelayNodes :: "'g store \<Rightarrow> RelayInput list" where
  "ListRelayNodes s = map (relayFromState s) (Snap_RelayNodes (snap s))"

definition ListValidRelayNodes :: "'g store \<Rightarrow> RelayInput list" where
  "ListValidRelayNodes s = filter (\<lambda>n. ValidRelayID (ri_RelayID n)) (ListRelayNodes s)"

definition drop_routes :: "string \<Rightarrow> 'g store \<Rightarrow> 'g store" where
  "drop_routes relayID s = s\<lparr>st_routes := fmfilter (\<lambda>h. case fmlookup (st_routes s) h of None \<Rightarrow> True | Some r \<Rightarrow> rr_RelayID r \<noteq> relayID) (st_routes s)\<rparr>"

definition Store_DeleteRelayNode :: "'g senv \<Rightarrow> string \<Rightarrow> ('g store, unit) prog" where
  "Store_DeleteRelayNode env nid =
     bindP (mutate env (DeleteRelayNode_tx nid)) (\<lambda>o'. case o' of
       None \<Rightarrow> ret ()
     | Some relayID \<Rightarrow>
         if relayID = [] then ret ()
         else modify (\<lambda>s. drop_routes relayID (s\<lparr>st_relayVol := fmdrop relayID (st_relayVol s)\<rparr>)))"

definition SetRelayIsProxy :: "'g senv \<Rightarrow> string \<Rightarrow> bool \<Rightarrow> ('g store, unit) prog" where
  "SetRelayIsProxy env relayID isProxy = mutate env (SetRelayIsProxy_tx relayID isProxy)"

definition UpdateRelayStatus :: "string \<Rightarrow> string \<Rightarrow> int \<Rightarrow> 'g store \<Rightarrow> 'g store" where
  "UpdateRelayStatus relayID status lastSeen s =
     s\<lparr>st_relayVol := fmupd relayID ((relay_vol s relayID)\<lparr>rv_status := status, rv_lastSeen := Some lastSeen\<rparr>) (st_relayVol s)\<rparr>"

definition SetRelayChain :: "string \<Rightarrow> string list \<Rightarrow> ('g store, bool) prog" where
  "SetRelayChain relayID chain =
     bindP (gets (\<lambda>s. Snap_RelayNode (snap s) relayID)) (\<lambda>o'.
     if o' = None then ret False
     else bindP (modify (\<lambda>s. s\<lparr>st_relayVol := fmupd relayID ((relay_vol s relayID)\<lparr>rv_chain := chain\<rparr>) (st_relayVol s)\<rparr>)) (\<lambda>_. ret True))"

definition ListRelayChains :: "'g store \<Rightarrow> (string, string list) fmap" where
  "ListRelayChains s = fmmap rv_chain (fmfilter (\<lambda>i. rv_chain (relay_vol s i) \<noteq> []) (st_relayVol s))"

definition SetRelayGroupVars :: "'g senv \<Rightarrow> string \<Rightarrow> string \<Rightarrow> ('g store, bool) prog" where
  "SetRelayGroupVars env relayID groupVarsJSON =
     bindP (if groupVarsJSON = [] then ret fmempty
            else case sv_unmarshal env groupVarsJSON of None \<Rightarrow> raise [ErrText ''group vars are not a JSON object''] | Some gv \<Rightarrow> ret gv) (\<lambda>gv.
     mutate env (SetRelayGroupVars_tx relayID gv))"

definition ListRelayGroupVars :: "'g senv \<Rightarrow> 'g store \<Rightarrow> (string \<times> string) list" where
  "ListRelayGroupVars env s =
     List.map_filter (\<lambda>n. if rn_GroupVars n = fmempty then None
       else map_option (\<lambda>b. (rn_RelayID n, b)) (sv_marshal env (rn_GroupVars n))) (Snap_RelayNodes (snap s))"

definition Store_CreateRelayParentToken :: "'g senv \<Rightarrow> RelayParentToken \<Rightarrow> ('g store, unit) prog" where
  "Store_CreateRelayParentToken env tok = mutate env (CreateRelayParentToken_tx tok)"

definition ListRelayParentTokens :: "'g store \<Rightarrow> RelayParentToken list" where
  "ListRelayParentTokens s = sort_key (\<lambda>t. (- rp_CreatedAt t, rp_ID t)) (Snap_RelayParentTokens (snap s))"

definition GetRelayParentToken :: "string \<Rightarrow> 'g store \<Rightarrow> RelayParentToken option" where
  "GetRelayParentToken tid s = Snap_RelayParentToken (snap s) tid"

definition RevokeRelayParentToken :: "'g senv \<Rightarrow> string \<Rightarrow> ('g store, RelayParentToken option) prog" where
  "RevokeRelayParentToken env tid = mutate env (RevokeRelayParentToken_tx tid (nowUTC env))"

definition SetRelayTokenInfo :: "'g senv \<Rightarrow> string \<Rightarrow> string \<Rightarrow> int \<Rightarrow> ('g store, unit) prog" where
  "SetRelayTokenInfo env relayID jti exp = mutate env (SetRelayTokenInfo_tx relayID jti exp)"

definition GetRelayTokenInfo :: "string \<Rightarrow> 'g store \<Rightarrow> RelayTokenInfo" where
  "GetRelayTokenInfo relayID s =
     (case Snap_RelayNode (snap s) relayID of
        None \<Rightarrow> \<lparr>ti_JTI = [], ti_Exp = 0, ti_Revoked = False\<rparr>
      | Some n \<Rightarrow> \<lparr>ti_JTI = rn_JTI n, ti_Exp = rn_TokenExp n, ti_Revoked = rn_Revoked n\<rparr>)"

definition RevokeRelayNode :: "'g senv \<Rightarrow> string \<Rightarrow> string \<Rightarrow> ('g store, RelayTokenInfo option) prog" where
  "RevokeRelayNode env relayID reason = mutate env (RevokeRelayNode_tx relayID reason (nowUTC env))"

definition BlacklistJTI :: "'g senv \<Rightarrow> string \<Rightarrow> string \<Rightarrow> string \<Rightarrow> int \<Rightarrow> ('g store, unit) prog" where
  "BlacklistJTI env jti relayID reason exp =
     (let expires = (if exp > 0 then unix_time exp else sv_now env + thirty_days)
      in AddToBlacklist env jti relayID (sv_formatTime env expires) (Some reason))"

definition configUint :: "model \<Rightarrow> string \<Rightarrow> 64 word" where
  "configUint m key = parse_uint (case Snap_Config m key of None \<Rightarrow> [] | Some v \<Rightarrow> v)"

definition LinkSigningKeys :: "'g store \<Rightarrow> string \<times> string" where
  "LinkSigningKeys s = (ConfigGet ConfigLinkSigningKeyCurrent s, ConfigGet ConfigLinkSigningKeyPrevious s)"

definition LinkSeq :: "'g store \<Rightarrow> 64 word \<times> 64 word" where
  "LinkSeq s = (configUint (snap s) configLinkSeq, configUint (snap s) configLinkRotationSeq)"

definition SetLinkSigningKeyIfAbsent :: "'g senv \<Rightarrow> string \<Rightarrow> ('g store, unit) prog" where
  "SetLinkSigningKeyIfAbsent env sealed = mutate env (SetLinkSigningKeyIfAbsent_tx sealed)"

definition RotateLinkKey :: "'g senv \<Rightarrow> string \<Rightarrow> string \<Rightarrow> string \<Rightarrow> ('g store, 64 word) prog" where
  "RotateLinkKey env newSealed previousSealed wantCurrent = mutate env (RotateLinkKey_tx newSealed previousSealed wantCurrent)"

definition RetireLinkPrevious :: "'g senv \<Rightarrow> ('g store, 64 word) prog" where
  "RetireLinkPrevious env = mutate env RetireLinkPrevious_tx"

definition CreateLinkToken :: "'g senv \<Rightarrow> LinkToken \<Rightarrow> ('g store, unit) prog" where
  "CreateLinkToken env tok = mutate env (CreateLinkToken_tx tok)"

definition RevokeLinkToken :: "'g senv \<Rightarrow> string \<Rightarrow> ('g store, (LinkToken \<times> 64 word) option) prog" where
  "RevokeLinkToken env tid = mutate env (RevokeLinkToken_tx tid (nowUTC env))"

definition LinkRevocations :: "gotime \<Rightarrow> 'g store \<Rightarrow> LinkRevocation list" where
  "LinkRevocations now s =
     map (\<lambda>t. \<lparr>lr_JTI = lt_JTI t, lr_Exp = unix_sec (lt_ExpiresAt t)\<rparr>)
       (filter (\<lambda>t. lt_RevokedAt t \<noteq> None \<and> lt_ExpiresAt t > now) (Snap_LinkTokens (snap s)))"

definition Store_SetLinkTrust :: "'g senv \<Rightarrow> LinkTrust \<Rightarrow> ('g store, unit) prog" where
  "Store_SetLinkTrust env lt = mutate env (SetLinkTrust_tx lt)"

definition ApplyLinkRevocations :: "'g senv \<Rightarrow> 64 word \<Rightarrow> LinkRevocation list \<Rightarrow> ('g store, unit) prog" where
  "ApplyLinkRevocations env sq entries = mutate env (ApplyLinkRevocations_tx sq entries (nowUTC env))"

section \<open>Routing\<close>

definition NextHop :: "RelayRoute \<Rightarrow> string" where
  "NextHop r = (case rr_RelayChain r of [] \<Rightarrow> rr_RelayID r | c # _ \<Rightarrow> c)"

definition requireRelay :: "string \<Rightarrow> 'g store \<Rightarrow> goerr option" where
  "requireRelay relayID s = (if Snap_RelayNode (snap s) relayID = None then Some [ErrText ''unknown relay''] else None)"

definition direct_route :: "string \<Rightarrow> string \<Rightarrow> int \<Rightarrow> RelayRoute" where
  "direct_route hostname relayID at =
     \<lparr>rr_Hostname = hostname, rr_RelayID = relayID, rr_HopType = ''relay'', rr_RelayChain = [relayID], rr_UpdatedAt = at, rr_Suspended = False\<rparr>"

definition UpsertRelayRouting :: "'g senv \<Rightarrow> string \<Rightarrow> string \<Rightarrow> ('g store, unit) prog" where
  "UpsertRelayRouting env hostname relayID =
     bindP (gets (requireRelay relayID)) (\<lambda>e. bindP (of_err e) (\<lambda>_.
     modify (\<lambda>s. s\<lparr>st_routes := fmupd hostname (direct_route hostname relayID (unix_sec (sv_now env))) (st_routes s)\<rparr>)))"

definition GetRelayForHostname :: "string \<Rightarrow> 'g store \<Rightarrow> string" where
  "GetRelayForHostname hostname s =
     (case fmlookup (st_routes s) hostname of
        None \<Rightarrow> []
      | Some r \<Rightarrow> if \<not> hostnameShape hostname \<or> \<not> ValidRelayID (rr_RelayID r) then [] else rr_RelayID r)"

definition routed_to :: "string \<Rightarrow> 'g store \<Rightarrow> string list" where
  "routed_to relayID s = filter (\<lambda>h. case fmlookup (st_routes s) h of None \<Rightarrow> False | Some r \<Rightarrow> rr_RelayID r = relayID) (keys (st_routes s))"

definition BulkUpsertRelayRouting :: "'g senv \<Rightarrow> string \<Rightarrow> string list \<Rightarrow> ('g store, unit) prog" where
  "BulkUpsertRelayRouting env relayID hostnames =
     bindP (gets (requireRelay relayID)) (\<lambda>e. bindP (of_err e) (\<lambda>_.
     modify (\<lambda>s.
       let old = routed_to relayID s;
           kept = filter (\<lambda>h. h \<noteq> []) hostnames;
           routes = fold (\<lambda>h rs. fmupd h (direct_route h relayID (unix_sec (sv_now env))) rs) kept (st_routes (drop_routes relayID s))
       in s\<lparr>st_routes := routes, st_remoteSuspended := st_remoteSuspended s |-| fset_of_list (filter (\<lambda>h. h \<notin> set kept) old)\<rparr>)))"

definition DeleteRelayRoutingByRelay :: "string \<Rightarrow> 'g store \<Rightarrow> 'g store" where
  "DeleteRelayRoutingByRelay relayID s =
     (drop_routes relayID s)\<lparr>st_remoteSuspended := st_remoteSuspended s |-| fset_of_list (routed_to relayID s)\<rparr>"

definition ListRelayRouting :: "string \<Rightarrow> 'g store \<Rightarrow> string list" where
  "ListRelayRouting relayID s = sort (filter hostnameShape (routed_to relayID s))"

definition GetRelayRoute :: "string \<Rightarrow> 'g store \<Rightarrow> RelayRoute option" where
  "GetRelayRoute hostname s =
     (case fmlookup (st_routes s) hostname of
        None \<Rightarrow> None
      | Some r \<Rightarrow> if \<not> validRoute (rr_Hostname r) (rr_RelayID r) (rr_RelayChain r) then None else Some r)"

definition GetNextHopForHostname :: "string \<Rightarrow> 'g store \<Rightarrow> string" where
  "GetNextHopForHostname hostname s = (case GetRelayRoute hostname s of None \<Rightarrow> [] | Some r \<Rightarrow> NextHop r)"

definition UpsertRelayRoute :: "'g senv \<Rightarrow> string \<Rightarrow> string \<Rightarrow> string list \<Rightarrow> ('g store, RelayRoute option) prog" where
  "UpsertRelayRoute env hostname relayID chain =
     bindP (gets (requireRelay relayID)) (\<lambda>e. bindP (of_err e) (\<lambda>_.
     bindP (gets (GetRelayRoute hostname)) (\<lambda>prev.
     bindP (modify (\<lambda>s. s\<lparr>st_routes := fmupd hostname ((direct_route hostname relayID (unix_sec (sv_now env)))\<lparr>rr_RelayChain := chain\<rparr>)
        (st_routes s)\<rparr>)) (\<lambda>_. ret prev))))"

record RouteChain =
  rc_Hostname :: string
  rc_RelayID :: string
  rc_Chain :: "string list"
  rc_Suspended :: bool

definition SetRemoteSuspended :: "string \<Rightarrow> bool \<Rightarrow> 'g store \<Rightarrow> 'g store" where
  "SetRemoteSuspended hostname suspended s =
     s\<lparr>st_remoteSuspended := (if suspended then finsert hostname (st_remoteSuspended s) else st_remoteSuspended s |-| {|hostname|})\<rparr>"

definition set_chain :: "RouteChain \<Rightarrow> 'g store \<Rightarrow> 'g store" where
  "set_chain e s =
     SetRemoteSuspended (rc_Hostname e) (rc_Suspended e)
       (case fmlookup (st_routes s) (rc_Hostname e) of
          None \<Rightarrow> s
        | Some r \<Rightarrow> if rr_RelayID r = rc_RelayID e
            then s\<lparr>st_routes := fmupd (rc_Hostname e) (r\<lparr>rr_RelayChain := rc_Chain e\<rparr>) (st_routes s)\<rparr> else s)"

definition SetRelayRouteChains :: "RouteChain list \<Rightarrow> 'g store \<Rightarrow> 'g store" where
  "SetRelayRouteChains entries s = fold set_chain entries s"

definition IsRemoteSuspended :: "string \<Rightarrow> 'g store \<Rightarrow> bool" where
  "IsRemoteSuspended hostname s \<longleftrightarrow> hostname |\<in>| st_remoteSuspended s"

definition ListRelayRoutes :: "'g store \<Rightarrow> RelayRoute list" where
  "ListRelayRoutes s =
     sort_key rr_Hostname (map (\<lambda>r. r\<lparr>rr_Suspended := rr_Hostname r |\<in>| st_remoteSuspended s\<rparr>)
       (filter (\<lambda>r. validRoute (rr_Hostname r) (rr_RelayID r) (rr_RelayChain r)) (values_of (st_routes s))))"

section \<open>Acknowledged writes\<close>

lemma commit_length: "length (fst (fst (commit L guard pb e now batch w))) = length batch"
proof (cases rule: commit_cases [of L guard pb e now batch w])
  case (nothing g w1 work results)
  then show ?thesis using apply_batch_length [of "e_opts e" batch "e_cur e"] by simp
next
  case (failed g w1 work results err w2)
  then show ?thesis using apply_batch_length [of "e_opts e" batch "e_cur e"] by (simp add: failAllApplied_def)
next
  case (written g w1 work results m' w2)
  then show ?thesis using apply_batch_length [of "e_opts e" batch "e_cur e"] by simp
qed simp

lemma mutate_success:
  assumes "mutate env p s = (Inr x, s')"
  obtains results e' w' where "commit (sv_lib env) (sv_guard env) (Some (store_piggyback env s)) (st_eng s) (sv_now env)
      (sv_before env @ (sv_now env, mutation_of p) # sv_after env) (st_fs s) = ((results, e'), w')"
    "None \<in> set results" "st_eng s' = e'" "st_fs s' = w'" "st_written s' = st_written s @ [seq (e_cur e') + of_nat (sv_meanwhile env)]"
proof -
  let ?c = "commit (sv_lib env) (sv_guard env) (Some (store_piggyback env s)) (st_eng s) (sv_now env)
      (sv_before env @ (sv_now env, mutation_of p) # sv_after env) (st_fs s)"
  obtain results e' w' where c: "?c = ((results, e'), w')" by (metis prod.collapse)
  have r: "results ! length (sv_before env) = None" and s': "st_eng s' = e'" "st_fs s' = w'" "st_written s' = st_written s @ [seq (e_cur e') + of_nat (sv_meanwhile env)]"
    using assms c by (auto simp: mutate_def Let_def snap_def Snapshot_def split: option.splits)
  have "length (sv_before env) < length results" using commit_length [of "sv_lib env" "sv_guard env" "Some (store_piggyback env s)"
      "st_eng s" "sv_now env" "sv_before env @ (sv_now env, mutation_of p) # sv_after env" "st_fs s"] c by simp
  with r have "None \<in> set results" by (metis nth_mem)
  from that [OF c this s'] show thesis .
qed

lemma model_ok_piggyback: "model_ok t m \<Longrightarrow> model_ok t (payload_update (piggyback s) m)"
proof -
  assume ok: "model_ok t m"
  let ?m = "payload_update (piggyback s) m"
  have "cross ?m = cross m" by (simp add: cross_def piggyback_def)
  note same = cross_checks [OF this]
  have "checkPluginToken k (tok\<lparr>pt_LastUsedAt := a, pt_LastUsedIP := b\<rparr>) = checkPluginToken k tok" for k tok a b
    by (simp add: checkPluginToken_def)
  then have "entries_ok (payload ?m)"
    using ok by (simp add: model_ok_def entries_ok_def piggyback_def fmpred_iff split: option.split) fastforce
  moreover have "idx_ok pt_TokenHash (PluginTokens (payload ?m)) (pluginByHash m)"
  proof -
    have "(\<exists>v. fmlookup (PluginTokens (payload ?m)) k = Some v \<and> pt_TokenHash v = a) \<longleftrightarrow>
        (\<exists>v. fmlookup (PluginTokens (payload m)) k = Some v \<and> pt_TokenHash v = a)" for a k
      by (cases "fmlookup (PluginTokens (payload m)) k") (auto simp: piggyback_def split: option.split)
    then show ?thesis using ok by (simp add: model_ok_def idxs_ok_def idx_ok_def)
  qed
  then have "idxs_ok ?m" using ok by (simp add: model_ok_def idxs_ok_def piggyback_def)
  moreover have "RelayNodes (piggyback s (payload m)) = RelayNodes (payload m)" by (simp add: piggyback_def)
  ultimately show ?thesis using ok by (simp add: model_ok_def relays_ok_def same)
qed


definition ex_senv :: "unit senv" where
  "ex_senv = \<lparr>sv_lib = ex_lib, sv_guard = Some ex_guard, sv_userPiggy = None, sv_before = [], sv_after = [], sv_now = 9, sv_meanwhile = 1,
     sv_marshal = (\<lambda>_. None), sv_unmarshal = (\<lambda>_. None), sv_parseTime = (\<lambda>_. None),
     sv_formatTime = (\<lambda>_. [])\<rparr>"

definition ex_store :: "unit store" where
  "ex_store = newStore ex_engine ex_world"

lemma ex_mutate: "fst (mutate ex_senv (AddAuthorizedKey_tx ''host-1'' ''pem'' ''admin'' 5) ex_store) = Inr ()"
  "snap (snd (mutate ex_senv (AddAuthorizedKey_tx ''host-1'' ''pem'' ''admin'' 5) ex_store)) = raw_model ex_payload 2 2"
  by code_simp+

lemma ex_mutate_run: "mutate ex_senv (AddAuthorizedKey_tx ''host-1'' ''pem'' ''admin'' 5) ex_store =
    (Inr (), snd (mutate ex_senv (AddAuthorizedKey_tx ''host-1'' ''pem'' ''admin'' 5) ex_store))"
  using ex_mutate(1) by (metis prod.collapse)


text \<open>
  The store reloads what it wrote. From a valid state, with routine mutations around it, the clock not going back and a
  JSON decoder that reads the file back, whatever a crash leaves after a successful store write, a node that starts
  loads exactly the published state, unless a stored secret does not open: the merged last-seen and last-used data
  never spoil it.
\<close>

theorem store_state_reloads:
  assumes mac: "\<And>k msg. hmac_sha256 (sv_lib env) k msg \<noteq> []"
    and safe: "list_all (\<lambda>(_, fn). safe_mutation fn) (sv_before env @ sv_after env)" "tx_safe p" "sv_userPiggy env = None"
    and clock: "sorted (now0 # map fst (sv_before env) @ sv_now env # map fst (sv_after env))"
      "last (now0 # map fst (sv_before env) @ sv_now env # map fst (sv_after env)) \<le> sv_now env"
    and valid: "model_ok now0 (snap s)" and run: "mutate env p s = (Inr x, s')"
    and json: "json_keeps (sv_lib env) (e_codec (st_eng s)) (payload (snap s')) (seq (snap s')) (o_Instance (e_opts (st_eng s))) (sv_now env)"
    and ord: "set ord = fset (fmdom (RelayNodes (payload (snap s'))))" and crash: "F \<in> set (disk (st_fs s'))" "crash_of F D"
  shows "\<exists>en. fst (load (sv_lib env) ord (sv_now env) (e_codec (st_eng s)) (o_MaxBytes (e_opts (st_eng s))) (start D [] h)) =
     check (checkSecrets (sv_lib env) (e_codec (st_eng s)) (snap s')) (Inr \<lparr>ld_m = snap s', ld_env = en, ld_fromPrev = False\<rparr>)"
proof -
  let ?batch = "sv_before env @ (sv_now env, mutation_of p) # sv_after env"
  have batch: "list_all (\<lambda>(_, fn). safe_mutation fn) ?batch" using safe(1) tx_safe_mutation [OF safe(2)] by simp
  have pb: "model_ok t (piggybacked (Some (store_piggyback env s)) m)" if "model_ok t m" for m t
  proof -
    have "store_piggyback env s = piggyback s" using safe(3) by (simp add: store_piggyback_def fun_eq_iff)
    with model_ok_piggyback [OF that] show ?thesis by (simp add: piggybacked_def)
  qed
  from run obtain results e' w' where c: "commit (sv_lib env) (sv_guard env) (Some (store_piggyback env s)) (st_eng s) (sv_now env)
      ?batch (st_fs s) = ((results, e'), w')" and ok: "None \<in> set results" "st_eng s' = e'" "st_fs s' = w'"
    by (rule mutate_success)
  show ?thesis
    using commit_reloads [OF mac batch _ _ _ pb c ok(1), of now0 ord F D h] clock valid json ord crash ok(2,3)
    by (simp add: snap_def Snapshot_def)
qed

theorem store_state_reloads_witness:
  "\<exists>D en. D \<in> set (disk (st_fs (snd (mutate ex_senv (AddAuthorizedKey_tx ''host-1'' ''pem'' ''admin'' 5) ex_store)))) \<and>
     fst (load ex_lib [] 9 ex_codec 8388608 (start D [] ())) = Inr \<lparr>ld_m = raw_model ex_payload 2 2, ld_env = en, ld_fromPrev = False\<rparr>"
proof -
  let ?s = "snd (mutate ex_senv (AddAuthorizedKey_tx ''host-1'' ''pem'' ''admin'' 5) ex_store)"
  have "disk (st_fs ?s) \<noteq> []" by code_simp
  then obtain F where F: "F \<in> set (disk (st_fs ?s))" by (meson last_in_set)
  have secrets: "checkSecrets (sv_lib ex_senv) (e_codec (st_eng ex_store)) (raw_model ex_payload 2 2) = None" by code_simp
  have ord: "set [] = fset (fmdom (RelayNodes (payload (raw_model ex_payload 2 2))))"
    by (simp add: raw_model_def ex_payload_def newPayload_def)
  have valid: "model_ok 9 (snap ex_store)"
    by (simp add: ex_store_def newStore_def snap_def Snapshot_def ex_engine_def model_ok_empty)
  have lib: "sv_lib ex_senv = ex_lib" by (simp add: ex_senv_def)
  have "\<exists>en. fst (load (sv_lib ex_senv) [] (sv_now ex_senv) (e_codec (st_eng ex_store)) (o_MaxBytes (e_opts (st_eng ex_store))) (start F [] ())) =
      check (checkSecrets (sv_lib ex_senv) (e_codec (st_eng ex_store)) (snap ?s)) (Inr \<lparr>ld_m = snap ?s, ld_env = en, ld_fromPrev = False\<rparr>)"
  proof (rule store_state_reloads [OF _ _ tx_safe_agents(1) _ _ _ valid ex_mutate_run _ _ F])
    show "hmac_sha256 (sv_lib ex_senv) k msg \<noteq> []" for k msg by (simp add: lib) (simp add: ex_lib_def ex_hmac_def)
  qed (simp_all only: ex_mutate(2) ord lib json_keeps_ex, simp_all add: ex_senv_def crash_of_def)
  then show ?thesis using F unfolding ex_mutate(2) secrets
    by (auto simp: ex_senv_def ex_store_def newStore_def ex_engine_def ex_opts_def)
qed

section \<open>Routing and identifiers\<close>

lemma lookup_drop_routes:
  "fmlookup (st_routes (drop_routes rid s)) h =
     (case fmlookup (st_routes s) h of None \<Rightarrow> None | Some r \<Rightarrow> if rr_RelayID r = rid then None else Some r)"
  by (auto simp: drop_routes_def split: option.split)

lemma lookup_fold_routes:
  "fmlookup (fold (\<lambda>h rs. fmupd h (f h) rs) hs rs) h = (if h \<in> set hs then Some (f h) else fmlookup rs h)"
  by (induction hs arbitrary: rs) auto

text \<open>
  Routes of a relay. After a bulk update that is accepted, the hosts routed to the relay are exactly the non-empty
  names of the list, each reached through the relay itself; a host of another relay keeps its route unless it is
  in the list (then it is taken over); and nothing of the durable state changed.
\<close>

theorem bulk_routing_exact:
  assumes "BulkUpsertRelayRouting env rid hosts s = (Inr (), s')"
  shows "fmlookup (st_routes s') h =
      (if h \<noteq> [] \<and> h \<in> set hosts then Some (direct_route h rid (unix_sec (sv_now env)))
       else case fmlookup (st_routes s) h of None \<Rightarrow> None | Some r \<Rightarrow> if rr_RelayID r = rid then None else Some r) \<and>
     snap s' = snap s"
proof -
  have "requireRelay rid s = None"
    using assms by (auto simp: BulkUpsertRelayRouting_def bindP_def gets_def of_err_def raise_def ret_def split: option.splits)
  then show ?thesis
    using assms by (auto simp: BulkUpsertRelayRouting_def bindP_def gets_def of_err_def ret_def modify_def Let_def
        lookup_fold_routes lookup_drop_routes snap_def)
qed

definition ex_routed :: "unit store" where
  "ex_routed = (newStore (ex_engine\<lparr>e_cur := ex_with_relay\<rparr>) ex_world)\<lparr>st_routes := fmupd ''old'' (direct_route ''old'' ''edge'' 1) fmempty\<rparr>"

theorem bulk_routing_exact_witness:
  "fmlookup (st_routes (snd (BulkUpsertRelayRouting ex_senv ''edge'' [''web1'', []] ex_routed))) ''old'' = None"
proof -
  have "fst (BulkUpsertRelayRouting ex_senv ''edge'' [''web1'', []] ex_routed) = Inr ()" by code_simp
  then have "BulkUpsertRelayRouting ex_senv ''edge'' [''web1'', []] ex_routed =
      (Inr (), snd (BulkUpsertRelayRouting ex_senv ''edge'' [''web1'', []] ex_routed))" by (metis prod.collapse)
  from bulk_routing_exact [OF this, of "''old''"] show ?thesis
    by (simp add: ex_routed_def newStore_def direct_route_def)
qed

text \<open>The characters of a served identifier.\<close>

definition inert :: "string \<Rightarrow> bool" where
  "inert r \<longleftrightarrow> r \<noteq> [] \<and> length r \<le> 63 \<and> list_all (\<lambda>c. is_alnum c \<or> c = CHR ''_'' \<or> c = CHR ''-'') r \<and> hd r \<noteq> CHR ''-''"

lemma ValidRelayID_inert: "ValidRelayID r \<Longrightarrow> inert r"
  by (auto simp: ValidRelayID_def inert_def is_alnum_def Let_def)

text \<open>
  A hostile route is never served. Whatever a route table holds, the next hop the store returns is empty or made
  of letters, digits, underscores and dashes only (at most 63, not starting with a dash), and so is the relay
  it returns for a host; a relay node whose identifier is malformed is never listed as valid nor created.
\<close>

theorem served_identifiers_inert:
  "(GetNextHopForHostname h s = [] \<or> inert (GetNextHopForHostname h s)) \<and>
   (GetRelayForHostname h s = [] \<or> inert (GetRelayForHostname h s)) \<and>
   list_all (\<lambda>n. inert (ri_RelayID n)) (ListValidRelayNodes s) \<and>
   (inert (ri_RelayID node) \<or> (\<exists>e. UpsertRelayNode env node s = (Inl e, s)))"
proof (intro conjI)
  show "GetNextHopForHostname h s = [] \<or> inert (GetNextHopForHostname h s)"
    by (auto simp: GetNextHopForHostname_def GetRelayRoute_def NextHop_def validRoute_def intro: ValidRelayID_inert
        split: option.splits list.splits)
  show "GetRelayForHostname h s = [] \<or> inert (GetRelayForHostname h s)"
    by (auto simp: GetRelayForHostname_def intro: ValidRelayID_inert split: option.splits)
  show "list_all (\<lambda>n. inert (ri_RelayID n)) (ListValidRelayNodes s)"
    by (auto simp: ListValidRelayNodes_def list_all_iff intro: ValidRelayID_inert)
  show "inert (ri_RelayID node) \<or> (\<exists>e. UpsertRelayNode env node s = (Inl e, s))"
    by (cases "ValidRelayID (ri_RelayID node)")
      (auto simp: ValidRelayID_inert UpsertRelayNode_def checkRelayID_def of_err_def bindP_def raise_def)
qed

text \<open>Deleting a relay leaves no route to it.\<close>

lemma delete_relay_cascades:
  assumes "mutate env (DeleteRelayNode_tx nid) s = (Inr (Some rid), s1)" "rid \<noteq> []"
    and "Store_DeleteRelayNode env nid s = (Inr (), s')"
  shows "fmpred (\<lambda>_ r. rr_RelayID r \<noteq> rid) (st_routes s') \<and> fmlookup (st_relayVol s') rid = None"
proof -
  have s': "s' = drop_routes rid (s1\<lparr>st_relayVol := fmdrop rid (st_relayVol s1)\<rparr>)"
    using assms by (simp add: Store_DeleteRelayNode_def bindP_def modify_def)
  have "fmpred (\<lambda>_ r. rr_RelayID r \<noteq> rid) (st_routes s')"
    unfolding s' fmpred_iff lookup_drop_routes by (simp split: option.split)
  then show ?thesis unfolding s' by (simp add: drop_routes_def)
qed

text \<open>The warnings remember a bounded number of identifiers.\<close>

lemma warnings_bounded: "fcard (ig_warned ig) \<le> maxIgnoredWarned \<Longrightarrow> fcard (ig_warned (fst (warnIgnoredOnce kind i ig))) \<le> maxIgnoredWarned"
  by (auto simp: warnIgnoredOnce_def Let_def fcard_finsert_if)

end
