(* ===== verification/Link_Trust.thy ===== *)
theory Link_Trust
  imports Link_Token Store
begin

text \<open>
  The trust of a relay that is not the root (\<open>internal/repeater/linktrust.go\<close>): the key pinned at deployment, the
  rotations and revocation lists received from the parent, what is persisted of them, and the frames handed on to
  the children. The Go interfaces \<open>TrustStore\<close> and \<open>RevocationSink\<close> are the record \<open>trust_if\<close>; the server connects
  them to the data store (\<open>internal/server/linktrust_adapters.go\<close>). Their contract is the locale \<open>link_store\<close>.
\<close>

section \<open>Interfaces and state\<close>

record TrustRecord =
  rec_RootID :: string
  rec_CurrentPub :: string
  rec_CurrentKID :: string
  rec_PreviousPub :: string
  rec_PreviousKID :: string
  rec_Seq :: "64 word"

definition TrustRecord_zero :: TrustRecord where
  "TrustRecord_zero = \<lparr>rec_RootID = [], rec_CurrentPub = [], rec_CurrentKID = [], rec_PreviousPub = [], rec_PreviousKID = [], rec_Seq = 0\<rparr>"

definition TrustRecord_IsZero :: "TrustRecord \<Rightarrow> bool" where
  "TrustRecord_IsZero r \<longleftrightarrow> r = TrustRecord_zero"

record 's trust_if =
  tf_LoadLinkTrust :: "'s \<Rightarrow> TrustRecord res"
  tf_SaveLinkTrust :: "TrustRecord \<Rightarrow> ('s, unit) prog"
  tf_BlacklistLinkJTI :: "string \<Rightarrow> gotime \<Rightarrow> ('s, unit) prog"
  tf_IsLinkJTIBlacklisted :: "string \<Rightarrow> 's \<Rightarrow> bool"

record LinkTrustConfig =
  cf_RootID :: string
  cf_Anchor :: "string option"

record FrameResult =
  fr_Type :: string
  fr_Applied :: bool
  fr_Confirm :: bool
  fr_Seq :: "64 word"
  fr_KID :: string
  fr_Revoked :: "string list"

definition FrameResult_zero :: FrameResult where
  "FrameResult_zero = \<lparr>fr_Type = [], fr_Applied = False, fr_Confirm = False, fr_Seq = 0, fr_KID = [], fr_Revoked = []\<rparr>"

text \<open>
  The struct \<open>LinkTrust\<close> with the store behind it; \<open>lm_forwarded\<close> and \<open>lm_closed\<close> are the calls made so far of the
  forwarding callback (when one is set) and of the listeners for revoked identifiers (\<open>lm_listeners\<close> of them).
\<close>

record 's LinkTrustM =
  lm_rootID :: string
  lm_trust :: auth_trust
  lm_anchored :: bool
  lm_revs :: "string list"
  lm_keys :: "string option"
  lm_forward :: bool
  lm_listeners :: nat
  lm_forwarded :: "string list"
  lm_closed :: "string list"
  lm_store :: 's

datatype frame_error =
    FE_Text string | FE_Link LinkError | FE_UnverifiableKnownKey | FE_Persist goerr | FE_Blacklist goerr

text \<open>\<open>AnchorMismatchError\<close>: pinned and persisted root, pinned, current and previous key id.\<close>

datatype trust_error = TE_Text string | TE_Load goerr | TE_Persist goerr | TE_AnchorMismatch string string string string string

text \<open>The partial JSON decodings of a frame: its type, its counter, its announced key, its entries.\<close>

record FrameLib =
  fl_link :: LinkLib
  json_type :: "string \<Rightarrow> string option"
  json_seq :: "string \<Rightarrow> 64 word option"
  json_announce :: "string \<Rightarrow> (string \<times> string) option"
  json_entries :: "string \<Rightarrow> LinkRevocation list"

section \<open>Start\<close>

definition prevKID :: "LinkLib \<Rightarrow> string option \<Rightarrow> string" where
  "prevKID L prev = (case prev of None \<Rightarrow> [] | Some p \<Rightarrow> LinkKID L p)"

definition decode_key :: "LinkLib \<Rightarrow> string \<Rightarrow> string \<Rightarrow> string option" where
  "decode_key L pub kid =
     (case url_decode pub of
        None \<Rightarrow> None
      | Some c \<Rightarrow> if length c \<noteq> PublicKeySize \<or> kid \<noteq> LinkKID L c then None else Some c)"

definition decodeRecordKeys :: "LinkLib \<Rightarrow> TrustRecord \<Rightarrow> string + (string \<times> string option)" where
  "decodeRecordKeys L r =
     (case decode_key L (rec_CurrentPub r) (rec_CurrentKID r) of
        None \<Rightarrow> Inl ''current key''
      | Some cur \<Rightarrow>
          if rec_PreviousPub r \<noteq> [] then
            (case decode_key L (rec_PreviousPub r) (rec_PreviousKID r) of
               None \<Rightarrow> Inl ''previous key''
             | Some p \<Rightarrow> Inr (cur, Some p))
          else Inr (cur, None))"

definition zero_trust :: auth_trust where
  "zero_trust = \<lparr>at_Current = [], at_Previous = None, at_LastSeq = 0\<rparr>"

definition fresh_trust :: "string \<Rightarrow> auth_trust \<Rightarrow> bool \<Rightarrow> 's \<Rightarrow> 's LinkTrustM" where
  "fresh_trust root trust anchored st = \<lparr>lm_rootID = root, lm_trust = trust, lm_anchored = anchored, lm_revs = [], lm_keys = None,
     lm_forward = False, lm_listeners = 0, lm_forwarded = [], lm_closed = [], lm_store = st\<rparr>"

definition NewLinkTrust :: "LinkLib \<Rightarrow> 's trust_if \<Rightarrow> LinkTrustConfig \<Rightarrow> 's \<Rightarrow> (trust_error + 's LinkTrustM) \<times> 's" where
  "NewLinkTrust L I cfg st =
     (case tf_LoadLinkTrust I st of
        Inl e \<Rightarrow> (Inl (TE_Load e), st)
      | Inr r \<Rightarrow>
          if (case cf_Anchor cfg of None \<Rightarrow> False | Some a \<Rightarrow> length a \<noteq> PublicKeySize)
          then (Inl (TE_Text ''link trust: pinned key is not an Ed25519 public key''), st)
          else if \<not> TrustRecord_IsZero r then
            (case decodeRecordKeys L r of
               Inl e \<Rightarrow> (Inl (TE_Text e), st)
             | Inr (cur, prev) \<Rightarrow>
                 if cf_RootID cfg \<noteq> [] \<and> rec_RootID r \<noteq> [] \<and> cf_RootID cfg \<noteq> rec_RootID r
                 then (Inl (TE_AnchorMismatch (cf_RootID cfg) (rec_RootID r) [] [] []), st)
                 else if (case cf_Anchor cfg of None \<Rightarrow> False | Some a \<Rightarrow> a \<noteq> cur \<and> prev \<noteq> Some a)
                 then (Inl (TE_AnchorMismatch (cf_RootID cfg) (rec_RootID r) (LinkKID L (the (cf_Anchor cfg))) (LinkKID L cur) (prevKID L prev)), st)
                 else
                   let root = (if cf_RootID cfg = [] then rec_RootID r else cf_RootID cfg) in
                   (Inr (fresh_trust root \<lparr>at_Current = cur, at_Previous = prev, at_LastSeq = rec_Seq r\<rparr> (root \<noteq> []) st), st))
          else (case cf_Anchor cfg of
             None \<Rightarrow> (Inr (fresh_trust (cf_RootID cfg) zero_trust False st), st)
           | Some a \<Rightarrow>
               if cf_RootID cfg = [] then (Inl (TE_Text ''link trust: a pinned key needs the root id (REPEATER_ROOT_ID)''), st)
               else (case tf_SaveLinkTrust I (TrustRecord_zero\<lparr>rec_RootID := cf_RootID cfg, rec_CurrentPub := url_encode a, rec_CurrentKID := LinkKID L a\<rparr>) st of
                  (Inl e, st') \<Rightarrow> (Inl (TE_Persist e), st')
                | (Inr _, st') \<Rightarrow> (Inr (fresh_trust (cf_RootID cfg) (zero_trust\<lparr>at_Current := a\<rparr>) True st'), st'))))"

section \<open>Reads\<close>

definition Trust :: "'s LinkTrustM \<Rightarrow> auth_trust" where
  "Trust m = (if \<not> lm_anchored m then zero_trust else lm_trust m)"

definition Trust_State :: "LinkLib \<Rightarrow> 's LinkTrustM \<Rightarrow> 64 word \<times> string" where
  "Trust_State L m = (if \<not> lm_anchored m then (0, []) else (at_LastSeq (lm_trust m), LinkKID L (at_Current (lm_trust m))))"

text \<open>\<open>VerifyToken\<close>: the unanchored trust is the zero value, which refuses every token.\<close>

definition VerifyToken :: "LinkLib \<Rightarrow> 's trust_if \<Rightarrow> 's LinkTrustM \<Rightarrow> string \<Rightarrow> string \<Rightarrow> string \<Rightarrow> gotime \<Rightarrow> LinkError + LinkClaims" where
  "VerifyToken L I m token localID role now =
     VerifyLinkToken L (\<lambda>jti. tf_IsLinkJTIBlacklisted I jti (lm_store m)) (Trust m) token
       \<lparr>w_LocalID = localID, w_RootID = lm_rootID m, w_Role = role\<rparr> now"

definition OnForward :: "'s LinkTrustM \<Rightarrow> 's LinkTrustM" where
  "OnForward m = m\<lparr>lm_forward := True\<rparr>"

definition OnRevoked :: "'s LinkTrustM \<Rightarrow> 's LinkTrustM" where
  "OnRevoked m = m\<lparr>lm_listeners := Suc (lm_listeners m)\<rparr>"

definition ResetFrames :: "'s LinkTrustM \<Rightarrow> 's LinkTrustM" where
  "ResetFrames m = m\<lparr>lm_revs := []\<rparr>"

definition Replay :: "'s LinkTrustM \<Rightarrow> string list" where
  "Replay m = (case lm_keys m of None \<Rightarrow> [] | Some k \<Rightarrow> [k]) @ lm_revs m"

section \<open>Frames\<close>

definition maxReplayFrames :: nat where "maxReplayFrames = 256"
definition maxLinkFrameLen :: int where "maxLinkFrameLen = 1048576"

definition fanOut :: "string \<Rightarrow> 's LinkTrustM \<Rightarrow> 's LinkTrustM" where
  "fanOut raw m = (if lm_forward m then m\<lparr>lm_forwarded := lm_forwarded m @ [raw]\<rparr> else m)"

definition trust_record :: "LinkLib \<Rightarrow> string \<Rightarrow> auth_trust \<Rightarrow> TrustRecord" where
  "trust_record L root t = \<lparr>rec_RootID = root, rec_CurrentPub = url_encode (at_Current t), rec_CurrentKID = LinkKID L (at_Current t),
     rec_PreviousPub = (case at_Previous t of None \<Rightarrow> [] | Some p \<Rightarrow> url_encode p),
     rec_PreviousKID = prevKID L (at_Previous t), rec_Seq = at_LastSeq t\<rparr>"

definition announcesCurrent :: "FrameLib \<Rightarrow> 's LinkTrustM \<Rightarrow> string \<Rightarrow> bool" where
  "announcesCurrent F m raw =
     (case json_announce F raw of
        None \<Rightarrow> False
      | Some (pub, kid) \<Rightarrow>
          pub = url_encode (at_Current (lm_trust m)) \<and> (kid = [] \<or> kid = LinkKID (fl_link F) (at_Current (lm_trust m))))"

definition frame_start :: "FrameLib \<Rightarrow> string \<Rightarrow> 's LinkTrustM \<Rightarrow> FrameResult" where
  "frame_start F ty m = \<lparr>fr_Type = ty, fr_Applied = False, fr_Confirm = False, fr_Seq = at_LastSeq (lm_trust m),
     fr_KID = LinkKID (fl_link F) (at_Current (lm_trust m)), fr_Revoked = []\<rparr>"

definition applyKeys :: "FrameLib \<Rightarrow> 's trust_if \<Rightarrow> string \<Rightarrow> 's LinkTrustM \<Rightarrow> (FrameResult \<times> frame_error option) \<times> 's LinkTrustM" where
  "applyKeys F I raw m =
     (let L = fl_link F; res = frame_start F ''link_keys'' m in
      case ApplyLinkKeys L (lm_trust m) raw of
        Inl err \<Rightarrow>
          (case VerifyLinkKeysReplay L (lm_trust m) raw of
             Inr _ \<Rightarrow>
               ((res\<lparr>fr_Confirm := True\<rparr>, None),
                fanOut raw (m\<lparr>lm_keys := (case at_Previous (lm_trust m) of None \<Rightarrow> None | Some _ \<Rightarrow> Some raw)\<rparr>))
           | Inl _ \<Rightarrow>
               if le_Code err = LinkErrMsgChain \<and> announcesCurrent F m raw then ((res, Some FE_UnverifiableKnownKey), m)
               else ((res, Some (FE_Link err)), m))
      | Inr nt \<Rightarrow>
          (case tf_SaveLinkTrust I (trust_record L (lm_rootID m) nt) (lm_store m) of
             (Inl e, st') \<Rightarrow> ((res, Some (FE_Persist e)), m\<lparr>lm_store := st'\<rparr>)
           | (Inr _, st') \<Rightarrow>
               ((res\<lparr>fr_Applied := True, fr_Confirm := True, fr_Seq := at_LastSeq nt, fr_KID := LinkKID L (at_Current nt)\<rparr>, None),
                fanOut raw (m\<lparr>lm_trust := nt, lm_store := st', lm_keys := (case at_Previous nt of None \<Rightarrow> None | Some _ \<Rightarrow> Some raw)\<rparr>))))"

text \<open>The loop over the entries: expired and known ones are skipped, a failed write ends it.\<close>

fun blacklist_entries :: "'s trust_if \<Rightarrow> gotime \<Rightarrow> LinkRevocation list \<Rightarrow> string list \<Rightarrow> 's \<Rightarrow> (string list \<times> goerr option) \<times> 's" where
  "blacklist_entries I now [] revoked st = ((revoked, None), st)"
| "blacklist_entries I now (e # es) revoked st =
     (if \<not> unix_time (lr_Exp e) > now then blacklist_entries I now es revoked st
      else if tf_IsLinkJTIBlacklisted I (lr_JTI e) st then blacklist_entries I now es revoked st
      else case tf_BlacklistLinkJTI I (lr_JTI e) (unix_time (lr_Exp e)) st of
        (Inl err, st') \<Rightarrow> ((revoked, Some err), st')
      | (Inr _, st') \<Rightarrow> blacklist_entries I now es (revoked @ [lr_JTI e]) st')"

definition remember_frame :: "string \<Rightarrow> string list \<Rightarrow> string list" where
  "remember_frame raw revs =
     (if length revs \<ge> maxReplayFrames then drop (length revs - maxReplayFrames + 1) revs else revs) @ [raw]"

definition revocations_done :: "string \<Rightarrow> FrameResult \<Rightarrow> 's LinkTrustM \<Rightarrow> (FrameResult \<times> frame_error option) \<times> 's LinkTrustM" where
  "revocations_done raw res m =
     ((res\<lparr>fr_Applied := True, fr_Seq := at_LastSeq (lm_trust m)\<rparr>, None),
      fanOut raw (m\<lparr>lm_revs := remember_frame raw (lm_revs m),
        lm_closed := lm_closed m @ concat (map (\<lambda>jti. replicate (lm_listeners m) jti) (fr_Revoked res))\<rparr>))"

text \<open>Applying a verified list: \<open>resync\<close> when it repeats the last accepted counter, which is then not written again.\<close>

definition apply_entries :: "FrameLib \<Rightarrow> 's trust_if \<Rightarrow> gotime \<Rightarrow> string \<Rightarrow> 64 word \<Rightarrow> bool \<Rightarrow> LinkRevocation list \<Rightarrow> 's LinkTrustM
    \<Rightarrow> (FrameResult \<times> frame_error option) \<times> 's LinkTrustM" where
  "apply_entries F I now raw sq resync entries m =
     (let res = frame_start F ''link_revocations'' m in
      case blacklist_entries I now entries [] (lm_store m) of
        ((revoked, Some err), st') \<Rightarrow> ((res\<lparr>fr_Revoked := revoked\<rparr>, Some (FE_Blacklist err)), m\<lparr>lm_store := st'\<rparr>)
      | ((revoked, None), st') \<Rightarrow>
          let res' = res\<lparr>fr_Revoked := revoked\<rparr> in
          if resync then revocations_done raw res' (m\<lparr>lm_store := st'\<rparr>)
          else (let nt = (lm_trust m)\<lparr>at_LastSeq := sq\<rparr> in
             case tf_SaveLinkTrust I (trust_record (fl_link F) (lm_rootID m) nt) st' of
               (Inl e, st'') \<Rightarrow> ((res', Some (FE_Persist e)), m\<lparr>lm_store := st''\<rparr>)
             | (Inr _, st'') \<Rightarrow> revocations_done raw res' (m\<lparr>lm_trust := nt, lm_store := st''\<rparr>)))"

definition applyRevocations :: "FrameLib \<Rightarrow> 's trust_if \<Rightarrow> gotime \<Rightarrow> string \<Rightarrow> 's LinkTrustM \<Rightarrow> (FrameResult \<times> frame_error option) \<times> 's LinkTrustM" where
  "applyRevocations F I now raw m =
     (case VerifyLinkRevocations (fl_link F) (lm_trust m) raw of
        Inr (sq, entries) \<Rightarrow> apply_entries F I now raw sq False entries m
      | Inl err \<Rightarrow>
          if le_Code err \<noteq> LinkErrMsgSeq \<or> json_seq F raw \<noteq> Some (at_LastSeq (lm_trust m))
          then ((frame_start F ''link_revocations'' m, Some (FE_Link err)), m)
          else apply_entries F I now raw (at_LastSeq (lm_trust m)) True (json_entries F raw) m)"

text \<open>\<open>HandleFrame\<close>: a replayed counter and an unverifiable repetition of the known key are not errors.\<close>

definition benign :: "frame_error \<Rightarrow> bool" where
  "benign e = (case e of FE_UnverifiableKnownKey \<Rightarrow> True | FE_Link le \<Rightarrow> le_Code le = LinkErrMsgSeq | _ \<Rightarrow> False)"

definition frame_answer :: "(FrameResult \<times> frame_error option) \<times> 's LinkTrustM \<Rightarrow> (FrameResult \<times> frame_error option) \<times> 's LinkTrustM" where
  "frame_answer r = (case r of ((res, err), m) \<Rightarrow> ((res, case err of Some e \<Rightarrow> if benign e then None else Some e | None \<Rightarrow> None), m))"

definition HandleFrame :: "FrameLib \<Rightarrow> 's trust_if \<Rightarrow> gotime \<Rightarrow> string \<Rightarrow> 's LinkTrustM \<Rightarrow> (FrameResult \<times> frame_error option) \<times> 's LinkTrustM" where
  "HandleFrame F I now raw m =
     (if int (length raw) > maxLinkFrameLen then ((FrameResult_zero, Some (FE_Text ''link frame: too large'')), m)
      else case json_type F raw of
        None \<Rightarrow> ((FrameResult_zero, Some (FE_Text ''link frame: not JSON'')), m)
      | Some ty \<Rightarrow>
          if \<not> lm_anchored m then ((FrameResult_zero\<lparr>fr_Type := ty\<rparr>, Some (FE_Link (linkErr LinkErrNoTrust False None))), m)
          else if ty = ''link_keys'' then frame_answer (applyKeys F I raw m)
          else if ty = ''link_revocations'' then frame_answer (applyRevocations F I now raw m)
          else ((FrameResult_zero\<lparr>fr_Type := ty\<rparr>, Some (FE_Text ''link frame: unsupported type'')), m))"

section \<open>The server's interface\<close>

definition LoadLinkTrust :: "'g store \<Rightarrow> TrustRecord res" where
  "LoadLinkTrust s = (let lt = Snap_LinkTrust (snap s) in
     Inr \<lparr>rec_RootID = tr_RootID lt, rec_CurrentPub = tr_CurrentPub lt, rec_CurrentKID = tr_CurrentKID lt,
       rec_PreviousPub = tr_PreviousPub lt, rec_PreviousKID = tr_PreviousKID lt, rec_Seq = tr_Seq lt\<rparr>)"

definition SaveLinkTrust :: "'g senv \<Rightarrow> TrustRecord \<Rightarrow> ('g store, unit) prog" where
  "SaveLinkTrust env r = Store_SetLinkTrust env \<lparr>tr_RootID = rec_RootID r, tr_CurrentPub = rec_CurrentPub r, tr_CurrentKID = rec_CurrentKID r,
     tr_PreviousPub = rec_PreviousPub r, tr_PreviousKID = rec_PreviousKID r, tr_Seq = rec_Seq r\<rparr>"

definition BlacklistLinkJTI :: "'g senv \<Rightarrow> string \<Rightarrow> gotime \<Rightarrow> ('g store, unit) prog" where
  "BlacklistLinkJTI env jti exp = AddToBlacklist env jti [] (sv_formatTime env exp) (Some ''link token revoked by the root'')"

definition IsLinkJTIBlacklisted :: "string \<Rightarrow> 'g store \<Rightarrow> bool" where
  "IsLinkJTIBlacklisted jti s = IsJTIBlacklisted jti s"

definition server_trust :: "'g senv \<Rightarrow> 'g store trust_if" where
  "server_trust env = \<lparr>tf_LoadLinkTrust = LoadLinkTrust, tf_SaveLinkTrust = SaveLinkTrust env,
     tf_BlacklistLinkJTI = BlacklistLinkJTI env, tf_IsLinkJTIBlacklisted = IsLinkJTIBlacklisted\<rparr>"

section \<open>The chain of trust\<close>

text \<open>
  What may happen to the trust, independently of frames and storage: a rotation or a retirement signed by the
  current key, or a newer revocation list signed by it.
\<close>

inductive link_step :: "LinkLib \<Rightarrow> auth_trust \<Rightarrow> auth_trust \<Rightarrow> bool" for L where
  rotate: "ed_Verify L (at_Current t) (linkKeysSigInput new (at_Current t) sq) sig \<Longrightarrow> at_LastSeq t < sq \<Longrightarrow> new \<noteq> at_Current t \<Longrightarrow>
    length new = PublicKeySize \<Longrightarrow> link_step L t (t\<lparr>at_Current := new, at_Previous := Some (at_Current t), at_LastSeq := sq\<rparr>)"
| retire: "ed_Verify L (at_Current t) (linkKeysSigInput (at_Current t) [] sq) sig \<Longrightarrow> at_LastSeq t < sq \<Longrightarrow>
    link_step L t (t\<lparr>at_Previous := None, at_LastSeq := sq\<rparr>)"
| revoke: "ed_Verify L (at_Current t) (revocationsSigInput sq es) sig \<Longrightarrow> at_LastSeq t < sq \<Longrightarrow> link_step L t (t\<lparr>at_LastSeq := sq\<rparr>)"

inductive_cases link_stepE: "link_step L t t'"

definition wf_trust :: "auth_trust \<Rightarrow> bool" where
  "wf_trust t \<longleftrightarrow> length (at_Current t) = PublicKeySize \<and> (case at_Previous t of None \<Rightarrow> True | Some p \<Rightarrow> length p = PublicKeySize)"

lemma link_step_wf: "link_step L t t' \<Longrightarrow> wf_trust t \<Longrightarrow> wf_trust t'"
  by (erule link_stepE) (auto simp: wf_trust_def)

lemma link_step_seq: "link_step L t t' \<Longrightarrow> at_LastSeq t < at_LastSeq t'"
  by (erule link_stepE) auto

lemma link_chain_seq: "(link_step L)\<^sup>*\<^sup>* t t' \<Longrightarrow> at_LastSeq t \<le> at_LastSeq t'"
  by (induction rule: rtranclp_induct) (auto dest: link_step_seq)

lemma ApplyLinkKeys_step:
  assumes "ApplyLinkKeys L t raw = Inr t'"
  shows "link_step L t t'"
proof -
  obtain m newCur prev sig where d: "json_keys L raw = Some m" "url_decode (km_CurrentPub m) = Some newCur"
    "decode_previous (km_PreviousPub m) = Some prev" "url_decode (km_Sig m) = Some sig"
    using assms by (auto simp: ApplyLinkKeys_def split: if_splits option.splits)
  from assms d have f: "length newCur = PublicKeySize" "at_LastSeq t < km_Seq m"
    "ed_Verify L (at_Current t) (linkKeysSigInput newCur prev (km_Seq m)) sig"
    "prev = at_Current t \<and> newCur \<noteq> at_Current t \<and> prev \<noteq> [] \<or> prev = [] \<and> newCur = at_Current t"
    "t' = t\<lparr>at_Current := newCur, at_Previous := (if prev \<noteq> [] then Some prev else None), at_LastSeq := km_Seq m\<rparr>"
    by (auto simp: ApplyLinkKeys_def not_le split: if_splits)
  from f(4) show ?thesis
  proof
    assume "prev = at_Current t \<and> newCur \<noteq> at_Current t \<and> prev \<noteq> []"
    with f show ?thesis using link_step.rotate [of L t newCur "km_Seq m" sig] by simp
  next
    assume "prev = [] \<and> newCur = at_Current t"
    with f show ?thesis using link_step.retire [of L t "km_Seq m" sig] by simp
  qed
qed

lemma VerifyLinkRevocations_step:
  assumes "VerifyLinkRevocations L t raw = Inr (sq, es)"
  shows "link_step L t (t\<lparr>at_LastSeq := sq\<rparr>)"
  using assms by (auto simp: VerifyLinkRevocations_def not_le split: if_splits option.splits intro: link_step.revoke)

lemma trust_frame [simp]:
  "lm_trust (fanOut raw m) = lm_trust m" "lm_store (fanOut raw m) = lm_store m" "lm_rootID (fanOut raw m) = lm_rootID m"
  "lm_anchored (fanOut raw m) = lm_anchored m" "lm_revs (fanOut raw m) = lm_revs m"
  "lm_trust (snd (revocations_done raw res m)) = lm_trust m" "lm_store (snd (revocations_done raw res m)) = lm_store m"
  "lm_rootID (snd (revocations_done raw res m)) = lm_rootID m" "lm_anchored (snd (revocations_done raw res m)) = lm_anchored m"
  by (simp_all add: fanOut_def revocations_done_def)

lemma applyKeys_trust: "lm_trust (snd (applyKeys F I raw m)) = lm_trust m \<or> link_step (fl_link F) (lm_trust m) (lm_trust (snd (applyKeys F I raw m)))"
  by (auto simp: applyKeys_def Let_def dest: ApplyLinkKeys_step split: sum.splits prod.splits)

lemma apply_entries_trust:
  "lm_trust (snd (apply_entries F I now raw sq resync es m)) = lm_trust m \<or>
   \<not> resync \<and> lm_trust (snd (apply_entries F I now raw sq resync es m)) = (lm_trust m)\<lparr>at_LastSeq := sq\<rparr>"
  by (auto simp: apply_entries_def Let_def split: sum.splits prod.splits option.splits)

lemma applyRevocations_trust:
  "lm_trust (snd (applyRevocations F I now raw m)) = lm_trust m \<or> link_step (fl_link F) (lm_trust m) (lm_trust (snd (applyRevocations F I now raw m)))"
proof (cases "VerifyLinkRevocations (fl_link F) (lm_trust m) raw")
  case (Inl err)
  then show ?thesis using apply_entries_trust [of F I now raw _ True "json_entries F raw" m] by (auto simp: applyRevocations_def)
next
  case (Inr x)
  then show ?thesis
    using apply_entries_trust [of F I now raw "fst x" False "snd x" m] VerifyLinkRevocations_step [of "fl_link F" "lm_trust m" raw "fst x" "snd x"]
    by (cases x) (auto simp: applyRevocations_def)
qed

lemma snd_frame_answer [simp]: "snd (frame_answer r) = snd r"
  by (simp add: frame_answer_def split: prod.split)

lemma HandleFrame_cases:
  assumes "snd (HandleFrame F I now raw m) \<noteq> m"
  shows "lm_anchored m \<and> (snd (HandleFrame F I now raw m) = snd (applyKeys F I raw m) \<or>
    snd (HandleFrame F I now raw m) = snd (applyRevocations F I now raw m))"
  using assms by (auto simp: HandleFrame_def split: if_splits option.splits)

lemma HandleFrame_trust:
  "lm_trust (snd (HandleFrame F I now raw m)) = lm_trust m \<or> link_step (fl_link F) (lm_trust m) (lm_trust (snd (HandleFrame F I now raw m)))"
  using HandleFrame_cases [of F I now raw m] applyKeys_trust [of F I raw m] applyRevocations_trust [of F I now raw m] by metis

text \<open>A sequence of frames, each with the store interface (its surroundings) and the clock it is handled with.\<close>

definition run_frames :: "FrameLib \<Rightarrow> ('s trust_if \<times> gotime \<times> string) list \<Rightarrow> 's LinkTrustM \<Rightarrow> 's LinkTrustM" where
  "run_frames F frames m = fold (\<lambda>(I, now, raw) m. snd (HandleFrame F I now raw m)) frames m"

lemma run_frames_simps [simp]:
  "run_frames F [] m = m" "run_frames F ((I, now, raw) # fs) m = run_frames F fs (snd (HandleFrame F I now raw m))"
  by (simp_all add: run_frames_def)

lemma run_frames_chain: "(link_step (fl_link F))\<^sup>*\<^sup>* (lm_trust m) (lm_trust (run_frames F frames m))"
proof (induction frames arbitrary: m)
  case (Cons f fs)
  obtain I now raw where "f = (I, now, raw)" by (cases f)
  then show ?case
    using HandleFrame_trust [of F I now raw m] Cons.IH [of "snd (HandleFrame F I now raw m)"]
    by (auto intro: converse_rtranclp_into_rtranclp)
qed simp

lemma HandleFrame_anchored: "lm_anchored (snd (HandleFrame F I now raw m)) = lm_anchored m"
proof -
  have e: "lm_anchored (snd (apply_entries F I now raw sq resync es m)) = lm_anchored m" for sq resync es
    by (auto simp: apply_entries_def Let_def split: prod.split sum.split option.split)
  have "lm_anchored (snd (applyKeys F I raw m)) = lm_anchored m"
    by (auto simp: applyKeys_def Let_def split: prod.split sum.split)
  moreover have "lm_anchored (snd (applyRevocations F I now raw m)) = lm_anchored m"
    by (auto simp: applyRevocations_def e split: prod.split sum.split)
  ultimately show ?thesis using HandleFrame_cases [of F I now raw m] by metis
qed

lemma run_frames_anchored: "lm_anchored (run_frames F frames m) = lm_anchored m"
proof (induction frames arbitrary: m)
  case (Cons f fs)
  then show ?case by (cases f) (simp only: run_frames_simps HandleFrame_anchored)
qed simp

lemma run_frames_unanchored: "\<not> lm_anchored m \<Longrightarrow> run_frames F frames m = m"
proof (induction frames)
  case (Cons f fs)
  obtain I now raw where f: "f = (I, now, raw)" by (cases f)
  have "snd (HandleFrame F I now raw m) = m" using HandleFrame_cases [of F I now raw m] Cons.prems by blast
  with Cons show ?case by (simp only: f run_frames_simps) simp
qed simp

section \<open>The contract of the store\<close>

text \<open>
  What the trust relies on: a save that reports success is what the next load returns, a failed one changes
  nothing that is loaded; a blacklisted identifier is known from then on, and no operation forgets one.
\<close>

locale link_store =
  fixes I :: "'s trust_if" and usable :: bool
  assumes save_done: "usable \<Longrightarrow> tf_SaveLinkTrust I r s = (Inr u, s') \<Longrightarrow> tf_LoadLinkTrust I s' = Inr r"
    and save_failed: "usable \<Longrightarrow> tf_SaveLinkTrust I r s = (Inl e, s') \<Longrightarrow> tf_LoadLinkTrust I s' = tf_LoadLinkTrust I s"
    and save_keeps: "usable \<Longrightarrow> tf_IsLinkJTIBlacklisted I j s \<Longrightarrow> tf_IsLinkJTIBlacklisted I j (snd (tf_SaveLinkTrust I r s))"
    and listed: "usable \<Longrightarrow> tf_BlacklistLinkJTI I j x s = (Inr u, s') \<Longrightarrow> tf_IsLinkJTIBlacklisted I j s'"
    and list_keeps: "usable \<Longrightarrow> tf_IsLinkJTIBlacklisted I j s \<Longrightarrow> tf_IsLinkJTIBlacklisted I j (snd (tf_BlacklistLinkJTI I i x s))"
    and list_trust: "usable \<Longrightarrow> tf_LoadLinkTrust I (snd (tf_BlacklistLinkJTI I i x s)) = tf_LoadLinkTrust I s"

text \<open>The persisted record is the trust in memory.\<close>

definition recorded :: "LinkLib \<Rightarrow> string \<Rightarrow> auth_trust \<Rightarrow> TrustRecord \<Rightarrow> bool" where
  "recorded L root t r \<longleftrightarrow> \<not> TrustRecord_IsZero r \<and> decodeRecordKeys L r = Inr (at_Current t, at_Previous t) \<and> rec_Seq r = at_LastSeq t \<and>
     (rec_RootID r = [] \<or> rec_RootID r = root)"

definition in_step :: "LinkLib \<Rightarrow> ('s \<Rightarrow> TrustRecord res) \<Rightarrow> 's LinkTrustM \<Rightarrow> bool" where
  "in_step L ld m \<longleftrightarrow> (lm_anchored m \<longrightarrow> lm_rootID m \<noteq> [] \<and> wf_trust (lm_trust m) \<and>
     (\<exists>r. ld (lm_store m) = Inr r \<and> recorded L (lm_rootID m) (lm_trust m) r))"

lemma recorded_trust_record: "wf_trust t \<Longrightarrow> recorded L root t (trust_record L root t)"
  by (auto simp: recorded_def trust_record_def TrustRecord_IsZero_def TrustRecord_zero_def wf_trust_def decodeRecordKeys_def
      decode_key_def prevKID_def PublicKeySize_def split: option.splits)

context link_store
begin

lemma blacklist_entries_laws:
  assumes usable: usable and run: "blacklist_entries I now es revoked s = ((rs, err), s')"
  shows "tf_LoadLinkTrust I s' = tf_LoadLinkTrust I s"
    and "\<And>j. tf_IsLinkJTIBlacklisted I j s \<Longrightarrow> tf_IsLinkJTIBlacklisted I j s'"
    and "err = None \<Longrightarrow> e \<in> set es \<Longrightarrow> unix_time (lr_Exp e) > now \<Longrightarrow> tf_IsLinkJTIBlacklisted I (lr_JTI e) s'"
proof -
  have "tf_LoadLinkTrust I s' = tf_LoadLinkTrust I s \<and> (\<forall>j. tf_IsLinkJTIBlacklisted I j s \<longrightarrow> tf_IsLinkJTIBlacklisted I j s') \<and>
    (err = None \<longrightarrow> (\<forall>e\<in>set es. unix_time (lr_Exp e) > now \<longrightarrow> tf_IsLinkJTIBlacklisted I (lr_JTI e) s'))"
    using run
  proof (induction es arbitrary: revoked s)
    case (Cons a as)
    consider (skip) "\<not> unix_time (lr_Exp a) > now \<or> tf_IsLinkJTIBlacklisted I (lr_JTI a) s"
      | (enter) "unix_time (lr_Exp a) > now" "\<not> tf_IsLinkJTIBlacklisted I (lr_JTI a) s" by blast
    then show ?case
    proof cases
      case skip
      with Cons.prems have "blacklist_entries I now as revoked s = ((rs, err), s')" by (auto split: if_splits)
      from Cons.IH [OF this] skip show ?thesis by auto
    next
      case enter
      obtain q s1 where q: "tf_BlacklistLinkJTI I (lr_JTI a) (unix_time (lr_Exp a)) s = (q, s1)" by fastforce
      note keep = list_keeps [OF usable, of _ s "lr_JTI a" "unix_time (lr_Exp a)", unfolded q snd_conv]
      note same = list_trust [OF usable, of "lr_JTI a" "unix_time (lr_Exp a)" s, unfolded q snd_conv]
      show ?thesis
      proof (cases q)
        case (Inl e)
        with Cons.prems enter q keep same show ?thesis by auto
      next
        case (Inr u)
        with Cons.prems enter q have "blacklist_entries I now as (revoked @ [lr_JTI a]) s1 = ((rs, err), s')" by simp
        from Cons.IH [OF this] keep same listed [OF usable q [unfolded Inr]] show ?thesis by auto
      qed
    qed
  qed simp
  then show "tf_LoadLinkTrust I s' = tf_LoadLinkTrust I s"
    "\<And>j. tf_IsLinkJTIBlacklisted I j s \<Longrightarrow> tf_IsLinkJTIBlacklisted I j s'"
    "err = None \<Longrightarrow> e \<in> set es \<Longrightarrow> unix_time (lr_Exp e) > now \<Longrightarrow> tf_IsLinkJTIBlacklisted I (lr_JTI e) s'" by auto
qed

lemma applyKeys_in_step:
  assumes usable: usable and step: "in_step (fl_link F) (tf_LoadLinkTrust I) m" "lm_anchored m"
  shows "in_step (fl_link F) (tf_LoadLinkTrust I) (snd (applyKeys F I raw m))"
proof (cases "ApplyLinkKeys (fl_link F) (lm_trust m) raw")
  case (Inl err)
  with assms show ?thesis by (simp add: applyKeys_def in_step_def Let_def split: sum.split)
next
  case (Inr nt)
  from link_step_wf [OF ApplyLinkKeys_step [OF Inr]] assms have wf: "wf_trust nt" by (simp add: in_step_def)
  obtain q st' where q: "tf_SaveLinkTrust I (trust_record (fl_link F) (lm_rootID m) nt) (lm_store m) = (q, st')" by fastforce
  show ?thesis
  proof (cases q)
    case (Inl e)
    with Inr q save_failed [OF usable q [unfolded Inl]] assms show ?thesis by (simp add: applyKeys_def in_step_def Let_def)
  next
    case i: (Inr u)
    from Inr q i save_done [OF usable q [unfolded i]] assms wf recorded_trust_record [OF wf] show ?thesis
      by (simp add: applyKeys_def in_step_def Let_def)
  qed
qed

lemma apply_entries_in_step:
  assumes usable: usable and step: "in_step (fl_link F) (tf_LoadLinkTrust I) m" "lm_anchored m"
  shows "in_step (fl_link F) (tf_LoadLinkTrust I) (snd (apply_entries F I now raw sq resync es m))"
proof -
  obtain rs err st' where b: "blacklist_entries I now es [] (lm_store m) = ((rs, err), st')" by (metis prod.collapse)
  note same = blacklist_entries_laws(1) [OF usable b]
  let ?nt = "(lm_trust m)\<lparr>at_LastSeq := sq\<rparr>"
  have wf: "wf_trust ?nt" using assms by (simp add: in_step_def wf_trust_def)
  obtain q st'' where q: "tf_SaveLinkTrust I (trust_record (fl_link F) (lm_rootID m) ?nt) st' = (q, st'')" by fastforce
  consider "\<exists>e. err = Some e" | "err = None" "resync" | e where "err = None" "\<not> resync" "q = Inl e" | u where "err = None" "\<not> resync" "q = Inr u"
    by (cases err; cases q) auto
  then show ?thesis
  proof cases
    case 3
    with b q same save_failed [OF usable q [unfolded 3(3)]] assms show ?thesis by (simp add: apply_entries_def in_step_def Let_def)
  next
    case 4
    with b q same save_done [OF usable q [unfolded 4(3)]] assms wf recorded_trust_record [OF wf] show ?thesis
      by (simp add: apply_entries_def in_step_def Let_def)
  qed (use b same assms in \<open>auto simp: apply_entries_def in_step_def Let_def\<close>)
qed

lemma HandleFrame_in_step:
  assumes usable: usable and step: "in_step (fl_link F) (tf_LoadLinkTrust I) m"
  shows "in_step (fl_link F) (tf_LoadLinkTrust I) (snd (HandleFrame F I now raw m))"
proof (cases "snd (HandleFrame F I now raw m) = m")
  case False
  have "in_step (fl_link F) (tf_LoadLinkTrust I) (snd (applyRevocations F I now raw m))" if "lm_anchored m"
    using apply_entries_in_step [OF assms that] step by (auto simp: applyRevocations_def split: sum.split prod.split)
  with HandleFrame_cases [OF False] applyKeys_in_step [OF assms] show ?thesis by metis
qed (simp add: assms)

lemma HandleFrame_keeps_listed:
  assumes usable: usable and known: "tf_IsLinkJTIBlacklisted I j (lm_store m)"
  shows "tf_IsLinkJTIBlacklisted I j (lm_store (snd (HandleFrame F I now raw m)))"
proof (cases "snd (HandleFrame F I now raw m) = m")
  case False
  have keys: "tf_IsLinkJTIBlacklisted I j (lm_store (snd (applyKeys F I raw m)))"
  proof (cases "ApplyLinkKeys (fl_link F) (lm_trust m) raw")
    case (Inr nt)
    with save_keeps [OF usable known, of "trust_record (fl_link F) (lm_rootID m) nt"] show ?thesis
      by (auto simp: applyKeys_def Let_def split: prod.split sum.split)
  qed (simp add: applyKeys_def Let_def assms split: sum.split)
  have entries: "tf_IsLinkJTIBlacklisted I j (lm_store (snd (apply_entries F I now raw sq resync es m)))" for sq resync es
  proof -
    obtain rs err st' where b: "blacklist_entries I now es [] (lm_store m) = ((rs, err), st')" by (metis prod.collapse)
    note listed' = blacklist_entries_laws(2) [OF usable b known]
    with b save_keeps [OF usable listed', of "trust_record (fl_link F) (lm_rootID m) ((lm_trust m)\<lparr>at_LastSeq := sq\<rparr>)"] show ?thesis
      by (auto simp: apply_entries_def Let_def split: prod.split sum.split option.split)
  qed
  then have "tf_IsLinkJTIBlacklisted I j (lm_store (snd (applyRevocations F I now raw m)))"
    using assms by (auto simp: applyRevocations_def split: sum.split prod.split)
  with HandleFrame_cases [OF False] keys show ?thesis by metis
qed (simp add: assms)

lemma applied_entries_listed:
  assumes usable: usable and run: "apply_entries F I now raw sq resync es m = ((res, None), m')" "e \<in> set es" "unix_time (lr_Exp e) > now"
  shows "tf_IsLinkJTIBlacklisted I (lr_JTI e) (lm_store m')"
proof -
  obtain rs err st' where b: "blacklist_entries I now es [] (lm_store m) = ((rs, err), st')" by (metis prod.collapse)
  with run have "err = None" by (auto simp: apply_entries_def Let_def split: option.splits)
  note listed' = blacklist_entries_laws(3) [OF usable b this assms(3,4)]
  with b \<open>err = None\<close> run save_keeps [OF usable listed', of "trust_record (fl_link F) (lm_rootID m) ((lm_trust m)\<lparr>at_LastSeq := sq\<rparr>)"]
  show ?thesis
    by (auto simp: apply_entries_def Let_def revocations_done_def split: prod.splits sum.splits if_splits)
qed

end

section \<open>The data store keeps the contract\<close>

text \<open>
  Other mutations may share the batch of a write. They are harmless when they leave the link trust alone and take
  nothing off the blacklist, as every store operation does but those of this component and the purge.
\<close>

definition spares_links :: "model \<Rightarrow> model \<Rightarrow> bool" where
  "spares_links m m' \<longleftrightarrow> Link_trust (payload m') = Link_trust (payload m) \<and> fmdom (Blacklist (payload m)) |\<subseteq>| fmdom (Blacklist (payload m'))"

definition harmless :: "mutation \<Rightarrow> bool" where
  "harmless fn \<longleftrightarrow> (\<forall>opts now work. spares_links work (fst (run_mutation opts now fn work)))"

definition calm :: "'g senv \<Rightarrow> bool" where
  "calm env \<longleftrightarrow> list_all (\<lambda>(_, fn). harmless fn) (sv_before env @ sv_after env) \<and>
     (case sv_userPiggy env of None \<Rightarrow> True | Some f \<Rightarrow> \<forall>p. Link_trust (f p) = Link_trust p \<and> Blacklist (f p) = Blacklist p)"

lemma spares_links_trans: "spares_links m m' \<Longrightarrow> spares_links m' m'' \<Longrightarrow> spares_links m m''"
  by (auto simp: spares_links_def)

lemma spares_links_refl [simp]: "spares_links m m"
  by (simp add: spares_links_def)

lemma harmless_batch: "list_all (\<lambda>(_, fn). harmless fn) batch \<Longrightarrow> spares_links work (fst (apply_batch opts batch work))"
proof (induction batch arbitrary: work)
  case (Cons x batch)
  obtain now fn where x: "x = (now, fn)" by (cases x)
  obtain w' err where r: "run_mutation opts now fn work = (w', err)" by fastforce
  have "spares_links work w'" using Cons.prems r unfolding x harmless_def by (metis (mono_tags, lifting) case_prod_conv fst_conv list.pred_inject(2))
  with Cons.IH [of w'] Cons.prems r show ?case
    by (auto simp: x split: prod.split intro: spares_links_trans)
qed simp

lemma apply_batch_split:
  assumes "apply_batch opts (b @ (now, fn) # a) work = (work', results)"
  shows "\<exists>w1 w2 r. fst (apply_batch opts b work) = w1 \<and> run_mutation opts now fn w1 = (w2, r) \<and>
    work' = fst (apply_batch opts a w2) \<and> results ! length b = r"
  using assms
proof (induction b arbitrary: work results)
  case Nil
  then show ?case by (auto split: prod.splits)
next
  case (Cons x b)
  obtain n f where x: "x = (n, f)" by (cases x)
  obtain w' err where r: "run_mutation opts n f work = (w', err)" by fastforce
  obtain work2 res2 where tail: "apply_batch opts (b @ (now, fn) # a) w' = (work2, res2)" by fastforce
  with Cons.prems r have eqs: "work' = work2" "results = err # res2" by (auto simp: x)
  from Cons.IH [of w' res2] tail r show ?case by (auto simp: x eqs split: prod.splits)
qed

lemma spares_links_next:
  assumes "calm env"
  shows "spares_links work (next_model (Some (store_piggyback env s)) work)"
  using assms by (auto simp: calm_def spares_links_def next_model_def piggybacked_def store_piggyback_def piggyback_def split: option.splits)

text \<open>A write of a calm store: the model before our mutation and the model after it differ from the published ones only harmlessly.\<close>

lemma mutate_calm:
  assumes "calm env" "tx_safe p" "mutate env p s = (r, s')"
  shows "case r of
      Inl e \<Rightarrow> spares_links (snap s) (snap s')
    | Inr x \<Rightarrow> (\<exists>opts w m'. spares_links (snap s) w \<and> run_mutation opts (sv_now env) (mutation_of p) w = (m', None) \<and> spares_links m' (snap s'))"
proof -
  let ?e = "st_eng s" and ?b = "sv_before env @ (sv_now env, mutation_of p) # sv_after env"
  let ?c = "commit (sv_lib env) (sv_guard env) (Some (store_piggyback env s)) ?e (sv_now env) ?b (st_fs s)"
  obtain results e' w' where c: "?c = ((results, e'), w')" by (metis prod.collapse)
  have len: "length (sv_before env) < length results"
    using commit_length [of "sv_lib env" "sv_guard env" "Some (store_piggyback env s)" ?e "sv_now env" ?b "st_fs s"] c by simp
  have snap': "snap s' = e_cur e'"
    using assms(3) c by (auto simp: mutate_def snap_def Snapshot_def Let_def split: option.splits)
  have answer: "results ! length (sv_before env) = None" if "r = Inr x" for x
    using assms(3) c that by (auto simp: mutate_def Let_def split: option.splits)
  consider (same) "e' = ?e" "list_all (\<lambda>r. r \<noteq> None) results"
    | (written) work where "apply_batch (e_opts ?e) ?b (e_cur ?e) = (work, results)" "e_cur e' = next_model (Some (store_piggyback env s)) work"
  proof (cases rule: commit_cases [of "sv_lib env" "sv_guard env" "Some (store_piggyback env s)" ?e "sv_now env" ?b "st_fs s"])
    case (written g w1 work res m' w2)
    with c write_batch_success [OF written(5)] that(2) [of work] show thesis by auto
  qed (use c that(1) in \<open>auto simp: list_all_iff failAllApplied_def split: option.splits\<close>)
  then show ?thesis
  proof cases
    case same
    then have "results ! length (sv_before env) \<noteq> None" using len by (auto simp: list_all_length)
    with answer have "\<exists>e. r = Inl e" by (cases r) auto
    with same snap' show ?thesis by (auto simp: snap_def Snapshot_def)
  next
    case (written work)
    from apply_batch_split [OF written(1)] obtain w1 w2 q where split: "fst (apply_batch (e_opts ?e) (sv_before env) (e_cur ?e)) = w1"
      "run_mutation (e_opts ?e) (sv_now env) (mutation_of p) w1 = (w2, q)" "work = fst (apply_batch (e_opts ?e) (sv_after env) w2)"
      "results ! length (sv_before env) = q" by blast
    have before: "spares_links (snap s) w1" and after: "spares_links w2 work"
      using harmless_batch [of "sv_before env" "e_cur ?e" "e_opts ?e"] harmless_batch [of "sv_after env" w2 "e_opts ?e"] assms(1) split(1,3)
      by (auto simp: calm_def snap_def Snapshot_def)
    have end_: "spares_links w2 (snap s')"
      using spares_links_trans [OF after spares_links_next [OF assms(1), of work s]] snap' written(2) by simp
    show ?thesis
    proof (cases r)
      case (Inr x)
      with answer split(2,4) before end_ show ?thesis by auto
    next
      case (Inl e)
      have "q \<noteq> None"
      proof
        assume "q = None"
        with split(2) have "\<exists>x. fst (p (newTx w1 (e_opts ?e) (sv_now env))) = Inr x"
          by (auto simp: run_mutation_def mutation_of_def Let_def split: prod.splits sum.splits option.splits)
        moreover have "r = fst (p (newTx w1 (e_opts ?e) (sv_now env)))"
          using assms(3) c split(1,4) \<open>q = None\<close> by (auto simp: mutate_def Let_def)
        ultimately show False using Inl by auto
      qed
      then have "w2 = w1" using run_mutation_error [OF safe_through [OF tx_safe_mutation [OF assms(2)]]] split(2) by blast
      with Inl before end_ show ?thesis by (auto intro: spares_links_trans)
    qed
  qed
qed

lemma run_SetLinkTrust:
  "run_mutation opts now (mutation_of (SetLinkTrust_tx lt)) w = (m', None) \<Longrightarrow>
     Link_trust (payload m') = lt \<and> Blacklist (payload m') = Blacklist (payload w)"
  by (auto simp: run_mutation_def mutation_of_def SetLinkTrust_tx_def tx_do_def SetLinkTrust_def newTx_def Let_def
      split: prod.splits sum.splits option.splits)

lemma run_putBlacklist:
  "run_mutation opts now (mutation_of (putBlacklist jti h reason at until)) w = (m', None) \<Longrightarrow>
     Link_trust (payload m') = Link_trust (payload w) \<and> fmdom (Blacklist (payload m')) = finsert jti (fmdom (Blacklist (payload w)))"
  by (auto simp: run_mutation_def mutation_of_def putBlacklist_def bindP_gets tx_do_def PutBlacklist_def put_def newTx_def ret_def Let_def
      Tx_Blacklisted_def fmdomI fmdom_notI split: prod.splits sum.splits option.splits if_splits)

lemma listed_iff: "IsLinkJTIBlacklisted j s \<longleftrightarrow> j |\<in>| fmdom (Blacklist (payload (snap s)))"
  by (auto simp: IsLinkJTIBlacklisted_def IsJTIBlacklisted_def Snap_Blacklisted_def fmlookup_dom_iff)

lemma Load_spared: "spares_links (snap s) (snap s') \<Longrightarrow> LoadLinkTrust s' = LoadLinkTrust s"
  by (simp add: LoadLinkTrust_def Snap_LinkTrust_def spares_links_def)

lemma spared_listed: "spares_links (snap s) (snap s') \<Longrightarrow> IsLinkJTIBlacklisted j s \<Longrightarrow> IsLinkJTIBlacklisted j s'"
  by (auto simp: listed_iff spares_links_def)

lemma SaveLinkTrust_effect:
  assumes "calm env" "SaveLinkTrust env r s = (q, s')"
  shows "case q of Inl e \<Rightarrow> spares_links (snap s) (snap s')
    | Inr _ \<Rightarrow> LoadLinkTrust s' = Inr r \<and> fmdom (Blacklist (payload (snap s))) |\<subseteq>| fmdom (Blacklist (payload (snap s')))"
proof -
  let ?lt = "\<lparr>tr_RootID = rec_RootID r, tr_CurrentPub = rec_CurrentPub r, tr_CurrentKID = rec_CurrentKID r,
     tr_PreviousPub = rec_PreviousPub r, tr_PreviousKID = rec_PreviousKID r, tr_Seq = rec_Seq r\<rparr>"
  have "tx_safe (SetLinkTrust_tx ?lt)" by (simp add: tx_safe_all)
  from mutate_calm [OF assms(1) this] assms(2) have m: "case q of
      Inl e \<Rightarrow> spares_links (snap s) (snap s')
    | Inr x \<Rightarrow> (\<exists>opts w m'. spares_links (snap s) w \<and> run_mutation opts (sv_now env) (mutation_of (SetLinkTrust_tx ?lt)) w = (m', None) \<and>
        spares_links m' (snap s'))"
    by (simp add: SaveLinkTrust_def Store_SetLinkTrust_def)
  show ?thesis
  proof (cases q)
    case (Inr u)
    with m obtain opts w m' where "spares_links (snap s) w" "spares_links m' (snap s')"
      "run_mutation opts (sv_now env) (mutation_of (SetLinkTrust_tx ?lt)) w = (m', None)" by auto
    with run_SetLinkTrust [of opts "sv_now env" ?lt w m'] Inr show ?thesis
      by (auto simp: spares_links_def LoadLinkTrust_def Snap_LinkTrust_def)
  qed (use m in simp)
qed

lemma BlacklistLinkJTI_effect:
  assumes "calm env" "BlacklistLinkJTI env j x s = (q, s')"
  shows "spares_links (snap s) (snap s')" "q = Inr u \<Longrightarrow> IsLinkJTIBlacklisted j s'"
proof -
  have "spares_links (snap s) (snap s') \<and> (\<forall>u. q = Inr u \<longrightarrow> IsLinkJTIBlacklisted j s')"
  proof (cases "sv_parseTime env (sv_formatTime env x)")
    case None
    with assms(2) show ?thesis by (auto simp: BlacklistLinkJTI_def AddToBlacklist_def raise_def)
  next
    case (Some exp)
    let ?p = "putBlacklist j [] ''link token revoked by the root'' (nowUTC env) exp"
    have "tx_safe ?p" by (rule tx_safe_putBlacklist)
    from mutate_calm [OF assms(1) this] assms(2) Some have m: "case q of
        Inl e \<Rightarrow> spares_links (snap s) (snap s')
      | Inr x \<Rightarrow> (\<exists>opts w m'. spares_links (snap s) w \<and> run_mutation opts (sv_now env) (mutation_of ?p) w = (m', None) \<and>
          spares_links m' (snap s'))"
      by (simp add: BlacklistLinkJTI_def AddToBlacklist_def)
    show ?thesis
    proof (cases q)
      case (Inr u)
      with m obtain opts w m' where "spares_links (snap s) w" "spares_links m' (snap s')"
        "run_mutation opts (sv_now env) (mutation_of ?p) w = (m', None)" by auto
      with run_putBlacklist [of opts "sv_now env" j "[]" "''link token revoked by the root''" "nowUTC env" exp w m'] Inr show ?thesis
        by (auto simp: spares_links_def listed_iff)
    qed (use m in simp)
  qed
  then show "spares_links (snap s) (snap s')" "q = Inr u \<Longrightarrow> IsLinkJTIBlacklisted j s'" by auto
qed

interpretation srv: link_store "server_trust env" "calm env"
proof
  fix r s u s'
  assume "calm env" "tf_SaveLinkTrust (server_trust env) r s = (Inr u, s')"
  then show "tf_LoadLinkTrust (server_trust env) s' = Inr r" using SaveLinkTrust_effect [of env r s "Inr u" s'] by (simp add: server_trust_def)
next
  fix r s e s'
  assume "calm env" "tf_SaveLinkTrust (server_trust env) r s = (Inl e, s')"
  then show "tf_LoadLinkTrust (server_trust env) s' = tf_LoadLinkTrust (server_trust env) s"
    using SaveLinkTrust_effect [of env r s "Inl e" s'] Load_spared by (auto simp: server_trust_def)
next
  fix j s r
  assume "calm env" "tf_IsLinkJTIBlacklisted (server_trust env) j s"
  then show "tf_IsLinkJTIBlacklisted (server_trust env) j (snd (tf_SaveLinkTrust (server_trust env) r s))"
    using SaveLinkTrust_effect [of env r s "fst (SaveLinkTrust env r s)" "snd (SaveLinkTrust env r s)"]
    by (auto simp: server_trust_def listed_iff spares_links_def split: sum.splits)
next
  fix j x s u s'
  assume "calm env" "tf_BlacklistLinkJTI (server_trust env) j x s = (Inr u, s')"
  then show "tf_IsLinkJTIBlacklisted (server_trust env) j s'" using BlacklistLinkJTI_effect(2) [of env j x s "Inr u" s' u] by (simp add: server_trust_def)
next
  fix j s i x
  assume "calm env" "tf_IsLinkJTIBlacklisted (server_trust env) j s"
  then show "tf_IsLinkJTIBlacklisted (server_trust env) j (snd (tf_BlacklistLinkJTI (server_trust env) i x s))"
    using BlacklistLinkJTI_effect(1) [of env i x s "fst (BlacklistLinkJTI env i x s)" "snd (BlacklistLinkJTI env i x s)"] spared_listed
    by (auto simp: server_trust_def)
next
  fix i x s
  assume "calm env"
  then show "tf_LoadLinkTrust (server_trust env) (snd (tf_BlacklistLinkJTI (server_trust env) i x s)) = tf_LoadLinkTrust (server_trust env) s"
    using BlacklistLinkJTI_effect(1) [of env i x s "fst (BlacklistLinkJTI env i x s)" "snd (BlacklistLinkJTI env i x s)"] Load_spared
    by (simp add: server_trust_def)
qed

section \<open>Properties\<close>

text \<open>
  C29. Handling frames refines the chain of trust. Whatever frames arrive, whatever the storage answers, the trust only
  moves along steps signed by the key trusted before: to a new key that key vouches for, to the end of a rotation,
  or to a newer counter; the counter never goes back. Without an anchor no frame changes anything.
\<close>

theorem link_trust_follows_chain:
  "(link_step (fl_link F))\<^sup>*\<^sup>* (lm_trust m) (lm_trust (run_frames F frames m)) \<and>
   at_LastSeq (lm_trust m) \<le> at_LastSeq (lm_trust (run_frames F frames m)) \<and>
   (lm_anchored m \<or> run_frames F frames m = m)"
  using run_frames_chain link_chain_seq run_frames_unanchored by blast

lemma decodeRecordKeys_wf:
  "decodeRecordKeys L r = Inr (cur, prev) \<Longrightarrow> wf_trust \<lparr>at_Current = cur, at_Previous = prev, at_LastSeq = sq\<rparr>"
  by (auto simp: decodeRecordKeys_def decode_key_def wf_trust_def split: option.splits if_splits)

context link_store
begin

lemma NewLinkTrust_in_step:
  assumes usable: usable and new: "NewLinkTrust L I cfg s = (Inr m, s')"
  shows "in_step L (tf_LoadLinkTrust I) m"
proof -
  obtain r where r: "tf_LoadLinkTrust I s = Inr r" using new by (auto simp: NewLinkTrust_def split: sum.splits)
  show ?thesis
  proof (cases "TrustRecord_IsZero r")
    case False
    from new r False obtain cur prev where d: "decodeRecordKeys L r = Inr (cur, prev)"
      by (auto simp: NewLinkTrust_def Let_def split: sum.splits if_splits)
    let ?t = "\<lparr>at_Current = cur, at_Previous = prev, at_LastSeq = rec_Seq r\<rparr>"
    let ?root = "if cf_RootID cfg = [] then rec_RootID r else cf_RootID cfg"
    from new r False d have "m = fresh_trust ?root ?t (?root \<noteq> []) s" "rec_RootID r = [] \<or> rec_RootID r = ?root"
      by (auto simp: NewLinkTrust_def Let_def split: if_splits)
    with r False d decodeRecordKeys_wf [OF d, of "rec_Seq r"] show ?thesis by (auto simp: in_step_def fresh_trust_def recorded_def)
  next
    case True
    show ?thesis
    proof (cases "cf_Anchor cfg")
      case None
      with new r True show ?thesis by (auto simp: NewLinkTrust_def fresh_trust_def in_step_def)
    next
      case (Some a)
      let ?t = "zero_trust\<lparr>at_Current := a\<rparr>"
      have rec: "TrustRecord_zero\<lparr>rec_RootID := cf_RootID cfg, rec_CurrentPub := url_encode a, rec_CurrentKID := LinkKID L a\<rparr> =
          trust_record L (cf_RootID cfg) ?t"
        by (simp add: TrustRecord_zero_def trust_record_def zero_trust_def prevKID_def)
      obtain u where save: "tf_SaveLinkTrust I (TrustRecord_zero\<lparr>rec_RootID := cf_RootID cfg, rec_CurrentPub := url_encode a,
          rec_CurrentKID := LinkKID L a\<rparr>) s = (Inr u, s')" and a: "length a = PublicKeySize" "cf_RootID cfg \<noteq> []"
        and m: "m = fresh_trust (cf_RootID cfg) ?t True s'"
        using new r True Some by (auto simp: NewLinkTrust_def split: prod.splits sum.splits if_splits)
      have "wf_trust ?t" using a by (simp add: wf_trust_def zero_trust_def)
      with save_done [OF usable save [unfolded rec]] recorded_trust_record a(2) show ?thesis by (auto simp: m in_step_def fresh_trust_def)
    qed
  qed
qed

end

lemma restart_same:
  assumes "in_step L (tf_LoadLinkTrust I) m" "lm_anchored m"
  shows "NewLinkTrust L I \<lparr>cf_RootID = lm_rootID m, cf_Anchor = None\<rparr> (lm_store m) =
    (Inr (fresh_trust (lm_rootID m) (lm_trust m) True (lm_store m)), lm_store m)"
  using assms by (cases "lm_trust m") (auto simp: in_step_def recorded_def NewLinkTrust_def Let_def)

text \<open>Frames as the server handles them: the trust is kept in the data store, whose surroundings differ from call to call.\<close>

definition server_frames :: "('g senv \<times> gotime \<times> string) list \<Rightarrow> ('g store trust_if \<times> gotime \<times> string) list" where
  "server_frames calls = map (\<lambda>(env, now, raw). (server_trust env, now, raw)) calls"

lemma server_frames_in_step:
  assumes "list_all (\<lambda>(env, _). calm env) calls" "in_step (fl_link F) LoadLinkTrust m"
  shows "in_step (fl_link F) LoadLinkTrust (run_frames F (server_frames calls) m)"
  using assms
proof (induction calls arbitrary: m)
  case (Cons c calls)
  obtain env now raw where c: "c = (env, now, raw)" by (cases c)
  have ld: "tf_LoadLinkTrust (server_trust env) = LoadLinkTrust" by (simp add: server_trust_def)
  show ?case using Cons srv.HandleFrame_in_step [of env F m now raw] by (simp add: server_frames_def c ld)
qed (simp add: server_frames_def)

text \<open>
  Memory and store agree. After a start and any sequence of frames, failed writes included, the record that the
  store publishes yields exactly the keys, the counter and the root that the relay holds in memory. This is about the
  published state of the store, not about a restart from the disk: a write that fails after its rename has left its
  record in the file.
\<close>

theorem link_trust_matches_store:
  assumes "NewLinkTrust (fl_link F) (server_trust env) cfg s = (Inr m, s')" "calm env" "lm_anchored m"
    and "list_all (\<lambda>(env, _). calm env) calls"
  shows "case run_frames F (server_frames calls) m of m' \<Rightarrow>
    NewLinkTrust (fl_link F) (server_trust env') \<lparr>cf_RootID = lm_rootID m', cf_Anchor = None\<rparr> (lm_store m') =
      (Inr (fresh_trust (lm_rootID m') (lm_trust m') True (lm_store m')), lm_store m')"
proof -
  have ld: "tf_LoadLinkTrust (server_trust e) = LoadLinkTrust" for e :: "'a senv" by (simp add: server_trust_def)
  have "in_step (fl_link F) LoadLinkTrust m" using srv.NewLinkTrust_in_step [OF assms(2,1)] by (simp add: ld)
  from server_frames_in_step [OF assms(4) this] have step: "in_step (fl_link F) LoadLinkTrust (run_frames F (server_frames calls) m)" .
  have "lm_anchored (run_frames F fs m')  = lm_anchored m'" for fs :: "('a store trust_if \<times> gotime \<times> string) list" and m'
    by (rule run_frames_anchored)
  with restart_same [of "fl_link F" "server_trust env'"] step assms(3) show ?thesis by (simp add: ld)
qed

definition ex_frames :: FrameLib where
  "ex_frames = \<lparr>fl_link = ex_links,
     json_type = (\<lambda>s. if s = ''rot'' then Some ''link_keys'' else if s = ''revs'' then Some ''link_revocations'' else None),
     json_seq = (\<lambda>s. if s = ''rot'' then Some 4 else if s = ''revs'' then Some 5 else None),
     json_announce = (\<lambda>s. if s = ''rot'' then Some (km_CurrentPub ex_rotation, km_CurrentKID ex_rotation) else None),
     json_entries = (\<lambda>s. if s = ''revs'' then rm_Entries ex_revocations else [])\<rparr>"

text \<open>A store whose writes succeed.\<close>

definition ex_tenv :: "unit senv" where
  "ex_tenv = ex_senv\<lparr>sv_lib := ex_lib\<lparr>marshal_payload := (\<lambda>_. Inr ''p''), marshal_envelope := (\<lambda>_. Inr ''e'')\<rparr>,
     sv_parseTime := (\<lambda>_. Some (90 * second))\<rparr>"

definition ex_pin :: LinkTrustConfig where
  "ex_pin = \<lparr>cf_RootID = ''root'', cf_Anchor = Some (ex_pub CHR ''a'')\<rparr>"

definition ex_pinned :: "unit store LinkTrustM" where
  "ex_pinned = fresh_trust ''root'' (zero_trust\<lparr>at_Current := ex_pub CHR ''a''\<rparr>) True
     (snd (NewLinkTrust ex_links (server_trust ex_tenv) ex_pin ex_store))"

lemma ex_tenv_calm: "calm ex_tenv"
  by (simp add: calm_def ex_tenv_def ex_senv_def)

lemma ex_pinned_start:
  "NewLinkTrust ex_links (server_trust ex_tenv) ex_pin ex_store = (Inr ex_pinned, snd (NewLinkTrust ex_links (server_trust ex_tenv) ex_pin ex_store))"
proof -
  have "\<not> isl (fst (NewLinkTrust ex_links (server_trust ex_tenv) ex_pin ex_store))" by code_simp
  moreover have "TrustRecord_IsZero \<lparr>rec_RootID = [], rec_CurrentPub = [], rec_CurrentKID = [], rec_PreviousPub = [], rec_PreviousKID = [], rec_Seq = 0\<rparr>"
    by (simp add: TrustRecord_IsZero_def TrustRecord_zero_def)
  moreover have "LoadLinkTrust ex_store =
      Inr \<lparr>rec_RootID = [], rec_CurrentPub = [], rec_CurrentKID = [], rec_PreviousPub = [], rec_PreviousKID = [], rec_Seq = 0\<rparr>"
    by (simp add: LoadLinkTrust_def ex_store_def newStore_def snap_def Snapshot_def ex_engine_def raw_model_def newPayload_def Snap_LinkTrust_def
        LinkTrust_zero_def Let_def)
  ultimately show ?thesis
    by (auto simp: ex_pinned_def NewLinkTrust_def ex_pin_def server_trust_def split: prod.splits sum.splits)
qed

theorem link_trust_matches_store_witness:
  "case run_frames ex_frames (server_frames [(ex_tenv, 0, ''rot''), (ex_tenv, 0, ''revs'')]) ex_pinned of m' \<Rightarrow>
    NewLinkTrust ex_links (server_trust ex_tenv) \<lparr>cf_RootID = lm_rootID m', cf_Anchor = None\<rparr> (lm_store m') =
      (Inr (fresh_trust (lm_rootID m') (lm_trust m') True (lm_store m')), lm_store m')"
proof -
  have "fl_link ex_frames = ex_links" "lm_anchored ex_pinned" "list_all (\<lambda>(env, _). calm env) [(ex_tenv, 0, ''rot''), (ex_tenv, 0, ''revs'')]"
    by (simp_all add: ex_frames_def ex_pinned_def fresh_trust_def ex_tenv_calm)
  with link_trust_matches_store [of ex_frames ex_tenv ex_pin ex_store ex_pinned, OF _ ex_tenv_calm] ex_pinned_start
  show ?thesis by metis
qed

lemma apply_entries_answer: "frame_answer (apply_entries F I now raw sq resync es m) = apply_entries F I now raw sq resync es m"
  by (auto simp: apply_entries_def frame_answer_def benign_def revocations_done_def Let_def split: prod.split sum.split option.split)

lemma server_frames_keep_listed:
  assumes "list_all (\<lambda>(env, _). calm env) calls" "IsLinkJTIBlacklisted j (lm_store m)"
  shows "IsLinkJTIBlacklisted j (lm_store (run_frames F (server_frames calls) m))"
  using assms
proof (induction calls arbitrary: m)
  case (Cons c calls)
  obtain env now raw where c: "c = (env, now, raw)" by (cases c)
  have bl: "tf_IsLinkJTIBlacklisted (server_trust env) = IsLinkJTIBlacklisted" by (simp add: server_trust_def)
  show ?case using Cons srv.HandleFrame_keeps_listed [of env j m F now raw] by (simp add: server_frames_def c bl)
qed (simp add: server_frames_def)

text \<open>
  C30. A revocation reaches the tokens. Once a relay has applied a revocation list, a link token that the list names
  and that was not yet expired is not accepted after any further frames, as long as only frames are handled and
  the store writes of the list and of these frames share their batches with nothing that purges the blacklist or
  changes the link trust. A purge may drop the only entry of a token that is still valid, because an entry with an
  earlier expiry is kept as it is.
\<close>

theorem revoked_link_token_refused:
  assumes "HandleFrame F (server_trust env) now raw m = ((res, None), m')" "fr_Applied res" "calm env"
    and "json_type F raw = Some ''link_revocations''" "json_revs (fl_link F) raw = Some msg" "json_entries F raw = rm_Entries msg"
    and "e \<in> set (rm_Entries msg)" "unix_time (lr_Exp e) > now" "list_all (\<lambda>(env, _). calm env) calls"
    and "VerifyToken (fl_link F) (server_trust env') (run_frames F (server_frames calls) m') token localID role now' = Inr c"
  shows "c_JTI c \<noteq> lr_JTI e"
proof -
  from assms(1,2,4) have anch: "lm_anchored m" and ans: "frame_answer (applyRevocations F (server_trust env) now raw m) = ((res, None), m')"
    by (auto simp: HandleFrame_def FrameResult_zero_def split: if_splits)
  have "\<exists>sq resync. apply_entries F (server_trust env) now raw sq resync (rm_Entries msg) m = ((res, None), m')"
  proof (cases "VerifyLinkRevocations (fl_link F) (lm_trust m) raw")
    case (Inl err)
    show ?thesis
    proof (cases "le_Code err \<noteq> LinkErrMsgSeq \<or> json_seq F raw \<noteq> Some (at_LastSeq (lm_trust m))")
      case True
      with Inl ans assms(2) show ?thesis by (auto simp: applyRevocations_def frame_answer_def frame_start_def)
    next
      case False
      with Inl ans assms(6) show ?thesis by (auto simp: applyRevocations_def apply_entries_answer)
    qed
  next
    case (Inr x)
    then have "snd x = rm_Entries msg" using assms(5) by (auto simp: VerifyLinkRevocations_def split: if_splits option.splits)
    with Inr ans show ?thesis by (cases x) (auto simp: applyRevocations_def apply_entries_answer)
  qed
  then have "tf_IsLinkJTIBlacklisted (server_trust env) (lr_JTI e) (lm_store m')"
    using srv.applied_entries_listed [OF assms(3)] assms(7,8) by blast
  then have "IsLinkJTIBlacklisted (lr_JTI e) (lm_store (run_frames F (server_frames calls) m'))"
    using server_frames_keep_listed [OF assms(9)] by (simp add: server_trust_def)
  moreover have "\<not> IsLinkJTIBlacklisted (c_JTI c) (lm_store (run_frames F (server_frames calls) m'))"
    using VerifyLinkToken_Inr [OF assms(10) [unfolded VerifyToken_def]] by (auto simp: check_claims_Inr server_trust_def)
  ultimately show ?thesis by metis
qed

definition ex_rotated :: "unit store LinkTrustM" where
  "ex_rotated = fresh_trust ''root'' \<lparr>at_Current = ex_pub CHR ''b'', at_Previous = Some (ex_pub CHR ''a''), at_LastSeq = 4\<rparr> True ex_store"

definition ex_listed :: "unit store LinkTrustM" where
  "ex_listed = snd (HandleFrame ex_frames (server_trust ex_tenv) 0 ''revs'' ex_rotated)"

definition ex_blacklisted :: "unit store" where
  "ex_blacklisted = snd (BlacklistLinkJTI ex_tenv ''j1'' (unix_time 90) ex_store)"

definition ex_newTrust :: auth_trust where
  "ex_newTrust = \<lparr>at_Current = ex_pub CHR ''b'', at_Previous = Some (ex_pub CHR ''a''), at_LastSeq = 5\<rparr>"

lemma ex_writes:
  "fst (BlacklistLinkJTI ex_tenv ''j1'' (unix_time 90) ex_store) = Inr ()" "\<not> IsLinkJTIBlacklisted ''j1'' ex_store"
  "fst (SaveLinkTrust ex_tenv (trust_record ex_links ''root'' ex_newTrust) ex_blacklisted) = Inr ()"
  by code_simp+

lemma ex_revs_verified:
  "VerifyLinkRevocations ex_links (lm_trust ex_rotated) ''revs'' = Inr (5, [\<lparr>lr_JTI = ''j1'', lr_Exp = 90\<rparr>])"
proof -
  have "SignLinkRevocations ex_links (ex_priv CHR ''b'') 5 [\<lparr>lr_JTI = ''j1'', lr_Exp = 90\<rparr>] = Inr ''revs''"
    by (simp add: SignLinkRevocations_def checkEntries_def maxLinkEntries_def) (simp add: ex_revocations_def ex_links_def)
  from VerifyLinkRevocations_signed [OF ex_links_laws(1,2) this, of "lm_trust ex_rotated"] show ?thesis
    by (simp add: ex_rotated_def fresh_trust_def maxLinkMessageLen_def)
qed

lemma ex_listed_run:
  "\<exists>res. HandleFrame ex_frames (server_trust ex_tenv) 0 ''revs'' ex_rotated = ((res, None), ex_listed) \<and> fr_Applied res"
proof -
  have "(90 :: int) > 0 \<and> unix_time 90 > 0" by (simp add: unix_time_def second_def)
  then have bl: "blacklist_entries (server_trust ex_tenv) 0 [\<lparr>lr_JTI = ''j1'', lr_Exp = 90\<rparr>] [] ex_store = (([''j1''], None), ex_blacklisted)"
    using ex_writes(1,2) by (auto simp: server_trust_def ex_blacklisted_def split: prod.split)
  obtain s2 where save: "SaveLinkTrust ex_tenv (trust_record ex_links ''root'' ex_newTrust) ex_blacklisted = (Inr (), s2)"
    using ex_writes(3) by (metis prod.collapse)
  have "\<exists>res m'. apply_entries ex_frames (server_trust ex_tenv) 0 ''revs'' 5 False [\<lparr>lr_JTI = ''j1'', lr_Exp = 90\<rparr>] ex_rotated = ((res, None), m') \<and>
      fr_Applied res"
    using bl save by (simp add: apply_entries_def ex_rotated_def fresh_trust_def Let_def revocations_done_def ex_newTrust_def ex_frames_def server_trust_def)
  then obtain res m' where run: "apply_entries ex_frames (server_trust ex_tenv) 0 ''revs'' 5 False [\<lparr>lr_JTI = ''j1'', lr_Exp = 90\<rparr>] ex_rotated =
      ((res, None), m')" "fr_Applied res" by blast
  have "fl_link ex_frames = ex_links" "json_type ex_frames ''revs'' = Some ''link_revocations''" "lm_anchored ex_rotated"
    by (simp_all add: ex_frames_def ex_rotated_def fresh_trust_def)
  with run ex_revs_verified have "HandleFrame ex_frames (server_trust ex_tenv) 0 ''revs'' ex_rotated = ((res, None), m')"
    by (simp add: HandleFrame_def maxLinkFrameLen_def applyRevocations_def frame_answer_def)
  with run(2) show ?thesis by (simp add: ex_listed_def)
qed

theorem revoked_link_token_refused_witness:
  "case VerifyToken ex_links (server_trust ex_tenv) (run_frames ex_frames (server_frames [(ex_tenv, 1, ''rot'')]) ex_listed) ''tok'' ''east''
     RoleRelayChild (10 * second) of Inl _ \<Rightarrow> True | Inr c \<Rightarrow> c_JTI c \<noteq> ''j1''"
proof -
  obtain res where run: "HandleFrame ex_frames (server_trust ex_tenv) 0 ''revs'' ex_rotated = ((res, None), ex_listed)" "fr_Applied res"
    using ex_listed_run by blast
  have facts: "json_type ex_frames ''revs'' = Some ''link_revocations''" "json_revs (fl_link ex_frames) ''revs'' = Some ex_revocations"
    "json_entries ex_frames ''revs'' = rm_Entries ex_revocations" "\<lparr>lr_JTI = ''j1'', lr_Exp = 90\<rparr> \<in> set (rm_Entries ex_revocations)"
    "unix_time (lr_Exp \<lparr>lr_JTI = ''j1'', lr_Exp = 90\<rparr>) > 0" "list_all (\<lambda>(env, _). calm env) [(ex_tenv, 1, ''rot'')]" "fl_link ex_frames = ex_links"
    by (simp_all add: ex_frames_def ex_links_def ex_revocations_def ex_tenv_calm unix_time_def second_def)
  from revoked_link_token_refused [OF run ex_tenv_calm facts(1-6), of ex_tenv "''tok''" "''east''" RoleRelayChild "10 * second"]
  show ?thesis by (simp add: facts(7) split: sum.split)
qed

end
