(* ===== verification/Dial_Policy.thy ===== *)
theory Dial_Policy
  imports Prelude
begin

unbundle bit_operations_syntax

text \<open>
  The guard of the outgoing relay links (\<open>internal/repeater\<close>: \<open>dialtarget.go\<close>, \<open>dialpolicy.go\<close>, \<open>dialguard.go\<close>): which
  addresses a relay may dial, checked on every address a name resolves to at the moment of the connection.

  A \<open>net.IP\<close> is its list of bytes, 4 or 16 of them; the predicates of the package \<open>net\<close> on addresses are defined
  here. The parsers of textual addresses and networks, the resolver and the dialler are parameters (\<open>NetLib\<close>).
\<close>

section \<open>Addresses\<close>

type_synonym ip = "8 word list"

definition v4InV6Prefix :: "8 word list" where
  "v4InV6Prefix = [0, 0, 0, 0, 0, 0, 0, 0, 0, 0, 0xff, 0xff]"

definition To4 :: "ip \<Rightarrow> ip option" where
  "To4 a =
     (if length a = 4 then Some a
      else if length a = 16 \<and> take 12 a = v4InV6Prefix then Some (drop 12 a)
      else None)"

definition v4_in_v6 :: "ip \<Rightarrow> ip" where
  "v4_in_v6 a = v4InV6Prefix @ a"

definition ip_Equal :: "ip \<Rightarrow> ip \<Rightarrow> bool" where
  "ip_Equal a b =
     (if length a = length b then a = b
      else if length a = 4 \<and> length b = 16 then b = v4_in_v6 a
      else if length a = 16 \<and> length b = 4 then a = v4_in_v6 b
      else False)"

definition IPv6loopback :: ip where "IPv6loopback = [0, 0, 0, 0, 0, 0, 0, 0, 0, 0, 0, 0, 0, 0, 0, 1]"
definition IPv6zero :: ip where "IPv6zero = [0, 0, 0, 0, 0, 0, 0, 0, 0, 0, 0, 0, 0, 0, 0, 0]"
definition IPv4zero :: ip where "IPv4zero = [0, 0, 0, 0]"
definition IPv4bcast :: ip where "IPv4bcast = [255, 255, 255, 255]"

definition IsLoopback :: "ip \<Rightarrow> bool" where
  "IsLoopback a = (case To4 a of Some v \<Rightarrow> v ! 0 = 127 | None \<Rightarrow> ip_Equal a IPv6loopback)"

definition IsUnspecified :: "ip \<Rightarrow> bool" where
  "IsUnspecified a \<longleftrightarrow> ip_Equal a IPv4zero \<or> ip_Equal a IPv6zero"

definition IsMulticast :: "ip \<Rightarrow> bool" where
  "IsMulticast a = (case To4 a of Some v \<Rightarrow> v ! 0 AND 0xf0 = 0xe0 | None \<Rightarrow> length a = 16 \<and> a ! 0 = 0xff)"

definition IsInterfaceLocalMulticast :: "ip \<Rightarrow> bool" where
  "IsInterfaceLocalMulticast a \<longleftrightarrow> length a = 16 \<and> a ! 0 = 0xff \<and> a ! 1 AND 0x0f = 1"

definition IsLinkLocalMulticast :: "ip \<Rightarrow> bool" where
  "IsLinkLocalMulticast a =
     (case To4 a of
        Some v \<Rightarrow> v ! 0 = 224 \<and> v ! 1 = 0 \<and> v ! 2 = 0
      | None \<Rightarrow> length a = 16 \<and> a ! 0 = 0xff \<and> a ! 1 AND 0x0f = 2)"

definition IsLinkLocalUnicast :: "ip \<Rightarrow> bool" where
  "IsLinkLocalUnicast a =
     (case To4 a of
        Some v \<Rightarrow> v ! 0 = 169 \<and> v ! 1 = 254
      | None \<Rightarrow> length a = 16 \<and> a ! 0 = 0xfe \<and> a ! 1 AND 0xc0 = 0x80)"

text \<open>\<open>net.IPNet\<close> and its \<open>Contains\<close>; a mask of another length than its address holds nothing.\<close>

record IPNet =
  n_IP :: ip
  n_Mask :: "8 word list"

definition networkNumberAndMask :: "IPNet \<Rightarrow> (ip \<times> 8 word list) option" where
  "networkNumberAndMask n =
     (case (case To4 (n_IP n) of Some v \<Rightarrow> Some v | None \<Rightarrow> if length (n_IP n) = 16 then Some (n_IP n) else None) of
        None \<Rightarrow> None
      | Some a \<Rightarrow>
          if length (n_Mask n) = length a then Some (a, n_Mask n)
          else if length (n_Mask n) = 16 \<and> length a = 4 then Some (a, drop 12 (n_Mask n))
          else None)"

definition net_Contains :: "IPNet \<Rightarrow> ip \<Rightarrow> bool" where
  "net_Contains n a =
     (case networkNumberAndMask n of
        None \<Rightarrow> False
      | Some (nn, m) \<Rightarrow>
          let x = (case To4 a of Some v \<Rightarrow> v | None \<Rightarrow> a) in
          length x = length nn \<and> list_all2 (\<lambda>(p, q) r. p AND q = r AND q) (zip nn m) x)"

section \<open>Built-in prohibitions\<close>

definition metadataV4 :: "ip list" where
  "metadataV4 = [[100, 100, 100, 200], [168, 63, 129, 16], [192, 0, 0, 192]]"

definition metadataV6 :: ip where
  "metadataV6 = [0xfd, 0, 0x0e, 0xc2, 0, 0, 0, 0, 0, 0, 0, 0, 0, 0, 0x02, 0x54]"

definition allZero :: "8 word list \<Rightarrow> bool" where
  "allZero b = list_all (\<lambda>x. x = 0) b"

text \<open>The switch of \<open>internalReason\<close>, the part for an IPv4 address, and the embedded IPv4 address of an IPv6 one.\<close>

definition reason_class :: "ip \<Rightarrow> string option" where
  "reason_class a =
     (if IsLoopback a then Some ''loopback''
      else if IsUnspecified a then Some ''unspecified''
      else if IsLinkLocalUnicast a \<or> IsLinkLocalMulticast a \<or> IsInterfaceLocalMulticast a then Some ''link-local''
      else if IsMulticast a then Some ''multicast''
      else None)"

definition reason_v4 :: "ip \<Rightarrow> string" where
  "reason_v4 v =
     (case reason_class v of
        Some w \<Rightarrow> w
      | None \<Rightarrow>
          if v ! 0 = 0 then ''non routable (0.0.0.0/8)''
          else if list_ex (\<lambda>m. ip_Equal v m) metadataV4 then ''cloud metadata''
          else [])"

definition embedded_v4 :: "ip \<Rightarrow> ip option" where
  "embedded_v4 a =
     (if a ! 0 = 0 \<and> a ! 1 = 0x64 \<and> a ! 2 = 0xff \<and> a ! 3 = 0x9b \<and> allZero (take 8 (drop 4 a)) then Some (drop 12 a)
      else if a ! 0 = 0x20 \<and> a ! 1 = 0x02 then Some (take 4 (drop 2 a))
      else None)"

definition internalReason :: "ip \<Rightarrow> string" where
  "internalReason a =
     (case To4 a of
        Some v \<Rightarrow> reason_v4 v
      | None \<Rightarrow>
          (case reason_class a of
             Some w \<Rightarrow> w
           | None \<Rightarrow>
               if ip_Equal a metadataV6 then ''cloud metadata''
               else if length a = 16 then
                 (case embedded_v4 a of
                    None \<Rightarrow> []
                  | Some e \<Rightarrow> if reason_v4 e \<noteq> [] then reason_v4 e @ '' (embedded in an IPv6 transition address)'' else [])
               else []))"

section \<open>The policy\<close>

record DialPolicy =
  dp_allowLoopback :: bool
  dp_deny :: "IPNet list"
  dp_allow :: "IPNet list"

definition CategoryBuiltin :: string where "CategoryBuiltin = ''builtin''"
definition CategoryLoopback :: string where "CategoryLoopback = ''loopback''"
definition CategoryDeny :: string where "CategoryDeny = ''deny''"
definition CategoryNotAllowed :: string where "CategoryNotAllowed = ''not_allowed''"

definition inNets :: "IPNet list \<Rightarrow> ip \<Rightarrow> bool" where
  "inNets l a = list_ex (\<lambda>n. net_Contains n a) l"

definition refusal :: "DialPolicy \<Rightarrow> ip \<Rightarrow> string \<times> string" where
  "refusal p addr =
     (let a = (case To4 addr of Some v \<Rightarrow> v | None \<Rightarrow> addr); w = internalReason a in
      if w \<noteq> [] \<and> \<not> has_prefix w ''loopback'' then (CategoryBuiltin, w)
      else if ip_Equal a IPv4bcast then (CategoryBuiltin, ''broadcast'')
      else if has_prefix w ''loopback'' \<and> \<not> dp_allowLoopback p
      then (CategoryLoopback, ''loopback (set REPEATER_DIAL_ALLOW_LOOPBACK=true to allow it)'')
      else if inNets (dp_deny p) a then (CategoryDeny, ''denied by REPEATER_DIAL_DENY_CIDRS'')
      else if dp_allow p \<noteq> [] \<and> \<not> inNets (dp_allow p) a then (CategoryNotAllowed, ''not in REPEATER_DIAL_ALLOW_CIDRS'')
      else ([], []))"

definition Category :: "DialPolicy \<Rightarrow> ip \<Rightarrow> string" where
  "Category p a = fst (refusal p a)"

section \<open>Configuration\<close>

text \<open>\<open>strings.Split\<close> by one character.\<close>

fun split_on :: "char \<Rightarrow> string \<Rightarrow> string list" where
  "split_on c [] = [[]]"
| "split_on c (x # xs) = (if x = c then [] # split_on c xs else case split_on c xs of [] \<Rightarrow> [[x]] | w # ws \<Rightarrow> (x # w) # ws)"

text \<open>The bits of a mask, most significant first, and \<open>IPMask.Size\<close> (0 for a mask that is not ones then zeros).\<close>

definition mask_bits :: "8 word list \<Rightarrow> bool list" where
  "mask_bits m = concat (map (\<lambda>w. map (\<lambda>i. bit w i) [7, 6, 5, 4, 3, 2, 1, 0]) m)"

definition mask_ones :: "8 word list \<Rightarrow> nat" where
  "mask_ones m = (let bs = mask_bits m in if list_ex (\<lambda>b. b) (dropWhile (\<lambda>b. b) bs) then 0 else length (takeWhile (\<lambda>b. b) bs))"

record NetLib =
  nl_ParseIP :: "string \<Rightarrow> ip option"
  nl_ParseCIDR :: "string \<Rightarrow> (ip \<times> IPNet) option"
  nl_SplitHostPort :: "string \<Rightarrow> (string \<times> string) option"
  nl_lookupIP :: "string \<Rightarrow> ip list res"
  nl_socket :: "ip \<Rightarrow> string \<Rightarrow> string"
  nl_connect :: "string \<Rightarrow> bool"
  nl_ctxErr :: "string \<Rightarrow> bool"

definition maxDialPolicyEntries :: nat where "maxDialPolicyEntries = 256"

definition has_space :: "string \<Rightarrow> bool" where
  "has_space e = list_ex (\<lambda>c. of_char c \<in> {32, 9, 13, 10 :: nat}) e"

text \<open>The loop of \<open>parseCIDRList\<close>; the text of a network, the key of the duplicates, is determined by its number and mask.\<close>

fun parse_cidrs :: "NetLib \<Rightarrow> string list \<Rightarrow> IPNet list \<Rightarrow> IPNet list res" where
  "parse_cidrs N [] out = Inr out"
| "parse_cidrs N (e # es) out =
     (if e = [] \<or> has_space e then Inl [ErrText ''empty or contains whitespace'']
      else case nl_ParseCIDR N e of
        None \<Rightarrow> Inl [ErrText ''not a valid CIDR'']
      | Some (a, net) \<Rightarrow>
          if mask_ones (n_Mask net) = 0 then Inl [ErrText ''a /0 prefix is forbidden'']
          else if \<not> ip_Equal a (n_IP net) then Inl [ErrText ''not canonical (host bits set)'']
          else if list_ex (\<lambda>n. networkNumberAndMask n = networkNumberAndMask net) out then Inl [ErrText ''duplicate'']
          else if length (out @ [net]) > maxDialPolicyEntries then Inl [ErrText ''too many entries'']
          else parse_cidrs N es (out @ [net]))"

definition parseCIDRList :: "NetLib \<Rightarrow> string \<Rightarrow> IPNet list res" where
  "parseCIDRList N s = (if s = [] then Inr [] else parse_cidrs N (split_on (CHR '','') s) [])"

definition ParseDialPolicy :: "NetLib \<Rightarrow> bool \<Rightarrow> string \<Rightarrow> string \<Rightarrow> DialPolicy res" where
  "ParseDialPolicy N allowLoopback deny allow =
     and_then (parseCIDRList N deny) (\<lambda>d. and_then (parseCIDRList N allow) (\<lambda>a.
       Inr \<lparr>dp_allowLoopback = allowLoopback, dp_deny = d, dp_allow = a\<rparr>))"

definition DialPolicyFromEnv :: "NetLib \<Rightarrow> (string \<Rightarrow> string) \<Rightarrow> DialPolicy res" where
  "DialPolicyFromEnv N getenv =
     (let v = getenv ''REPEATER_DIAL_ALLOW_LOOPBACK'' in
      if v \<noteq> [] \<and> v \<noteq> ''false'' \<and> v \<noteq> ''true'' then Inl [ErrText ''must be true or false'']
      else ParseDialPolicy N (v = ''true'') (getenv ''REPEATER_DIAL_DENY_CIDRS'') (getenv ''REPEATER_DIAL_ALLOW_CIDRS''))"

section \<open>Hosts\<close>

definition lower_char :: "char \<Rightarrow> char" where
  "lower_char c = (let n = of_char c :: nat in if 65 \<le> n \<and> n \<le> 90 then char_of (n + 32) else c)"

definition to_lower :: "string \<Rightarrow> string" where
  "to_lower s = map lower_char s"

definition trim_brackets :: "string \<Rightarrow> string" where
  "trim_brackets s = (let f = dropWhile (\<lambda>c. c = CHR ''['' \<or> c = CHR '']'') in rev (f (rev (f s))))"

definition has_suffix :: "string \<Rightarrow> string \<Rightarrow> bool" where
  "has_suffix s x = has_prefix (rev s) (rev x)"

definition trim_suffix :: "string \<Rightarrow> string \<Rightarrow> string" where
  "trim_suffix s x = (if has_suffix s x then take (length s - length x) s else s)"

definition isDigits :: "string \<Rightarrow> bool" where
  "isDigits s \<longleftrightarrow> list_all is_digit s \<and> s \<noteq> []"

definition is_hex :: "char \<Rightarrow> bool" where
  "is_hex c = (let n = of_char c :: nat in 48 \<le> n \<and> n \<le> 57 \<or> 97 \<le> n \<and> n \<le> 102 \<or> 65 \<le> n \<and> n \<le> 70)"

definition isHexLiteral :: "string \<Rightarrow> bool" where
  "isHexLiteral s \<longleftrightarrow> length s \<ge> 3 \<and> s ! 0 = CHR ''0'' \<and> (s ! 1 = CHR ''x'' \<or> s ! 1 = CHR ''X'') \<and> list_all is_hex (drop 2 s)"

definition nonCanonicalNumericHost :: "NetLib \<Rightarrow> string \<Rightarrow> bool" where
  "nonCanonicalNumericHost N h \<longleftrightarrow> nl_ParseIP N (trim_brackets h) = None \<and>
     list_all (\<lambda>l. l \<noteq> [] \<and> (isDigits l \<or> isHexLiteral l)) (split_on (CHR ''.'') h)"

definition forbidden :: "string \<Rightarrow> goerr" where
  "forbidden why = [ErrForbiddenTarget, ErrText why]"

text \<open>\<open>checkTargetHostStrict\<close>, the check of a target when it is registered.\<close>

definition checkTargetHostStrict :: "NetLib \<Rightarrow> DialPolicy \<Rightarrow> string \<Rightarrow> bool \<Rightarrow> goerr option" where
  "checkTargetHostStrict N pol host strict =
     (let h = trim_suffix (to_lower host) ''.'' in
      if nonCanonicalNumericHost N h then Some (forbidden ''numeric host that is not a canonical IP address'')
      else if \<not> dp_allowLoopback pol \<and> (h = ''localhost'' \<or> has_suffix h ''.localhost'') then Some (forbidden ''localhost'')
      else case nl_ParseIP N (trim_brackets h) of
        Some a \<Rightarrow> if fst (refusal pol a) \<noteq> [] then Some (forbidden (snd (refusal pol a))) else None
      | None \<Rightarrow>
          (case nl_lookupIP N h of
             Inl _ \<Rightarrow> if strict then Some (forbidden ''cannot resolve the target host'') else None
           | Inr ips \<Rightarrow>
               (case find (\<lambda>a. fst (refusal pol a) \<noteq> []) ips of
                  None \<Rightarrow> None
                | Some a \<Rightarrow> Some (forbidden (snd (refusal pol a))))))"

section \<open>The dial\<close>

definition rejectInternalSocket :: "NetLib \<Rightarrow> DialPolicy \<Rightarrow> string \<Rightarrow> goerr option" where
  "rejectInternalSocket N pol address =
     (case nl_SplitHostPort N address of
        None \<Rightarrow> Some (forbidden ''unreadable socket address'')
      | Some (ipStr, _) \<Rightarrow>
          (case nl_ParseIP N ipStr of
             None \<Rightarrow> Some (forbidden ''unreadable socket address'')
           | Some a \<Rightarrow> if Category pol a \<noteq> [] then Some (forbidden ''the connection would reach a forbidden address'') else None))"

text \<open>
  \<open>DialContext\<close> with the control hook: the kernel address of the destination is checked right before it is
  connected to. The state is the list of addresses connected to; the result is the connected address.
\<close>

definition dial_socket :: "NetLib \<Rightarrow> DialPolicy \<Rightarrow> bool \<Rightarrow> ip \<Rightarrow> string \<Rightarrow> string list \<Rightarrow> string res \<times> string list" where
  "dial_socket N pol allow a port tried =
     (let address = nl_socket N a port in
      case (if allow then None else rejectInternalSocket N pol address) of
        Some e \<Rightarrow> (Inl e, tried)
      | None \<Rightarrow> (if nl_connect N address then Inr address else Inl [ErrText ''connect''], tried @ [address]))"

fun dial_loop :: "NetLib \<Rightarrow> DialPolicy \<Rightarrow> bool \<Rightarrow> string \<Rightarrow> ip list \<Rightarrow> goerr option \<Rightarrow> string list \<Rightarrow> string res \<times> string list" where
  "dial_loop N pol allow port [] lastErr tried =
     (Inl (case lastErr of Some e \<Rightarrow> e | None \<Rightarrow> forbidden ''no usable address''), tried)"
| "dial_loop N pol allow port (a # ips) lastErr tried =
     (if \<not> allow \<and> fst (refusal pol a) \<noteq> [] then dial_loop N pol allow port ips (Some (forbidden (snd (refusal pol a)))) tried
      else case dial_socket N pol allow a port tried of
        (Inr conn, tried') \<Rightarrow> (Inr conn, tried')
      | (Inl derr, tried') \<Rightarrow>
          if nl_ctxErr N (nl_socket N a port) then (Inl derr, tried')
          else dial_loop N pol allow port ips (Some derr) tried')"

text \<open>\<open>guardedDial\<close>; \<open>allow\<close> is the flag of the test harness that nothing in the server sets.\<close>

definition guardedDial :: "NetLib \<Rightarrow> DialPolicy \<Rightarrow> bool \<Rightarrow> string \<Rightarrow> string res \<times> string list" where
  "guardedDial N pol allow addr =
     (case nl_SplitHostPort N addr of
        None \<Rightarrow> (Inl [ErrText ''missing port in address''], [])
      | Some (host, port) \<Rightarrow>
          let h = trim_brackets (to_lower host) in
          (case nl_ParseIP N h of
             Some a \<Rightarrow> dial_loop N pol allow port [a] None []
           | None \<Rightarrow>
               if \<not> allow \<and> \<not> dp_allowLoopback pol \<and> (h = ''localhost'' \<or> has_suffix (trim_suffix h ''.'') ''.localhost'')
               then (Inl (forbidden ''localhost''), [])
               else if \<not> allow \<and> nonCanonicalNumericHost N h
               then (Inl (forbidden ''numeric host that is not a canonical IP address''), [])
               else (case nl_lookupIP N h of
                  Inl e \<Rightarrow> (Inl e, [])
                | Inr ips \<Rightarrow> if ips = [] then (Inl [ErrText ''resolve: no address''], []) else dial_loop N pol allow port ips None [])))"

section \<open>The prohibitions as networks\<close>

text \<open>The reference: the built-in prohibitions and loopback as lists of networks.\<close>

definition net_of :: "ip \<Rightarrow> 8 word list \<Rightarrow> IPNet" where
  "net_of a m = \<lparr>n_IP = a, n_Mask = m\<rparr>"

definition host_mask :: "8 word list" where
  "host_mask = [255, 255, 255, 255, 255, 255, 255, 255, 255, 255, 255, 255, 255, 255, 255, 255]"

definition loopback_nets :: "IPNet list" where
  "loopback_nets = [net_of [127, 0, 0, 0] [255, 0, 0, 0], net_of IPv6loopback host_mask]"

definition builtin_nets :: "IPNet list" where
  "builtin_nets = [net_of [0, 0, 0, 0] [255, 0, 0, 0], net_of [169, 254, 0, 0] [255, 255, 0, 0], net_of [224, 0, 0, 0] [0xf0, 0, 0, 0],
     net_of [100, 100, 100, 200] [255, 255, 255, 255], net_of [168, 63, 129, 16] [255, 255, 255, 255],
     net_of [192, 0, 0, 192] [255, 255, 255, 255], net_of IPv6zero host_mask,
     net_of [0xfe, 0x80, 0, 0, 0, 0, 0, 0, 0, 0, 0, 0, 0, 0, 0, 0] [0xff, 0xc0, 0, 0, 0, 0, 0, 0, 0, 0, 0, 0, 0, 0, 0, 0],
     net_of [0xff, 0, 0, 0, 0, 0, 0, 0, 0, 0, 0, 0, 0, 0, 0, 0] [0xff, 0, 0, 0, 0, 0, 0, 0, 0, 0, 0, 0, 0, 0, 0, 0],
     net_of metadataV6 host_mask]"

text \<open>The IPv4 address inside a NAT64 or 6to4 address.\<close>

definition translated :: "ip \<Rightarrow> ip option" where
  "translated a = (if To4 a = None \<and> length a = 16 then embedded_v4 a else None)"

definition designates :: "IPNet list \<Rightarrow> ip \<Rightarrow> bool" where
  "designates nets a \<longleftrightarrow> inNets nets a \<or> (case translated a of None \<Rightarrow> False | Some e \<Rightarrow> inNets nets e)"

definition is_broadcast :: "ip \<Rightarrow> bool" where
  "is_broadcast a \<longleftrightarrow> To4 a = Some IPv4bcast"

lemma length4: "length v = 4 \<Longrightarrow> \<exists>a b c d. v = [a, b, c, d]"
  by (auto simp: numeral_eq_Suc length_Suc_conv)

lemma length16: "length v = 16 \<Longrightarrow> \<exists>a b c d e f g h i j k l m n p q. v = [a, b, c, d, e, f, g, h, i, j, k, l, m, n, p, q]"
  by (simp add: numeral_eq_Suc length_Suc_conv) blast

lemma To4_length: "To4 a = Some v \<Longrightarrow> length v = 4"
  by (auto simp: To4_def split: if_splits)

lemma To4_idem [simp]: "length v = 4 \<Longrightarrow> To4 v = Some v"
  by (simp add: To4_def)

lemma contains_v4:
  "net_Contains (net_of [p, q, r, s] [k, l, m, n]) x \<longleftrightarrow>
     (case To4 x of None \<Rightarrow> False | Some v \<Rightarrow> list_all2 (\<lambda>(p, q) r. p AND q = r AND q) [(p, k), (q, l), (r, m), (s, n)] v)"
proof (cases "To4 x")
  case None
  then have "length x \<noteq> 4" by (auto simp: To4_def)
  with None show ?thesis by (simp add: net_Contains_def networkNumberAndMask_def net_of_def Let_def)
next
  case (Some v)
  with To4_length [OF Some] show ?thesis by (simp add: net_Contains_def networkNumberAndMask_def net_of_def Let_def)
qed

lemma contains_v6:
  assumes "To4 a = None" "length a = 16" "length m = 16"
  shows "net_Contains (net_of a m) x \<longleftrightarrow> To4 x = None \<and> length x = 16 \<and> list_all2 (\<lambda>(p, q) r. p AND q = r AND q) (zip a m) x"
proof (cases "To4 x")
  case (Some v)
  with To4_length [OF Some] assms show ?thesis by (simp add: net_Contains_def networkNumberAndMask_def net_of_def Let_def)
qed (use assms in \<open>auto simp: net_Contains_def networkNumberAndMask_def net_of_def Let_def\<close>)

lemma and_all_ones [simp]: "(w :: 8 word) AND 255 = w"
proof -
  have "(255 :: 8 word) = - 1" by simp
  then show ?thesis by (metis and.right_neutral)
qed

lemma v6_constants:
  "To4 IPv6loopback = None" "To4 IPv6zero = None" "To4 metadataV6 = None"
  "To4 [0xfe, 0x80, 0, 0, 0, 0, 0, 0, 0, 0, 0, 0, 0, 0, 0, 0] = None" "To4 [0xff, 0, 0, 0, 0, 0, 0, 0, 0, 0, 0, 0, 0, 0, 0, 0] = None"
  "length IPv6loopback = 16" "length IPv6zero = 16" "length metadataV6 = 16" "length host_mask = 16"
  by (simp_all add: To4_def IPv6loopback_def IPv6zero_def metadataV6_def v4InV6Prefix_def host_mask_def)

lemmas contains_simps = contains_v4 contains_v6 v6_constants

lemma loopback_v4: "inNets loopback_nets [a, b, c, d] \<longleftrightarrow> a = 127"
  by (auto simp: inNets_def loopback_nets_def contains_simps)

lemma builtin_v4:
  "inNets builtin_nets [a, b, c, d] \<longleftrightarrow> a = 0 \<or> a = 169 \<and> b = 254 \<or> a AND 0xf0 = 0xe0 \<or> [a, b, c, d] \<in> set metadataV4"
  by (auto simp: inNets_def builtin_nets_def contains_simps metadataV4_def)

lemma multicast_apart: "(127 :: 8 word) AND 0xf0 \<noteq> 0xe0" "(0 :: 8 word) AND 0xf0 \<noteq> 0xe0" "(224 :: 8 word) AND 0xf0 = 0xe0"
  "(100 :: 8 word) AND 0xf0 \<noteq> 0xe0" "(168 :: 8 word) AND 0xf0 \<noteq> 0xe0" "(192 :: 8 word) AND 0xf0 \<noteq> 0xe0"
  by simp_all

lemma reason_class_v4:
  "reason_class [a, b, c, d] =
     (if a = 127 then Some ''loopback''
      else if a = 0 \<and> b = 0 \<and> c = 0 \<and> d = 0 then Some ''unspecified''
      else if a = 169 \<and> b = 254 \<or> a = 224 \<and> b = 0 \<and> c = 0 then Some ''link-local''
      else if a AND 0xf0 = 0xe0 then Some ''multicast''
      else None)"
  by (simp add: reason_class_def IsLoopback_def IsUnspecified_def IsLinkLocalUnicast_def IsLinkLocalMulticast_def
      IsInterfaceLocalMulticast_def IsMulticast_def ip_Equal_def IPv4zero_def IPv6zero_def v4_in_v6_def v4InV6Prefix_def)

lemma reason_v4_bytes:
  "reason_v4 [a, b, c, d] =
     (case reason_class [a, b, c, d] of
        Some w \<Rightarrow> w
      | None \<Rightarrow> if a = 0 then ''non routable (0.0.0.0/8)'' else if [a, b, c, d] \<in> set metadataV4 then ''cloud metadata'' else [])"
  by (simp add: reason_v4_def ip_Equal_def metadataV4_def split: option.split)

lemma reason_v4_exact:
  assumes "length v = 4"
  shows "has_prefix (reason_v4 v) ''loopback'' \<longleftrightarrow> inNets loopback_nets v"
    and "reason_v4 v \<noteq> [] \<and> \<not> has_prefix (reason_v4 v) ''loopback'' \<longleftrightarrow> inNets builtin_nets v"
proof -
  obtain a b c d where v: "v = [a, b, c, d]" using length4 [OF assms] by blast
  show "has_prefix (reason_v4 v) ''loopback'' \<longleftrightarrow> inNets loopback_nets v"
    by (simp add: v loopback_v4 reason_v4_bytes reason_class_v4 has_prefix_def)
  show "reason_v4 v \<noteq> [] \<and> \<not> has_prefix (reason_v4 v) ''loopback'' \<longleftrightarrow> inNets builtin_nets v"
    by (cases "a = 127") (auto simp: v builtin_v4 reason_v4_bytes reason_class_v4 has_prefix_def multicast_apart metadataV4_def)
qed

lemma v6_bytes:
  assumes "length x = 16" "To4 x = None"
  shows "inNets loopback_nets x \<longleftrightarrow> x = IPv6loopback"
    and "inNets builtin_nets x \<longleftrightarrow> x = IPv6zero \<or> x ! 0 = 0xfe \<and> x ! 1 AND 0xc0 = 0x80 \<or> x ! 0 = 0xff \<or> x = metadataV6"
proof -
  obtain a b c d e f g h i j k l m n p q where x: "x = [a, b, c, d, e, f, g, h, i, j, k, l, m, n, p, q]"
    using length16 [OF assms(1)] by blast
  show "inNets loopback_nets x \<longleftrightarrow> x = IPv6loopback"
    using assms by (simp add: inNets_def loopback_nets_def contains_simps) (auto simp: IPv6loopback_def host_mask_def x)
  show "inNets builtin_nets x \<longleftrightarrow> x = IPv6zero \<or> x ! 0 = 0xfe \<and> x ! 1 AND 0xc0 = 0x80 \<or> x ! 0 = 0xff \<or> x = metadataV6"
    using assms by (simp add: inNets_def builtin_nets_def contains_simps) (auto simp: IPv6zero_def metadataV6_def host_mask_def x)
qed

lemma inNets_To4:
  assumes "To4 x = Some v"
  shows "inNets nets x = inNets nets v"
proof -
  have "net_Contains n x = net_Contains n v" for n
    using assms To4_idem [OF To4_length [OF assms]] by (simp add: net_Contains_def Let_def split: option.split)
  then show ?thesis by (simp add: inNets_def)
qed

lemma reason_class_v6:
  assumes "length x = 16" "To4 x = None"
  shows "reason_class x =
     (if x = IPv6loopback then Some ''loopback'' else if x = IPv6zero then Some ''unspecified''
      else if x ! 0 = 0xfe \<and> x ! 1 AND 0xc0 = 0x80 \<or> x ! 0 = 0xff \<and> (x ! 1 AND 0x0f = 2 \<or> x ! 1 AND 0x0f = 1) then Some ''link-local''
      else if x ! 0 = 0xff then Some ''multicast'' else None)"
proof -
  have "x \<noteq> v4_in_v6 IPv4zero" using assms by (auto simp: To4_def v4_in_v6_def v4InV6Prefix_def IPv4zero_def)
  then show ?thesis
    using assms by (auto simp: reason_class_def IsLoopback_def IsUnspecified_def IsLinkLocalUnicast_def IsLinkLocalMulticast_def
      IsInterfaceLocalMulticast_def IsMulticast_def ip_Equal_def IPv4zero_def v6_constants)
qed

lemma embedded_length: "length x = 16 \<Longrightarrow> embedded_v4 x = Some e \<Longrightarrow> length e = 4"
  by (auto simp: embedded_v4_def split: if_splits)

text \<open>No prohibited IPv6 network holds a transition address.\<close>

lemma embedded_apart:
  assumes "length x = 16" "embedded_v4 x = Some e"
  shows "x ! 0 = 0 \<and> x ! 1 = 0x64 \<or> x ! 0 = 0x20"
  using assms by (auto simp: embedded_v4_def split: if_splits)

lemma internalReason_exact:
  assumes "length x = 4 \<or> length x = 16"
  shows "has_prefix (internalReason x) ''loopback'' \<longleftrightarrow> designates loopback_nets x"
    and "internalReason x \<noteq> [] \<and> \<not> has_prefix (internalReason x) ''loopback'' \<longleftrightarrow> designates builtin_nets x"
proof -
  have "(has_prefix (internalReason x) ''loopback'' \<longleftrightarrow> designates loopback_nets x) \<and>
    (internalReason x \<noteq> [] \<and> \<not> has_prefix (internalReason x) ''loopback'' \<longleftrightarrow> designates builtin_nets x)"
  proof (cases "To4 x")
    case (Some v)
    have "inNets nets x = inNets nets v" for nets by (rule inNets_To4 [OF Some])
    with reason_v4_exact [OF To4_length [OF Some]] Some show ?thesis by (simp add: internalReason_def designates_def translated_def)
  next
    case None
    with assms have x: "length x = 16" by (auto simp: To4_def)
    note nets = v6_bytes [OF x None] and cls = reason_class_v6 [OF x None]
    show ?thesis
    proof (cases "embedded_v4 x")
      case (Some e)
      from embedded_apart [OF x Some] have apart: "\<not> inNets loopback_nets x" "\<not> inNets builtin_nets x" "reason_class x = None" "x \<noteq> metadataV6"
        by (auto simp: nets cls IPv6loopback_def IPv6zero_def metadataV6_def)
      have app: "has_prefix (w @ u) ''loopback'' = has_prefix w ''loopback''" if "w \<in> {''loopback'', ''unspecified'', ''link-local'', ''multicast'',
          ''non routable (0.0.0.0/8)'', ''cloud metadata''}" for w u
        using that by (auto simp: has_prefix_def)
      have kinds: "reason_v4 e = [] \<or> reason_v4 e \<in> {''loopback'', ''unspecified'', ''link-local'', ''multicast'',
          ''non routable (0.0.0.0/8)'', ''cloud metadata''}"
        using length4 [OF embedded_length [OF x Some]] by (elim exE) (simp add: reason_v4_bytes reason_class_v4)
      have r: "internalReason x = (if reason_v4 e \<noteq> [] then reason_v4 e @ '' (embedded in an IPv6 transition address)'' else [])"
        using x None Some apart by (simp add: internalReason_def ip_Equal_def v6_constants)
      have "has_prefix (internalReason x) ''loopback'' = has_prefix (reason_v4 e) ''loopback''"
        using kinds app by (cases "reason_v4 e = []") (auto simp only: r if_True if_False simp_thms)
      moreover have "internalReason x = [] \<longleftrightarrow> reason_v4 e = []" by (simp add: r)
      moreover have "designates nets x \<longleftrightarrow> inNets nets x \<or> inNets nets e" for nets by (simp add: designates_def translated_def x None Some)
      ultimately show ?thesis using reason_v4_exact [OF embedded_length [OF x Some]] apart(1,2) by metis
    next
      case none: None
      have r: "internalReason x = (case reason_class x of Some w \<Rightarrow> w | None \<Rightarrow> if x = metadataV6 then ''cloud metadata'' else [])"
        using x None none by (simp add: internalReason_def ip_Equal_def v6_constants split: option.split)
      have des: "designates nets x = inNets nets x" for nets by (simp add: designates_def translated_def x None none)
      show ?thesis
      proof (cases "x = IPv6loopback")
        case True
        then have "\<not> inNets builtin_nets x" unfolding nets by (simp add: IPv6loopback_def IPv6zero_def metadataV6_def)
        moreover have "inNets loopback_nets x" unfolding nets by (rule True)
        ultimately show ?thesis unfolding des r cls using True by (simp add: has_prefix_def)
      next
        case False
        then show ?thesis unfolding des r cls nets by (simp add: has_prefix_def)
      qed
    qed
  qed
  then show "has_prefix (internalReason x) ''loopback'' \<longleftrightarrow> designates loopback_nets x"
    "internalReason x \<noteq> [] \<and> \<not> has_prefix (internalReason x) ''loopback'' \<longleftrightarrow> designates builtin_nets x" by blast+
qed

text \<open>The decision on any address.\<close>

lemma Category_exact:
  assumes "length a = 4 \<or> length a = 16"
  shows "Category p a =
    (if designates builtin_nets a \<or> is_broadcast a then CategoryBuiltin
     else if designates loopback_nets a \<and> \<not> dp_allowLoopback p then CategoryLoopback
     else if inNets (dp_deny p) a then CategoryDeny
     else if dp_allow p \<noteq> [] \<and> \<not> inNets (dp_allow p) a then CategoryNotAllowed else [])"
proof -
  define b where "b = (case To4 a of Some v \<Rightarrow> v | None \<Rightarrow> a)"
  have len: "length b = 4 \<or> length b = 16" using assms To4_length by (auto simp: b_def split: option.split)
  have same: "inNets nets b = inNets nets a" for nets using inNets_To4 by (auto simp: b_def split: option.split)
  have "translated b = translated a"
    using To4_idem To4_length [of a] by (auto simp: translated_def b_def split: option.split)
  then have des: "designates nets b = designates nets a" for nets by (simp add: designates_def same)
  have "ip_Equal b IPv4bcast = is_broadcast a"
  proof (cases "To4 a")
    case (Some v)
    with To4_length [OF Some] show ?thesis by (simp add: b_def is_broadcast_def ip_Equal_def IPv4bcast_def)
  next
    case None
    moreover from None assms have "length a = 16" by (auto simp: To4_def)
    moreover have "To4 (v4_in_v6 IPv4bcast) \<noteq> None" by (simp add: To4_def v4_in_v6_def v4InV6Prefix_def IPv4bcast_def)
    ultimately show ?thesis by (auto simp: b_def is_broadcast_def ip_Equal_def IPv4bcast_def)
  qed
  then show ?thesis
    using internalReason_exact [OF len] by (auto simp: Category_def refusal_def Let_def b_def [symmetric] des same)
qed

text \<open>
  The decision as the comment of \<open>dialpolicy.go\<close> documents it: the prohibited networks with the broadcast address
  among them, each also inside a NAT64 or 6to4 address; then loopback; then the lists.
\<close>

definition broadcast_net :: IPNet where
  "broadcast_net = net_of [255, 255, 255, 255] [255, 255, 255, 255]"

definition documented_category :: "DialPolicy \<Rightarrow> ip \<Rightarrow> string" where
  "documented_category p a =
     (if designates (broadcast_net # builtin_nets) a then CategoryBuiltin
      else if designates loopback_nets a \<and> \<not> dp_allowLoopback p then CategoryLoopback
      else if inNets (dp_deny p) a then CategoryDeny
      else if dp_allow p \<noteq> [] \<and> \<not> inNets (dp_allow p) a then CategoryNotAllowed else [])"

lemma in_broadcast_net: "net_Contains broadcast_net x \<longleftrightarrow> is_broadcast x"
proof (cases "To4 x")
  case None
  then show ?thesis unfolding broadcast_net_def contains_v4 by (simp add: is_broadcast_def)
next
  case (Some v)
  from length4 [OF To4_length [OF Some]] obtain a b c d where v: "v = [a, b, c, d]" by blast
  have "w AND 255 = w" for w :: "8 word"
  proof -
    have "(255 :: 8 word) = - 1" by simp
    then show ?thesis by (simp only: and.right_neutral)
  qed
  with Some v show ?thesis unfolding broadcast_net_def contains_v4 by (auto simp: is_broadcast_def IPv4bcast_def)
qed

lemma designates_broadcast:
  assumes "translated a \<noteq> Some IPv4bcast"
  shows "designates (broadcast_net # builtin_nets) a \<longleftrightarrow> designates builtin_nets a \<or> is_broadcast a"
proof -
  have "\<not> is_broadcast e" if "translated a = Some e" for e
    using that assms by (auto simp: translated_def embedded_v4_def is_broadcast_def To4_def split: if_splits)
  then show ?thesis by (auto simp: designates_def inNets_def in_broadcast_net split: option.splits)
qed

text \<open>
  C35. The decision on an address is the documented one, with one exception. An address is refused as built-in when
  it, or the IPv4 address a NAT64 or 6to4 address carries, is the broadcast address or lies in one of the prohibited
  networks; then as loopback unless that is lifted; then by the deny list; then for not being in a non-empty allow
  list. An IPv4 address and its IPv4-mapped form are judged alike. The exception is a NAT64 or 6to4 address that
  carries the broadcast address: the comment refuses it, the code does not (\<open>translated_broadcast_allowed\<close>).
\<close>

theorem dial_decision_exact:
  assumes "length a = 4 \<or> length a = 16" "translated a \<noteq> Some IPv4bcast"
  shows "Category p a = documented_category p a"
  using Category_exact [OF assms(1)] designates_broadcast [OF assms(2)] by (simp add: documented_category_def)

theorem dial_decision_exact_witness:
  "Category \<lparr>dp_allowLoopback = False, dp_deny = [], dp_allow = []\<rparr> [0, 0x64, 0xff, 0x9b, 0, 0, 0, 0, 0, 0, 0, 0, 169, 254, 169, 254] = CategoryBuiltin"
proof -
  let ?a = "[0, 0x64, 0xff, 0x9b, 0, 0, 0, 0, 0, 0, 0, 0, 169, 254, 169, 254] :: ip"
  have t: "translated ?a = Some [169, 254, 169, 254]" by (simp add: translated_def To4_def v4InV6Prefix_def embedded_v4_def allZero_def)
  then have "designates (broadcast_net # builtin_nets) ?a" by (simp add: designates_def inNets_def builtin_v4 [unfolded inNets_def])
  then show ?thesis
    using dial_decision_exact [of ?a "\<lparr>dp_allowLoopback = False, dp_deny = [], dp_allow = []\<rparr>"] t
    by (simp add: documented_category_def IPv4bcast_def)
qed

text \<open>
  The broadcast address inside a transition address passes: the built-in reasons of the embedded address do not
  know it, and the separate test for broadcast looks at the outer address only.
\<close>

theorem translated_broadcast_allowed:
  "Category \<lparr>dp_allowLoopback = False, dp_deny = [], dp_allow = []\<rparr> [0, 0x64, 0xff, 0x9b, 0, 0, 0, 0, 0, 0, 0, 0, 255, 255, 255, 255] = []"
  by code_simp

section \<open>Nothing forbidden is contacted\<close>

definition permitted :: "NetLib \<Rightarrow> DialPolicy \<Rightarrow> string \<Rightarrow> bool" where
  "permitted N pol address \<longleftrightarrow> (\<exists>i port a. nl_SplitHostPort N address = Some (i, port) \<and> nl_ParseIP N i = Some a \<and> Category pol a = [])"

lemma dial_socket_permitted:
  assumes "dial_socket N pol False a port tried = (r, tried')" "list_all (permitted N pol) tried"
  shows "list_all (permitted N pol) tried' \<and> (\<forall>c. r = Inr c \<longrightarrow> c \<in> set tried')"
  using assms by (auto simp: dial_socket_def rejectInternalSocket_def permitted_def Let_def split: option.splits if_splits)

lemma dial_loop_permitted:
  assumes "dial_loop N pol False port ips err tried = (r, tried')" "list_all (permitted N pol) tried"
  shows "list_all (permitted N pol) tried' \<and> (\<forall>c. r = Inr c \<longrightarrow> c \<in> set tried')"
  using assms
proof (induction ips arbitrary: err tried)
  case (Cons a ips)
  obtain q t1 where q: "dial_socket N pol False a port tried = (q, t1)" by fastforce
  note step = dial_socket_permitted [OF q Cons.prems(2)]
  show ?case
  proof (cases "fst (refusal pol a) \<noteq> []")
    case True
    then have "dial_loop N pol False port ips (Some (forbidden (snd (refusal pol a)))) tried = (r, tried')" using Cons.prems(1) by simp
    from Cons.IH [OF this Cons.prems(2)] show ?thesis .
  next
    case False
    with Cons.prems Cons.IH step q show ?thesis by (cases q) (auto split: if_splits)
  qed
qed auto

declare dial_loop.simps [simp del]

text \<open>
  C34. A relay never connects to a forbidden address. Whatever a name resolves to at the moment of the dial, every
  address the guarded dial connects to, the connected one included, is readable and passes the policy: the
  check made when the target was registered is not relied on.
\<close>

theorem guarded_dial_permitted:
  "case guardedDial N pol False addr of (r, contacted) \<Rightarrow>
     list_all (permitted N pol) contacted \<and> (case r of Inr c \<Rightarrow> c \<in> set contacted | Inl e \<Rightarrow> True)"
proof -
  have "case dial_loop N pol False port ips None [] of (r, contacted) \<Rightarrow>
     list_all (permitted N pol) contacted \<and> (case r of Inr c \<Rightarrow> c \<in> set contacted | Inl e \<Rightarrow> True)" for port ips
    using dial_loop_permitted [of N pol port ips None "[]"] by (auto split: prod.split sum.split)
  then show ?thesis by (simp add: guardedDial_def Let_def split: option.split sum.split prod.split)
qed

text \<open>The lists of a policy that was accepted: no empty prefix, canonical and distinct networks, a bounded number.\<close>

lemma parse_cidrs_ok:
  assumes "parse_cidrs N es out = Inr nets" "length out \<le> maxDialPolicyEntries" "distinct (map networkNumberAndMask out)"
    and "list_all (\<lambda>n. mask_ones (n_Mask n) > 0) out"
  shows "length nets \<le> maxDialPolicyEntries \<and> distinct (map networkNumberAndMask nets) \<and> list_all (\<lambda>n. mask_ones (n_Mask n) > 0) nets"
  using assms
proof (induction es arbitrary: out)
  case (Cons e es)
  then obtain a net where "nl_ParseCIDR N e = Some (a, net)" "mask_ones (n_Mask net) \<noteq> 0" "parse_cidrs N es (out @ [net]) = Inr nets"
    "\<not> list_ex (\<lambda>n. networkNumberAndMask n = networkNumberAndMask net) out" "length (out @ [net]) \<le> maxDialPolicyEntries"
    by (auto split: if_splits option.splits)
  with Cons.prems(3,4) show ?case by (intro Cons.IH [of "out @ [net]"]) (auto simp: list_ex_iff)
qed simp

lemma policy_lists_bounded:
  assumes "DialPolicyFromEnv N getenv = Inr p"
  shows "length (dp_deny p) \<le> maxDialPolicyEntries \<and> distinct (map networkNumberAndMask (dp_deny p)) \<and> length (dp_allow p) \<le> maxDialPolicyEntries \<and>
    distinct (map networkNumberAndMask (dp_allow p)) \<and> list_all (\<lambda>n. mask_ones (n_Mask n) > 0) (dp_deny p @ dp_allow p)"
proof -
  have ok: "length l \<le> maxDialPolicyEntries \<and> distinct (map networkNumberAndMask l) \<and> list_all (\<lambda>n. mask_ones (n_Mask n) > 0) l"
    if "parseCIDRList N s = Inr l" for s l
    using that parse_cidrs_ok [of N "split_on (CHR '','') s" "[]" l] by (auto simp: parseCIDRList_def split: if_splits)
  show ?thesis using assms ok by (auto simp: DialPolicyFromEnv_def ParseDialPolicy_def and_then_Inr_iff Let_def split: if_splits)
qed

end
