(* ===== verification/Agent_Tasks.thy ===== *)
theory Agent_Tasks
  imports Effects
begin

unbundle bit_operations_syntax

text \<open>
  Tasks of connected agents (\<open>internal/ws\<close>: \<open>admission.go\<close> and the task tables of \<open>handler.go\<close> and
  \<open>relay_handler.go\<close>): admission with its counters, the channels on which callers wait for a result, the
  accumulated output and its memory budget, and the table of connections.

  The package variables are one record. A function that holds a lock for its whole body is one step; the ones that
  take several locks one after the other are composed of the corresponding steps. A channel has a number and a
  buffer of one message; the messages of a channel are what its waiter receives. The counters stay far below the
  bounds of Go's integers (the limits are configuration values) and are unbounded here.
\<close>

section \<open>State\<close>

record Message =
  g_TaskID :: string
  g_Type :: string
  g_RC :: int
  g_Stdout :: string
  g_Stderr :: string
  g_Truncated :: bool
  g_Data :: string
  g_Error :: string
  g_Chunk :: string

definition zero_message :: Message where
  "zero_message = \<lparr>g_TaskID = [], g_Type = [], g_RC = 0, g_Stdout = [], g_Stderr = [], g_Truncated = False, g_Data = [], g_Error = [], g_Chunk = []\<rparr>"

record admission =
  a_host :: string
  a_stdout :: int

record tasks =
  admitted :: "(string, admission) fmap"
  perHostCount :: "(string, int) fmap"
  inflightTotal :: int
  stdoutHeld :: int
  maxPerAgent :: int
  maxInflight :: int
  maxStdoutTotal :: int
  pendingTasks :: "(string, nat) fmap"
  taskHostnames :: "(string, string) fmap"
  stdoutBuffers :: "(string, string) fmap"
  relayPendingTasks :: "(string, nat) fmap"
  relayTaskOwner :: "(string, string) fmap"
  relayConnections :: "(string, nat) fmap"
  channels :: "nat \<Rightarrow> Message list"
  nextChannel :: nat
  wsConnections :: "(string, nat) fmap"
  closedConns :: "nat list"
  hostEvents :: "(string \<times> string) list"

definition stdoutMaxBytes :: int where "stdoutMaxBytes = 5242880"
definition DefaultMaxTasksPerAgent :: int where "DefaultMaxTasksPerAgent = 10"
definition DefaultMaxTasksInflight :: int where "DefaultMaxTasksInflight = 1000"
definition DefaultMaxStdoutBufferTot :: int where "DefaultMaxStdoutBufferTot = 1073741824"

definition initial_tasks :: tasks where
  "initial_tasks = \<lparr>admitted = fmempty, perHostCount = fmempty, inflightTotal = 0, stdoutHeld = 0,
     maxPerAgent = DefaultMaxTasksPerAgent, maxInflight = DefaultMaxTasksInflight, maxStdoutTotal = DefaultMaxStdoutBufferTot,
     pendingTasks = fmempty, taskHostnames = fmempty, stdoutBuffers = fmempty, relayPendingTasks = fmempty, relayTaskOwner = fmempty, relayConnections = fmempty,
     channels = (\<lambda>_. []), nextChannel = 0, wsConnections = fmempty, closedConns = [], hostEvents = []\<rparr>"

section \<open>Admission\<close>

definition SetTaskLimits :: "int \<Rightarrow> int \<Rightarrow> int \<Rightarrow> tasks \<Rightarrow> tasks" where
  "SetTaskLimits perAgent inflight stdoutBudget s =
     s\<lparr>maxPerAgent := (if perAgent > 0 then perAgent else DefaultMaxTasksPerAgent),
       maxInflight := (if inflight > 0 then inflight else DefaultMaxTasksInflight),
       maxStdoutTotal := (if stdoutBudget > 0 then stdoutBudget else DefaultMaxStdoutBufferTot)\<rparr>"

definition host_count :: "string \<Rightarrow> tasks \<Rightarrow> int" where
  "host_count h s = get_or 0 (perHostCount s) h"

definition releaseLocked :: "string \<Rightarrow> admission \<Rightarrow> tasks \<Rightarrow> tasks" where
  "releaseLocked taskID a s =
     s\<lparr>admitted := fmdrop taskID (admitted s), inflightTotal := inflightTotal s - 1,
       perHostCount := (if a_host a = [] then perHostCount s
         else if host_count (a_host a) s - 1 \<le> 0 then fmdrop (a_host a) (perHostCount s)
         else fmupd (a_host a) (host_count (a_host a) s - 1) (perHostCount s)),
       stdoutHeld := stdoutHeld s - a_stdout a\<rparr>"

definition releaseTask :: "string \<Rightarrow> tasks \<Rightarrow> tasks" where
  "releaseTask taskID s = (case fmlookup (admitted s) taskID of None \<Rightarrow> s | Some a \<Rightarrow> releaseLocked taskID a s)"

definition admitTask :: "string \<Rightarrow> string \<Rightarrow> (tasks, unit) prog" where
  "admitTask taskID host s0 =
     (let s = releaseTask taskID s0 in
      if host \<noteq> [] \<and> host_count host s \<ge> maxPerAgent s then (Inl [ErrAgentBusy], s)
      else if inflightTotal s \<ge> maxInflight s then (Inl [ErrTooManyTasks], s)
      else if (inflightTotal s + 1) * stdoutMaxBytes > maxStdoutTotal s then (Inl [ErrMemoryBudget], s)
      else (Inr (), s\<lparr>admitted := fmupd taskID \<lparr>a_host = host, a_stdout = 0\<rparr> (admitted s), inflightTotal := inflightTotal s + 1,
              perHostCount := (if host \<noteq> [] then fmupd host (host_count host s + 1) (perHostCount s) else perHostCount s)\<rparr>))"

definition RetryAfterSeconds :: "goerr \<Rightarrow> nat" where
  "RetryAfterSeconds e = (if errors_is e ErrMemoryBudget then 5 else if errors_is e ErrTooManyTasks then 2 else 1)"

definition IsAdmissionError :: "goerr \<Rightarrow> bool" where
  "IsAdmissionError e \<longleftrightarrow> errors_is e ErrAgentBusy \<or> errors_is e ErrTooManyTasks \<or> errors_is e ErrMemoryBudget"

definition reserveStdout :: "string \<Rightarrow> int \<Rightarrow> tasks \<Rightarrow> int \<times> tasks" where
  "reserveStdout taskID n s =
     (case fmlookup (admitted s) taskID of
        None \<Rightarrow> (0, s)
      | Some a \<Rightarrow>
          let allow = max 0 (min (min n (stdoutMaxBytes - a_stdout a)) (maxStdoutTotal s - stdoutHeld s)) in
          (allow, s\<lparr>admitted := fmupd taskID (a\<lparr>a_stdout := a_stdout a + allow\<rparr>) (admitted s), stdoutHeld := stdoutHeld s + allow\<rparr>))"

definition refundStdout :: "string \<Rightarrow> int \<Rightarrow> tasks \<Rightarrow> tasks" where
  "refundStdout taskID n s =
     (case fmlookup (admitted s) taskID of
        None \<Rightarrow> s
      | Some a \<Rightarrow>
          if n > 0 then s\<lparr>admitted := fmupd taskID (a\<lparr>a_stdout := a_stdout a - n\<rparr>) (admitted s), stdoutHeld := stdoutHeld s - n\<rparr> else s)"

text \<open>\<open>utf8.RuneStart\<close> and the loop that moves a cut back to the start of a rune.\<close>

definition RuneStart :: "char \<Rightarrow> bool" where
  "RuneStart c \<longleftrightarrow> (of_char c :: nat) AND 0xC0 \<noteq> 0x80"

fun rune_cut :: "string \<Rightarrow> nat \<Rightarrow> nat" where
  "rune_cut s 0 = 0"
| "rune_cut s (Suc n) = (if RuneStart (s ! Suc n) then Suc n else rune_cut s n)"

definition cutUTF8 :: "string \<Rightarrow> int \<Rightarrow> string" where
  "cutUTF8 s n = (if int (length s) \<le> n then s else take (rune_cut s (nat n)) s)"

section \<open>Futures\<close>

definition new_channel :: "tasks \<Rightarrow> nat \<times> tasks" where
  "new_channel s = (nextChannel s, s\<lparr>nextChannel := Suc (nextChannel s)\<rparr>)"

text \<open>A send that gives up when the buffer is full (\<open>select\<close> with a default).\<close>

definition offer :: "nat \<Rightarrow> Message \<Rightarrow> tasks \<Rightarrow> tasks" where
  "offer c m s = (if channels s c = [] then s\<lparr>channels := (channels s)(c := [m])\<rparr> else s)"

definition RegisterFuture :: "string \<Rightarrow> string \<Rightarrow> (tasks, nat) prog" where
  "RegisterFuture taskID hostname =
     bindP (admitTask taskID hostname) (\<lambda>_ s.
       case new_channel s of (c, s') \<Rightarrow>
         (Inr c, s'\<lparr>pendingTasks := fmupd taskID c (pendingTasks s'), taskHostnames := fmupd taskID hostname (taskHostnames s')\<rparr>))"

definition UnregisterFuture :: "string \<Rightarrow> tasks \<Rightarrow> tasks" where
  "UnregisterFuture taskID s =
     releaseTask taskID (s\<lparr>pendingTasks := fmdrop taskID (pendingTasks s), taskHostnames := fmdrop taskID (taskHostnames s),
       stdoutBuffers := fmdrop taskID (stdoutBuffers s)\<rparr>)"

definition finishTask :: "string \<Rightarrow> tasks \<Rightarrow> nat option \<times> tasks" where
  "finishTask taskID s =
     (fmlookup (pendingTasks s) taskID,
      releaseTask taskID (s\<lparr>pendingTasks := fmdrop taskID (pendingTasks s), stdoutBuffers := fmdrop taskID (stdoutBuffers s),
        taskHostnames := fmdrop taskID (taskHostnames s)\<rparr>))"

definition answer :: "string \<Rightarrow> Message \<Rightarrow> tasks \<Rightarrow> tasks" where
  "answer taskID m s = (case finishTask taskID s of (Some c, s') \<Rightarrow> offer c m s' | (None, s') \<Rightarrow> s')"

definition tasks_of_host :: "string \<Rightarrow> tasks \<Rightarrow> string list" where
  "tasks_of_host h s = filter (\<lambda>t. fmlookup (taskHostnames s) t = Some h) (keys (taskHostnames s))"

definition ResolveFuturesForHostname :: "string \<Rightarrow> string \<Rightarrow> tasks \<Rightarrow> tasks" where
  "ResolveFuturesForHostname hostname errorMsg s =
     fold (\<lambda>t. answer t (zero_message\<lparr>g_TaskID := t, g_Error := errorMsg\<rparr>)) (tasks_of_host hostname s) s"

text \<open>The case of a chunk of output.\<close>

definition append_stdout :: "string \<Rightarrow> string \<Rightarrow> tasks \<Rightarrow> tasks" where
  "append_stdout taskID c s =
     (case reserveStdout taskID (int (length c)) s of (allow, s1) \<Rightarrow>
        let chunk = cutUTF8 c allow;
            s2 = (if int (length chunk) < allow then refundStdout taskID (allow - int (length chunk)) s1 else s1) in
        if chunk \<noteq> [] then s2\<lparr>stdoutBuffers := fmupd taskID (get_or [] (stdoutBuffers s2) taskID @ chunk) (stdoutBuffers s2)\<rparr> else s2)"

definition HandleMessage :: "Message \<Rightarrow> tasks \<Rightarrow> tasks" where
  "HandleMessage msg s =
     (let taskID = g_TaskID msg in
      if taskID = [] \<or> g_Type msg = [] then s
      else if g_Type msg = ''ack'' then s
      else if g_Type msg = ''stdout'' then append_stdout taskID (g_Chunk msg) s
      else if g_Type msg = ''result'' then
        let acc = get_or [] (stdoutBuffers s) taskID in
        answer taskID (if g_Stdout msg = [] \<and> acc \<noteq> [] then msg\<lparr>g_Stdout := acc\<rparr> else msg) s
      else s)"

section \<open>Connections\<close>

definition RegisterConnection :: "string \<Rightarrow> nat \<Rightarrow> tasks \<Rightarrow> tasks" where
  "RegisterConnection hostname conn s =
     s\<lparr>closedConns := closedConns s @ (case fmlookup (wsConnections s) hostname of Some old \<Rightarrow> [old] | None \<Rightarrow> []),
       wsConnections := fmupd hostname conn (wsConnections s), hostEvents := hostEvents s @ [(''host.up'', hostname)]\<rparr>"

definition UnregisterConnection :: "string \<Rightarrow> tasks \<Rightarrow> tasks" where
  "UnregisterConnection hostname s =
     ResolveFuturesForHostname hostname ''agent_disconnected''
       (s\<lparr>wsConnections := fmdrop hostname (wsConnections s), hostEvents := hostEvents s @ [(''host.down'', hostname)]\<rparr>)"

definition unregisterIfCurrent :: "string \<Rightarrow> nat \<Rightarrow> tasks \<Rightarrow> tasks" where
  "unregisterIfCurrent hostname conn s =
     (case fmlookup (wsConnections s) hostname of
        Some cur \<Rightarrow> if cur \<noteq> conn then s else UnregisterConnection hostname s
      | None \<Rightarrow> UnregisterConnection hostname s)"

definition CloseAgent :: "string \<Rightarrow> tasks \<Rightarrow> bool \<times> tasks" where
  "CloseAgent hostname s =
     (case fmlookup (wsConnections s) hostname of
        None \<Rightarrow> (False, s)
      | Some conn \<Rightarrow>
          (True, ResolveFuturesForHostname hostname ''agent_revoked''
             (s\<lparr>wsConnections := fmdrop hostname (wsConnections s), closedConns := closedConns s @ [conn]\<rparr>)))"

definition GetConnection :: "string \<Rightarrow> tasks \<Rightarrow> nat res" where
  "GetConnection hostname s = (case fmlookup (wsConnections s) hostname of None \<Rightarrow> Inl [ErrText ''agent_offline''] | Some c \<Rightarrow> Inr c)"

text \<open>\<open>SendToAgent\<close>; the result of the write on the socket is an argument.\<close>

definition SendToAgent :: "goerr option \<Rightarrow> string \<Rightarrow> string option \<Rightarrow> (tasks, unit) prog" where
  "SendToAgent written hostname taskID s =
     (case GetConnection hostname s of
        Inl e \<Rightarrow> (Inl e, s)
      | Inr _ \<Rightarrow>
          of_err written (case taskID of Some t \<Rightarrow> s\<lparr>taskHostnames := fmupd t hostname (taskHostnames s)\<rparr> | None \<Rightarrow> s))"

section \<open>Tasks of child relays\<close>

definition RegisterRelayTaskFuture :: "string \<Rightarrow> (tasks, nat) prog" where
  "RegisterRelayTaskFuture taskID =
     bindP (admitTask taskID []) (\<lambda>_ s.
       case new_channel s of (c, s') \<Rightarrow> (Inr c, s'\<lparr>relayPendingTasks := fmupd taskID c (relayPendingTasks s')\<rparr>))"

definition UnregisterRelayTaskFuture :: "string \<Rightarrow> tasks \<Rightarrow> tasks" where
  "UnregisterRelayTaskFuture taskID s =
     releaseTask taskID (s\<lparr>relayPendingTasks := fmdrop taskID (relayPendingTasks s), relayTaskOwner := fmdrop taskID (relayTaskOwner s)\<rparr>)"

definition GetRelayConnection :: "string \<Rightarrow> tasks \<Rightarrow> nat res" where
  "GetRelayConnection relayID s = (case fmlookup (relayConnections s) relayID of None \<Rightarrow> Inl [ErrText ''relay_offline''] | Some c \<Rightarrow> Inr c)"

text \<open>\<open>DispatchToRelay\<close>; the result of the write on the socket is an argument.\<close>

definition DispatchToRelay :: "goerr option \<Rightarrow> string \<Rightarrow> string \<Rightarrow> (tasks, nat) prog" where
  "DispatchToRelay written relayID taskID =
     bindP (\<lambda>s. (GetRelayConnection relayID s, s)) (\<lambda>_.
     bindP (RegisterRelayTaskFuture taskID) (\<lambda>c s.
       let s' = s\<lparr>relayTaskOwner := fmupd taskID relayID (relayTaskOwner s)\<rparr> in
       case written of None \<Rightarrow> (Inr c, s') | Some e \<Rightarrow> (Inl e, UnregisterRelayTaskFuture taskID s')))"

text \<open>The answer to a task that is taken out of the table of relayed tasks.\<close>

definition relay_answer :: "string \<Rightarrow> Message \<Rightarrow> tasks \<Rightarrow> tasks" where
  "relay_answer taskID m s =
     (case fmlookup (relayPendingTasks s) taskID of
        None \<Rightarrow> s
      | Some c \<Rightarrow> offer c m (UnregisterRelayTaskFuture taskID s))"

text \<open>The case \<open>task_result\<close> of \<open>handleRelayMessage\<close>: a relay can only answer the tasks dispatched to it.\<close>

definition task_result :: "string \<Rightarrow> Message \<Rightarrow> tasks \<Rightarrow> tasks" where
  "task_result relayID m s =
     (let owner = get_or [] (relayTaskOwner s) (g_TaskID m) in
      if fmlookup (relayPendingTasks s) (g_TaskID m) \<noteq> None \<and> owner \<noteq> [] \<and> owner \<noteq> relayID then s
      else relay_answer (g_TaskID m) m s)"

definition tasks_of_relay :: "string \<Rightarrow> tasks \<Rightarrow> string list" where
  "tasks_of_relay relayID s =
     filter (\<lambda>t. let owner = get_or [] (relayTaskOwner s) t in owner = [] \<or> owner = relayID) (keys (relayPendingTasks s))"

text \<open>The task part of \<open>unregisterRelayConnection\<close>.\<close>

definition resolve_relay_tasks :: "string \<Rightarrow> tasks \<Rightarrow> tasks" where
  "resolve_relay_tasks relayID s =
     fold (\<lambda>t. relay_answer t (zero_message\<lparr>g_TaskID := t, g_Error := ''relay_disconnected''\<rparr>)) (tasks_of_relay relayID s) s"


text \<open>A waiter takes the message of its channel.\<close>

definition receive :: "nat \<Rightarrow> tasks \<Rightarrow> tasks" where
  "receive c s = s\<lparr>channels := (channels s)(c := [])\<rparr>"

section \<open>Steps\<close>

text \<open>
  The sections under \<open>admMu\<close>, in any order and with any arguments, interleaved with anything that leaves the
  admission table, its counters and the limits alone. Every operation is a sequence of such sections, so what
  holds along them holds for every interleaving of the goroutines that call the operations.
\<close>

inductive adm_section :: "tasks \<Rightarrow> tasks \<Rightarrow> bool" where
  sec_admit: "adm_section s (snd (admitTask t h s))"
| sec_release: "adm_section s (releaseTask t s)"
| sec_reserve: "adm_section s (snd (reserveStdout t n s))"
| sec_refund: "adm_section s (refundStdout t n s)"
| sec_other: "admitted s' = admitted s \<Longrightarrow> perHostCount s' = perHostCount s \<Longrightarrow> inflightTotal s' = inflightTotal s
    \<Longrightarrow> stdoutHeld s' = stdoutHeld s \<Longrightarrow> maxPerAgent s' = maxPerAgent s \<Longrightarrow> maxInflight s' = maxInflight s
    \<Longrightarrow> maxStdoutTotal s' = maxStdoutTotal s \<Longrightarrow> adm_section s s'"

text \<open>
  The operations of the callers, the agents and the child relays, each as one step. In an orderly run a task
  identifier is not registered again while it is in use, an agent sends output for its own tasks and not for relayed
  ones, and only relayed tasks are abandoned as such.
\<close>

definition fresh_id :: "string \<Rightarrow> tasks \<Rightarrow> bool" where
  "fresh_id t s \<longleftrightarrow> fmlookup (admitted s) t = None \<and> fmlookup (pendingTasks s) t = None \<and> fmlookup (relayPendingTasks s) t = None"

inductive task_step :: "bool \<Rightarrow> tasks \<Rightarrow> tasks \<Rightarrow> bool" for orderly where
  st_register: "(orderly \<Longrightarrow> fresh_id t s) \<Longrightarrow> task_step orderly s (snd (RegisterFuture t h s))"
| st_unregister: "task_step orderly s (UnregisterFuture t s)"
| st_message: "(orderly \<Longrightarrow> fmlookup (relayPendingTasks s) (g_TaskID m) = None) \<Longrightarrow> task_step orderly s (HandleMessage m s)"
| st_connect: "task_step orderly s (RegisterConnection h c s)"
| st_disconnect: "task_step orderly s (unregisterIfCurrent h c s)"
| st_drop: "task_step orderly s (UnregisterConnection h s)"
| st_close: "task_step orderly s (snd (CloseAgent h s))"
| st_send: "task_step orderly s (snd (SendToAgent w h t s))"
| st_dispatch: "(orderly \<Longrightarrow> fresh_id t s) \<Longrightarrow> task_step orderly s (snd (DispatchToRelay w r t s))"
| st_relay_unregister: "(orderly \<Longrightarrow> fmlookup (relayPendingTasks s) t \<noteq> None \<or> fmlookup (admitted s) t = None)
    \<Longrightarrow> task_step orderly s (UnregisterRelayTaskFuture t s)"
| st_relay_result: "task_step orderly s (task_result r m s)"
| st_relay_gone: "task_step orderly s (resolve_relay_tasks r s)"
| st_receive: "task_step orderly s (receive c s)"

definition started :: "int \<Rightarrow> int \<Rightarrow> int \<Rightarrow> tasks" where
  "started perAgent inflight stdoutBudget = SetTaskLimits perAgent inflight stdoutBudget initial_tasks"

section \<open>The counters\<close>

text \<open>The sum of a measure over the entries of a map.\<close>

definition fmsum :: "('v \<Rightarrow> int) \<Rightarrow> (string, 'v) fmap \<Rightarrow> int" where
  "fmsum f m = (\<Sum>t \<in> fmdom' m. f (the (fmlookup m t)))"

lemma fmsum_empty [simp]: "fmsum f fmempty = 0"
  by (simp add: fmsum_def)

lemma fmsum_upd_fresh [simp]: "fmlookup m t = None \<Longrightarrow> fmsum f (fmupd t v m) = fmsum f m + f v"
proof -
  assume none: "fmlookup m t = None"
  then have new: "t \<notin> fmdom' m" by (simp add: fmlookup_dom'_iff)
  have "(\<Sum>k \<in> fmdom' m. f (the (fmlookup (fmupd t v m) k))) = fmsum f m"
    unfolding fmsum_def by (rule sum.cong) (use new in auto)
  with new show ?thesis by (simp add: fmsum_def)
qed

lemma fmsum_drop: "fmlookup m t = Some v \<Longrightarrow> fmsum f (fmdrop t m) = fmsum f m - f v"
  using fmsum_upd_fresh [of "fmdrop t m" t f v] by (simp add: undo_simps)

lemma fmsum_drop_absent [simp]: "fmlookup m t = None \<Longrightarrow> fmsum f (fmdrop t m) = fmsum f m"
  by (simp add: undo_simps)

lemma fmsum_upd: "fmlookup m t = Some v \<Longrightarrow> fmsum f (fmupd t w m) = fmsum f m - f v + f w"
  using fmsum_upd_fresh [of "fmdrop t m" t f w] fmsum_drop [of m t v f] by simp

lemma fmsum_mono:
  assumes "\<And>t v. fmlookup m t = Some v \<Longrightarrow> f v \<le> g v"
  shows "fmsum f m \<le> fmsum g m"
  unfolding fmsum_def by (rule sum_mono) (use assms in \<open>auto simp: fmlookup_dom'_iff\<close>)

lemma fmsum_nonneg: "(\<And>t v. fmlookup m t = Some v \<Longrightarrow> 0 \<le> f v) \<Longrightarrow> 0 \<le> fmsum f m"
  using fmsum_mono [of m "\<lambda>_. 0" f] by (simp add: fmsum_def)

lemma fmsum_const: "fmsum (\<lambda>_. k) m = k * fmsum (\<lambda>_. 1) m"
  by (simp add: fmsum_def)

definition tasks_of :: "string \<Rightarrow> (string, admission) fmap \<Rightarrow> int" where
  "tasks_of h = fmsum (\<lambda>a. of_bool (a_host a = h))"

lemma tasks_of_pos: "fmlookup m t = Some a \<Longrightarrow> 1 \<le> tasks_of (a_host a) m"
proof -
  assume *: "fmlookup m t = Some a"
  have "0 \<le> fmsum (\<lambda>b. of_bool (a_host b = a_host a)) (fmdrop t m)" by (rule fmsum_nonneg) simp
  with fmsum_drop [OF *, of "\<lambda>b. of_bool (a_host b = a_host a)"] show ?thesis by (simp add: tasks_of_def)
qed

definition counters_exact :: "tasks \<Rightarrow> bool" where
  "counters_exact s \<longleftrightarrow>
     inflightTotal s = fmsum (\<lambda>_. 1) (admitted s) \<and>
     (\<forall>h. h \<noteq> [] \<longrightarrow> host_count h s = tasks_of h (admitted s)) \<and>
     stdoutHeld s = fmsum a_stdout (admitted s) \<and>
     fmpred (\<lambda>h n. 0 < n) (perHostCount s)"

definition limits_kept :: "tasks \<Rightarrow> bool" where
  "limits_kept s \<longleftrightarrow>
     inflightTotal s \<le> maxInflight s \<and> (\<forall>h. h \<noteq> [] \<longrightarrow> host_count h s \<le> maxPerAgent s) \<and>
     inflightTotal s * stdoutMaxBytes \<le> maxStdoutTotal s \<and>
     fmpred (\<lambda>_ a. a_stdout a \<le> stdoutMaxBytes) (admitted s) \<and> 0 < maxPerAgent s"

lemma counters_release:
  assumes "counters_exact s"
  shows "counters_exact (releaseTask t s)"
proof (cases "fmlookup (admitted s) t")
  case None
  with assms show ?thesis by (simp add: releaseTask_def)
next
  case (Some a)
  have "1 \<le> tasks_of (a_host a) (admitted s)" by (rule tasks_of_pos [OF Some])
  moreover have "tasks_of h (fmdrop t (admitted s)) = tasks_of h (admitted s) - of_bool (a_host a = h)" for h
    unfolding tasks_of_def by (rule fmsum_drop [OF Some])
  ultimately show ?thesis using assms Some
    by (auto simp: releaseTask_def releaseLocked_def counters_exact_def fmsum_drop host_count_def fmpred_iff split: if_splits)
qed

lemma release_removes [simp]: "admitted (releaseTask t s) = fmdrop t (admitted s)"
  by (auto simp: releaseTask_def releaseLocked_def undo_simps split: option.splits)

lemma counters_admit:
  assumes "counters_exact s"
  shows "counters_exact (snd (admitTask t h s))"
proof -
  have ex: "counters_exact (releaseTask t s)" by (rule counters_release [OF assms])
  have new: "fmlookup (admitted (releaseTask t s)) t = None" by simp
  have "0 \<le> tasks_of h (admitted (releaseTask t s))" unfolding tasks_of_def by (rule fmsum_nonneg) simp
  with ex new show ?thesis
    by (auto simp: admitTask_def Let_def counters_exact_def host_count_def tasks_of_def fmpred_iff simp del: release_removes
        split: if_splits)
qed

lemma counters_section: "adm_section s s' \<Longrightarrow> counters_exact s \<Longrightarrow> counters_exact s'"
proof (induction rule: adm_section.induct)
  case (sec_admit s t h)
  then show ?case by (rule counters_admit)
next
  case (sec_release s t)
  then show ?case by (rule counters_release)
next
  case (sec_reserve s t n)
  then show ?case
    by (auto simp: reserveStdout_def Let_def counters_exact_def host_count_def fmsum_upd tasks_of_def split: option.splits)
next
  case (sec_refund s t n)
  then show ?case
    by (auto simp: refundStdout_def counters_exact_def host_count_def fmsum_upd tasks_of_def split: option.splits)
next
  case (sec_other s' s)
  then show ?case by (simp add: counters_exact_def host_count_def)
qed

lemma limits_release:
  assumes "limits_kept s" "counters_exact s"
  shows "limits_kept (releaseTask t s)"
proof -
  let ?s = "releaseTask t s"
  have ex: "counters_exact ?s" by (rule counters_release [OF assms(2)])
  have le: "fmsum f (fmdrop t (admitted s)) \<le> fmsum f (admitted s)" if "\<And>a. 0 \<le> f a" for f
    using that by (cases "fmlookup (admitted s) t") (auto simp: fmsum_drop)
  have one: "inflightTotal ?s \<le> inflightTotal s"
    using ex assms(2) le [of "\<lambda>_. 1"] by (simp add: counters_exact_def)
  have host: "host_count h ?s \<le> host_count h s" if "h \<noteq> []" for h
    using ex assms(2) that le [of "\<lambda>a. of_bool (a_host a = h)"] by (simp add: counters_exact_def tasks_of_def)
  have lims: "maxInflight ?s = maxInflight s" "maxPerAgent ?s = maxPerAgent s" "maxStdoutTotal ?s = maxStdoutTotal s"
    by (simp_all add: releaseTask_def releaseLocked_def split: option.splits)
  have "inflightTotal ?s * stdoutMaxBytes \<le> inflightTotal s * stdoutMaxBytes"
    using one by (simp add: stdoutMaxBytes_def)
  moreover have "fmpred (\<lambda>_ a. a_stdout a \<le> stdoutMaxBytes) (fmdrop t (admitted s))"
    using assms(1) by (auto simp: limits_kept_def fmpred_iff)
  ultimately show ?thesis using assms(1) one host lims
    by (auto simp: limits_kept_def intro: order_trans)
qed

lemma limits_admit:
  assumes "limits_kept s" "counters_exact s"
  shows "limits_kept (snd (admitTask t h s))"
  using limits_release [OF assms, of t]
  by (auto simp: admitTask_def Let_def limits_kept_def host_count_def fmpred_iff stdoutMaxBytes_def algebra_simps
      simp del: release_removes)

lemma limits_section: "adm_section s s' \<Longrightarrow> limits_kept s \<Longrightarrow> counters_exact s \<Longrightarrow> limits_kept s'"
proof (induction rule: adm_section.induct)
  case (sec_reserve s t n)
  then show ?case
    by (auto simp: reserveStdout_def Let_def limits_kept_def host_count_def fmpred_iff max_def min_def split: option.splits)
next
  case (sec_refund s t n)
  then show ?case
    by (fastforce simp: refundStdout_def limits_kept_def host_count_def fmpred_iff split: option.splits)
next
  case (sec_other s' s)
  then show ?case by (simp add: limits_kept_def host_count_def)
qed (auto intro: limits_admit limits_release)

lemma started_ok: "counters_exact (started p i b)" "limits_kept (started p i b)"
  by (simp_all add: started_def SetTaskLimits_def initial_tasks_def counters_exact_def limits_kept_def host_count_def
      tasks_of_def get_or_def DefaultMaxTasksPerAgent_def DefaultMaxTasksInflight_def DefaultMaxStdoutBufferTot_def)

lemma sections_keep:
  "adm_section\<^sup>*\<^sup>* s s' \<Longrightarrow> counters_exact s \<Longrightarrow> limits_kept s \<Longrightarrow> counters_exact s' \<and> limits_kept s'"
  by (induction rule: rtranclp_induct) (auto intro: counters_section limits_section)

lemma held_bounded:
  assumes "counters_exact s" "limits_kept s"
  shows "stdoutHeld s \<le> maxStdoutTotal s"
proof -
  have "stdoutHeld s \<le> fmsum (\<lambda>_. stdoutMaxBytes) (admitted s)"
    using assms by (auto simp: counters_exact_def limits_kept_def fmpred_iff intro: fmsum_mono)
  also have "\<dots> = inflightTotal s * stdoutMaxBytes"
    using assms(1) by (simp add: fmsum_const [of stdoutMaxBytes] counters_exact_def)
  also have "\<dots> \<le> maxStdoutTotal s" using assms(2) by (simp add: limits_kept_def)
  finally show ?thesis .
qed

section \<open>Operations are sequences of sections\<close>

lemma section_then: "adm_section s s' \<Longrightarrow> adm_section\<^sup>*\<^sup>* s' s'' \<Longrightarrow> adm_section\<^sup>*\<^sup>* s s''"
  by (rule converse_rtranclp_into_rtranclp)

lemma others_then: "adm_section\<^sup>*\<^sup>* s s' \<Longrightarrow> adm_section s' s'' \<Longrightarrow> adm_section\<^sup>*\<^sup>* s s''"
  by (rule rtranclp.rtrancl_into_rtrancl)

lemma sections_release: "adm_section\<^sup>*\<^sup>* s (releaseTask t s)"
  by (rule r_into_rtranclp, rule sec_release)

lemma sections_offer [intro]: "adm_section\<^sup>*\<^sup>* s s' \<Longrightarrow> adm_section\<^sup>*\<^sup>* s (offer c m s')"
  by (erule others_then) (rule sec_other, simp_all add: offer_def)

lemma sections_finish: "adm_section\<^sup>*\<^sup>* s (snd (finishTask t s))"
  unfolding finishTask_def snd_conv by (rule section_then [OF sec_other sections_release]) simp_all

lemma sections_answer: "adm_section\<^sup>*\<^sup>* s (answer t m s)"
  using sections_finish [of s t] by (auto simp: answer_def split: prod.splits option.splits)

lemma sections_fold: "(\<And>t s. adm_section\<^sup>*\<^sup>* s (f t s)) \<Longrightarrow> adm_section\<^sup>*\<^sup>* s (fold f ts s)"
  by (induction ts arbitrary: s) (auto intro: rtranclp_trans)

lemma sections_resolve: "adm_section\<^sup>*\<^sup>* s (ResolveFuturesForHostname h e s)"
  unfolding ResolveFuturesForHostname_def by (rule sections_fold) (rule sections_answer)

lemma sections_unregister: "adm_section\<^sup>*\<^sup>* s (UnregisterConnection h s)"
  unfolding UnregisterConnection_def by (rule section_then [OF sec_other sections_resolve]) simp_all

lemma sections_relay_unregister: "adm_section\<^sup>*\<^sup>* s (UnregisterRelayTaskFuture t s)"
  unfolding UnregisterRelayTaskFuture_def by (rule section_then [OF sec_other sections_release]) simp_all

lemma sections_relay_answer: "adm_section\<^sup>*\<^sup>* s (relay_answer t m s)"
  by (auto simp: relay_answer_def sections_relay_unregister split: option.splits)

lemma sections_append: "adm_section\<^sup>*\<^sup>* s (append_stdout t c s)"
proof -
  obtain allow s1 where r: "reserveStdout t (int (length c)) s = (allow, s1)" by (cases "reserveStdout t (int (length c)) s")
  have s1: "adm_section s s1" using sec_reserve [of s t "int (length c)"] by (simp add: r)
  define s2 where "s2 = (if int (length (cutUTF8 c allow)) < allow then refundStdout t (allow - int (length (cutUTF8 c allow))) s1 else s1)"
  have "adm_section\<^sup>*\<^sup>* s1 s2" unfolding s2_def by (auto intro: sec_refund)
  with s1 have s2: "adm_section\<^sup>*\<^sup>* s s2" by (rule section_then)
  have "append_stdout t c s = (if cutUTF8 c allow \<noteq> [] then s2\<lparr>stdoutBuffers := fmupd t (get_or [] (stdoutBuffers s2) t @ cutUTF8 c allow) (stdoutBuffers s2)\<rparr> else s2)"
    by (simp add: append_stdout_def r s2_def Let_def)
  with s2 show ?thesis by (auto intro!: others_then [OF s2] sec_other)
qed

lemma sections_register:
  assumes "\<And>x. adm_section\<^sup>*\<^sup>* (snd (admitTask t h s)) (snd (k x (snd (admitTask t h s))))"
  shows "adm_section\<^sup>*\<^sup>* s (snd (bindP (admitTask t h) k s))"
  using section_then [OF sec_admit assms] r_into_rtranclp [of adm_section, OF sec_admit [of s t h]]
  by (auto simp: bindP_def split: prod.splits sum.splits)

lemma sections_RegisterFuture: "adm_section\<^sup>*\<^sup>* s (snd (RegisterFuture t h s))"
  unfolding RegisterFuture_def
  by (rule sections_register) (auto simp: new_channel_def intro!: r_into_rtranclp sec_other)

lemma sections_RegisterRelay: "adm_section\<^sup>*\<^sup>* s (snd (RegisterRelayTaskFuture t s))"
  unfolding RegisterRelayTaskFuture_def
  by (rule sections_register) (auto simp: new_channel_def intro!: r_into_rtranclp sec_other)

lemma sections_dispatch: "adm_section\<^sup>*\<^sup>* s (snd (DispatchToRelay w r t s))"
proof -
  have own: "adm_section\<^sup>*\<^sup>* s (s'\<lparr>relayTaskOwner := x\<rparr>)" if "adm_section\<^sup>*\<^sup>* s s'" for s' x
    using that by (rule others_then) (rule sec_other, simp_all)
  show ?thesis
    using sections_RegisterRelay [of s t]
    by (auto simp: DispatchToRelay_def bindP_def Let_def intro: own rtranclp_trans [OF own sections_relay_unregister]
        split: prod.splits sum.splits option.splits)
qed

lemma step_sections: "task_step ord s s' \<Longrightarrow> adm_section\<^sup>*\<^sup>* s s'"
proof (induction rule: task_step.induct)
  case (st_unregister s t)
  show ?case unfolding UnregisterFuture_def by (rule section_then [OF sec_other sections_release]) simp_all
next
  case (st_message s m)
  show ?case by (auto simp: HandleMessage_def Let_def sections_append sections_answer)
next
  case (st_disconnect s h c)
  show ?case by (auto simp: unregisterIfCurrent_def sections_unregister split: option.splits)
next
  case (st_close s h)
  show ?case by (auto simp: CloseAgent_def intro!: section_then [OF sec_other sections_resolve] split: option.splits)
next
  case (st_send s w h t)
  show ?case by (auto simp: SendToAgent_def prog_defs intro!: r_into_rtranclp sec_other split: option.splits sum.splits)
next
  case (st_relay_result s r m)
  show ?case by (auto simp: task_result_def Let_def sections_relay_answer)
next
  case (st_relay_gone s r)
  show ?case unfolding resolve_relay_tasks_def by (rule sections_fold) (rule sections_relay_answer)
qed (auto simp: RegisterConnection_def receive_def sections_RegisterFuture sections_unregister sections_dispatch
    sections_relay_unregister intro!: r_into_rtranclp sec_other)

lemma steps_sections: "(task_step ord)\<^sup>*\<^sup>* s s' \<Longrightarrow> adm_section\<^sup>*\<^sup>* s s'"
  by (induction rule: rtranclp_induct) (auto dest: step_sections)

section \<open>Delivery\<close>

text \<open>A waiter of an agent task (\<open>True\<close>) or of a relayed one (\<open>False\<close>), and its channel.\<close>

definition waiting :: "tasks \<Rightarrow> bool \<times> string \<Rightarrow> nat option" where
  "waiting s k = (if fst k then fmlookup (pendingTasks s) (snd k) else fmlookup (relayPendingTasks s) (snd k))"

definition channels_ok :: "tasks \<Rightarrow> bool" where
  "channels_ok s \<longleftrightarrow>
     (\<forall>k c. waiting s k = Some c \<longrightarrow> c < nextChannel s \<and> channels s c = []) \<and>
     (\<forall>k k' c. waiting s k = Some c \<longrightarrow> waiting s k' = Some c \<longrightarrow> k = k') \<and>
     (\<forall>c \<ge> nextChannel s. channels s c = [])"

lemma waiting_open: "channels_ok s \<Longrightarrow> waiting s k = Some c \<Longrightarrow> c < nextChannel s \<and> channels s c = []"
  unfolding channels_ok_def by blast

lemma waiting_inj: "channels_ok s \<Longrightarrow> waiting s k = Some c \<Longrightarrow> waiting s k' = Some c \<Longrightarrow> k = k'"
  unfolding channels_ok_def by blast

lemma channels_ok_shrink:
  assumes "channels_ok s" "\<And>k c. waiting s' k = Some c \<Longrightarrow> waiting s k = Some c"
    and "channels s' = channels s" "nextChannel s' = nextChannel s"
  shows "channels_ok s'"
  unfolding channels_ok_def
proof (intro conjI allI impI)
  fix k c assume w: "waiting s' k = Some c"
  from waiting_open [OF assms(1) assms(2) [OF w]] show "c < nextChannel s'" "channels s' c = []" by (simp_all add: assms(3,4))
next
  fix k k' c assume "waiting s' k = Some c" "waiting s' k' = Some c"
  then show "k = k'" by (blast intro: waiting_inj [OF assms(1)] assms(2))
next
  fix c assume "nextChannel s' \<le> c"
  with assms(1) show "channels s' c = []" by (simp add: assms(3,4) channels_ok_def)
qed

lemma channels_ok_same:
  assumes "channels_ok s" "pendingTasks s' = pendingTasks s" "relayPendingTasks s' = relayPendingTasks s"
    and "channels s' = channels s" "nextChannel s' = nextChannel s"
  shows "channels_ok s'"
proof -
  have "waiting s' = waiting s" by (rule ext) (simp only: waiting_def assms(2,3))
  with assms(1) show ?thesis by (simp only: channels_ok_def assms(4,5))
qed

lemma channels_ok_send:
  assumes "channels_ok s" "waiting s k = Some c" "\<And>j d. waiting s' j = Some d \<Longrightarrow> j \<noteq> k \<and> waiting s j = Some d"
    and "channels s' = (channels s)(c := ms)" "nextChannel s' = nextChannel s"
  shows "channels_ok s'"
proof -
  have other: "d \<noteq> c" if "waiting s' j = Some d" for j d
    using waiting_inj [OF assms(1,2)] assms(3) [OF that] by blast
  have c: "c < nextChannel s" using waiting_open [OF assms(1,2)] ..
  show ?thesis
    unfolding channels_ok_def
  proof (intro conjI allI impI)
    fix j d assume w: "waiting s' j = Some d"
    from assms(3) [OF w] have "waiting s j = Some d" ..
    from waiting_open [OF assms(1) this] other [OF w] show "d < nextChannel s'" "channels s' d = []"
      by (simp_all add: assms(4,5))
  next
    fix j j' d assume "waiting s' j = Some d" "waiting s' j' = Some d"
    then show "j = j'" using assms(3) by (blast intro: waiting_inj [OF assms(1)])
  next
    fix d assume "nextChannel s' \<le> d"
    with assms(1,4,5) c show "channels s' d = []" by (auto simp: channels_ok_def)
  qed
qed

lemma release_frame [simp]:
  "pendingTasks (releaseTask t s) = pendingTasks s" "relayPendingTasks (releaseTask t s) = relayPendingTasks s"
  "channels (releaseTask t s) = channels s" "nextChannel (releaseTask t s) = nextChannel s"
  "taskHostnames (releaseTask t s) = taskHostnames s" "stdoutBuffers (releaseTask t s) = stdoutBuffers s"
  "wsConnections (releaseTask t s) = wsConnections s" "relayTaskOwner (releaseTask t s) = relayTaskOwner s"
  by (simp_all add: releaseTask_def releaseLocked_def split: option.splits)

lemma offer_frame [simp]:
  "pendingTasks (offer c m s) = pendingTasks s" "relayPendingTasks (offer c m s) = relayPendingTasks s"
  "nextChannel (offer c m s) = nextChannel s" "admitted (offer c m s) = admitted s"
  "taskHostnames (offer c m s) = taskHostnames s" "stdoutBuffers (offer c m s) = stdoutBuffers s"
  "channels (offer c m s) = (if channels s c = [] then (channels s)(c := [m]) else channels s)"
  by (simp_all add: offer_def)

lemma answer_frame [simp]:
  "pendingTasks (answer t m s) = fmdrop t (pendingTasks s)" "relayPendingTasks (answer t m s) = relayPendingTasks s"
  "nextChannel (answer t m s) = nextChannel s" "admitted (answer t m s) = fmdrop t (admitted s)"
  "taskHostnames (answer t m s) = fmdrop t (taskHostnames s)" "stdoutBuffers (answer t m s) = fmdrop t (stdoutBuffers s)"
  by (simp_all add: answer_def finishTask_def split: option.splits)

lemma answer_channels:
  "channels (answer t m s) =
     (case fmlookup (pendingTasks s) t of
        Some c \<Rightarrow> if channels s c = [] then (channels s)(c := [m]) else channels s
      | None \<Rightarrow> channels s)"
  by (simp add: answer_def finishTask_def split: option.splits)

lemma relay_answer_frame [simp]:
  "relayPendingTasks (relay_answer t m s) = fmdrop t (relayPendingTasks s)" "pendingTasks (relay_answer t m s) = pendingTasks s"
  "nextChannel (relay_answer t m s) = nextChannel s" "stdoutBuffers (relay_answer t m s) = stdoutBuffers s"
  by (simp_all add: relay_answer_def UnregisterRelayTaskFuture_def undo_simps split: option.splits)

lemma relay_answer_channels:
  "channels (relay_answer t m s) =
     (case fmlookup (relayPendingTasks s) t of
        Some c \<Rightarrow> if channels s c = [] then (channels s)(c := [m]) else channels s
      | None \<Rightarrow> channels s)"
  by (simp add: relay_answer_def UnregisterRelayTaskFuture_def split: option.splits)

lemma channels_answer: "channels_ok s \<Longrightarrow> channels_ok (answer t m s)"
proof -
  assume ok: "channels_ok s"
  show ?thesis
  proof (cases "fmlookup (pendingTasks s) t")
    case None
    with ok show ?thesis
      by (elim channels_ok_shrink) (auto simp: waiting_def answer_channels split: if_splits)
  next
    case (Some c)
    then have w: "waiting s (True, t) = Some c" by (simp add: waiting_def)
    with ok have "channels s c = []" by (simp add: waiting_open)
    with Some show ?thesis
      by (intro channels_ok_send [OF ok w]) (auto simp: waiting_def answer_channels split: if_splits)
  qed
qed

lemma channels_relay_answer: "channels_ok s \<Longrightarrow> channels_ok (relay_answer t m s)"
proof -
  assume ok: "channels_ok s"
  show ?thesis
  proof (cases "fmlookup (relayPendingTasks s) t")
    case None
    with ok show ?thesis by (simp add: relay_answer_def)
  next
    case (Some c)
    then have w: "waiting s (False, t) = Some c" by (simp add: waiting_def)
    with ok have "channels s c = []" by (simp add: waiting_open)
    with Some show ?thesis
      by (intro channels_ok_send [OF ok w]) (auto simp: waiting_def relay_answer_channels split: if_splits)
  qed
qed

lemma channels_register:
  assumes "channels_ok s" "\<And>j. waiting s' j = (if j = k then Some (nextChannel s) else waiting s j)"
    and "channels s' = channels s" "nextChannel s' = Suc (nextChannel s)"
  shows "channels_ok s'"
  unfolding channels_ok_def
proof (intro conjI allI impI)
  fix j d assume w: "waiting s' j = Some d"
  have "channels s (nextChannel s) = []" using assms(1) by (simp add: channels_ok_def)
  with w show "d < nextChannel s'" "channels s' d = []"
    using waiting_open [OF assms(1), of j d] by (auto simp: assms(2-4) split: if_splits)
next
  fix j j' d assume "waiting s' j = Some d" "waiting s' j' = Some d"
  then show "j = j'"
    using assms(2) waiting_inj [OF assms(1)] waiting_open [OF assms(1)] by (metis less_irrefl option.inject)
next
  fix d assume "nextChannel s' \<le> d"
  with assms(1) show "channels s' d = []" by (simp add: assms(3,4) channels_ok_def)
qed

lemma fold_keeps: "(\<And>t s. P s \<Longrightarrow> P (f t s)) \<Longrightarrow> P s \<Longrightarrow> P (fold f ts s)"
  by (induction ts arbitrary: s) auto

lemma channels_resolve: "channels_ok s \<Longrightarrow> channels_ok (ResolveFuturesForHostname h e s)"
  unfolding ResolveFuturesForHostname_def by (rule fold_keeps [where P = channels_ok]) (rule channels_answer)

lemma admit_frame [simp]:
  "pendingTasks (snd (admitTask t h s)) = pendingTasks s" "relayPendingTasks (snd (admitTask t h s)) = relayPendingTasks s"
  "channels (snd (admitTask t h s)) = channels s" "nextChannel (snd (admitTask t h s)) = nextChannel s"
  "stdoutBuffers (snd (admitTask t h s)) = stdoutBuffers s" "taskHostnames (snd (admitTask t h s)) = taskHostnames s"
  by (simp_all add: admitTask_def Let_def)

lemma rune_cut_le: "rune_cut s n \<le> n"
  by (induction s n rule: rune_cut.induct) auto

lemma cutUTF8_length: "0 \<le> n \<Longrightarrow> int (length (cutUTF8 s n)) \<le> n"
  using rune_cut_le [of s "nat n"] by (auto simp: cutUTF8_def)

lemma cutUTF8_zero [simp]: "cutUTF8 s 0 = []"
  by (simp add: cutUTF8_def)

lemma reserve_amount: "0 \<le> fst (reserveStdout t n s)"
  by (simp add: reserveStdout_def Let_def split: option.splits)

text \<open>What a chunk of output does: nothing for an unknown task, otherwise it keeps a part of the chunk and accounts exactly for it.\<close>

lemma append_unknown: "fmlookup (admitted s) t = None \<Longrightarrow> append_stdout t c s = s"
  by (simp add: append_stdout_def reserveStdout_def)

lemma append_known:
  fixes s :: tasks and c :: string
  assumes a: "fmlookup (admitted s) t = Some a"
  defines "kept \<equiv> cutUTF8 c (fst (reserveStdout t (int (length c)) s))"
  shows "append_stdout t c s =
     s\<lparr>admitted := fmupd t (a\<lparr>a_stdout := a_stdout a + int (length kept)\<rparr>) (admitted s), stdoutHeld := stdoutHeld s + int (length kept),
       stdoutBuffers := (if kept = [] then stdoutBuffers s else fmupd t (get_or [] (stdoutBuffers s) t @ kept) (stdoutBuffers s))\<rparr>"
proof -
  obtain allow where allow: "fst (reserveStdout t (int (length c)) s) = allow" by blast
  let ?s1 = "s\<lparr>admitted := fmupd t (a\<lparr>a_stdout := a_stdout a + allow\<rparr>) (admitted s), stdoutHeld := stdoutHeld s + allow\<rparr>"
  have r: "reserveStdout t (int (length c)) s = (allow, ?s1)" using allow a by (simp add: reserveStdout_def Let_def)
  have le: "int (length kept) \<le> allow"
    using cutUTF8_length reserve_amount [of t "int (length c)" s] by (simp add: kept_def allow)
  have s2: "(if int (length kept) < allow then refundStdout t (allow - int (length kept)) ?s1 else ?s1) =
      s\<lparr>admitted := fmupd t (a\<lparr>a_stdout := a_stdout a + int (length kept)\<rparr>) (admitted s), stdoutHeld := stdoutHeld s + int (length kept)\<rparr>"
    using le by (simp add: refundStdout_def)
  have kept: "cutUTF8 c allow = kept" by (simp add: kept_def allow)
  show ?thesis unfolding append_stdout_def r Let_def prod.case kept s2 by simp
qed

lemma append_frame [simp]:
  "pendingTasks (append_stdout t c s) = pendingTasks s" "relayPendingTasks (append_stdout t c s) = relayPendingTasks s"
  "channels (append_stdout t c s) = channels s" "nextChannel (append_stdout t c s) = nextChannel s"
  by (cases "fmlookup (admitted s) t"; simp add: append_unknown append_known)+

lemma channels_future:
  assumes "channels_ok s"
  shows "channels_ok (snd (RegisterFuture t h s))" "channels_ok (snd (RegisterRelayTaskFuture t s))"
proof -
  have ok: "channels_ok (snd (admitTask t h s))" for h
    using assms by (rule channels_ok_same) simp_all
  have one: "channels_ok (s'\<lparr>nextChannel := Suc (nextChannel s'), pendingTasks := fmupd t (nextChannel s') (pendingTasks s'), taskHostnames := x\<rparr>)"
    if "channels_ok s'" for s' x
    by (rule channels_register [OF that, of _ "(True, t)"]) (auto simp: waiting_def)
  have two: "channels_ok (s'\<lparr>nextChannel := Suc (nextChannel s'), relayPendingTasks := fmupd t (nextChannel s') (relayPendingTasks s')\<rparr>)"
    if "channels_ok s'" for s'
    by (rule channels_register [OF that, of _ "(False, t)"]) (auto simp: waiting_def)
  show "channels_ok (snd (RegisterFuture t h s))"
    using ok [of h] by (cases "admitTask t h s") (auto simp: RegisterFuture_def bindP_def new_channel_def intro: one split: sum.splits)
  show "channels_ok (snd (RegisterRelayTaskFuture t s))"
    using ok [of "[]"] by (cases "admitTask t [] s") (auto simp: RegisterRelayTaskFuture_def bindP_def new_channel_def intro: two split: sum.splits)
qed

lemma channels_relay_unregister: "channels_ok s \<Longrightarrow> channels_ok (UnregisterRelayTaskFuture t s)"
  by (erule channels_ok_shrink) (auto simp: UnregisterRelayTaskFuture_def waiting_def split: if_splits)

lemma channels_unregister: "channels_ok s \<Longrightarrow> channels_ok (UnregisterConnection h s)"
  unfolding UnregisterConnection_def by (rule channels_resolve, erule channels_ok_same) simp_all

lemma channels_dispatch:
  assumes "channels_ok s"
  shows "channels_ok (snd (DispatchToRelay w r t s))"
proof -
  have own: "channels_ok (s'\<lparr>relayTaskOwner := x\<rparr>)" if "channels_ok s'" for s' x
    using that by (rule channels_ok_same) simp_all
  show ?thesis
    using assms channels_future(2) [OF assms, of t]
    by (auto simp: DispatchToRelay_def bindP_def Let_def intro: own channels_relay_unregister [OF own]
        split: prod.splits sum.splits option.splits)
qed

lemma channels_step: "task_step ord s s' \<Longrightarrow> channels_ok s \<Longrightarrow> channels_ok s'"
proof (induction rule: task_step.induct)
  case (st_unregister s t)
  then show ?case by (elim channels_ok_shrink) (auto simp: UnregisterFuture_def waiting_def split: if_splits)
next
  case (st_message s m)
  then have "channels_ok (append_stdout t c s)" for t c by (elim channels_ok_same) simp_all
  with st_message show ?case by (simp add: HandleMessage_def Let_def channels_answer)
next
  case (st_connect s h c)
  then show ?case by (elim channels_ok_same) (simp_all add: RegisterConnection_def)
next
  case (st_disconnect s h c)
  then show ?case by (simp add: unregisterIfCurrent_def channels_unregister split: option.splits)
next
  case (st_close s h)
  have "channels_ok (s\<lparr>wsConnections := x, closedConns := y\<rparr>)" for x y
    using st_close by (rule channels_ok_same) simp_all
  with st_close show ?case by (simp add: CloseAgent_def channels_resolve split: option.splits)
next
  case (st_send s w h t)
  have "channels_ok (s\<lparr>taskHostnames := x\<rparr>)" for x using st_send by (rule channels_ok_same) simp_all
  with st_send show ?case by (simp add: SendToAgent_def prog_defs split: option.splits sum.splits)
next
  case (st_relay_result s r m)
  then show ?case by (simp add: task_result_def Let_def channels_relay_answer)
next
  case (st_relay_gone s r)
  then show ?case unfolding resolve_relay_tasks_def by (intro fold_keeps [where P = channels_ok] channels_relay_answer)
next
  case (st_receive s c)
  have "waiting (receive c s) = waiting s" by (rule ext) (simp add: receive_def waiting_def)
  moreover have "nextChannel (receive c s) = nextChannel s" "channels (receive c s) = (channels s)(c := [])"
    by (simp_all add: receive_def)
  ultimately show ?case using st_receive by (simp add: channels_ok_def)
qed (simp_all add: channels_future channels_unregister channels_dispatch channels_relay_unregister)

lemma started_channels: "channels_ok (started p i b)"
  by (simp add: started_def SetTaskLimits_def initial_tasks_def channels_ok_def waiting_def)

lemma channels_run: "(task_step ord)\<^sup>*\<^sup>* (started p i b) s \<Longrightarrow> channels_ok s"
  by (induction rule: rtranclp_induct) (auto intro: started_channels channels_step)

lemma run_keeps: "(task_step ord)\<^sup>*\<^sup>* (started p i b) s \<Longrightarrow> counters_exact s \<and> limits_kept s"
  by (rule sections_keep [OF steps_sections started_ok])

text \<open>Answering a list of tasks: each waiting one gets its own message, the others keep everything.\<close>

lemma fold_answer:
  fixes s :: tasks and ts :: "string list" and m :: "string \<Rightarrow> Message"
  assumes "channels_ok s"
  defines "s' \<equiv> fold (\<lambda>t. answer t (m t)) ts s"
  shows "fmlookup (pendingTasks s') u = (if u \<in> set ts then None else fmlookup (pendingTasks s) u)"
    "fmlookup (admitted s') u = (if u \<in> set ts then None else fmlookup (admitted s) u)"
    "fmlookup (pendingTasks s) u = Some c \<Longrightarrow> channels s' c = (if u \<in> set ts then [m u] else [])"
    "relayPendingTasks s' = relayPendingTasks s"
proof -
  have "fmlookup (pendingTasks (fold (\<lambda>t. answer t (m t)) ts s)) u = (if u \<in> set ts then None else fmlookup (pendingTasks s) u) \<and>
    fmlookup (admitted (fold (\<lambda>t. answer t (m t)) ts s)) u = (if u \<in> set ts then None else fmlookup (admitted s) u) \<and>
    relayPendingTasks (fold (\<lambda>t. answer t (m t)) ts s) = relayPendingTasks s"
    by (induction ts arbitrary: s) auto
  then show "fmlookup (pendingTasks s') u = (if u \<in> set ts then None else fmlookup (pendingTasks s) u)"
    "fmlookup (admitted s') u = (if u \<in> set ts then None else fmlookup (admitted s) u)"
    "relayPendingTasks s' = relayPendingTasks s" unfolding s'_def by blast+
  have settled: "channels (fold (\<lambda>t. answer t (m t)) ts s) c = channels s c"
    if "channels_ok s" "\<And>k. waiting s (True, k) \<noteq> Some c" for s ts
    using that
  proof (induction ts arbitrary: s)
    case (Cons t ts)
    have "channels_ok (answer t (m t) s)" using Cons.prems(1) by (rule channels_answer)
    moreover have "waiting (answer t (m t) s) (True, k) \<noteq> Some c" for k using Cons.prems(2) [of k] by (simp add: waiting_def)
    ultimately have "channels (fold (\<lambda>t. answer t (m t)) ts (answer t (m t) s)) c = channels (answer t (m t) s) c"
      by (rule Cons.IH)
    moreover have "channels (answer t (m t) s) c = channels s c"
      using Cons.prems(2) [of t] by (auto simp: answer_channels waiting_def split: option.splits)
    ultimately show ?case by simp
  qed simp
  show "channels s' c = (if u \<in> set ts then [m u] else [])" if "fmlookup (pendingTasks s) u = Some c"
    unfolding s'_def using assms(1) that
  proof (induction ts arbitrary: s)
    case Nil
    then show ?case using waiting_open [of s "(True, u)" c] by (simp add: waiting_def)
  next
    case (Cons t ts)
    have w: "waiting s (True, u) = Some c" using Cons.prems(2) by (simp add: waiting_def)
    have ok: "channels_ok (answer t (m t) s)" using Cons.prems(1) by (rule channels_answer)
    show ?case
    proof (cases "t = u")
      case True
      have "waiting (answer t (m t) s) (True, k) \<noteq> Some c" for k
        using waiting_inj [OF Cons.prems(1) w, of "(True, k)"] True by (auto simp: waiting_def)
      with ok have "channels (fold (\<lambda>t. answer t (m t)) ts (answer t (m t) s)) c = channels (answer t (m t) s) c" by (rule settled)
      with True Cons.prems waiting_open [OF Cons.prems(1) w] show ?thesis by (simp add: answer_channels)
    next
      case False
      with Cons.prems Cons.IH [OF ok] show ?thesis by simp
    qed
  qed
qed

section \<open>Buffered output\<close>

definition buffers_accounted :: "tasks \<Rightarrow> bool" where
  "buffers_accounted s \<longleftrightarrow>
     fmpred (\<lambda>t a. a_stdout a = int (length (get_or [] (stdoutBuffers s) t))) (admitted s) \<and>
     fmpred (\<lambda>t _. fmlookup (admitted s) t \<noteq> None \<and> fmlookup (relayPendingTasks s) t = None) (stdoutBuffers s)"

lemma accounted_drop:
  assumes "buffers_accounted s" "admitted s' = fmdrop t (admitted s)" "stdoutBuffers s' = fmdrop t (stdoutBuffers s)"
    and "relayPendingTasks s' = relayPendingTasks s"
  shows "buffers_accounted s'"
  using assms(1) by (auto simp: buffers_accounted_def fmpred_iff assms(2-) split: if_splits)

lemma accounted_same:
  assumes "buffers_accounted s" "admitted s' = admitted s" "stdoutBuffers s' = stdoutBuffers s" "relayPendingTasks s' = relayPendingTasks s"
  shows "buffers_accounted s'"
  using assms(1) by (simp add: buffers_accounted_def assms(2-))

lemma accounted_relay_drop:
  assumes "buffers_accounted s" "fmlookup (stdoutBuffers s) t = None"
    and "admitted s' = fmdrop t (admitted s)" "stdoutBuffers s' = stdoutBuffers s" "relayPendingTasks s' = fmdrop t (relayPendingTasks s)"
  shows "buffers_accounted s'"
  using assms(1,2) by (auto simp: buffers_accounted_def fmpred_iff assms(3-) split: if_splits)

lemma accounted_no_buffer:
  assumes "buffers_accounted s" "fmlookup (relayPendingTasks s) t \<noteq> None \<or> fmlookup (admitted s) t = None"
  shows "fmlookup (stdoutBuffers s) t = None"
  using assms by (cases "fmlookup (stdoutBuffers s) t") (auto simp: buffers_accounted_def fmpred_iff)

lemma accounted_relay_unregister:
  assumes "buffers_accounted s" "fmlookup (relayPendingTasks s) t \<noteq> None \<or> fmlookup (admitted s) t = None"
  shows "buffers_accounted (UnregisterRelayTaskFuture t s)"
  using assms(1) accounted_no_buffer [OF assms]
  by (rule accounted_relay_drop) (simp_all add: UnregisterRelayTaskFuture_def)

lemma accounted_relay_answer:
  assumes "buffers_accounted s"
  shows "buffers_accounted (relay_answer t m s)"
proof (cases "fmlookup (relayPendingTasks s) t")
  case None
  with assms show ?thesis by (simp add: relay_answer_def)
next
  case (Some c)
  then have "buffers_accounted (UnregisterRelayTaskFuture t s)" by (intro accounted_relay_unregister assms) simp
  then have "buffers_accounted (offer c m (UnregisterRelayTaskFuture t s))" by (rule accounted_same) simp_all
  with Some show ?thesis by (simp add: relay_answer_def)
qed

lemma accounted_resolve: "buffers_accounted s \<Longrightarrow> buffers_accounted (ResolveFuturesForHostname h e s)"
  unfolding ResolveFuturesForHostname_def by (rule fold_keeps [where P = buffers_accounted], erule accounted_drop) simp_all

lemma accounted_unregister: "buffers_accounted s \<Longrightarrow> buffers_accounted (UnregisterConnection h s)"
  unfolding UnregisterConnection_def by (rule accounted_resolve, erule accounted_same) simp_all

lemma accounted_append:
  assumes "buffers_accounted s" "fmlookup (relayPendingTasks s) t = None"
  shows "buffers_accounted (append_stdout t c s)"
proof (cases "fmlookup (admitted s) t")
  case None
  with assms(1) show ?thesis by (simp add: append_unknown)
next
  case (Some a)
  with assms show ?thesis
    by (auto simp: append_known [OF Some] buffers_accounted_def fmpred_iff)
qed

lemma fresh_admit:
  assumes "fresh_id t s"
  shows "snd (admitTask t h s) = s \<or> admitted (snd (admitTask t h s)) = fmupd t \<lparr>a_host = h, a_stdout = 0\<rparr> (admitted s)"
  using assms by (simp add: admitTask_def releaseTask_def fresh_id_def Let_def)

lemma accounted_admit:
  assumes "buffers_accounted s" "fresh_id t s"
  shows "buffers_accounted (snd (admitTask t h s))" "fmlookup (stdoutBuffers (snd (admitTask t h s))) t = None"
proof -
  have none: "fmlookup (stdoutBuffers s) t = None"
    using assms by (intro accounted_no_buffer) (auto simp: fresh_id_def)
  then show "fmlookup (stdoutBuffers (snd (admitTask t h s))) t = None" by simp
  from fresh_admit [OF assms(2), of h] show "buffers_accounted (snd (admitTask t h s))"
  proof
    assume "admitted (snd (admitTask t h s)) = fmupd t \<lparr>a_host = h, a_stdout = 0\<rparr> (admitted s)"
    with none assms(1) show ?thesis by (auto simp: buffers_accounted_def fmpred_iff get_or_def)
  qed (use assms(1) in simp)
qed

lemma accounted_future:
  assumes "buffers_accounted s" "fresh_id t s"
  shows "buffers_accounted (snd (RegisterFuture t h s))"
proof -
  have keep: "buffers_accounted (s'\<lparr>nextChannel := n, pendingTasks := p, taskHostnames := x\<rparr>)" if "buffers_accounted s'" for s' n p x
    using that by (rule accounted_same) simp_all
  show ?thesis using accounted_admit(1) [OF assms, of h]
    by (cases "admitTask t h s") (auto simp: RegisterFuture_def bindP_def new_channel_def intro: keep split: sum.splits)
qed

lemma accounted_relay_future:
  assumes "buffers_accounted s" "fresh_id t s"
  shows "buffers_accounted (snd (RegisterRelayTaskFuture t s))"
proof -
  have keep: "buffers_accounted (s'\<lparr>nextChannel := n, relayPendingTasks := fmupd t c (relayPendingTasks s')\<rparr>)"
    if "buffers_accounted s'" "fmlookup (stdoutBuffers s') t = None" for s' n c
    using that by (auto simp: buffers_accounted_def fmpred_iff)
  show ?thesis using accounted_admit [OF assms, of "[]"]
    by (cases "admitTask t [] s") (auto simp: RegisterRelayTaskFuture_def bindP_def new_channel_def intro: keep split: sum.splits)
qed

lemma relay_future_pending:
  "RegisterRelayTaskFuture t s = (Inr c, s') \<Longrightarrow> fmlookup (relayPendingTasks s') t = Some c"
  by (auto simp: RegisterRelayTaskFuture_def bindP_def new_channel_def split: prod.splits sum.splits)

lemma accounted_dispatch:
  assumes "buffers_accounted s" "fresh_id t s"
  shows "buffers_accounted (snd (DispatchToRelay w r t s))"
proof -
  have own: "buffers_accounted (s'\<lparr>relayTaskOwner := x\<rparr>)" if "buffers_accounted s'" for s' x
    using that by (rule accounted_same) simp_all
  have gone: "buffers_accounted (UnregisterRelayTaskFuture t (s'\<lparr>relayTaskOwner := x\<rparr>))"
    if "RegisterRelayTaskFuture t s = (Inr c, s')" "buffers_accounted s'" for s' x c
    using relay_future_pending [OF that(1)] by (intro accounted_relay_unregister own that(2)) simp
  show ?thesis using assms(1) accounted_relay_future [OF assms]
    by (auto simp: DispatchToRelay_def bindP_def Let_def intro: own gone split: prod.splits sum.splits option.splits)
qed

lemma accounted_step: "task_step True s s' \<Longrightarrow> buffers_accounted s \<Longrightarrow> buffers_accounted s'"
proof (induction rule: task_step.induct)
  case (st_unregister s t)
  then show ?case by (elim accounted_drop) (simp_all add: UnregisterFuture_def)
next
  case (st_message s m)
  have "buffers_accounted (answer t x s)" for t x using st_message(2) by (rule accounted_drop) simp_all
  with st_message show ?case by (simp add: HandleMessage_def Let_def accounted_append)
next
  case (st_connect s h c)
  then show ?case by (elim accounted_same) (simp_all add: RegisterConnection_def)
next
  case (st_disconnect s h c)
  then show ?case by (simp add: unregisterIfCurrent_def accounted_unregister split: option.splits)
next
  case (st_close s h)
  have "buffers_accounted (s\<lparr>wsConnections := x, closedConns := y\<rparr>)" for x y
    using st_close by (rule accounted_same) simp_all
  with st_close show ?case by (simp add: CloseAgent_def accounted_resolve split: option.splits)
next
  case (st_send s w h t)
  have "buffers_accounted (s\<lparr>taskHostnames := x\<rparr>)" for x using st_send by (rule accounted_same) simp_all
  with st_send show ?case by (simp add: SendToAgent_def prog_defs split: option.splits sum.splits)
next
  case (st_relay_result s r m)
  then show ?case by (simp add: task_result_def Let_def accounted_relay_answer)
next
  case (st_relay_gone s r)
  then show ?case unfolding resolve_relay_tasks_def by (intro fold_keeps [where P = buffers_accounted] accounted_relay_answer)
next
  case (st_receive s c)
  then show ?case by (elim accounted_same) (simp_all add: receive_def)
qed (simp_all add: accounted_future accounted_unregister accounted_dispatch accounted_relay_unregister)

lemma accounted_total:
  assumes "buffers_accounted s"
  shows "fmsum (\<lambda>b. int (length b)) (stdoutBuffers s) \<le> fmsum a_stdout (admitted s)"
proof -
  have sub: "fmdom' (stdoutBuffers s) \<subseteq> fmdom' (admitted s)"
    using assms by (auto simp: buffers_accounted_def fmpred_iff fmlookup_dom'_iff)
  have "fmsum (\<lambda>b. int (length b)) (stdoutBuffers s) = (\<Sum>t \<in> fmdom' (stdoutBuffers s). a_stdout (the (fmlookup (admitted s) t)))"
    unfolding fmsum_def
  proof (rule sum.cong [OF refl])
    fix t assume t: "t \<in> fmdom' (stdoutBuffers s)"
    with sub have "t \<in> fmdom' (admitted s)" ..
    with t obtain b a where "fmlookup (stdoutBuffers s) t = Some b" "fmlookup (admitted s) t = Some a"
      by (auto simp: fmlookup_dom'_iff)
    with assms show "int (length (the (fmlookup (stdoutBuffers s) t))) = a_stdout (the (fmlookup (admitted s) t))"
      by (auto simp: buffers_accounted_def fmpred_iff get_or_def)
  qed
  also have "\<dots> \<le> fmsum a_stdout (admitted s)"
    unfolding fmsum_def
    by (rule sum_mono2 [OF _ sub]) (use assms in \<open>auto simp: buffers_accounted_def fmpred_iff fmlookup_dom'_iff\<close>)
  finally show ?thesis .
qed

lemma started_accounted: "buffers_accounted (started p i b)"
  by (simp add: started_def SetTaskLimits_def initial_tasks_def buffers_accounted_def)

lemma accounted_run: "(task_step True)\<^sup>*\<^sup>* (started p i b) s \<Longrightarrow> buffers_accounted s"
  by (induction rule: rtranclp_induct) (auto intro: accounted_step started_accounted)

lemma sections_limits: "adm_section s s' \<Longrightarrow> maxPerAgent s' = maxPerAgent s \<and> maxInflight s' = maxInflight s \<and> maxStdoutTotal s' = maxStdoutTotal s"
  by (induction rule: adm_section.induct)
     (auto simp: admitTask_def releaseTask_def releaseLocked_def reserveStdout_def refundStdout_def Let_def split: option.splits)

section \<open>Properties\<close>

text \<open>
  C16. Whatever limits the server starts with and however the sections of the operations interleave, the counters are
  exact: the tasks in flight are the admitted ones, each host counts its own tasks and hosts without tasks have no
  entry, and the bytes held are the sum over the tasks; the limits hold: no more tasks in flight than
  allowed, none of them more per host, and the output held stays within the memory budget.
\<close>

theorem admission_exact_and_bounded:
  assumes "adm_section\<^sup>*\<^sup>* (started perAgent inflight stdoutBudget) s"
  shows "counters_exact s \<and> inflightTotal s \<le> maxInflight s \<and> (\<forall>h. h \<noteq> [] \<longrightarrow> host_count h s \<le> maxPerAgent s) \<and>
    stdoutHeld s \<le> maxStdoutTotal s"
  using sections_keep [OF assms started_ok] held_bounded [of s] by (simp add: limits_kept_def)

theorem admission_exact_and_bounded_witness:
  "host_count ''h1'' (snd (admitTask ''t2'' ''h1'' (snd (admitTask ''t1'' ''h1'' (started 1 5 0))))) \<le> 1"
proof -
  let ?s = "snd (admitTask ''t2'' ''h1'' (snd (admitTask ''t1'' ''h1'' (started 1 5 0))))"
  have "adm_section\<^sup>*\<^sup>* (started 1 5 0) ?s"
    by (rule section_then [OF sec_admit], rule r_into_rtranclp, rule sec_admit)
  then have "host_count ''h1'' ?s \<le> maxPerAgent ?s" by (simp add: admission_exact_and_bounded)
  moreover have "maxPerAgent ?s = 1" by code_simp
  ultimately show ?thesis by simp
qed

text \<open>
  In an orderly run the output buffered by this node, over all tasks, is at most the memory budget, and each buffer
  belongs to an admitted task that accounts for exactly its bytes.
\<close>

theorem buffered_output_bounded:
  assumes "(task_step True)\<^sup>*\<^sup>* (started perAgent inflight stdoutBudget) s"
  shows "fmsum (\<lambda>b. int (length b)) (stdoutBuffers s) \<le> maxStdoutTotal s \<and>
    (fmlookup (stdoutBuffers s) t = Some b \<longrightarrow> (\<exists>a. fmlookup (admitted s) t = Some a \<and> a_stdout a = int (length b) \<and> int (length b) \<le> stdoutMaxBytes))"
proof -
  have acc: "buffers_accounted s" by (rule accounted_run [OF assms])
  have ok: "counters_exact s" "limits_kept s" using run_keeps [OF assms] by simp_all
  from accounted_total [OF acc] held_bounded [OF ok] ok(1)
  have "fmsum (\<lambda>b. int (length b)) (stdoutBuffers s) \<le> maxStdoutTotal s" by (simp add: counters_exact_def)
  moreover have "\<exists>a. fmlookup (admitted s) t = Some a \<and> a_stdout a = int (length b) \<and> int (length b) \<le> stdoutMaxBytes"
    if "fmlookup (stdoutBuffers s) t = Some b"
  proof -
    from that acc obtain a where a: "fmlookup (admitted s) t = Some a" by (auto simp: buffers_accounted_def fmpred_iff)
    with that acc have "a_stdout a = int (length b)" by (auto simp: buffers_accounted_def fmpred_iff get_or_def)
    moreover from ok(2) have "fmpred (\<lambda>_ a. a_stdout a \<le> stdoutMaxBytes) (admitted s)" by (simp add: limits_kept_def)
    then have "a_stdout a \<le> stdoutMaxBytes" using a by (rule fmlookup_all_iff)
    ultimately show ?thesis using a by simp
  qed
  ultimately show ?thesis by blast
qed

definition ex_chunk :: "string \<Rightarrow> string \<Rightarrow> Message" where
  "ex_chunk t c = zero_message\<lparr>g_TaskID := t, g_Type := ''stdout'', g_Chunk := c\<rparr>"

definition ex_result :: "string \<Rightarrow> int \<Rightarrow> Message" where
  "ex_result t rc = zero_message\<lparr>g_TaskID := t, g_Type := ''result'', g_RC := rc\<rparr>"

definition ex_running :: tasks where
  "ex_running = HandleMessage (ex_chunk ''t1'' ''hello'') (snd (RegisterFuture ''t1'' ''h1'' (RegisterConnection ''h1'' 7 (started 0 0 0))))"

lemma ex_run: "(task_step True)\<^sup>*\<^sup>* (started 0 0 0) ex_running"
  unfolding ex_running_def
proof (rule rtranclp.rtrancl_into_rtrancl [OF rtranclp.rtrancl_into_rtrancl [OF r_into_rtranclp]])
  show "task_step True (started 0 0 0) (RegisterConnection ''h1'' 7 (started 0 0 0))" by (rule st_connect)
  show "task_step True (RegisterConnection ''h1'' 7 (started 0 0 0)) (snd (RegisterFuture ''t1'' ''h1'' (RegisterConnection ''h1'' 7 (started 0 0 0))))"
    by (rule st_register) code_simp
  show "task_step True (snd (RegisterFuture ''t1'' ''h1'' (RegisterConnection ''h1'' 7 (started 0 0 0))))
     (HandleMessage (ex_chunk ''t1'' ''hello'') (snd (RegisterFuture ''t1'' ''h1'' (RegisterConnection ''h1'' 7 (started 0 0 0)))))"
    by (rule st_message) code_simp
qed

theorem buffered_output_bounded_witness:
  "fmsum (\<lambda>b. int (length b)) (stdoutBuffers ex_running) \<le> maxStdoutTotal ex_running \<and> fmlookup (stdoutBuffers ex_running) ''t1'' = Some ''hello''"
proof -
  have "fmlookup (stdoutBuffers ex_running) ''t1'' = Some ''hello''" by code_simp
  with buffered_output_bounded [OF ex_run, of "''t1''" "''hello''"] show ?thesis by blast
qed

text \<open>
  C17. Every result is delivered: in any run, the result of a task somebody waits for is put on that waiter's channel, with
  the accumulated output when it carries none; the task is then no longer pending, its slot and its buffer are free,
  and no other waiter is affected.
\<close>

theorem result_delivered:
  assumes "(task_step ord)\<^sup>*\<^sup>* (started perAgent inflight stdoutBudget) s"
    and "fmlookup (pendingTasks s) (g_TaskID msg) = Some c" "g_Type msg = ''result''" "g_TaskID msg \<noteq> []"
  defines "s' \<equiv> HandleMessage msg s"
  shows "channels s' c = [if g_Stdout msg = [] then msg\<lparr>g_Stdout := get_or [] (stdoutBuffers s) (g_TaskID msg)\<rparr> else msg] \<and>
    pendingTasks s' = fmdrop (g_TaskID msg) (pendingTasks s) \<and> admitted s' = fmdrop (g_TaskID msg) (admitted s) \<and>
    stdoutBuffers s' = fmdrop (g_TaskID msg) (stdoutBuffers s) \<and> relayPendingTasks s' = relayPendingTasks s \<and>
    (\<forall>d. d \<noteq> c \<longrightarrow> channels s' d = channels s d)"
proof -
  have "channels s c = []"
    using waiting_open [OF channels_run [OF assms(1)], of "(True, g_TaskID msg)" c] assms(2) by (simp add: waiting_def)
  moreover have "msg\<lparr>g_Stdout := []\<rparr> = msg" if "g_Stdout msg = []" using that by (cases msg) simp
  ultimately show ?thesis using assms(2-4) unfolding s'_def
    by (auto simp: HandleMessage_def Let_def answer_channels)
qed

theorem result_delivered_witness:
  "channels (HandleMessage (ex_result ''t1'' 3) ex_running) 0 = [(ex_result ''t1'' 3)\<lparr>g_Stdout := ''hello''\<rparr>] \<and>
   inflightTotal (HandleMessage (ex_result ''t1'' 3) ex_running) = 0"
proof -
  have "fmlookup (pendingTasks ex_running) (g_TaskID (ex_result ''t1'' 3)) = Some 0" by code_simp
  moreover have "g_Type (ex_result ''t1'' 3) = ''result''" "g_TaskID (ex_result ''t1'' 3) \<noteq> []" by code_simp+
  ultimately have "channels (HandleMessage (ex_result ''t1'' 3) ex_running) 0 =
      [if g_Stdout (ex_result ''t1'' 3) = [] then (ex_result ''t1'' 3)\<lparr>g_Stdout := get_or [] (stdoutBuffers ex_running) (g_TaskID (ex_result ''t1'' 3))\<rparr> else ex_result ''t1'' 3]"
    using result_delivered [OF ex_run] by blast
  moreover have "get_or [] (stdoutBuffers ex_running) (g_TaskID (ex_result ''t1'' 3)) = ''hello''" "g_Stdout (ex_result ''t1'' 3) = []"
    by code_simp+
  moreover have "inflightTotal (HandleMessage (ex_result ''t1'' 3) ex_running) = 0" by code_simp
  ultimately show ?thesis by simp
qed

text \<open>
  C18. When the current connection of a host ends, every task waiting on that host is answered with the error at once and
  gives its slot back, the tasks of other hosts and of child relays keep waiting with their slots; when a connection that
  was replaced ends, nothing happens.
\<close>

theorem disconnection_answers_all:
  fixes s :: tasks and conn :: nat
  assumes "(task_step ord)\<^sup>*\<^sup>* (started perAgent inflight stdoutBudget) s"
    and "fmlookup (wsConnections s) hostname = Some cur" "fmlookup (pendingTasks s) t = Some c"
  defines "s' \<equiv> unregisterIfCurrent hostname conn s"
  shows "if cur \<noteq> conn then s' = s
    else if fmlookup (taskHostnames s) t = Some hostname
    then channels s' c = [zero_message\<lparr>g_TaskID := t, g_Error := ''agent_disconnected''\<rparr>] \<and>
      fmlookup (pendingTasks s') t = None \<and> fmlookup (admitted s') t = None
    else channels s' c = [] \<and> fmlookup (pendingTasks s') t = Some c \<and> fmlookup (admitted s') t = fmlookup (admitted s) t"
proof (cases "cur = conn")
  case False
  with assms(2) show ?thesis by (simp add: s'_def unregisterIfCurrent_def)
next
  case True
  define s0 where "s0 = s\<lparr>wsConnections := fmdrop hostname (wsConnections s), hostEvents := hostEvents s @ [(''host.down'', hostname)]\<rparr>"
  define m where "m = (\<lambda>t. zero_message\<lparr>g_TaskID := t, g_Error := ''agent_disconnected''\<rparr>)"
  have s': "s' = fold (\<lambda>t. answer t (m t)) (tasks_of_host hostname s) s0"
    using True assms(2)
    by (simp add: s'_def unregisterIfCurrent_def UnregisterConnection_def ResolveFuturesForHostname_def s0_def tasks_of_host_def m_def)
  have ok: "channels_ok s0" using channels_run [OF assms(1)] by (rule channels_ok_same) (simp_all add: s0_def)
  have t: "t \<in> set (tasks_of_host hostname s) \<longleftrightarrow> fmlookup (taskHostnames s) t = Some hostname"
    by (auto simp: tasks_of_host_def in_keys_iff)
  have "fmlookup (pendingTasks s0) t = Some c" "admitted s0 = admitted s" using assms(3) by (simp_all add: s0_def)
  with fold_answer(1-3) [OF ok, where u = t and m = m and ts = "tasks_of_host hostname s"] t True show ?thesis
    by (simp add: s' m_def)
qed

theorem disconnection_answers_all_witness:
  "map g_Error (channels (unregisterIfCurrent ''h1'' 7 ex_running) 0) = [''agent_disconnected'']"
proof -
  have "fmlookup (wsConnections ex_running) ''h1'' = Some 7" "fmlookup (pendingTasks ex_running) ''t1'' = Some 0"
    "fmlookup (taskHostnames ex_running) ''t1'' = Some ''h1''" by code_simp+
  with disconnection_answers_all [OF ex_run, of "''h1''" 7 "''t1''" 0 7] show ?thesis by simp
qed

text \<open>
  A task identifier that is registered again while in use gives its reservation back but keeps its buffer: the
  bytes it holds are no longer counted in the budget, and the first waiter is never answered.
\<close>

theorem reregistration_escapes_budget:
  "stdoutHeld (snd (RegisterFuture ''t1'' ''h1'' ex_running)) = 0 \<and>
   fmlookup (stdoutBuffers (snd (RegisterFuture ''t1'' ''h1'' ex_running))) ''t1'' = Some ''hello'' \<and>
   channels (HandleMessage (ex_result ''t1'' 0) (snd (RegisterFuture ''t1'' ''h1'' ex_running))) 0 = []"
  by code_simp

text \<open>
  Output an agent sends under the identifier of a relayed task is buffered, and the buffer is never dropped: the answer of
  the relay releases the task and not the buffer.
\<close>

definition ex_relayed :: tasks where
  "ex_relayed = task_result ''r1'' (ex_result ''t1'' 0)
     (HandleMessage (ex_chunk ''t1'' ''hello'')
       (snd (DispatchToRelay None ''r1'' ''t1'' ((started 0 0 0)\<lparr>relayConnections := fmupd ''r1'' 1 fmempty\<rparr>))))"

theorem relayed_output_left_behind:
  "fmlookup (stdoutBuffers ex_relayed) ''t1'' = Some ''hello'' \<and> stdoutHeld ex_relayed = 0 \<and> fmlookup (admitted ex_relayed) ''t1'' = None"
  by code_simp
end
