(* ===== verification/Quotas.thy ===== *)
theory Quotas
  imports Prelude
begin

text \<open>
  Rate limits of a child relay (\<open>internal/ws\<close>: \<open>event_quota.go\<close> and \<open>snapshot_quota.go\<close>): one fixed window per
  identity in a bounded table that is purged by activity. The order in which Go visits the table, which decides
  between windows that started at the same time, is an argument.

  A table with fewer identities than its bound behaves as an independent counter per identity: neither the purge
  nor the calls of the others are visible.
\<close>

section \<open>Tables\<close>

record quota =
  q_start :: gotime
  q_count :: int

type_synonym quota_table = "(string, quota) fmap"
type_synonym visit_order = "quota_table \<Rightarrow> string list"

definition eventQuotaWindow :: duration where "eventQuotaWindow = second"
definition maxEventsPerSecond :: int where "maxEventsPerSecond = 200"
definition snapshotReplaceLimit :: int where "snapshotReplaceLimit = 40"
definition snapshotReplaceWindow :: duration where "snapshotReplaceWindow = 60 * second"
definition maxQuotaEntries :: nat where "maxQuotaEntries = 4096"

record quotas =
  eventQuotas :: quota_table
  eventQuotaPurged :: gotime
  snapQuotas :: quota_table
  snapPurged :: gotime

definition no_quotas :: quotas where
  "no_quotas = \<lparr>eventQuotas = fmempty, eventQuotaPurged = 0, snapQuotas = fmempty, snapPurged = 0\<rparr>"

definition table_size :: "quota_table \<Rightarrow> nat" where
  "table_size m = fcard (fmdom m)"

text \<open>The loop that drops the windows that are over.\<close>

definition drop_over :: "duration \<Rightarrow> gotime \<Rightarrow> quota_table \<Rightarrow> quota_table" where
  "drop_over window now m =
     fmfilter (\<lambda>i. case fmlookup m i of None \<Rightarrow> True | Some q \<Rightarrow> \<not> now - q_start q \<ge> window) m"

text \<open>The scan for the oldest window, and the loop that evicts until there is room; every round removes one entry, so the size is enough fuel.\<close>

fun oldest_of :: "string list \<Rightarrow> quota_table \<Rightarrow> string \<Rightarrow> gotime \<Rightarrow> string" where
  "oldest_of [] m oldest ot = oldest"
| "oldest_of (i # ids) m oldest ot =
     (case fmlookup m i of
        None \<Rightarrow> oldest_of ids m oldest ot
      | Some q \<Rightarrow> if oldest = [] \<or> q_start q < ot then oldest_of ids m i (q_start q) else oldest_of ids m oldest ot)"

fun evict_loop :: "nat \<Rightarrow> visit_order \<Rightarrow> quota_table \<Rightarrow> quota_table" where
  "evict_loop 0 ord m = m"
| "evict_loop (Suc n) ord m =
     (if table_size m \<ge> maxQuotaEntries then evict_loop n ord (fmdrop (oldest_of (ord m) m [] 0) m) else m)"

definition evict :: "visit_order \<Rightarrow> quota_table \<Rightarrow> quota_table" where
  "evict ord m = evict_loop (table_size m) ord m"

section \<open>Events\<close>

definition purgeEventQuotaLocked :: "gotime \<Rightarrow> quotas \<Rightarrow> quotas" where
  "purgeEventQuotaLocked now s =
     (if now - eventQuotaPurged s < eventQuotaWindow then s
      else s\<lparr>eventQuotaPurged := now, eventQuotas := drop_over eventQuotaWindow now (eventQuotas s)\<rparr>)"

definition evictEventQuotaLocked :: "visit_order \<Rightarrow> quotas \<Rightarrow> quotas" where
  "evictEventQuotaLocked ord s = s\<lparr>eventQuotas := evict ord (eventQuotas s)\<rparr>"

definition allowEvent :: "visit_order \<Rightarrow> string \<Rightarrow> gotime \<Rightarrow> quotas \<Rightarrow> bool \<times> quotas" where
  "allowEvent ord relayID now s0 =
     (let s = purgeEventQuotaLocked now s0 in
      case fmlookup (eventQuotas s) relayID of
        None \<Rightarrow>
          let s1 = evictEventQuotaLocked ord s in
          (1 \<le> maxEventsPerSecond, s1\<lparr>eventQuotas := fmupd relayID \<lparr>q_start = now, q_count = 1\<rparr> (eventQuotas s1)\<rparr>)
      | Some q \<Rightarrow>
          let q1 = (if now - q_start q \<ge> eventQuotaWindow then \<lparr>q_start = now, q_count = 1\<rparr> else q\<lparr>q_count := q_count q + 1\<rparr>) in
          (q_count q1 \<le> maxEventsPerSecond, s\<lparr>eventQuotas := fmupd relayID q1 (eventQuotas s)\<rparr>))"

section \<open>Snapshots\<close>

definition purgeSnapQuotaLocked :: "visit_order \<Rightarrow> gotime \<Rightarrow> quotas \<Rightarrow> quotas" where
  "purgeSnapQuotaLocked ord now s =
     (if now - snapPurged s < snapshotReplaceWindow \<and> table_size (snapQuotas s) < maxQuotaEntries then s
      else s\<lparr>snapPurged := now, snapQuotas := evict ord (drop_over snapshotReplaceWindow now (snapQuotas s))\<rparr>)"

definition allowSnapshot :: "visit_order \<Rightarrow> string \<Rightarrow> gotime \<Rightarrow> quotas \<Rightarrow> bool \<times> quotas" where
  "allowSnapshot ord relayID now s0 =
     (let s = purgeSnapQuotaLocked ord now s0;
          q = (case fmlookup (snapQuotas s) relayID of
                 None \<Rightarrow> \<lparr>q_start = now, q_count = 0\<rparr>
               | Some q \<Rightarrow> if now - q_start q \<ge> snapshotReplaceWindow then \<lparr>q_start = now, q_count = 0\<rparr> else q);
          q1 = q\<lparr>q_count := q_count q + 1\<rparr>
      in (q_count q1 \<le> snapshotReplaceLimit, s\<lparr>snapQuotas := fmupd relayID q1 (snapQuotas s)\<rparr>))"

definition snapshotQuotaExhausted :: "string \<Rightarrow> gotime \<Rightarrow> quotas \<Rightarrow> bool" where
  "snapshotQuotaExhausted relayID now s =
     (case fmlookup (snapQuotas s) relayID of
        None \<Rightarrow> False
      | Some q \<Rightarrow> now - q_start q < snapshotReplaceWindow \<and> q_count q \<ge> snapshotReplaceLimit)"

section \<open>One counter\<close>

text \<open>The reference: a single identity that counts its calls in windows that start with a call.\<close>

definition window_next :: "duration \<Rightarrow> quota option \<Rightarrow> gotime \<Rightarrow> quota" where
  "window_next window r now =
     (case r of
        None \<Rightarrow> \<lparr>q_start = now, q_count = 1\<rparr>
      | Some q \<Rightarrow> if now - q_start q \<ge> window then \<lparr>q_start = now, q_count = 1\<rparr> else q\<lparr>q_count := q_count q + 1\<rparr>)"

fun window_run :: "duration \<Rightarrow> int \<Rightarrow> quota option \<Rightarrow> gotime list \<Rightarrow> bool list" where
  "window_run window limit r [] = []"
| "window_run window limit r (t # ts) =
     (let q = window_next window r t in (q_count q \<le> limit) # window_run window limit (Some q) ts)"

text \<open>How many calls are accepted at a time from \<open>a\<close> on and before \<open>a + window\<close>.\<close>

definition accepted_in :: "duration \<Rightarrow> int \<Rightarrow> gotime \<Rightarrow> quota option \<Rightarrow> gotime list \<Rightarrow> int" where
  "accepted_in window limit a r ts =
     int (length (filter (\<lambda>(t, v). v \<and> a \<le> t \<and> t < a + window) (zip ts (window_run window limit r ts))))"

lemma accepted_in_simps [simp]:
  "accepted_in window limit a r [] = 0"
  "accepted_in window limit a r (t # ts) =
     (if q_count (window_next window r t) \<le> limit \<and> a \<le> t \<and> t < a + window then 1 else 0)
     + accepted_in window limit a (Some (window_next window r t)) ts"
  by (simp_all add: accepted_in_def Let_def)

lemma accepted_late: "\<forall>t \<in> set ts. a + window \<le> t \<Longrightarrow> accepted_in window limit a r ts = 0"
  by (induction ts arbitrary: r) auto

lemma accepted_in_one_window:
  assumes "sorted ts" "a \<le> q_start q"
  shows "accepted_in window limit a (Some q) ts \<le> max 0 (limit - q_count q)"
  using assms
proof (induction ts arbitrary: q)
  case (Cons t ts)
  show ?case
  proof (cases "t - q_start q < window")
    case True
    then have "window_next window (Some q) t = q\<lparr>q_count := q_count q + 1\<rparr>" by (simp add: window_next_def)
    with Cons.IH [of "q\<lparr>q_count := q_count q + 1\<rparr>"] Cons.prems show ?thesis by auto
  next
    case False
    with Cons.prems have "\<forall>u \<in> set ts. a + window \<le> u" "\<not> t < a + window" by auto
    then show ?thesis by (simp add: accepted_late)
  qed
qed simp

lemma accepted_in_two_windows:
  assumes "sorted ts" "\<forall>t \<in> set ts. a \<le> t" "0 < limit"
  shows "accepted_in window limit a (Some q) ts \<le> max 0 (limit - q_count q) + limit"
  using assms
proof (induction ts arbitrary: q)
  case (Cons t ts)
  show ?case
  proof (cases "t - q_start q < window")
    case True
    then have "window_next window (Some q) t = q\<lparr>q_count := q_count q + 1\<rparr>" by (simp add: window_next_def)
    with Cons.IH [of "q\<lparr>q_count := q_count q + 1\<rparr>"] Cons.prems show ?thesis by auto
  next
    case False
    then have next_q: "window_next window (Some q) t = \<lparr>q_start = t, q_count = 1\<rparr>" by (simp add: window_next_def)
    have "accepted_in window limit a (Some \<lparr>q_start = t, q_count = 1\<rparr>) ts \<le> limit - 1"
      using accepted_in_one_window [of ts a "\<lparr>q_start = t, q_count = 1\<rparr>" window limit] Cons.prems by simp
    with Cons.prems(3) show ?thesis by (auto simp: next_q)
  qed
qed simp

lemma accepted_bounded:
  assumes "sorted ts" "0 < limit" "case r of None \<Rightarrow> True | Some q \<Rightarrow> 0 \<le> q_count q"
  shows "accepted_in window limit a r ts \<le> 2 * limit"
  using assms
proof (induction ts arbitrary: r)
  case (Cons t ts)
  define q where "q = window_next window r t"
  have q: "1 \<le> q_count q" using Cons.prems(3) by (auto simp: q_def window_next_def split: option.splits)
  show ?case
  proof (cases "t < a")
    case True
    with Cons.IH [of "Some q"] Cons.prems q show ?thesis by (simp add: q_def)
  next
    case False
    with Cons.prems have "\<forall>u \<in> set ts. a \<le> u" by auto
    with Cons.prems have "accepted_in window limit a (Some q) ts \<le> max 0 (limit - q_count q) + limit"
      by (intro accepted_in_two_windows) auto
    with q Cons.prems(2) show ?thesis by (auto simp: q_def [symmetric])
  qed
qed simp

section \<open>The table as independent counters\<close>

text \<open>What the table knows of an identity: its counter, or nothing once the window is over.\<close>

definition knows :: "duration \<Rightarrow> gotime \<Rightarrow> quota_table \<Rightarrow> string \<Rightarrow> quota option \<Rightarrow> bool" where
  "knows window now m i r \<longleftrightarrow>
     fmlookup m i = r \<or> fmlookup m i = None \<and> (case r of None \<Rightarrow> True | Some q \<Rightarrow> now - q_start q \<ge> window)"

lemma knows_later: "knows window now m i r \<Longrightarrow> now \<le> t \<Longrightarrow> knows window t m i r"
  by (auto simp: knows_def split: option.splits)

lemma knows_next: "knows window now m i r \<Longrightarrow> window_next window (fmlookup m i) now = window_next window r now"
  by (auto simp: knows_def window_next_def split: option.splits)

lemma lookup_drop_over:
  "fmlookup (drop_over window now m) i =
     (case fmlookup m i of None \<Rightarrow> None | Some q \<Rightarrow> if now - q_start q \<ge> window then None else Some q)"
  by (simp add: drop_over_def split: option.splits)

lemma knows_drop_over: "knows window now m i r \<Longrightarrow> knows window now (drop_over window now m) i r"
  by (auto simp: knows_def lookup_drop_over split: option.splits)

lemma drop_over_subset: "fset (fmdom (drop_over window now m)) \<subseteq> fset (fmdom m)"
  unfolding drop_over_def fmdom_filter by auto

lemma evict_room: "table_size m < maxQuotaEntries \<Longrightarrow> evict ord m = m"
  unfolding evict_def by (cases "table_size m") simp_all

lemma table_size_le: "fset (fmdom m) \<subseteq> set ids \<Longrightarrow> table_size m \<le> card (set ids)"
  unfolding table_size_def fcard.rep_eq by (rule card_mono) simp_all

text \<open>Calls in the order in which the lock serves them, and what they mean for one identity.\<close>

fun calls :: "(string \<Rightarrow> gotime \<Rightarrow> 's \<Rightarrow> bool \<times> 's) \<Rightarrow> (string \<times> gotime) list \<Rightarrow> 's \<Rightarrow> bool list" where
  "calls allow [] s = []"
| "calls allow (c # cs) s = (case allow (fst c) (snd c) s of (v, s') \<Rightarrow> v # calls allow cs s')"

definition verdicts_of :: "string \<Rightarrow> (string \<times> gotime) list \<Rightarrow> bool list \<Rightarrow> bool list" where
  "verdicts_of i cs vs = map snd (filter (\<lambda>(c, v). fst c = i) (zip cs vs))"

definition times_of :: "string \<Rightarrow> (string \<times> gotime) list \<Rightarrow> gotime list" where
  "times_of i cs = map snd (filter (\<lambda>c. fst c = i) cs)"

lemma calls_simps [simp]:
  "verdicts_of i [] vs = []" "times_of i [] = []"
  "verdicts_of i (c # cs) (v # vs) = (if fst c = i then v # verdicts_of i cs vs else verdicts_of i cs vs)"
  "times_of i (c # cs) = (if fst c = i then snd c # times_of i cs else times_of i cs)"
  by (simp_all add: verdicts_of_def times_of_def)

lemma sorted_times: "sorted (map snd cs) \<Longrightarrow> sorted (times_of i cs)"
  unfolding times_of_def by (rule sorted_filter)

text \<open>
  The contract of a limited operation on a table that has room for the identities \<open>ids\<close>: it may drop windows that are
  over, counts the call in the window of its identity and nothing else.
\<close>

locale windowed_table =
  fixes tab :: "'s \<Rightarrow> quota_table" and allow :: "string \<Rightarrow> gotime \<Rightarrow> 's \<Rightarrow> bool \<times> 's"
    and window :: duration and limit :: int and room :: nat
  assumes effect: "fset (fmdom (tab s)) \<subseteq> set ids \<Longrightarrow> card (set ids) \<le> room \<Longrightarrow> j \<in> set ids \<Longrightarrow>
      \<exists>m. (m = tab s \<or> m = drop_over window t (tab s)) \<and>
        fst (allow j t s) = (q_count (window_next window (fmlookup m j) t) \<le> limit) \<and>
        tab (snd (allow j t s)) = fmupd j (window_next window (fmlookup m j) t) m"
begin

lemma independent_from:
  assumes "fset (fmdom (tab s)) \<subseteq> set ids" "card (set ids) \<le> room" "fst ` set cs \<subseteq> set ids"
    and "sorted (map snd cs)" "\<forall>c \<in> set cs. now \<le> snd c" "knows window now (tab s) i r"
  shows "verdicts_of i cs (calls allow cs s) = window_run window limit r (times_of i cs)"
  using assms
proof (induction cs arbitrary: s r now)
  case (Cons c cs)
  obtain j t where c: "c = (j, t)" by (cases c)
  obtain v s' where a: "allow j t s = (v, s')" by (cases "allow j t s")
  from effect [OF Cons.prems(1,2), of j t] Cons.prems(3) c
  obtain m where m: "m = tab s \<or> m = drop_over window t (tab s)"
    and v: "v = (q_count (window_next window (fmlookup m j) t) \<le> limit)" and tab': "tab s' = fmupd j (window_next window (fmlookup m j) t) m"
    by (auto simp: a)
  have "knows window t (tab s) i r" using Cons.prems(5,6) c by (auto intro: knows_later)
  then have known: "knows window t m i r" using m by (auto intro: knows_drop_over)
  have "fset (fmdom m) \<subseteq> set ids" using m Cons.prems(1) drop_over_subset [of window t "tab s"] by auto
  then have sub: "fset (fmdom (tab s')) \<subseteq> set ids" using Cons.prems(3) c by (simp add: tab')
  have rest: "verdicts_of i cs (calls allow cs s') = window_run window limit r' (times_of i cs)" if "knows window t (tab s') i r'" for r'
    using Cons.prems c that by (intro Cons.IH [OF sub Cons.prems(2)]) auto
  show ?case
  proof (cases "j = i")
    case True
    with knows_next [OF known] have "tab s' = fmupd i (window_next window r t) m" "v = (q_count (window_next window r t) \<le> limit)"
      using tab' v by simp_all
    moreover have "allow i t s = (v, s')" using a True by simp
    ultimately show ?thesis using rest [of "Some (window_next window r t)"] True by (simp add: c knows_def Let_def)
  next
    case False
    with known have "knows window t (tab s') i r" by (simp add: tab' knows_def)
    with rest [of r] False show ?thesis by (simp add: c a)
  qed
qed simp

lemma independent:
  assumes "tab s = fmempty" "card (fst ` set cs) \<le> room" "sorted (map snd cs)"
  shows "verdicts_of i cs (calls allow cs s) = window_run window limit None (times_of i cs)"
proof (cases cs)
  case (Cons c cs')
  have "\<forall>d \<in> set cs. snd c \<le> snd d" using assms(3) Cons by auto
  then show ?thesis
    using assms by (intro independent_from [where ids = "map fst cs" and now = "snd c"]) (auto simp: knows_def)
qed simp

end

lemma event_effect:
  assumes "fset (fmdom (eventQuotas s)) \<subseteq> set ids" "card (set ids) \<le> maxQuotaEntries" "j \<in> set ids"
  shows "\<exists>m. (m = eventQuotas s \<or> m = drop_over eventQuotaWindow t (eventQuotas s)) \<and>
    fst (allowEvent ord j t s) = (q_count (window_next eventQuotaWindow (fmlookup m j) t) \<le> maxEventsPerSecond) \<and>
    eventQuotas (snd (allowEvent ord j t s)) = fmupd j (window_next eventQuotaWindow (fmlookup m j) t) m"
proof -
  define m where "m = eventQuotas (purgeEventQuotaLocked t s)"
  have m: "m = eventQuotas s \<or> m = drop_over eventQuotaWindow t (eventQuotas s)" by (simp add: m_def purgeEventQuotaLocked_def)
  then have sub: "fset (fmdom m) \<subseteq> set ids" using assms(1) drop_over_subset [of eventQuotaWindow t "eventQuotas s"] by auto
  have "evict ord m = m" if "fmlookup m j = None"
  proof -
    have "fset (fmdom m) \<subseteq> set (removeAll j ids)" using sub that by (auto simp: fmlookup_dom_iff)
    then have "table_size m \<le> card (set (removeAll j ids))" by (rule table_size_le)
    also have "\<dots> < card (set ids)" using assms(3) by (simp add: psubset_card_mono [OF _ psubsetI] card_Diff1_less del: card_Diff_insert card_Diff_singleton)
    also have "\<dots> \<le> maxQuotaEntries" by (rule assms(2))
    finally show ?thesis by (rule evict_room)
  qed
  then have "fst (allowEvent ord j t s) = (q_count (window_next eventQuotaWindow (fmlookup m j) t) \<le> maxEventsPerSecond)"
    "eventQuotas (snd (allowEvent ord j t s)) = fmupd j (window_next eventQuotaWindow (fmlookup m j) t) m"
    by (auto simp: allowEvent_def Let_def m_def [symmetric] evictEventQuotaLocked_def window_next_def split: option.splits)
  with m show ?thesis by blast
qed

lemma snapshot_effect:
  assumes "fset (fmdom (snapQuotas s)) \<subseteq> set ids" "card (set ids) \<le> maxQuotaEntries - 1" "j \<in> set ids"
  shows "\<exists>m. (m = snapQuotas s \<or> m = drop_over snapshotReplaceWindow t (snapQuotas s)) \<and>
    fst (allowSnapshot ord j t s) = (q_count (window_next snapshotReplaceWindow (fmlookup m j) t) \<le> snapshotReplaceLimit) \<and>
    snapQuotas (snd (allowSnapshot ord j t s)) = fmupd j (window_next snapshotReplaceWindow (fmlookup m j) t) m"
proof -
  define m where "m = snapQuotas (purgeSnapQuotaLocked ord t s)"
  have "fset (fmdom (drop_over snapshotReplaceWindow t (snapQuotas s))) \<subseteq> set ids"
    using assms(1) drop_over_subset [of snapshotReplaceWindow t "snapQuotas s"] by auto
  then have "table_size (drop_over snapshotReplaceWindow t (snapQuotas s)) < maxQuotaEntries"
    using table_size_le assms(2) by (fastforce simp: maxQuotaEntries_def)
  then have m: "m = snapQuotas s \<or> m = drop_over snapshotReplaceWindow t (snapQuotas s)"
    by (simp add: m_def purgeSnapQuotaLocked_def evict_room)
  moreover have "fst (allowSnapshot ord j t s) = (q_count (window_next snapshotReplaceWindow (fmlookup m j) t) \<le> snapshotReplaceLimit)"
    "snapQuotas (snd (allowSnapshot ord j t s)) = fmupd j (window_next snapshotReplaceWindow (fmlookup m j) t) m"
    by (simp_all add: allowSnapshot_def Let_def m_def [symmetric] window_next_def split: option.splits)
  ultimately show ?thesis by blast
qed

interpretation ev: windowed_table eventQuotas "allowEvent ord" eventQuotaWindow maxEventsPerSecond maxQuotaEntries
  by unfold_locales (rule event_effect)

interpretation sn: windowed_table snapQuotas "allowSnapshot ord" snapshotReplaceWindow snapshotReplaceLimit "maxQuotaEntries - 1"
  by unfold_locales (rule snapshot_effect)

section \<open>Properties\<close>

text \<open>
  C33. The quota of a relay is its own, while the table is not full. With clocks that do not go back and fewer than
  4096 identities ever seen, so that no entry is evicted, the verdicts an identity gets on its events and on its
  snapshots are exactly those of a counter that sees only its own calls, whatever the others do; within any second
  at most twice the limit of events is accepted from it, within any minute at most twice the limit of snapshots.
  A full table does reset windows (\<open>full_table_resets_own_window\<close>).
\<close>

theorem quotas_independent_and_bounded:
  assumes "sorted (map snd cs)" "card (fst ` set cs) < maxQuotaEntries"
  shows "verdicts_of i cs (calls (allowEvent ord) cs no_quotas) = window_run eventQuotaWindow maxEventsPerSecond None (times_of i cs) \<and>
    verdicts_of i cs (calls (allowSnapshot ord) cs no_quotas) = window_run snapshotReplaceWindow snapshotReplaceLimit None (times_of i cs) \<and>
    accepted_in eventQuotaWindow maxEventsPerSecond a None (times_of i cs) \<le> 400 \<and>
    accepted_in snapshotReplaceWindow snapshotReplaceLimit a None (times_of i cs) \<le> 80"
proof -
  have "sorted (times_of i cs)" using assms(1) by (rule sorted_times)
  then have "accepted_in eventQuotaWindow maxEventsPerSecond a None (times_of i cs) \<le> 400"
    "accepted_in snapshotReplaceWindow snapshotReplaceLimit a None (times_of i cs) \<le> 80"
    using accepted_bounded [of "times_of i cs" maxEventsPerSecond None eventQuotaWindow a]
      accepted_bounded [of "times_of i cs" snapshotReplaceLimit None snapshotReplaceWindow a]
    by (simp_all add: maxEventsPerSecond_def snapshotReplaceLimit_def)
  with ev.independent [of no_quotas cs i ord] sn.independent [of no_quotas cs i ord] assms show ?thesis
    by (simp add: no_quotas_def)
qed

theorem quotas_independent_and_bounded_witness:
  "verdicts_of ''r1'' [(''r1'', 5), (''r2'', 6), (''r1'', 7)] (calls (allowEvent keys) [(''r1'', 5), (''r2'', 6), (''r1'', 7)] no_quotas)
     = [True, True]"
proof -
  have "sorted (map snd [(''r1'', 5 :: int), (''r2'', 6), (''r1'', 7)])" by simp
  moreover have "card (fst ` set [(''r1'', 5 :: int), (''r2'', 6), (''r1'', 7)]) < maxQuotaEntries" by (simp add: maxQuotaEntries_def card_insert_if)
  ultimately have "verdicts_of ''r1'' [(''r1'', 5), (''r2'', 6), (''r1'', 7)] (calls (allowEvent keys) [(''r1'', 5), (''r2'', 6), (''r1'', 7)] no_quotas)
     = window_run eventQuotaWindow maxEventsPerSecond None (times_of ''r1'' [(''r1'', 5), (''r2'', 6), (''r1'', 7)])"
    by (rule quotas_independent_and_bounded [THEN conjunct1])
  also have "\<dots> = [True, True]" by code_simp
  finally show ?thesis .
qed

text \<open>The table stays within its bound, whatever the calls of named identities.\<close>

definition visits :: "visit_order \<Rightarrow> bool" where
  "visits ord \<longleftrightarrow> (\<forall>m. set (ord m) = fset (fmdom m))"

lemma oldest_is_oldest:
  assumes i: "fmlookup m i = Some q" "i \<in> set ids \<or> old = i"
    and least: "\<And>j p. j \<noteq> i \<Longrightarrow> fmlookup m j = Some p \<Longrightarrow> q_start q < q_start p"
    and old: "old \<noteq> [] \<Longrightarrow> \<exists>p. fmlookup m old = Some p \<and> ot = q_start p" and named: "[] \<notin> set ids" "i \<noteq> []"
  shows "oldest_of ids m old ot = i"
  using i(2) old named(1)
proof (induction ids arbitrary: old ot)
  case (Cons j ids)
  show ?case
  proof (cases "fmlookup m j")
    case None
    with i(1) Cons show ?thesis by (cases "j = i") auto
  next
    case (Some p)
    show ?thesis
    proof (cases "old = [] \<or> q_start p < ot")
      case True
      with Some i(1) least [of j p] Cons.prems have "i \<in> set ids \<or> j = i" by (metis insertE less_asym list.set(2) named(2) option.inject)
      with True Some Cons.IH [of j "q_start p"] Cons.prems show ?thesis by simp
    next
      case False
      then obtain p' where p': "fmlookup m old = Some p'" "ot = q_start p'" using Cons.prems(2) by blast
      have "i \<in> set ids \<or> old = i"
        using Cons.prems(1) False Some i(1) p' least [of old p'] by (cases "old = i") auto
      with False Some Cons.IH [of old ot] Cons.prems show ?thesis by simp
    qed
  qed
qed (use named in simp)

lemma oldest_found:
  assumes "old \<noteq> [] \<Longrightarrow> fmlookup m old \<noteq> None" "old \<noteq> [] \<or> (\<exists>i \<in> set ids. fmlookup m i \<noteq> None)" "[] \<notin> set ids"
  shows "fmlookup m (oldest_of ids m old ot) \<noteq> None"
  using assms
proof (induction ids arbitrary: old ot)
  case (Cons i ids)
  show ?case
  proof (cases "fmlookup m i")
    case None
    with Cons.prems have "old \<noteq> [] \<or> (\<exists>i \<in> set ids. fmlookup m i \<noteq> None)" by auto
    with None Cons show ?thesis by simp
  next
    case (Some q)
    with Cons.IH [of i "q_start q"] Cons.IH [of old ot] Cons.prems show ?thesis by auto
  qed
qed simp

lemma evict_loop_bounded:
  assumes "visits ord" "fmlookup m [] = None" "table_size m \<le> n"
  shows "table_size (evict_loop n ord m) < maxQuotaEntries"
  using assms(2,3)
proof (induction n arbitrary: m)
  case 0
  then show ?case by (simp add: maxQuotaEntries_def)
next
  case (Suc n)
  show ?case
  proof (cases "table_size m \<ge> maxQuotaEntries")
    case True
    have dom: "set (ord m) = fset (fmdom m)" using assms(1) by (simp add: visits_def)
    have "fmdom m \<noteq> {||}" using True by (auto simp: table_size_def maxQuotaEntries_def fcard_fempty)
    then have "\<exists>i \<in> set (ord m). fmlookup m i \<noteq> None" by (auto simp: dom fmlookup_dom_iff)
    moreover have "[] \<notin> set (ord m)" using Suc.prems(1) by (simp add: dom fmlookup_dom_iff)
    ultimately have found: "fmlookup m (oldest_of (ord m) m [] 0) \<noteq> None" by (intro oldest_found) auto
    then have "oldest_of (ord m) m [] 0 |\<in>| fmdom m" by (auto simp: fmlookup_dom_iff)
    then have "table_size (fmdrop (oldest_of (ord m) m [] 0) m) < table_size m"
      unfolding table_size_def fmdom_drop by (rule fcard_fminus1_less)
    with Suc True show ?thesis by simp
  qed simp
qed

lemma evict_bounded: "visits ord \<Longrightarrow> fmlookup m [] = None \<Longrightarrow> table_size (evict ord m) < maxQuotaEntries"
  unfolding evict_def by (rule evict_loop_bounded) simp_all

text \<open>
  With a full table of live windows, the snapshot of the relay whose window is the oldest evicts that very window: the relay
  is allowed again although its quota is spent. The table of events evicts only for a new identity.
\<close>

theorem full_table_resets_own_window:
  assumes "table_size (snapQuotas s) = maxQuotaEntries" "visits ord" "fmlookup (snapQuotas s) [] = None"
    and "fmlookup (snapQuotas s) relayID = Some q"
    and "\<And>j p. fmlookup (snapQuotas s) j = Some p \<Longrightarrow> now - q_start p < snapshotReplaceWindow"
    and "\<And>j p. j \<noteq> relayID \<Longrightarrow> fmlookup (snapQuotas s) j = Some p \<Longrightarrow> q_start q < q_start p"
  shows "fst (allowSnapshot ord relayID now s)"
proof -
  let ?m = "snapQuotas s"
  have live: "drop_over snapshotReplaceWindow now ?m = ?m"
    by (rule fmap_ext) (use assms(5) in \<open>force simp: lookup_drop_over split: option.splits\<close>)
  have dom: "set (ord ?m) = fset (fmdom ?m)" using assms(2) by (simp add: visits_def)
  have "oldest_of (ord ?m) ?m [] 0 = relayID"
    using assms(3,4,6) by (intro oldest_is_oldest [of ?m relayID q]) (auto simp: dom fmlookup_dom_iff)
  moreover have "relayID |\<in>| fmdom ?m" using assms(4) by (rule fmdomI)
  then have "table_size (fmdrop relayID ?m) < maxQuotaEntries"
    unfolding assms(1) [symmetric] table_size_def fmdom_drop by (rule fcard_fminus1_less)
  moreover obtain n where n: "maxQuotaEntries = Suc n" by (cases maxQuotaEntries) (simp_all add: maxQuotaEntries_def)
  then have "evict ord ?m = evict_loop (Suc n) ord ?m" by (simp only: evict_def assms(1))
  ultimately have "evict ord ?m = fmdrop relayID ?m" using assms(1) by (cases n) simp_all
  then show ?thesis using assms(1) live
    by (simp add: allowSnapshot_def purgeSnapQuotaLocked_def Let_def snapshotReplaceLimit_def)
qed

end
