(* ===== verification/Group_Vars.thy ===== *)
theory Group_Vars
  imports Prelude
begin

text \<open>
  Ansible group variables of a relay (\<open>internal/config/groupvars.go\<close>): what a relay, local or remote, may publish for
  its group. The values end up in the inventory the Ansible controller evaluates, so the checks are what keeps a
  remote relay from running a template or from setting a connection variable there.

  A decoded JSON value is a \<open>gval\<close>; an object is the list of its entries in the order in which Go visits them. The JSON
  coder is a parameter.
\<close>

section \<open>Values\<close>

datatype gval =
    GNull
  | GBool bool
  | GNumber string
  | GString string
  | GList "gval list"
  | GMap "(string \<times> gval) list"
  | GOther

type_synonym gobject = "(string \<times> gval) list"

definition maxGroupVarKeys :: nat where "maxGroupVarKeys = 64"
definition maxGroupVarsBytes :: nat where "maxGroupVarsBytes = 16 * 1024"
definition maxGroupVarString :: nat where "maxGroupVarString = 1024"
definition maxGroupVarDepth :: nat where "maxGroupVarDepth = 4"
definition maxGroupVarListLen :: nat where "maxGroupVarListLen = 64"

definition ErrInvalidGroupVars :: goerr where "ErrInvalidGroupVars = [ErrText ''invalid group vars'']"

text \<open>The regular expressions \<open>^[A-Za-z_][A-Za-z0-9_]{0,63}$\<close> and \<open>^(auto|auto_silent|/[A-Za-z0-9_./+-]{1,200})$\<close>.\<close>

definition word_char :: "char \<Rightarrow> bool" where
  "word_char c \<longleftrightarrow> (let n = of_char c :: nat in 48 \<le> n \<and> n \<le> 57 \<or> 65 \<le> n \<and> n \<le> 90 \<or> 97 \<le> n \<and> n \<le> 122 \<or> c = CHR ''_'')"

definition groupVarKeyPattern :: "string \<Rightarrow> bool" where
  "groupVarKeyPattern k \<longleftrightarrow> k \<noteq> [] \<and> length k \<le> 64 \<and> \<not> is_digit (hd k) \<and> list_all word_char k"

definition pythonInterpreterExpr :: "string \<Rightarrow> bool" where
  "pythonInterpreterExpr s \<longleftrightarrow>
     s = ''auto'' \<or> s = ''auto_silent'' \<or>
     has_prefix s ''/'' \<and> 2 \<le> length s \<and> length s \<le> 201 \<and> list_all (\<lambda>c. word_char c \<or> c \<in> set ''./+-'') (tl s)"

text \<open>\<open>strings.Split\<close> at a character and \<open>strings.Contains\<close>.\<close>

fun split_at :: "char \<Rightarrow> string \<Rightarrow> string list" where
  "split_at sep [] = [[]]"
| "split_at sep (c # cs) = (if c = sep then [] # split_at sep cs else case split_at sep cs of [] \<Rightarrow> [[c]] | w # ws \<Rightarrow> (c # w) # ws)"

fun contains :: "string \<Rightarrow> string \<Rightarrow> bool" where
  "contains [] p = (p = [])"
| "contains (c # cs) p = (has_prefix (c # cs) p \<or> contains cs p)"

text \<open>The runes of a string, \<open>None\<close> when it is not valid UTF-8 (\<open>utf8.ValidString\<close>): no overlong form, no surrogate, nothing past 10FFFF.\<close>

definition cont_byte :: "nat \<Rightarrow> bool" where
  "cont_byte b \<longleftrightarrow> 128 \<le> b \<and> b \<le> 191"

fun runes :: "nat list \<Rightarrow> nat list option" where
  "runes [] = Some []"
| "runes (a # r) =
     (if a < 128 then map_option (Cons a) (runes r)
      else case r of
        b # r1 \<Rightarrow>
          if 194 \<le> a \<and> a \<le> 223 then (if cont_byte b then map_option (Cons ((a - 192) * 64 + (b - 128))) (runes r1) else None)
          else (case r1 of
            c # r2 \<Rightarrow>
              if 224 \<le> a \<and> a \<le> 239
              then (if cont_byte b \<and> cont_byte c \<and> (a = 224 \<longrightarrow> 160 \<le> b) \<and> (a = 237 \<longrightarrow> b \<le> 159)
                    then map_option (Cons ((a - 224) * 4096 + (b - 128) * 64 + (c - 128))) (runes r2) else None)
              else (case r2 of
                d # r3 \<Rightarrow>
                  if 240 \<le> a \<and> a \<le> 244 \<and> cont_byte b \<and> cont_byte c \<and> cont_byte d \<and> (a = 240 \<longrightarrow> 144 \<le> b) \<and> (a = 244 \<longrightarrow> b \<le> 143)
                  then map_option (Cons ((a - 240) * 262144 + (b - 128) * 4096 + (c - 128) * 64 + (d - 128))) (runes r3) else None
              | [] \<Rightarrow> None)
          | [] \<Rightarrow> None)
      | [] \<Rightarrow> None)"

definition string_runes :: "string \<Rightarrow> nat list option" where
  "string_runes s = runes (map of_char s)"

section \<open>Validation\<close>

definition validInterpreter :: "string \<Rightarrow> bool" where
  "validInterpreter s \<longleftrightarrow>
     pythonInterpreterExpr s \<and>
     (has_prefix s ''/'' \<longrightarrow> list_all (\<lambda>c. c \<noteq> [] \<and> c \<noteq> ''.'' \<and> c \<noteq> ''..'') (split_at (CHR ''/'') (tl s)))"

text \<open>The case of a string.\<close>

definition validate_string :: "string \<Rightarrow> goerr option" where
  "validate_string x =
     (if length x > maxGroupVarString then Some ErrInvalidGroupVars
      else case string_runes x of
        None \<Rightarrow> Some ErrInvalidGroupVars
      | Some rs \<Rightarrow>
          if list_ex (\<lambda>r. r < 32 \<or> r = 127) rs then Some ErrInvalidGroupVars
          else if contains x ''{{'' \<or> contains x ''{%'' \<or> contains x ''{#'' then Some ErrInvalidGroupVars
          else None)"

fun validateGroupVarValue :: "gval \<Rightarrow> nat \<Rightarrow> goerr option"
  and validate_elements :: "gval list \<Rightarrow> nat \<Rightarrow> goerr option"
  and validate_entries :: "(string \<times> gval) list \<Rightarrow> nat \<Rightarrow> goerr option" where
  "validateGroupVarValue v depth =
     (if depth > maxGroupVarDepth then Some ErrInvalidGroupVars
      else case v of
        GNull \<Rightarrow> None
      | GBool _ \<Rightarrow> None
      | GNumber _ \<Rightarrow> None
      | GString x \<Rightarrow> validate_string x
      | GList xs \<Rightarrow> if length xs > maxGroupVarListLen then Some ErrInvalidGroupVars else validate_elements xs (depth + 1)
      | GMap es \<Rightarrow> if length es > maxGroupVarKeys then Some ErrInvalidGroupVars else validate_entries es (depth + 1)
      | GOther \<Rightarrow> Some ErrInvalidGroupVars)"
| "validate_elements [] depth = None"
| "validate_elements (e # es) depth = err_or (validateGroupVarValue e depth) (validate_elements es depth)"
| "validate_entries [] depth = None"
| "validate_entries ((k, e) # es) depth =
     (if \<not> groupVarKeyPattern k then Some ErrInvalidGroupVars
      else err_or (validateGroupVarValue e depth) (validate_entries es depth))"

declare validateGroupVarValue.simps [simp del]

text \<open>One variable of the loop of \<open>ValidateGroupVars\<close>.\<close>

definition validate_var :: "string \<Rightarrow> gval \<Rightarrow> goerr option" where
  "validate_var k v =
     (if \<not> groupVarKeyPattern k then Some ErrInvalidGroupVars
      else if has_prefix k ''secagent_'' then Some ErrInvalidGroupVars
      else err_or (if has_prefix k ''ansible_'' then
            if k \<noteq> ''ansible_python_interpreter'' then Some ErrInvalidGroupVars
            else (case v of GString s \<Rightarrow> if validInterpreter s then None else Some ErrInvalidGroupVars | _ \<Rightarrow> Some ErrInvalidGroupVars)
          else None)
        (validateGroupVarValue v 1))"

fun validate_vars :: "gobject \<Rightarrow> goerr option" where
  "validate_vars [] = None"
| "validate_vars ((k, v) # m) = err_or (validate_var k v) (validate_vars m)"

definition ValidateGroupVars :: "(gobject \<Rightarrow> string option) \<Rightarrow> gobject \<Rightarrow> goerr option" where
  "ValidateGroupVars marshal m =
     (if length m > maxGroupVarKeys then Some ErrInvalidGroupVars
      else err_or (validate_vars m)
        (case marshal m of
           None \<Rightarrow> Some ErrInvalidGroupVars
         | Some enc \<Rightarrow> if length enc > maxGroupVarsBytes then Some ErrInvalidGroupVars else None))"

text \<open>\<open>ParseGroupVars\<close>; \<open>decode\<close> gives the object (\<open>None\<close> for JSON null) and whether more data follows.\<close>

definition ParseGroupVars :: "(string \<Rightarrow> (gobject option \<times> bool) option) \<Rightarrow> (gobject \<Rightarrow> string option) \<Rightarrow> string \<Rightarrow> gobject option res" where
  "ParseGroupVars decode marshal data =
     (if length data > maxGroupVarsBytes then Inl ErrInvalidGroupVars
      else case decode data of
        None \<Rightarrow> Inl ErrInvalidGroupVars
      | Some (m, more_data) \<Rightarrow>
          if more_data then Inl ErrInvalidGroupVars
          else case m of
            None \<Rightarrow> Inr None
          | Some m \<Rightarrow> check (ValidateGroupVars marshal m) (Inr (Some m)))"

definition EncodeGroupVars :: "(gobject \<Rightarrow> string option) \<Rightarrow> gobject \<Rightarrow> string res" where
  "EncodeGroupVars marshal m =
     (if m = [] then Inr []
      else check (ValidateGroupVars marshal m)
        (case marshal m of None \<Rightarrow> Inl [ErrText ''marshal''] | Some b \<Rightarrow> Inr b))"

section \<open>What is published\<close>

text \<open>Every value inside a value, itself included, with its depth; the keys of every object inside.\<close>

fun nested :: "gval \<Rightarrow> nat \<Rightarrow> (gval \<times> nat) list"
  and nested_elements :: "gval list \<Rightarrow> nat \<Rightarrow> (gval \<times> nat) list"
  and nested_entries :: "(string \<times> gval) list \<Rightarrow> nat \<Rightarrow> (gval \<times> nat) list" where
  "nested (GList xs) d = (GList xs, d) # nested_elements xs (Suc d)"
| "nested (GMap es) d = (GMap es, d) # nested_entries es (Suc d)"
| "nested v d = [(v, d)]"
| "nested_elements [] d = []"
| "nested_elements (e # es) d = nested e d @ nested_elements es d"
| "nested_entries [] d = []"
| "nested_entries ((k, e) # es) d = nested e d @ nested_entries es d"

text \<open>What holds of a single acceptable value: a text without control characters and template markers, a bounded list, an object with plain names.\<close>

definition plain_text :: "string \<Rightarrow> bool" where
  "plain_text x \<longleftrightarrow>
     length x \<le> maxGroupVarString \<and> (\<exists>rs. string_runes x = Some rs \<and> (\<forall>r \<in> set rs. 32 \<le> r \<and> r \<noteq> 127)) \<and>
     (\<forall>a b c. x = a @ CHR ''{'' # c # b \<longrightarrow> c \<notin> set ''{%#'')"

definition plain_value :: "gval \<Rightarrow> bool" where
  "plain_value v =
     (case v of
        GString x \<Rightarrow> plain_text x
      | GList xs \<Rightarrow> length xs \<le> maxGroupVarListLen
      | GMap es \<Rightarrow> length es \<le> maxGroupVarKeys \<and> (\<forall>k \<in> fst ` set es. groupVarKeyPattern k)
      | GOther \<Rightarrow> False
      | _ \<Rightarrow> True)"

lemma contains_iff: "contains s p \<longleftrightarrow> (\<exists>a b. s = a @ p @ b)"
proof (induction s)
  case (Cons c cs)
  note IH = Cons
  show ?case
  proof
    assume "contains (c # cs) p"
    then consider "has_prefix (c # cs) p" | "contains cs p" by auto
    then show "\<exists>a b. c # cs = a @ p @ b"
    proof cases
      case 1
      then obtain r where "c # cs = [] @ p @ r" by (auto simp: has_prefix_iff)
      then show ?thesis by blast
    next
      case 2
      then obtain a b where "c # cs = (c # a) @ p @ b" using Cons by auto
      then show ?thesis by blast
    qed
  next
    assume "\<exists>a b. c # cs = a @ p @ b"
    then obtain a b where ab: "c # cs = a @ p @ b" by blast
    show "contains (c # cs) p"
    proof (cases a)
      case Nil
      with ab have "has_prefix (c # cs) p" by (simp add: has_prefix_iff)
      then show ?thesis by simp
    next
      case (Cons d a')
      with ab IH show ?thesis by auto
    qed
  qed
qed simp

lemma validate_string_iff: "validate_string x = None \<longleftrightarrow> plain_text x"
proof -
  have "(\<forall>a b c. x = a @ CHR ''{'' # c # b \<longrightarrow> c \<notin> set ''{%#'') \<longleftrightarrow>
      \<not> (contains x ''{{'' \<or> contains x ''{%'' \<or> contains x ''{#'')"
    by (auto simp: contains_iff)
  then show ?thesis
    by (cases "string_runes x") (auto simp: validate_string_def plain_text_def list_ex_iff not_less; force)+
qed

lemma validate_nested:
  "validateGroupVarValue v d = None \<longleftrightarrow> (\<forall>(w, k) \<in> set (nested v d). plain_value w \<and> k \<le> maxGroupVarDepth)"
  "validate_elements vs d = None \<longleftrightarrow> (\<forall>(w, k) \<in> set (nested_elements vs d). plain_value w \<and> k \<le> maxGroupVarDepth)"
  "validate_entries es d = None \<longleftrightarrow>
     (\<forall>k \<in> fst ` set es. groupVarKeyPattern k) \<and> (\<forall>(w, k) \<in> set (nested_entries es d). plain_value w \<and> k \<le> maxGroupVarDepth)"
proof (induction v d and vs d and es d rule: nested_nested_elements_nested_entries.induct)
  case (1 xs d)
  then show ?case by (auto simp: validateGroupVarValue.simps [of "GList xs"] plain_value_def)
next
  case (2 es d)
  then show ?case by (auto simp: validateGroupVarValue.simps [of "GMap es"] plain_value_def)
qed (auto simp: validateGroupVarValue.simps plain_value_def validate_string_iff)

text \<open>A variable a relay may set: no reserved name, except the interpreter with a clean path.\<close>

definition free_name :: "string \<Rightarrow> gval \<Rightarrow> bool" where
  "free_name k v \<longleftrightarrow>
     groupVarKeyPattern k \<and> \<not> has_prefix k ''secagent_'' \<and>
     (has_prefix k ''ansible_'' \<longrightarrow> k = ''ansible_python_interpreter'' \<and> (\<exists>s. v = GString s \<and> validInterpreter s))"

lemma validate_var_iff:
  "validate_var k v = None \<longleftrightarrow> free_name k v \<and> (\<forall>(w, d) \<in> set (nested v 1). plain_value w \<and> d \<le> maxGroupVarDepth)"
  by (auto simp: validate_var_def free_name_def validate_nested split: gval.splits)

lemma validate_vars_iff: "validate_vars m = None \<longleftrightarrow> (\<forall>(k, v) \<in> set m. validate_var k v = None)"
  by (induction m rule: validate_vars.induct) auto

section \<open>Properties\<close>

text \<open>
  C32. The group variables that are accepted are exactly the harmless ones: at most 64 variables with plain names, none in the
  reserved namespaces except the Python interpreter with a clean absolute path, every text at every depth free of
  control characters and of template markers, lists and objects within their sizes, at most four levels, 16 KiB in all.
\<close>

theorem group_vars_exactly_harmless:
  "ValidateGroupVars marshal m = None \<longleftrightarrow>
     length m \<le> maxGroupVarKeys \<and> (\<exists>enc. marshal m = Some enc \<and> length enc \<le> maxGroupVarsBytes) \<and>
     (\<forall>(k, v) \<in> set m. free_name k v \<and> (\<forall>(w, d) \<in> set (nested v 1). plain_value w \<and> d \<le> maxGroupVarDepth))"
  by (auto simp: ValidateGroupVars_def validate_vars_iff validate_var_iff not_less split: option.splits)

definition ex_vars :: gobject where
  "ex_vars = [(''site'', GMap [(''dc'', GString ''paris''), (''racks'', GList [GNumber ''1'', GNumber ''2''])]),
     (''ansible_python_interpreter'', GString ''/usr/bin/python3'')]"

theorem group_vars_exactly_harmless_witness:
  "ValidateGroupVars (\<lambda>_. Some ''{}'') ex_vars = None \<and> plain_value (GString ''paris'') \<and>
   free_name ''ansible_python_interpreter'' (GString ''/usr/bin/python3'')"
proof -
  have ok: "ValidateGroupVars (\<lambda>_. Some ''{}'') ex_vars = None" by code_simp
  then show ?thesis
    using group_vars_exactly_harmless [of "\<lambda>_. Some ''{}''" ex_vars] by (simp add: ex_vars_def)
qed

text \<open>A path traversal or a template is refused wherever it hides.\<close>

lemma refused_examples:
  "ValidateGroupVars (\<lambda>_. Some ''{}'') [(''ansible_python_interpreter'', GString ''/usr/bin/../tmp/x'')] \<noteq> None"
  "ValidateGroupVars (\<lambda>_. Some ''{}'') [(''x'', GList [GMap [(''y'', GString ''a{{b}}'')]])] \<noteq> None"
  "ValidateGroupVars (\<lambda>_. Some ''{}'') [(''ansible_connection'', GString ''local'')] \<noteq> None"
  by code_simp+

lemma encode_validated: "EncodeGroupVars marshal m = Inr b \<Longrightarrow> b \<noteq> [] \<Longrightarrow> ValidateGroupVars marshal m = None \<and> marshal m = Some b"
  by (auto simp: EncodeGroupVars_def check_def split: if_splits option.splits)

end
