(* ===== verification/Relay_Link.thy ===== *)
theory Relay_Link
  imports Store Link_Token Agent_Tasks Quotas Group_Vars
begin

text \<open>
  The parent side of a link with a child relay (\<open>internal/ws/relay_handler.go\<close>, \<open>handleLinkState\<close> of \<open>link.go\<close>): the
  messages of the child, what they change in the routing of this node and what is passed on to the parent.

  A handler takes the connection and the state of the node and returns both. What the handlers reach through injected
  functions (the data store, the own identity, the clock, the JSON coder) is the record \<open>hooks\<close> over any kind of
  data; \<open>server_hooks\<close> is the wiring of \<open>server.go\<close> on the data store. The errors of those functions are only logged by the
  handlers, so a hook is a function on the data. Texts of errors are short labels.
\<close>

section \<open>Messages and connections\<close>

record RelayAgentInfo =
  ra_Hostname :: string
  ra_RelayID :: string
  ra_RelayChain :: "string list"
  ra_Suspended :: bool

record RelayTopoEntry =
  te_RelayID :: string
  te_RelayChain :: "string list"
  te_GroupVars :: "gobject option"

record RelayMessage =
  m_Type :: string
  m_RelayID :: string
  m_IsProxy :: bool
  m_NodeType :: string
  m_Ancestors :: "string list"
  m_Relays :: "RelayTopoEntry list"
  m_Event :: string
  m_EnrolledAt :: string
  m_RelayChain :: "string list"
  m_GroupVars :: "gobject option"
  m_OldRelay :: string
  m_NewRelay :: string
  m_Agents :: "RelayAgentInfo list"
  m_Count :: nat
  m_TaskID :: string
  m_Hostname :: string
  m_RC :: int
  m_Stdout :: string
  m_Stderr :: string
  m_Truncated :: bool
  m_Data :: string
  m_Seq :: "64 word"
  m_CurrentKID :: string
  m_Status :: string
  m_Error :: string

definition zero_relay_message :: RelayMessage where
  "zero_relay_message = \<lparr>m_Type = [], m_RelayID = [], m_IsProxy = False, m_NodeType = [], m_Ancestors = [], m_Relays = [], m_Event = [],
     m_EnrolledAt = [], m_RelayChain = [], m_GroupVars = None, m_OldRelay = [], m_NewRelay = [], m_Agents = [], m_Count = 0,
     m_TaskID = [], m_Hostname = [], m_RC = 0, m_Stdout = [], m_Stderr = [], m_Truncated = False, m_Data = [], m_Seq = 0,
     m_CurrentKID = [], m_Status = [], m_Error = []\<rparr>"

text \<open>A connection has a number, its identity as a Go pointer.\<close>

record RelayConnection =
  c_No :: nat
  c_RelayID :: string
  c_IsProxy :: bool
  c_JTI :: string
  c_TokenExp :: int
  descendants :: "string fset"
  helloDone :: bool
  snapshotDone :: bool
  rejected :: "(nat \<times> string) option"
  reported :: "(string, string) fmap"

definition new_connection :: "nat \<Rightarrow> string \<Rightarrow> RelayConnection" where
  "new_connection n relayID = \<lparr>c_No = n, c_RelayID = relayID, c_IsProxy = False, c_JTI = [], c_TokenExp = 0, descendants = {||},
     helloDone = False, snapshotDone = False, rejected = None, reported = fmempty\<rparr>"

record HostConflict =
  hc_Hostname :: string
  hc_OldRelay :: string
  hc_NewRelay :: string
  hc_RelayChain :: "string list"

record LinkStateInfo =
  li_Seq :: "64 word"
  li_KID :: string
  li_At :: gotime

definition WSRelayCloseRevoked :: nat where "WSRelayCloseRevoked = 4010"
definition WSRelayCloseRetry :: nat where "WSRelayCloseRetry = 4012"
definition maxRelayChainLen :: nat where "maxRelayChainLen = 32"
definition LocalOwner :: string where "LocalOwner = ''local''"
definition defaultLocalRelayID :: string where "defaultLocalRelayID = ''secagent-server''"
definition maxDirectSeen :: nat where "maxDirectSeen = 8192"

section \<open>Hooks and state\<close>

record 'd hooks =
  hk_localID :: string
  hk_ancestors :: "string list"
  hk_bulk :: "string \<Rightarrow> string list \<Rightarrow> 'd \<Rightarrow> 'd"
  hk_status :: "string \<Rightarrow> string \<Rightarrow> 'd \<Rightarrow> 'd"
  hk_isProxy :: "string \<Rightarrow> 'd \<Rightarrow> 'd"
  hk_register :: "string \<Rightarrow> 'd \<Rightarrow> 'd"
  hk_chain :: "string \<Rightarrow> string list \<Rightarrow> 'd \<Rightarrow> 'd"
  hk_route :: "string \<Rightarrow> 'd \<Rightarrow> string res"
  hk_upsert :: "string \<Rightarrow> string \<Rightarrow> string list \<Rightarrow> 'd \<Rightarrow> 'd"
  hk_chains :: "RouteChain list \<Rightarrow> 'd \<Rightarrow> 'd"
  hk_groupVars :: "string \<Rightarrow> string \<Rightarrow> 'd \<Rightarrow> 'd"
  hk_suspended :: "string \<Rightarrow> bool \<Rightarrow> 'd \<Rightarrow> 'd"
  hk_seen :: "string \<Rightarrow> string \<Rightarrow> int \<Rightarrow> 'd \<Rightarrow> 'd"
  hk_marshal :: "gobject \<Rightarrow> string option"
  hk_timeOK :: "string \<Rightarrow> bool"
  hk_order :: visit_order
  hk_seenOrder :: "(string, gotime) fmap \<Rightarrow> string list"
  hk_maxRelays :: nat
  hk_maxHosts :: nat
  hk_maxList :: nat

record 'd node =
  n_data :: 'd
  n_tasks :: tasks
  descendantOwner :: "(string, string) fmap"
  n_quotas :: quotas
  linkStates :: "(string, LinkStateInfo) fmap"
  directSeen :: "(string, gotime) fmap"
  n_sent :: "(nat \<times> RelayMessage) list"
  n_upstream :: "RelayMessage list"
  n_local :: "RelayMessage list"
  n_conflicts :: "(HostConflict \<times> bool) list"
  n_topoChanges :: nat

definition on_data :: "('d \<Rightarrow> 'd) \<Rightarrow> 'd node \<Rightarrow> 'd node" where
  "on_data f w = w\<lparr>n_data := f (n_data w)\<rparr>"

definition IsRelayConnected :: "string \<Rightarrow> 'd node \<Rightarrow> bool" where
  "IsRelayConnected relayID w \<longleftrightarrow> fmlookup (relayConnections (n_tasks w)) relayID \<noteq> None"

definition connected_here :: "string \<Rightarrow> 'd node \<Rightarrow> bool" where
  "connected_here h w \<longleftrightarrow> \<not> isl (GetConnection h (n_tasks w))"

definition send :: "RelayConnection \<Rightarrow> RelayMessage \<Rightarrow> 'd node \<Rightarrow> 'd node" where
  "send conn m w = w\<lparr>n_sent := n_sent w @ [(c_No conn, m)]\<rparr>"

definition forwardEventUpstream :: "RelayMessage \<Rightarrow> 'd node \<Rightarrow> 'd node" where
  "forwardEventUpstream ev w = w\<lparr>n_upstream := n_upstream w @ [ev]\<rparr>"

definition dispatchEventLocal :: "RelayMessage \<Rightarrow> 'd node \<Rightarrow> 'd node" where
  "dispatchEventLocal ev w = w\<lparr>n_local := n_local w @ [ev]\<rparr>"

definition notifyTopologyChanged :: "'d node \<Rightarrow> 'd node" where
  "notifyTopologyChanged w = w\<lparr>n_topoChanges := Suc (n_topoChanges w)\<rparr>"

definition localRelayID :: "'d hooks \<Rightarrow> string" where
  "localRelayID H = (if hk_localID H \<noteq> [] then hk_localID H else defaultLocalRelayID)"

definition loopedWith :: "'d hooks \<Rightarrow> string \<Rightarrow> bool" where
  "loopedWith H childID \<longleftrightarrow> childID = localRelayID H \<or> childID \<in> set (hk_ancestors H)"

section \<open>Refusals\<close>

text \<open>\<open>strings.ToValidUTF8(s, "?")\<close>: every run of bytes that start no rune becomes one question mark.\<close>

definition rune_width :: "string \<Rightarrow> nat" where
  "rune_width s =
     (let bs = map of_char s :: nat list;
          fits = (\<lambda>n. n \<le> length bs \<and> (case runes (take n bs) of Some [_] \<Rightarrow> True | _ \<Rightarrow> False)) in
      if fits 1 then 1 else if fits 2 then 2 else if fits 3 then 3 else if fits 4 then 4 else 0)"

function to_valid :: "bool \<Rightarrow> string \<Rightarrow> string" where
  "to_valid bad s =
     (if s = [] then []
      else if rune_width s = 0 then (if bad then to_valid True (tl s) else CHR ''?'' # to_valid True (tl s))
      else take (rune_width s) s @ to_valid False (drop (rune_width s) s))"
  by auto
termination
  by (relation "measure (\<lambda>(_, s). length s)") auto

declare to_valid.simps [simp del]

definition closeReason :: "string \<Rightarrow> string" where
  "closeReason reason =
     (let r = to_valid False reason in
      if length r \<le> 100 then r else take (rune_cut r 100) r @ ''...'')"

definition reject :: "string \<Rightarrow> RelayConnection \<Rightarrow> RelayConnection" where
  "reject reason conn = conn\<lparr>rejected := Some (WSRelayCloseRetry, closeReason reason)\<rparr>"

definition rejectPermanent :: "string \<Rightarrow> RelayConnection \<Rightarrow> RelayConnection" where
  "rejectPermanent reason conn = conn\<lparr>rejected := Some (WSRelayCloseRevoked, closeReason reason)\<rparr>"

section \<open>Descendants and conflicts\<close>

definition claimDescendants :: "string \<Rightarrow> string fset \<Rightarrow> 'd node \<Rightarrow> bool \<times> 'd node" where
  "claimDescendants peer relays w =
     (if fBex relays (\<lambda>i. (case fmlookup (descendantOwner w) i of Some owner \<Rightarrow> owner \<noteq> peer | None \<Rightarrow> False) \<or> IsRelayConnected i w)
      then (False, w)
      else (True, w\<lparr>descendantOwner := descendantOwner w ++\<^sub>f fmap_of_list (map (\<lambda>i. (i, peer)) (sorted_list_of_fset relays))\<rparr>))"

definition releaseDescendants :: "string \<Rightarrow> string fset \<Rightarrow> 'd node \<Rightarrow> 'd node" where
  "releaseDescendants peer relays w =
     w\<lparr>descendantOwner := fmfilter (\<lambda>i. \<not> (i |\<in>| relays \<and> fmlookup (descendantOwner w) i = Some peer)) (descendantOwner w)\<rparr>"

text \<open>The check of one host of \<open>checkHostConflicts\<close>.\<close>

definition host_conflict :: "'d hooks \<Rightarrow> RelayConnection \<Rightarrow> string fset \<Rightarrow> 'd node \<Rightarrow> string \<Rightarrow> goerr option" where
  "host_conflict H conn relays w h =
     (if connected_here h w then Some [ErrText ''connected locally'']
      else case hk_route H h (n_data w) of
        Inl e \<Rightarrow> Some e
      | Inr route \<Rightarrow>
          if route = [] \<or> route = c_RelayID conn then None
          else if route |\<in>| relays then None
          else Some [ErrText ''already routed''])"

definition checkHostConflicts :: "'d hooks \<Rightarrow> RelayConnection \<Rightarrow> string fset \<Rightarrow> (string, string list) fmap \<Rightarrow> 'd node \<Rightarrow> goerr option" where
  "checkHostConflicts H conn relays byRelay w =
     range_err byRelay (\<lambda>_ hosts. fold (\<lambda>h e. err_or e (host_conflict H conn relays w h)) hosts None)"

definition emitConflict :: "HostConflict \<Rightarrow> bool \<Rightarrow> 'd node \<Rightarrow> 'd node" where
  "emitConflict c fromBelow w = w\<lparr>n_conflicts := n_conflicts w @ [(c, fromBelow)]\<rparr>"

definition reportConflictOnce :: "HostConflict \<Rightarrow> RelayConnection \<Rightarrow> 'd node \<Rightarrow> RelayConnection \<times> 'd node" where
  "reportConflictOnce c conn w =
     (let key = hc_OldRelay c @ ''->'' @ hc_NewRelay c in
      if get_or [] (reported conn) (hc_Hostname c) = key then (conn, w)
      else (conn\<lparr>reported := fmupd (hc_Hostname c) key (reported conn)\<rparr>, emitConflict c False w))"

definition detectHostConflict :: "'d hooks \<Rightarrow> RelayConnection \<Rightarrow> string \<Rightarrow> string list \<Rightarrow> 'd node \<Rightarrow> HostConflict option" where
  "detectHostConflict H conn hostname chain w =
     (if connected_here hostname w
      then Some \<lparr>hc_Hostname = hostname, hc_OldRelay = LocalOwner, hc_NewRelay = c_RelayID conn, hc_RelayChain = chain\<rparr>
      else case hk_route H hostname (n_data w) of
        Inl _ \<Rightarrow> None
      | Inr prev \<Rightarrow>
          if prev = [] \<or> prev = c_RelayID conn then None
          else if prev |\<in>| descendants conn then None
          else Some \<lparr>hc_Hostname = hostname, hc_OldRelay = prev, hc_NewRelay = c_RelayID conn, hc_RelayChain = chain\<rparr>)"

text \<open>\<open>storeGroupVars\<close>; the result says whether the variables were valid.\<close>

definition storeGroupVars :: "'d hooks \<Rightarrow> string \<Rightarrow> string list \<Rightarrow> gobject \<Rightarrow> 'd node \<Rightarrow> bool \<times> 'd node" where
  "storeGroupVars H relayID chainToPeer vars w =
     (case EncodeGroupVars (hk_marshal H) vars of
        Inl _ \<Rightarrow> (False, w)
      | Inr canonical \<Rightarrow>
          (True, forwardEventUpstream (zero_relay_message\<lparr>m_Type := ''event_forward'', m_Event := ''relay.updated'', m_RelayID := relayID,
             m_GroupVars := Some vars, m_RelayChain := chainToPeer\<rparr>) (on_data (hk_groupVars H relayID canonical) w)))"

section \<open>Snapshots\<close>

fun chain_loop :: "string list \<Rightarrow> string list \<Rightarrow> string list \<Rightarrow> goerr option" where
  "chain_loop forbidden seen [] = None"
| "chain_loop forbidden seen (i # ids) =
     (if i \<in> set forbidden then Some [ErrText ''loop'']
      else if i \<in> set seen then Some [ErrText ''cycle'']
      else chain_loop forbidden (i # seen) ids)"

definition chainOK :: "string list \<Rightarrow> string \<Rightarrow> string list \<Rightarrow> string \<Rightarrow> goerr option" where
  "chainOK forbidden peer chain owner =
     (if length chain > maxRelayChainLen then Some [ErrText ''relay_chain too long'']
      else if \<not> list_all ValidRelayID chain then Some [ErrText ''invalid relay id in relay_chain'']
      else if chain = [] \<or> hd chain \<noteq> peer \<or> last chain \<noteq> owner then Some [ErrText ''invalid relay_chain'']
      else chain_loop forbidden [] chain)"

fun relays_loop :: "string list \<Rightarrow> string \<Rightarrow> string fset \<Rightarrow> RelayTopoEntry list \<Rightarrow> string fset res" where
  "relays_loop forbidden peer relays [] = Inr relays"
| "relays_loop forbidden peer relays (r # rs) =
     (if \<not> ValidRelayID (te_RelayID r) \<or> te_RelayID r = peer then Inl [ErrText ''invalid descendant relay_id'']
      else if te_RelayID r |\<in>| relays then Inl [ErrText ''duplicate relay_id'']
      else check (chainOK forbidden peer (te_RelayChain r) (te_RelayID r))
        (relays_loop forbidden peer (finsert (te_RelayID r) relays) rs))"

fun agents_loop :: "string list \<Rightarrow> string \<Rightarrow> string fset \<Rightarrow> string fset \<Rightarrow> (string, string list) fmap \<Rightarrow> RelayAgentInfo list \<Rightarrow> (string, string list) fmap res" where
  "agents_loop forbidden peer relays seenHosts byRelay [] = Inr byRelay"
| "agents_loop forbidden peer relays seenHosts byRelay (a # as) =
     (if \<not> hostnameShape (ra_Hostname a) then Inl [ErrText ''invalid hostname'']
      else if \<not> ValidRelayID (ra_RelayID a) then Inl [ErrText ''invalid relay_id of an agent'']
      else if ra_Hostname a |\<in>| seenHosts then Inl [ErrText ''duplicate hostname'']
      else if ra_RelayID a \<noteq> peer \<and> ra_RelayID a |\<notin>| relays then Inl [ErrText ''undeclared relay'']
      else check (chainOK forbidden peer (ra_RelayChain a) (ra_RelayID a))
        (agents_loop forbidden peer relays (finsert (ra_Hostname a) seenHosts)
          (fmupd (ra_RelayID a) (get_or [] byRelay (ra_RelayID a) @ [ra_Hostname a]) byRelay) as))"

definition validateSnapshot :: "'d hooks \<Rightarrow> RelayConnection \<Rightarrow> RelayMessage \<Rightarrow> (string fset \<times> (string, string list) fmap) res" where
  "validateSnapshot H conn msg =
     (if length (m_Relays msg) > hk_maxRelays H then Inl [ErrText ''too many relays'']
      else if length (m_Agents msg) > hk_maxHosts H then Inl [ErrText ''too many hosts'']
      else let forbidden = localRelayID H # hk_ancestors H; peer = c_RelayID conn in
        and_then (relays_loop forbidden peer {||} (m_Relays msg)) (\<lambda>relays.
        and_then (agents_loop forbidden peer relays {||} fmempty (m_Agents msg)) (\<lambda>byRelay.
        Inr (relays, byRelay))))"

definition validateSnapshotGroupVars :: "'d hooks \<Rightarrow> RelayMessage \<Rightarrow> goerr option" where
  "validateSnapshotGroupVars H msg =
     err_or (case m_GroupVars msg of None \<Rightarrow> None | Some vars \<Rightarrow> ValidateGroupVars (hk_marshal H) vars)
       (fold (\<lambda>r e. err_or e (case te_GroupVars r of None \<Rightarrow> None | Some vars \<Rightarrow> ValidateGroupVars (hk_marshal H) vars)) (m_Relays msg) None)"

definition applySnapshotGroupVars :: "'d hooks \<Rightarrow> RelayConnection \<Rightarrow> RelayMessage \<Rightarrow> 'd node \<Rightarrow> 'd node" where
  "applySnapshotGroupVars H conn msg w =
     fold (\<lambda>r w. case te_GroupVars r of None \<Rightarrow> w | Some vars \<Rightarrow> snd (storeGroupVars H (te_RelayID r) (rev (te_RelayChain r)) vars w))
       (m_Relays msg)
       (case m_GroupVars msg of None \<Rightarrow> w | Some vars \<Rightarrow> snd (storeGroupVars H (c_RelayID conn) [c_RelayID conn] vars w))"

definition err_text :: "goerr \<Rightarrow> string" where
  "err_text e = (case e of [ErrText t] \<Rightarrow> t | _ \<Rightarrow> [])"

text \<open>
  The part of \<open>handleTopologySnapshot\<close> that rewrites the routing, after every check: the relays of the snapshot and the peer
  itself, with an empty list when they have no hosts, then the relays that left.
\<close>

definition write_routes :: "'d hooks \<Rightarrow> RelayConnection \<Rightarrow> string fset \<Rightarrow> (string, string list) fmap \<Rightarrow> 'd \<Rightarrow> 'd" where
  "write_routes H conn relays byRelay d =
     fold (\<lambda>i. hk_bulk H i []) (sorted_list_of_fset (descendants conn |-| relays))
       (fold (\<lambda>i. hk_bulk H i (get_or [] byRelay i)) (sorted_list_of_fset relays)
         (hk_bulk H (c_RelayID conn) (get_or [] byRelay (c_RelayID conn)) d))"

definition write_relays :: "'d hooks \<Rightarrow> RelayConnection \<Rightarrow> RelayMessage \<Rightarrow> string fset \<Rightarrow> 'd \<Rightarrow> 'd" where
  "write_relays H conn msg relays d =
     fold (\<lambda>i. hk_chain H i []) (if snapshotDone conn then sorted_list_of_fset (descendants conn |-| relays) else [])
       (fold (\<lambda>r. hk_chain H (te_RelayID r) (te_RelayChain r)) (m_Relays msg)
         (hk_chain H (c_RelayID conn) [c_RelayID conn]
           (fold (hk_register H) (sorted_list_of_fset relays) d)))"

definition route_chains :: "RelayMessage \<Rightarrow> RouteChain list" where
  "route_chains msg = map (\<lambda>a. \<lparr>rc_Hostname = ra_Hostname a, rc_RelayID = ra_RelayID a, rc_Chain = ra_RelayChain a, rc_Suspended = ra_Suspended a\<rparr>) (m_Agents msg)"

definition apply_snapshot :: "'d hooks \<Rightarrow> RelayMessage \<Rightarrow> string fset \<Rightarrow> (string, string list) fmap \<Rightarrow> RelayConnection \<Rightarrow> 'd node \<Rightarrow> RelayConnection \<times> 'd node" where
  "apply_snapshot H msg relays byRelay conn w =
     (let w1 = on_data (\<lambda>d. write_routes H conn relays byRelay (write_relays H conn msg relays d)) w;
          w2 = (if snapshotDone conn then releaseDescendants (c_RelayID conn) (descendants conn |-| relays) w1 else w1);
          w3 = on_data (hk_chains H (route_chains msg)) w2;
          conn' = conn\<lparr>descendants := relays, snapshotDone := True\<rparr>;
          w4 = applySnapshotGroupVars H conn' msg w3;
          w5 = send conn' (zero_relay_message\<lparr>m_Type := ''topology_ack'', m_RelayID := localRelayID H, m_Status := ''ok'', m_Count := length (m_Agents msg)\<rparr>) w4
      in (conn', notifyTopologyChanged w5))"

definition handleTopologySnapshot :: "'d hooks \<Rightarrow> gotime \<Rightarrow> RelayMessage \<Rightarrow> RelayConnection \<Rightarrow> 'd node \<Rightarrow> RelayConnection \<times> 'd node" where
  "handleTopologySnapshot H now msg conn w0 =
     (if \<not> helloDone conn then (reject ''topology_snapshot before relay_hello'' conn, w0)
      else case allowSnapshot (hk_order H) (c_RelayID conn) now (n_quotas w0) of (allowed, qs) \<Rightarrow>
        let w = w0\<lparr>n_quotas := qs\<rparr> in
        if \<not> allowed then (reject ''topology_snapshot rate limit exceeded'' conn, w)
        else case validateSnapshot H conn msg of
          Inl e \<Rightarrow> (reject (''invalid topology_snapshot: '' @ err_text e) conn, w)
        | Inr (relays, byRelay) \<Rightarrow>
            if validateSnapshotGroupVars H msg \<noteq> None then (reject ''invalid group_vars in topology_snapshot'' conn, w)
            else case claimDescendants (c_RelayID conn) relays w of (ok, w1) \<Rightarrow>
              if \<not> ok then (reject ''topology_snapshot conflicts with an existing relay'' conn, w1)
              else if checkHostConflicts H conn relays byRelay w1 \<noteq> None
              then (reject ''topology_snapshot conflicts with existing routing'' conn,
                    releaseDescendants (c_RelayID conn) (relays |-| descendants conn) w1)
              else apply_snapshot H msg relays byRelay conn w1)"

section \<open>Events\<close>

definition known_status :: "string \<Rightarrow> string list \<Rightarrow> bool" where
  "known_status st sts \<longleftrightarrow> st \<in> set sts"

text \<open>\<open>eventShapeError\<close>: \<open>None\<close> for a well formed event.\<close>

definition eventShapeError :: "'d hooks \<Rightarrow> RelayMessage \<Rightarrow> string option" where
  "eventShapeError H m =
     (let ev = m_Event m in
      if ev = ''relay.updated'' then
        if \<not> ValidRelayID (m_RelayID m) then Some ''invalid relay id''
        else if m_RelayChain m = [] \<or> hd (m_RelayChain m) \<noteq> m_RelayID m then Some ''relay.updated chain must start with the relay it describes''
        else (case m_GroupVars m of
                None \<Rightarrow> None
              | Some vars \<Rightarrow> if ValidateGroupVars (hk_marshal H) vars \<noteq> None then Some ''invalid group_vars'' else None)
      else if ev \<notin> set [''host.up'', ''host.down'', ''host.new'', ''host.conflict'', ''host.suspended'', ''host.resumed'']
      then Some ''unsupported event kind''
      else if \<not> hostnameShape (m_Hostname m) then Some ''invalid hostname''
      else if ev \<in> set [''host.up'', ''host.down'', ''host.new''] then
        if \<not> known_status (m_Status m) [''connected'', ''disconnected''] then Some ''invalid status''
        else if m_EnrolledAt m \<noteq> [] then
          if ev \<noteq> ''host.new'' then Some ''enrolled_at only belongs to host.new''
          else if \<not> hk_timeOK H (m_EnrolledAt m) then Some ''invalid enrolled_at''
          else None
        else None
      else if ev \<in> set [''host.suspended'', ''host.resumed''] then
        if \<not> known_status (m_Status m) [[], ''suspended'', ''resumed''] then Some ''invalid status''
        else if m_EnrolledAt m \<noteq> [] then Some ''enrolled_at only belongs to host.new''
        else None
      else if \<exists>i \<in> set [m_OldRelay m, m_NewRelay m]. i \<noteq> LocalOwner \<and> \<not> ValidRelayID i then Some ''invalid relay id in host.conflict''
      else None)"

text \<open>A host the peer may report on: routed through the peer or one of its relays; \<open>unrouted\<close> is the answer for a host without a route (or when the lookup fails).\<close>

definition in_subtree :: "'d hooks \<Rightarrow> RelayConnection \<Rightarrow> bool \<Rightarrow> string \<Rightarrow> 'd node \<Rightarrow> bool" where
  "in_subtree H conn unrouted h w =
     (case hk_route H h (n_data w) of
        Inl _ \<Rightarrow> unrouted
      | Inr prev \<Rightarrow> if prev = [] then unrouted else prev = c_RelayID conn \<or> prev |\<in>| descendants conn)"

definition route_event :: "'d hooks \<Rightarrow> RelayMessage \<Rightarrow> RelayConnection \<Rightarrow> 'd node \<Rightarrow> 'd node" where
  "route_event H msg conn w =
     (let origin = hd (m_RelayChain msg) in
      on_data (\<lambda>d. hk_upsert H (m_Hostname msg) origin (rev (m_RelayChain msg))
        (if origin \<noteq> c_RelayID conn then hk_register H origin d else d)) w)"

definition applyEventRouting :: "'d hooks \<Rightarrow> RelayMessage \<Rightarrow> RelayConnection \<Rightarrow> 'd node \<Rightarrow> bool \<times> RelayConnection \<times> 'd node" where
  "applyEventRouting H msg conn w =
     (let ev = m_Event msg; h = m_Hostname msg in
      if ev = ''host.up'' \<or> ev = ''host.new'' then
        case detectHostConflict H conn h (rev (m_RelayChain msg)) w of
          None \<Rightarrow> (True, conn, route_event H msg conn w)
        | Some c \<Rightarrow>
            (case reportConflictOnce c conn w of (conn', w') \<Rightarrow>
               if hc_OldRelay c = LocalOwner then (False, conn', w') else (True, conn', route_event H msg conn' w'))
      else if ev = ''host.down'' then
        (\<not> connected_here h w \<and> in_subtree H conn True h w, conn, w)
      else if ev = ''host.suspended'' \<or> ev = ''host.resumed'' then
        if connected_here h w \<or> \<not> in_subtree H conn False h w then (False, conn, w)
        else (True, conn, on_data (hk_suspended H h (ev = ''host.suspended'')) w)
      else if ev = ''host.conflict'' then
        (True, conn, emitConflict \<lparr>hc_Hostname = h, hc_OldRelay = m_OldRelay msg, hc_NewRelay = m_NewRelay msg, hc_RelayChain = m_RelayChain msg\<rparr> True w)
      else if ev = ''relay.updated'' then
        if m_RelayID msg \<noteq> c_RelayID conn \<and> m_RelayID msg |\<notin>| descendants conn then (False, conn, w)
        else (case EncodeGroupVars (hk_marshal H) (case m_GroupVars msg of None \<Rightarrow> [] | Some vars \<Rightarrow> vars) of
                Inl _ \<Rightarrow> (False, conn, w)
              | Inr canonical \<Rightarrow> (True, conn, on_data (hk_groupVars H (m_RelayID msg) canonical) w))
      else (False, conn, w))"

definition chain_accepted :: "'d hooks \<Rightarrow> RelayConnection \<Rightarrow> string list \<Rightarrow> bool" where
  "chain_accepted H conn chain \<longleftrightarrow>
     length chain \<le> maxRelayChainLen \<and> chain \<noteq> [] \<and> last chain = c_RelayID conn \<and>
     localRelayID H \<notin> set chain \<and> (\<forall>i \<in> set (butlast chain). i |\<in>| descendants conn)"

definition handleEventForward :: "'d hooks \<Rightarrow> gotime \<Rightarrow> RelayMessage \<Rightarrow> RelayConnection \<Rightarrow> 'd node \<Rightarrow> RelayConnection \<times> 'd node" where
  "handleEventForward H now msg conn w0 =
     (if \<not> helloDone conn then (conn, w0)
      else case allowEvent (hk_order H) (c_RelayID conn) now (n_quotas w0) of (allowed, qs) \<Rightarrow>
        let w = w0\<lparr>n_quotas := qs\<rparr> in
        if \<not> allowed then (conn, w)
        else if \<not> chain_accepted H conn (m_RelayChain msg) then (conn, w)
        else if eventShapeError H msg \<noteq> None then (conn, w)
        else case applyEventRouting H msg conn w of (accepted, conn', w1) \<Rightarrow>
          if \<not> accepted then (conn', w1)
          else (conn', forwardEventUpstream msg
            (if m_Event msg \<in> set [''host.up'', ''host.down'', ''host.new'', ''host.suspended'', ''host.resumed''] then dispatchEventLocal msg w1 else w1)))"

section \<open>The other messages\<close>

definition relay_hello :: "'d hooks \<Rightarrow> gotime \<Rightarrow> RelayMessage \<Rightarrow> RelayConnection \<Rightarrow> 'd node \<Rightarrow> RelayConnection \<times> 'd node" where
  "relay_hello H now msg conn w =
     (let relayID = c_RelayID conn in
      if m_RelayID msg \<noteq> relayID then (rejectPermanent ''relay_hello relay_id does not match jwt.sub'' conn, w)
      else if snapshotQuotaExhausted relayID now (n_quotas w) then (reject ''topology_snapshot rate limit exceeded'' conn, w)
      else if loopedWith H relayID then (rejectPermanent ''loop detected: relay is the parent or one of its ancestors'' conn, w)
      else
        let isProxyNode = m_IsProxy msg \<or> m_NodeType msg = ''proxy'';
            w1 = on_data (\<lambda>d.
              let d1 = (if isProxyNode then hk_isProxy H relayID d else d);
                  d2 = hk_register H relayID d1
              in if c_JTI conn \<noteq> [] then hk_seen H relayID (c_JTI conn) (c_TokenExp conn) d2 else d2) w;
            conn1 = conn\<lparr>c_IsProxy := isProxyNode, helloDone := True\<rparr>;
            ack = zero_relay_message\<lparr>m_Type := ''relay_ack'', m_RelayID := localRelayID H, m_Ancestors := localRelayID H # hk_ancestors H, m_Status := ''ok''\<rparr>
        in case m_GroupVars msg of
             None \<Rightarrow> (conn1, send conn1 ack w1)
           | Some vars \<Rightarrow>
               (case storeGroupVars H relayID [relayID] vars w1 of (ok, w2) \<Rightarrow>
                  if \<not> ok then (reject ''invalid group_vars'' conn1, w2) else (conn1, send conn1 ack w2)))"

text \<open>The loop of \<open>agent_list\<close> over the announced hosts: what is routed, and the conflicts it reports.\<close>

fun list_hosts :: "'d hooks \<Rightarrow> string list \<Rightarrow> string list \<Rightarrow> RelayConnection \<Rightarrow> 'd node \<Rightarrow> string list \<times> RelayConnection \<times> 'd node" where
  "list_hosts H [] routable conn w = (routable, conn, w)"
| "list_hosts H (h # hs) routable conn w =
     (case detectHostConflict H conn h [c_RelayID conn] w of
        None \<Rightarrow> list_hosts H hs (routable @ [h]) conn w
      | Some c \<Rightarrow>
          (case reportConflictOnce c conn w of (conn', w') \<Rightarrow>
             list_hosts H hs (if hc_OldRelay c \<noteq> LocalOwner then routable @ [h] else routable) conn' w'))"

definition agent_list :: "'d hooks \<Rightarrow> RelayMessage \<Rightarrow> RelayConnection \<Rightarrow> 'd node \<Rightarrow> RelayConnection \<times> 'd node" where
  "agent_list H msg conn w =
     (if length (m_Agents msg) > hk_maxList H then (reject ''agent_list too large'' conn, w)
      else let hostnames = filter hostnameShape (map ra_Hostname (m_Agents msg)) in
        case list_hosts H hostnames [] conn w of (routable, conn1, w1) \<Rightarrow>
          let conn2 = conn1\<lparr>reported := fmfilter (\<lambda>h. h \<in> set hostnames) (reported conn1)\<rparr>;
              w2 = on_data (hk_bulk H (c_RelayID conn) routable) w1
          in (conn2, send conn2 (zero_relay_message\<lparr>m_Type := ''agent_list_ack'', m_RelayID := c_RelayID conn, m_Count := length routable, m_Status := ''ok''\<rparr>) w2))"

text \<open>\<open>recordLinkState\<close> for a relay on its own link (\<open>direct\<close>) or for one of its descendants.\<close>

fun oldest_seen :: "string list \<Rightarrow> (string, gotime) fmap \<Rightarrow> string \<Rightarrow> gotime \<Rightarrow> string" where
  "oldest_seen [] m oldest ot = oldest"
| "oldest_seen (i # ids) m oldest ot =
     (case fmlookup m i of
        None \<Rightarrow> oldest_seen ids m oldest ot
      | Some t \<Rightarrow> if oldest = [] \<or> t < ot then oldest_seen ids m i t else oldest_seen ids m oldest ot)"

definition recordLinkState :: "'d hooks \<Rightarrow> gotime \<Rightarrow> string \<Rightarrow> 64 word \<Rightarrow> string \<Rightarrow> bool \<Rightarrow> 'd node \<Rightarrow> 'd node" where
  "recordLinkState H now relayID sq kid direct w =
     w\<lparr>linkStates := fmupd relayID \<lparr>li_Seq = sq, li_KID = kid, li_At = now\<rparr> (linkStates w),
       directSeen := (if direct then fmupd relayID now
           (if fmlookup (directSeen w) relayID = None \<and> fcard (fmdom (directSeen w)) \<ge> maxDirectSeen
            then fmdrop (oldest_seen (hk_seenOrder H (directSeen w)) (directSeen w) [] 0) (directSeen w) else directSeen w)
         else fmdrop relayID (directSeen w))\<rparr>"

definition handleLinkState :: "'d hooks \<Rightarrow> gotime \<Rightarrow> RelayMessage \<Rightarrow> RelayConnection \<Rightarrow> 'd node \<Rightarrow> 'd node" where
  "handleLinkState H now msg conn w =
     (let i = m_RelayID msg in
      if \<not> ValidRelayID i then w
      else if i \<noteq> c_RelayID conn \<and> i |\<notin>| descendants conn then w
      else if \<not> ValidLinkKID (m_CurrentKID msg) then w
      else forwardEventUpstream (zero_relay_message\<lparr>m_Type := ''link_state'', m_RelayID := i, m_Seq := m_Seq msg, m_CurrentKID := m_CurrentKID msg\<rparr>)
        (recordLinkState H now i (m_Seq msg) (m_CurrentKID msg) (i = c_RelayID conn) w))"

definition result_message :: "RelayMessage \<Rightarrow> Message" where
  "result_message m = \<lparr>g_TaskID = m_TaskID m, g_Type = [], g_RC = m_RC m, g_Stdout = m_Stdout m, g_Stderr = m_Stderr m,
     g_Truncated = m_Truncated m, g_Data = m_Data m, g_Error = m_Error m, g_Chunk = []\<rparr>"

definition handleRelayMessage :: "'d hooks \<Rightarrow> gotime \<Rightarrow> RelayMessage \<Rightarrow> RelayConnection \<Rightarrow> 'd node \<Rightarrow> RelayConnection \<times> 'd node" where
  "handleRelayMessage H now msg conn w =
     (let ty = m_Type msg in
      if ty = ''relay_hello'' then relay_hello H now msg conn w
      else if ty = ''link_state'' then (conn, handleLinkState H now msg conn w)
      else if ty = ''topology_snapshot'' then handleTopologySnapshot H now msg conn w
      else if ty = ''event_forward'' then handleEventForward H now msg conn w
      else if ty = ''agent_list'' then agent_list H msg conn w
      else if ty = ''task_result'' then (conn, w\<lparr>n_tasks := task_result (c_RelayID conn) (result_message msg) (n_tasks w)\<rparr>)
      else if ty = ''heartbeat'' then (conn, send conn (zero_relay_message\<lparr>m_Type := ''heartbeat_ack''\<rparr>) w)
      else (conn, w))"

section \<open>Links\<close>

definition registerRelayConnection :: "'d hooks \<Rightarrow> RelayConnection \<Rightarrow> 'd node \<Rightarrow> 'd node" where
  "registerRelayConnection H conn w =
     on_data (hk_status H (c_RelayID conn) ''connected'')
       (w\<lparr>n_tasks := (n_tasks w)\<lparr>relayConnections := fmupd (c_RelayID conn) (c_No conn) (relayConnections (n_tasks w))\<rparr>\<rparr>)"

definition unregisterRelayConnection :: "'d hooks \<Rightarrow> string \<Rightarrow> 'd node \<Rightarrow> 'd node" where
  "unregisterRelayConnection H relayID w =
     (let w1 = w\<lparr>n_tasks := (n_tasks w)\<lparr>relayConnections := fmdrop relayID (relayConnections (n_tasks w))\<rparr>\<rparr>;
          w2 = on_data (\<lambda>d. hk_bulk H relayID [] (hk_status H relayID ''disconnected'' d)) w1
      in w2\<lparr>n_tasks := resolve_relay_tasks relayID (n_tasks w2)\<rparr>)"

text \<open>The messages of one link up to the one that makes the handler close it, and the end of the link (the deferred part of \<open>serveRelayConn\<close>).\<close>

fun serve_messages :: "'d hooks \<Rightarrow> (gotime \<times> RelayMessage) list \<Rightarrow> RelayConnection \<Rightarrow> 'd node \<Rightarrow> RelayConnection \<times> 'd node" where
  "serve_messages H [] conn w = (conn, w)"
| "serve_messages H ((now, msg) # ms) conn w =
     (case handleRelayMessage H now msg conn w of (conn', w') \<Rightarrow>
        if rejected conn' \<noteq> None then (conn', w') else serve_messages H ms conn' w')"

definition end_link :: "'d hooks \<Rightarrow> RelayConnection \<Rightarrow> 'd node \<Rightarrow> 'd node" where
  "end_link H conn w =
     (let below = sorted_list_of_fset (descendants conn);
          w1 = on_data (\<lambda>d. fold (\<lambda>i. hk_chain H i []) below (fold (\<lambda>i. hk_bulk H i []) below d)) w;
          w2 = releaseDescendants (c_RelayID conn) (descendants conn) w1
      in notifyTopologyChanged (unregisterRelayConnection H (c_RelayID conn) w2))"

section \<open>The data store behind the hooks\<close>

text \<open>\<open>registerPullRelay\<close> (\<open>server/helpers.go\<close>); \<open>newID\<close> draws the identifier of a new entry.\<close>

definition registerPullRelay :: "'g senv \<Rightarrow> (string \<Rightarrow> string) \<Rightarrow> string \<Rightarrow> 'g store \<Rightarrow> 'g store" where
  "registerPullRelay env newID relayID s =
     (if GetRelayNode relayID s \<noteq> None then UpdateRelayStatus relayID ''connected'' (unix_sec (sv_now env)) s
      else snd (UpsertRelayNode env \<lparr>ri_ID = newID relayID, ri_RelayID = relayID, ri_URLs = [], ri_Description = [], ri_TokenHash = [], ri_TokenSecret = [],
             ri_Mode = ''pull'', ri_IsProxy = False, ri_CreatedAt = 0, ri_LastSeen = Some (unix_sec (sv_now env)), ri_Status = ''connected''\<rparr> s))"

text \<open>The recorder of the link token of a child: unchanged or revoked tokens are left alone.\<close>

definition relayTokenSeen :: "'g senv \<Rightarrow> string \<Rightarrow> string \<Rightarrow> int \<Rightarrow> 'g store \<Rightarrow> 'g store" where
  "relayTokenSeen env relayID jti exp s =
     (let info = GetRelayTokenInfo relayID s in
      if ti_JTI info = jti \<or> ti_Revoked info then s else snd (SetRelayTokenInfo env relayID jti exp s))"

record node_cfg =
  cfg_ID :: string
  cfg_Ancestors :: "string list"
  cfg_newID :: "string \<Rightarrow> string"
  cfg_marshal :: "gobject \<Rightarrow> string option"
  cfg_timeOK :: "string \<Rightarrow> bool"
  cfg_order :: visit_order
  cfg_seenOrder :: "(string, gotime) fmap \<Rightarrow> string list"

definition server_hooks :: "'g senv \<Rightarrow> node_cfg \<Rightarrow> 'g store hooks" where
  "server_hooks env cfg =
     \<lparr>hk_localID = cfg_ID cfg, hk_ancestors = cfg_Ancestors cfg,
      hk_bulk = (\<lambda>relayID hosts s. snd (BulkUpsertRelayRouting env relayID hosts s)),
      hk_status = (\<lambda>relayID status s. UpdateRelayStatus relayID status (unix_sec (sv_now env)) s),
      hk_isProxy = (\<lambda>relayID s. snd (SetRelayIsProxy env relayID True s)),
      hk_register = registerPullRelay env (cfg_newID cfg),
      hk_chain = (\<lambda>relayID chain s. snd (SetRelayChain relayID chain s)),
      hk_route = (\<lambda>h s. Inr (GetRelayForHostname h s)),
      hk_upsert = (\<lambda>h relayID chain s. snd (UpsertRelayRoute env h relayID chain s)),
      hk_chains = SetRelayRouteChains,
      hk_groupVars = (\<lambda>relayID json s. snd (SetRelayGroupVars env relayID json s)),
      hk_suspended = SetRemoteSuspended,
      hk_seen = relayTokenSeen env,
      hk_marshal = cfg_marshal cfg, hk_timeOK = cfg_timeOK cfg, hk_order = cfg_order cfg, hk_seenOrder = cfg_seenOrder cfg,
      hk_maxRelays = 1000, hk_maxHosts = 10000, hk_maxList = 10000\<rparr>"

end
