(* ===== verification/Relay_Tree.thy ===== *)
theory Relay_Tree
  imports Relay_Link
begin

text \<open>
  What the messages of a child relay may do to the routing of its parent: the handlers of Relay_Link rely on the data behind
  their hooks through the locale \<open>route_hooks\<close>, interpreted on the data store as \<open>sr\<close>; the lemmas on the handlers are proved
  once in the locale and give the properties for the server.
\<close>

section \<open>What the handlers rely on\<close>

text \<open>
  The contract of the routing hooks: \<open>route\<close> is the relay a host is routed to (empty when none), \<open>known\<close> whether a relay
  is registered. Only the two routing operations change routes, and only of registered relays.
\<close>

locale route_hooks =
  fixes H :: "'d hooks" and route :: "'d \<Rightarrow> string \<Rightarrow> string" and known :: "'d \<Rightarrow> string \<Rightarrow> bool"
  assumes route_hook: "hk_route H h d = Inr (route d h)"
    and bulk: "ValidRelayID r \<Longrightarrow> list_all hostnameShape hs \<Longrightarrow>
      route (hk_bulk H r hs d) h = (if \<not> known d r then route d h else if h \<in> set hs then r else if route d h = r then [] else route d h)"
    and bulk_known: "known (hk_bulk H r hs d) = known d"
    and upsert: "ValidRelayID r \<Longrightarrow> hostnameShape h \<Longrightarrow>
      route (hk_upsert H h r c d) h' = (if h' = h \<and> known d r then r else route d h')"
    and rest: "route (hk_status H r st d) = route d" "route (hk_isProxy H r d) = route d" "route (hk_register H r d) = route d"
      "route (hk_chain H r c d) = route d" "route (hk_chains H cs d) = route d" "route (hk_groupVars H r j d) = route d"
      "route (hk_suspended H h b d) = route d" "route (hk_seen H r jti e d) = route d"
begin

lemma route_on_data [simp]: "n_data (on_data f w) = f (n_data w)"
  by (simp add: on_data_def)

lemma fold_rest:
  "route (fold (hk_register H) rs d) = route d" "route (fold (\<lambda>i. hk_chain H i (c i)) rs d) = route d"
  "route (fold (\<lambda>r. hk_chain H (f r) (g r)) es d) = route d"
  by (induction rs arbitrary: d) (simp_all add: rest, induction es arbitrary: d, simp_all add: rest)

lemma write_relays_route: "route (write_relays H conn msg relays d) = route d"
  by (simp add: write_relays_def fold_rest rest)

lemma fold_bulk_other:
  assumes "\<forall>i \<in> set ids. ValidRelayID i \<and> list_all hostnameShape (f i)" "\<forall>i \<in> set ids. i \<noteq> route d h \<and> h \<notin> set (f i)"
  shows "route (fold (\<lambda>i. hk_bulk H i (f i)) ids d) h = route d h"
  using assms
proof (induction ids arbitrary: d)
  case (Cons i ids)
  then have "route (hk_bulk H i (f i) d) h = route d h" by (auto simp: bulk)
  with Cons show ?case by simp
qed simp

lemma fold_bulk_known: "known (fold (\<lambda>i. hk_bulk H i (f i)) ids d) = known d"
  by (induction ids arbitrary: d) (simp_all add: bulk_known)

text \<open>A host that is announced by one relay of the list and by no other ends up there.\<close>

lemma fold_bulk_announced:
  assumes "\<forall>i \<in> set ids. ValidRelayID i \<and> list_all hostnameShape (f i) \<and> known d i" "distinct ids"
    and "r \<in> set ids" "h \<in> set (f r)" "\<forall>i \<in> set ids. h \<in> set (f i) \<longrightarrow> i = r"
  shows "route (fold (\<lambda>i. hk_bulk H i (f i)) ids d) h = r"
  using assms
proof (induction ids arbitrary: d)
  case (Cons i ids)
  show ?case
  proof (cases "i = r")
    case True
    have now: "route (hk_bulk H i (f i) d) h = r"
      using Cons.prems(1,4) True bulk [of i "f i" d h] by simp
    have "route (fold (\<lambda>i. hk_bulk H i (f i)) ids (hk_bulk H i (f i) d)) h = route (hk_bulk H i (f i) d) h"
    proof (rule fold_bulk_other)
      show "\<forall>j \<in> set ids. ValidRelayID j \<and> list_all hostnameShape (f j)" using Cons.prems(1) by simp
      have "r \<notin> set ids" using Cons.prems(2) True by simp
      then show "\<forall>j \<in> set ids. j \<noteq> route (hk_bulk H i (f i) d) h \<and> h \<notin> set (f j)" unfolding now using Cons.prems(5) by auto
    qed
    with now show ?thesis by simp
  next
    case False
    have "route (fold (\<lambda>i. hk_bulk H i (f i)) ids (hk_bulk H i (f i) d)) h = r"
    proof (rule Cons.IH)
      show "\<forall>j \<in> set ids. ValidRelayID j \<and> list_all hostnameShape (f j) \<and> known (hk_bulk H i (f i) d) j"
        using Cons.prems(1) by (simp add: bulk_known)
      show "distinct ids" "r \<in> set ids" "h \<in> set (f r)" using Cons.prems(2,3,4) False by simp_all
      show "\<forall>j \<in> set ids. h \<in> set (f j) \<longrightarrow> j = r" using Cons.prems(5) by auto
    qed
    then show ?thesis by simp
  qed
qed simp

text \<open>A host that nobody announces and that was routed to one of the relays has no route left.\<close>

lemma fold_bulk_dropped:
  assumes "\<forall>i \<in> set ids. ValidRelayID i \<and> list_all hostnameShape (f i) \<and> known d i \<and> h \<notin> set (f i)" "route d h \<in> insert [] (set ids)"
  shows "route (fold (\<lambda>i. hk_bulk H i (f i)) ids d) h = []"
  using assms
proof (induction ids arbitrary: d)
  case (Cons i ids)
  then have "route (hk_bulk H i (f i) d) h \<in> insert [] (set ids)" by (auto simp: bulk)
  with Cons.prems have "route (fold (\<lambda>i. hk_bulk H i (f i)) ids (hk_bulk H i (f i) d)) h = []"
    by (intro Cons.IH) (simp_all add: bulk_known)
  then show ?case by simp
qed simp

end

lemma mutate_routes [simp]: "st_routes (snd (mutate env p s)) = st_routes s"
  by (simp add: mutate_def Let_def split: prod.splits option.splits)

lemma routes_bind:
  assumes "\<And>s. st_routes (snd (p s)) = st_routes s" "\<And>x s. st_routes (snd (k x s)) = st_routes s"
  shows "st_routes (snd (bindP p k s)) = st_routes s"
  using assms(1) [of s] assms(2) by (auto simp: bindP_def split: prod.splits sum.splits)

lemma store_routes [simp]:
  "st_routes (UpdateRelayStatus r st at s) = st_routes s" "st_routes (SetRemoteSuspended h b s) = st_routes s"
  by (simp_all add: UpdateRelayStatus_def SetRemoteSuspended_def)

lemma stored_routes [simp]:
  "st_routes (snd (SetRelayIsProxy env r b s)) = st_routes s" "st_routes (snd (SetRelayTokenInfo env r jti e s)) = st_routes s"
  by (simp_all add: SetRelayIsProxy_def SetRelayTokenInfo_def)

lemma seen_routes [simp]: "st_routes (relayTokenSeen env r jti e s) = st_routes s"
  by (simp add: relayTokenSeen_def Let_def)

lemma chain_routes [simp]: "st_routes (snd (SetRelayChain r c s)) = st_routes s"
  unfolding SetRelayChain_def by (intro routes_bind) (auto simp: gets_def ret_def modify_def intro!: routes_bind)

lemma group_vars_routes [simp]: "st_routes (snd (SetRelayGroupVars env r j s)) = st_routes s"
  unfolding SetRelayGroupVars_def by (intro routes_bind) (auto simp: prog_defs split: option.splits)

lemma upsert_node_routes [simp]: "st_routes (snd (UpsertRelayNode env n s)) = st_routes s"
  unfolding UpsertRelayNode_def Let_def
  by (intro routes_bind) (auto simp: prog_defs modify_def split: option.splits)

lemma register_routes [simp]: "st_routes (registerPullRelay env f r s) = st_routes s"
  by (simp add: registerPullRelay_def)

lemma route_of_routes: "st_routes s = st_routes s' \<Longrightarrow> GetRelayForHostname h s = GetRelayForHostname h s'"
  by (simp add: GetRelayForHostname_def)

lemma ValidRelayID_nonempty: "ValidRelayID r \<Longrightarrow> r \<noteq> []"
  by (simp add: ValidRelayID_def)

lemma hostnameShape_nonempty: "hostnameShape h \<Longrightarrow> h \<noteq> []"
  by (simp add: hostnameShape_def)

lemma bulk_route:
  assumes "ValidRelayID r" "list_all hostnameShape hs"
  shows "GetRelayForHostname h (snd (BulkUpsertRelayRouting env r hs s)) =
    (if requireRelay r s \<noteq> None then GetRelayForHostname h s
     else if h \<in> set hs then r else if GetRelayForHostname h s = r then [] else GetRelayForHostname h s)"
proof (cases "requireRelay r s")
  case (Some e)
  then show ?thesis by (simp add: BulkUpsertRelayRouting_def bindP_def gets_def prog_defs)
next
  case None
  have "filter (\<lambda>h. h \<noteq> []) hs = hs" using assms(2) by (auto simp: list_all_iff filter_id_conv dest: hostnameShape_nonempty)
  then have "fmlookup (st_routes (snd (BulkUpsertRelayRouting env r hs s))) h =
      (if h \<in> set hs then Some (direct_route h r (unix_sec (sv_now env))) else fmlookup (st_routes (drop_routes r s)) h)"
    using None by (simp add: BulkUpsertRelayRouting_def bindP_def gets_def prog_defs modify_def Let_def lookup_fold_routes)
  then show ?thesis using None assms ValidRelayID_nonempty [OF assms(1)]
    by (auto simp: GetRelayForHostname_def lookup_drop_routes direct_route_def list_all_iff split: option.splits)
qed

lemma bulk_relays: "requireRelay r' (snd (BulkUpsertRelayRouting env r hs s)) = requireRelay r' s"
  by (simp add: BulkUpsertRelayRouting_def bindP_def gets_def prog_defs modify_def Let_def requireRelay_def snap_def split: option.splits)

lemma upsert_route:
  assumes "ValidRelayID r" "hostnameShape h"
  shows "GetRelayForHostname h' (snd (UpsertRelayRoute env h r c s)) = (if h' = h \<and> requireRelay r s = None then r else GetRelayForHostname h' s)"
  using assms
  by (auto simp: UpsertRelayRoute_def bindP_def gets_def prog_defs modify_def GetRelayForHostname_def direct_route_def split: option.splits)

lemma set_chain_relay: "map_option rr_RelayID (fmlookup (st_routes (set_chain e s)) h) = map_option rr_RelayID (fmlookup (st_routes s) h)"
  by (simp add: set_chain_def split: option.splits)

lemma chains_relay: "map_option rr_RelayID (fmlookup (st_routes (SetRelayRouteChains cs s)) h) = map_option rr_RelayID (fmlookup (st_routes s) h)"
  unfolding SetRelayRouteChains_def by (induction cs arbitrary: s) (simp_all add: set_chain_relay)

lemma chains_route: "GetRelayForHostname h (SetRelayRouteChains cs s) = GetRelayForHostname h s"
  using chains_relay [of cs s h] by (auto simp: GetRelayForHostname_def split: option.splits)

interpretation sr: route_hooks "server_hooks env cfg" "\<lambda>s h. GetRelayForHostname h s" "\<lambda>s r. requireRelay r s = None"
proof unfold_locales
  fix h and d :: "'a store"
  show "hk_route (server_hooks env cfg) h d = Inr (GetRelayForHostname h d)" by (simp add: server_hooks_def)
next
  fix r :: string and hs h and d :: "'a store" assume "ValidRelayID r" "list_all hostnameShape hs"
  then show "GetRelayForHostname h (hk_bulk (server_hooks env cfg) r hs d) =
      (if requireRelay r d \<noteq> None then GetRelayForHostname h d else if h \<in> set hs then r
       else if GetRelayForHostname h d = r then [] else GetRelayForHostname h d)"
    unfolding server_hooks_def by (simp add: bulk_route)
next
  fix r hs and d :: "'a store"
  show "(\<lambda>ra. requireRelay ra (hk_bulk (server_hooks env cfg) r hs d) = None) = (\<lambda>r. requireRelay r d = None)"
    by (simp add: server_hooks_def bulk_relays)
next
  fix r :: string and h c h' and d :: "'a store" assume "ValidRelayID r" "hostnameShape h"
  then show "GetRelayForHostname h' (hk_upsert (server_hooks env cfg) h r c d) =
      (if h' = h \<and> requireRelay r d = None then r else GetRelayForHostname h' d)"
    by (simp add: server_hooks_def upsert_route)
qed (auto simp: server_hooks_def chains_route intro!: ext route_of_routes)

section \<open>Accepted snapshots\<close>

lemma fold_err_None: "fold (\<lambda>x e. err_or e (f x)) xs e = None \<longleftrightarrow> e = None \<and> (\<forall>x \<in> set xs. f x = None)"
  by (induction xs arbitrary: e) auto

lemma relays_loop_spec:
  assumes "relays_loop forbidden peer relays rs = Inr relays'"
  shows "relays' = relays |\<union>| fset_of_list (map te_RelayID rs) \<and>
    (\<forall>r \<in> set rs. ValidRelayID (te_RelayID r) \<and> te_RelayID r \<noteq> peer \<and> chainOK forbidden peer (te_RelayChain r) (te_RelayID r) = None)"
  using assms by (induction rs arbitrary: relays) (auto split: if_splits)

lemma agents_loop_spec:
  assumes "agents_loop forbidden peer relays seen br ags = Inr br2"
  shows "get_or [] br2 i = get_or [] br i @ map ra_Hostname (filter (\<lambda>a. ra_RelayID a = i) ags)" "distinct (map ra_Hostname ags)"
    "\<forall>a \<in> set ags. hostnameShape (ra_Hostname a) \<and> ValidRelayID (ra_RelayID a) \<and> (ra_RelayID a = peer \<or> ra_RelayID a |\<in>| relays) \<and>
      chainOK forbidden peer (ra_RelayChain a) (ra_RelayID a) = None \<and> ra_Hostname a |\<notin>| seen"
proof -
  have "get_or [] br2 i = get_or [] br i @ map ra_Hostname (filter (\<lambda>a. ra_RelayID a = i) ags) \<and> distinct (map ra_Hostname ags) \<and>
    (\<forall>a \<in> set ags. hostnameShape (ra_Hostname a) \<and> ValidRelayID (ra_RelayID a) \<and> (ra_RelayID a = peer \<or> ra_RelayID a |\<in>| relays) \<and>
      chainOK forbidden peer (ra_RelayChain a) (ra_RelayID a) = None \<and> ra_Hostname a |\<notin>| seen)"
    using assms
  proof (induction ags arbitrary: seen br)
    case (Cons a ags)
    from Cons.prems have ok: "hostnameShape (ra_Hostname a)" "ValidRelayID (ra_RelayID a)" "ra_Hostname a |\<notin>| seen"
      "ra_RelayID a = peer \<or> ra_RelayID a |\<in>| relays" "chainOK forbidden peer (ra_RelayChain a) (ra_RelayID a) = None"
      and go: "agents_loop forbidden peer relays (finsert (ra_Hostname a) seen)
        (fmupd (ra_RelayID a) (get_or [] br (ra_RelayID a) @ [ra_Hostname a]) br) ags = Inr br2"
      by (auto split: if_splits)
    from Cons.IH [OF go] ok show ?case by auto
  qed simp
  then show "get_or [] br2 i = get_or [] br i @ map ra_Hostname (filter (\<lambda>a. ra_RelayID a = i) ags)" "distinct (map ra_Hostname ags)"
    "\<forall>a \<in> set ags. hostnameShape (ra_Hostname a) \<and> ValidRelayID (ra_RelayID a) \<and> (ra_RelayID a = peer \<or> ra_RelayID a |\<in>| relays) \<and>
      chainOK forbidden peer (ra_RelayChain a) (ra_RelayID a) = None \<and> ra_Hostname a |\<notin>| seen" by blast+
qed

lemma chain_loop_None: "chain_loop forbidden seen ids = None \<longleftrightarrow> distinct ids \<and> set ids \<inter> (set forbidden \<union> set seen) = {}"
  by (induction ids arbitrary: seen) auto

lemma chainOK_None:
  "chainOK forbidden peer chain owner = None \<longleftrightarrow>
     length chain \<le> maxRelayChainLen \<and> list_all ValidRelayID chain \<and> chain \<noteq> [] \<and> hd chain = peer \<and> last chain = owner \<and>
     distinct chain \<and> set chain \<inter> set forbidden = {}"
  by (auto simp: chainOK_def chain_loop_None not_less)

text \<open>What a validated snapshot says: who announces which host.\<close>

lemma validated:
  assumes "validateSnapshot H conn msg = Inr (relays, byRelay)"
  shows "relays = fset_of_list (map te_RelayID (m_Relays msg))"
    and "\<And>i. i |\<in>| relays \<Longrightarrow> ValidRelayID i \<and> i \<noteq> c_RelayID conn"
    and "\<And>i. get_or [] byRelay i = map ra_Hostname (filter (\<lambda>a. ra_RelayID a = i) (m_Agents msg))"
    and "distinct (map ra_Hostname (m_Agents msg))"
    and "\<And>a. a \<in> set (m_Agents msg) \<Longrightarrow> hostnameShape (ra_Hostname a) \<and> (ra_RelayID a = c_RelayID conn \<or> ra_RelayID a |\<in>| relays) \<and>
      chainOK (localRelayID H # hk_ancestors H) (c_RelayID conn) (ra_RelayChain a) (ra_RelayID a) = None"
proof -
  let ?f = "localRelayID H # hk_ancestors H"
  from assms have r: "relays_loop ?f (c_RelayID conn) {||} (m_Relays msg) = Inr relays"
    and a: "agents_loop ?f (c_RelayID conn) relays {||} fmempty (m_Agents msg) = Inr byRelay"
    by (auto simp: validateSnapshot_def Let_def and_then_Inr_iff split: if_splits)
  note rs = relays_loop_spec [OF r] and ags = agents_loop_spec [OF a]
  from rs show "relays = fset_of_list (map te_RelayID (m_Relays msg))" by simp
  from rs show "\<And>i. i |\<in>| relays \<Longrightarrow> ValidRelayID i \<and> i \<noteq> c_RelayID conn" by (auto simp: fset_of_list_elem)
  from ags show "\<And>i. get_or [] byRelay i = map ra_Hostname (filter (\<lambda>a. ra_RelayID a = i) (m_Agents msg))" by (simp add: get_or_def)
  from ags show "distinct (map ra_Hostname (m_Agents msg))" by simp
  from ags(3) show "\<And>a. a \<in> set (m_Agents msg) \<Longrightarrow> hostnameShape (ra_Hostname a) \<and> (ra_RelayID a = c_RelayID conn \<or> ra_RelayID a |\<in>| relays) \<and>
      chainOK ?f (c_RelayID conn) (ra_RelayChain a) (ra_RelayID a) = None" by blast
qed

text \<open>A connection whose identity and declared relays are well formed; every handler keeps it so.\<close>

definition conn_ok :: "RelayConnection \<Rightarrow> bool" where
  "conn_ok conn \<longleftrightarrow> ValidRelayID (c_RelayID conn) \<and> (\<forall>i. i |\<in>| descendants conn \<longrightarrow> ValidRelayID i \<and> i \<noteq> c_RelayID conn)"

definition bulk_order :: "RelayConnection \<Rightarrow> string fset \<Rightarrow> string list" where
  "bulk_order conn relays = c_RelayID conn # sorted_list_of_fset relays @ sorted_list_of_fset (descendants conn |-| relays)"

lemma write_routes_fold:
  assumes "validateSnapshot H conn msg = Inr (relays, byRelay)" "conn_ok conn"
  shows "write_routes H conn relays byRelay d = fold (\<lambda>i. hk_bulk H i (get_or [] byRelay i)) (bulk_order conn relays) d"
    "distinct (bulk_order conn relays)"
    "\<forall>i \<in> set (bulk_order conn relays). ValidRelayID i \<and> list_all hostnameShape (get_or [] byRelay i)"
    "set (bulk_order conn relays) = insert (c_RelayID conn) (fset relays \<union> fset (descendants conn))"
proof -
  note v = validated [OF assms(1)]
  have gone: "get_or [] byRelay i = []" if "i |\<in>| descendants conn |-| relays" for i
  proof -
    have "i \<noteq> c_RelayID conn" "i |\<notin>| relays" using that assms(2) by (auto simp: conn_ok_def)
    then show ?thesis using v(5) by (auto simp: v(3) filter_empty_conv)
  qed
  have "fold (\<lambda>i. hk_bulk H i (get_or [] byRelay i)) (sorted_list_of_fset (descendants conn |-| relays)) e =
      fold (\<lambda>i. hk_bulk H i []) (sorted_list_of_fset (descendants conn |-| relays)) e" for e
    by (rule fold_cong) (simp_all add: gone)
  then show "write_routes H conn relays byRelay d = fold (\<lambda>i. hk_bulk H i (get_or [] byRelay i)) (bulk_order conn relays) d"
    by (simp add: write_routes_def bulk_order_def)
  show "distinct (bulk_order conn relays)" using v(2) assms(2) by (auto simp: bulk_order_def conn_ok_def sorted_list_of_fset.rep_eq)
  show "set (bulk_order conn relays) = insert (c_RelayID conn) (fset relays \<union> fset (descendants conn))" by (auto simp: bulk_order_def)
  show "\<forall>i \<in> set (bulk_order conn relays). ValidRelayID i \<and> list_all hostnameShape (get_or [] byRelay i)"
    using v(2,5) assms(2) by (auto simp: bulk_order_def conn_ok_def v(3) list_all_iff)
qed

lemma claim_frame:
  "claimDescendants peer relays w = (ok, w') \<Longrightarrow> n_data w' = n_data w \<and> n_tasks w' = n_tasks w"
  by (auto simp: claimDescendants_def split: if_splits)

lemma claim_free:
  assumes "claimDescendants peer relays w = (True, w')" "i |\<in>| relays"
  shows "\<not> IsRelayConnected i w" "fmlookup (descendantOwner w) i = Some peer' \<Longrightarrow> peer' = peer"
  using assms by (auto simp: claimDescendants_def split: if_splits option.splits)

text \<open>The branches of a snapshot: refused without touching the data, or applied.\<close>

lemma snapshot_cases:
  obtains (refused) "rejected (fst (handleTopologySnapshot H now msg conn w)) \<noteq> None"
      "descendants (fst (handleTopologySnapshot H now msg conn w)) = descendants conn"
      "n_data (snd (handleTopologySnapshot H now msg conn w)) = n_data w"
  | (applied) relays byRelay w1 w0 where "validateSnapshot H conn msg = Inr (relays, byRelay)"
      "claimDescendants (c_RelayID conn) relays w0 = (True, w1)" "checkHostConflicts H conn relays byRelay w1 = None"
      "n_data w0 = n_data w" "n_tasks w0 = n_tasks w" "descendantOwner w0 = descendantOwner w"
      "handleTopologySnapshot H now msg conn w = apply_snapshot H msg relays byRelay conn w1"
proof -
  obtain allowed qs where q: "allowSnapshot (hk_order H) (c_RelayID conn) now (n_quotas w) = (allowed, qs)"
    by (cases "allowSnapshot (hk_order H) (c_RelayID conn) now (n_quotas w)")
  define w0 where "w0 = w\<lparr>n_quotas := qs\<rparr>"
  have w0: "n_data w0 = n_data w" "n_tasks w0 = n_tasks w" "descendantOwner w0 = descendantOwner w" by (simp_all add: w0_def)
  consider "\<not> helloDone conn \<or> \<not> allowed" | e where "helloDone conn" allowed "validateSnapshot H conn msg = Inl e"
    | relays byRelay where "helloDone conn" allowed "validateSnapshot H conn msg = Inr (relays, byRelay)"
    by (cases "validateSnapshot H conn msg") auto
  then show thesis
  proof cases
    case 1
    then show thesis by (intro refused) (auto simp: handleTopologySnapshot_def q reject_def Let_def)
  next
    case 2
    then show thesis by (intro refused) (auto simp: handleTopologySnapshot_def q reject_def Let_def)
  next
    case 3
    obtain ok w1 where c: "claimDescendants (c_RelayID conn) relays w0 = (ok, w1)"
      by (cases "claimDescendants (c_RelayID conn) relays w0")
    from claim_frame [OF c] w0 have frame: "n_data w1 = n_data w" "n_tasks w1 = n_tasks w" by simp_all
    show thesis
    proof (cases "validateSnapshotGroupVars H msg = None \<and> ok \<and> checkHostConflicts H conn relays byRelay w1 = None")
      case True
      then show thesis using 3 c w0
        by (intro applied [of relays byRelay w0 w1]) (simp_all add: handleTopologySnapshot_def q Let_def w0_def [symmetric])
    next
      case False
      with 3 c frame w0 show thesis
        by (intro refused) (auto simp: handleTopologySnapshot_def q reject_def Let_def w0_def [symmetric] releaseDescendants_def)
    qed
  qed
qed

lemma claim_owner: "claimDescendants peer relays w = (ok, w') \<Longrightarrow> IsRelayConnected i w' = IsRelayConnected i w"
  by (auto simp: claimDescendants_def IsRelayConnected_def split: if_splits)

lemma group_vars_frame:
  "n_data (snd (storeGroupVars H r c vars w)) = n_data w \<or> (\<exists>j. n_data (snd (storeGroupVars H r c vars w)) = hk_groupVars H r j (n_data w))"
  by (auto simp: storeGroupVars_def forwardEventUpstream_def on_data_def split: sum.splits)

lemma apply_snapshot_conn:
  "fst (apply_snapshot H msg relays byRelay conn w) = conn\<lparr>descendants := relays, snapshotDone := True\<rparr>"
  by (simp add: apply_snapshot_def Let_def)

text \<open>A relay of somebody else: not the peer nor declared by it, and connected here or declared by another peer.\<close>

definition elsewhere :: "RelayConnection \<Rightarrow> 'd node \<Rightarrow> string \<Rightarrow> bool" where
  "elsewhere conn w r \<longleftrightarrow> r \<noteq> [] \<and> r \<noteq> c_RelayID conn \<and> r |\<notin>| descendants conn \<and>
     (IsRelayConnected r w \<or> (\<exists>peer. fmlookup (descendantOwner w) r = Some peer \<and> peer \<noteq> c_RelayID conn))"

context route_hooks
begin

lemma storeGroupVars_route: "route (n_data (snd (storeGroupVars H r c vars w))) = route (n_data w)"
  using group_vars_frame [of H r c vars w] by (auto simp: rest)

lemma applySnapshotGroupVars_route: "route (n_data (applySnapshotGroupVars H conn msg w)) = route (n_data w)"
proof -
  have "route (n_data (fold (\<lambda>r w. case te_GroupVars r of None \<Rightarrow> w | Some vars \<Rightarrow> snd (storeGroupVars H (te_RelayID r) (rev (te_RelayChain r)) vars w)) rs v))
      = route (n_data v)" for rs :: "RelayTopoEntry list" and v
    by (induction rs arbitrary: v) (simp_all add: storeGroupVars_route split: option.split)
  then show ?thesis by (simp add: applySnapshotGroupVars_def storeGroupVars_route split: option.split)
qed

lemma release_data [simp]: "n_data (releaseDescendants p r w) = n_data w"
  by (simp add: releaseDescendants_def)

lemma apply_snapshot_route:
  "route (n_data (snd (apply_snapshot H msg relays byRelay conn w))) =
     route (write_routes H conn relays byRelay (write_relays H conn msg relays (n_data w)))"
proof -
  have "route (n_data (snd (apply_snapshot H msg relays byRelay conn w))) =
      route (hk_chains H (route_chains msg) (write_routes H conn relays byRelay (write_relays H conn msg relays (n_data w))))"
    by (simp add: apply_snapshot_def Let_def notifyTopologyChanged_def send_def applySnapshotGroupVars_route)
  then show ?thesis by (simp add: rest)
qed

text \<open>A host that is announced passed the conflict check.\<close>

lemma announced_free:
  assumes "validateSnapshot H conn msg = Inr (relays, byRelay)" "checkHostConflicts H conn relays byRelay w = None"
    and "h \<in> set (get_or [] byRelay i)"
  shows "\<not> connected_here h w" "route (n_data w) h \<in> insert [] (insert (c_RelayID conn) (fset relays))"
proof -
  from assms(3) obtain hs where hs: "fmlookup byRelay i = Some hs" "h \<in> set hs" by (cases "fmlookup byRelay i") (auto simp: get_or_def)
  from assms(2) have "host_conflict H conn relays w h = None"
    unfolding checkHostConflicts_def range_err_None_iff fmpred_iff fold_err_None using hs by blast
  then show "\<not> connected_here h w" "route (n_data w) h \<in> insert [] (insert (c_RelayID conn) (fset relays))"
    by (auto simp: host_conflict_def route_hook split: if_splits)
qed

lemma fold_bulk_result:
  assumes "\<forall>i \<in> set ids. ValidRelayID i \<and> list_all hostnameShape (f i)"
  shows "route (fold (\<lambda>i. hk_bulk H i (f i)) ids d) h \<in> insert [] (insert (route d h) {i \<in> set ids. h \<in> set (f i)})"
  using assms
proof (induction ids arbitrary: d)
  case (Cons i ids)
  then have "route (hk_bulk H i (f i) d) h \<in> insert [] (insert (route d h) (if h \<in> set (f i) then {i} else {}))" by (auto simp: bulk)
  moreover have "route (fold (\<lambda>i. hk_bulk H i (f i)) ids (hk_bulk H i (f i) d)) h
      \<in> insert [] (insert (route (hk_bulk H i (f i) d) h) {i \<in> set ids. h \<in> set (f i)})"
    using Cons.prems by (intro Cons.IH) simp
  ultimately show ?case by (auto split: if_splits)
qed simp

lemma snapshot_keeps_others:
  fixes w :: "'d node" and now msg
  assumes "conn_ok conn"
  defines "w' \<equiv> snd (handleTopologySnapshot H now msg conn w)"
  shows "elsewhere conn w (route (n_data w) h) \<Longrightarrow> route (n_data w') h = route (n_data w) h"
    and "connected_here h w \<Longrightarrow> route (n_data w') h \<in> {[], route (n_data w) h}"
proof -
  have "(elsewhere conn w (route (n_data w) h) \<longrightarrow> route (n_data w') h = route (n_data w) h) \<and>
    (connected_here h w \<longrightarrow> route (n_data w') h \<in> {[], route (n_data w) h})"
  proof (cases rule: snapshot_cases [of H now msg conn w])
    case refused
    then show ?thesis by (simp add: w'_def)
  next
    case (applied relays byRelay w1 w0)
    note frame = claim_frame [OF applied(2)]
    note wr = write_routes_fold [OF applied(1) assms(1)]
    let ?f = "\<lambda>i. get_or [] byRelay i" and ?d = "write_relays H conn msg relays (n_data w)"
    have d: "route ?d = route (n_data w)" by (rule write_relays_route)
    have w': "route (n_data w') h = route (fold (\<lambda>i. hk_bulk H i (?f i)) (bulk_order conn relays) ?d) h"
      using frame applied(4) by (simp add: w'_def applied(7) apply_snapshot_route wr(1))
    have keep: "route (n_data w') h = route (n_data w) h"
      if "route (n_data w) h \<notin> set (bulk_order conn relays)" "\<And>i. h \<notin> set (?f i)"
      unfolding w' d [symmetric] using that wr(3) by (intro fold_bulk_other) (auto simp: d)
    have free: "\<not> connected_here h w \<and> route (n_data w) h \<in> insert [] (insert (c_RelayID conn) (fset relays))" if "h \<in> set (?f i)" for i
      using announced_free [OF applied(1,3) that] frame applied(4,5) by (simp add: connected_here_def)
    have claimed: "\<not> elsewhere conn w r" if "r |\<in>| relays" for r
      using claim_free [OF applied(2) that] applied(5,6) by (auto simp: elsewhere_def IsRelayConnected_def)
    show ?thesis
    proof (cases "\<exists>i. h \<in> set (?f i)")
      case True
      with free claimed show ?thesis by (auto simp: elsewhere_def)
    next
      case False
      then have "route (n_data w') h \<in> {[], route (n_data w) h}"
        using fold_bulk_result [OF wr(3), of ?d h] by (auto simp: w' d)
      moreover have "route (n_data w) h \<notin> set (bulk_order conn relays)" if "elsewhere conn w (route (n_data w) h)"
        using that claimed unfolding wr(4) by (auto simp: elsewhere_def)
      ultimately show ?thesis using False keep by blast
    qed
  qed
  then show "elsewhere conn w (route (n_data w) h) \<Longrightarrow> route (n_data w') h = route (n_data w) h"
    "connected_here h w \<Longrightarrow> route (n_data w') h \<in> {[], route (n_data w) h}" by blast+
qed

end

lemma report_frame:
  assumes "reportConflictOnce c conn w = (conn', w')"
  shows "n_data w' = n_data w" "n_tasks w' = n_tasks w" "descendants conn' = descendants conn" "c_RelayID conn' = c_RelayID conn"
    and "n_upstream w' = n_upstream w" "n_local w' = n_local w" "rejected conn' = rejected conn"
    and "reported conn' = fmupd (hc_Hostname c) (hc_OldRelay c @ ''->'' @ hc_NewRelay c) (reported conn)"
  using assms
  by (auto simp: reportConflictOnce_def emitConflict_def get_or_def Let_def undo_simps split: if_splits option.splits)

text \<open>The branches of an event: dropped, or processed after every check.\<close>

lemma event_cases:
  obtains (dropped) "fst (handleEventForward H now msg conn w) = conn" "n_data (snd (handleEventForward H now msg conn w)) = n_data w"
      "n_upstream (snd (handleEventForward H now msg conn w)) = n_upstream w" "n_local (snd (handleEventForward H now msg conn w)) = n_local w"
  | (processed) acc conn1 w1 w0 where "helloDone conn" "chain_accepted H conn (m_RelayChain msg)" "eventShapeError H msg = None"
      "n_data w0 = n_data w" "n_tasks w0 = n_tasks w" "n_upstream w0 = n_upstream w" "n_local w0 = n_local w"
      "applyEventRouting H msg conn w0 = (acc, conn1, w1)" "fst (handleEventForward H now msg conn w) = conn1"
      "n_data (snd (handleEventForward H now msg conn w)) = n_data w1"
      "n_upstream (snd (handleEventForward H now msg conn w)) = n_upstream w1 @ (if acc then [msg] else [])"
      "n_local (snd (handleEventForward H now msg conn w)) =
        n_local w1 @ (if acc \<and> m_Event msg \<in> set [''host.up'', ''host.down'', ''host.new'', ''host.suspended'', ''host.resumed''] then [msg] else [])"
proof -
  obtain allowed qs where q: "allowEvent (hk_order H) (c_RelayID conn) now (n_quotas w) = (allowed, qs)"
    by (cases "allowEvent (hk_order H) (c_RelayID conn) now (n_quotas w)")
  define w0 where "w0 = w\<lparr>n_quotas := qs\<rparr>"
  obtain acc conn1 w1 where a: "applyEventRouting H msg conn w0 = (acc, conn1, w1)" by (cases "applyEventRouting H msg conn w0")
  show thesis
  proof (cases "helloDone conn \<and> allowed \<and> chain_accepted H conn (m_RelayChain msg) \<and> eventShapeError H msg = None")
    case True
    with a show thesis
      by (intro processed [of w0 acc conn1 w1])
        (auto simp: handleEventForward_def q Let_def w0_def [symmetric] forwardEventUpstream_def dispatchEventLocal_def, auto simp: w0_def)
  next
    case False
    then show thesis by (intro dropped) (auto simp: handleEventForward_def q Let_def)
  qed
qed

text \<open>What a peer has reported about a host it takes over from \<open>prev\<close>.\<close>

definition reported_move :: "RelayConnection \<Rightarrow> string \<Rightarrow> string \<Rightarrow> bool" where
  "reported_move conn h prev \<longleftrightarrow> fmlookup (reported conn) h = Some (prev @ ''->'' @ c_RelayID conn)"

text \<open>A host a peer may take: not connected here, and free, its own, or reported as a move.\<close>

definition may_take :: "RelayConnection \<Rightarrow> RelayConnection \<Rightarrow> 'd node \<Rightarrow> string \<Rightarrow> string \<Rightarrow> bool" where
  "may_take conn conn' w h prev \<longleftrightarrow>
     \<not> connected_here h w \<and>
     (prev = [] \<or> prev = c_RelayID conn \<or> prev |\<in>| descendants conn \<or> prev |\<in>| descendants conn' \<or> reported_move conn' h prev)"

context route_hooks
begin

lemma detect_None:
  "detectHostConflict H conn h chain w = None \<Longrightarrow>
     \<not> connected_here h w \<and> (route (n_data w) h = [] \<or> route (n_data w) h = c_RelayID conn \<or> route (n_data w) h |\<in>| descendants conn)"
  by (auto simp: detectHostConflict_def route_hook split: if_splits)

lemma detect_Some:
  assumes "detectHostConflict H conn h chain w = Some c"
  shows "hc_Hostname c = h" "hc_NewRelay c = c_RelayID conn" "hc_OldRelay c \<noteq> LocalOwner \<Longrightarrow> \<not> connected_here h w \<and> hc_OldRelay c = route (n_data w) h"
  using assms by (auto simp: detectHostConflict_def route_hook split: if_splits)

text \<open>The hosts of an agent list that are routed are free or their move is recorded, up to the end of the list.\<close>

lemma list_hosts_spec:
  assumes "list_hosts H hs routable conn w = (rt, conn', w')"
  shows "n_data w' = n_data w \<and> n_tasks w' = n_tasks w \<and> descendants conn' = descendants conn \<and> c_RelayID conn' = c_RelayID conn \<and>
    set rt \<subseteq> set routable \<union> set hs \<and>
    (\<forall>h. reported_move conn h (route (n_data w) h) \<longrightarrow> \<not> connected_here h w \<longrightarrow> reported_move conn' h (route (n_data w) h)) \<and>
    (\<forall>h \<in> set rt - set routable. may_take conn conn' w h (route (n_data w) h))"
  using assms
proof (induction hs arbitrary: routable conn w)
  case (Cons h hs)
  show ?case
  proof (cases "detectHostConflict H conn h [c_RelayID conn] w")
    case None
    with Cons.prems have step: "list_hosts H hs (routable @ [h]) conn w = (rt, conn', w')" by simp
    have "may_take conn conn' w h (route (n_data w) h)" using detect_None [OF None] by (auto simp: may_take_def)
    with Cons.IH [OF step] show ?thesis by auto
  next
    case (Some c)
    obtain conn1 w1 where r: "reportConflictOnce c conn w = (conn1, w1)" by (cases "reportConflictOnce c conn w")
    note frame = report_frame [OF r] and det = detect_Some [OF Some]
    let ?rt = "if hc_OldRelay c \<noteq> LocalOwner then routable @ [h] else routable"
    from Cons.prems Some r have step: "list_hosts H hs ?rt conn1 w1 = (rt, conn', w')" by simp
    note IH = Cons.IH [OF step]
    have here: "connected_here x w1 = connected_here x w" for x by (simp add: connected_here_def frame)
    have new: "fmlookup (reported conn1) h = Some (hc_OldRelay c @ ''->'' @ c_RelayID conn)" by (simp add: frame(8) det)
    have keep: "reported_move conn1 x (route (n_data w) x)" if "reported_move conn x (route (n_data w) x)" "\<not> connected_here x w" for x
    proof (cases "x = h")
      case True
      with that Some have "hc_OldRelay c = route (n_data w) h" by (auto simp: detectHostConflict_def route_hook split: if_splits)
      with new True show ?thesis by (simp add: reported_move_def frame)
    next
      case False
      with that show ?thesis by (simp add: reported_move_def frame det)
    qed
    have h: "may_take conn conn' w h (route (n_data w) h)" if "hc_OldRelay c \<noteq> LocalOwner"
    proof -
      from det(3) [OF that] have free: "\<not> connected_here h w" "hc_OldRelay c = route (n_data w) h" by simp_all
      with new have "reported_move conn1 h (route (n_data w) h)" by (simp add: reported_move_def frame)
      with IH free here frame(1) show ?thesis by (simp add: may_take_def)
    qed
    have other: "may_take conn conn' w x (route (n_data w) x)" if "may_take conn1 conn' w1 x (route (n_data w1) x)" for x
      using that by (simp add: may_take_def here frame)
    have "may_take conn conn' w x (route (n_data w) x)" if "x \<in> set rt - set routable" for x
    proof (cases "x \<in> set ?rt")
      case True
      with that h show ?thesis by (auto split: if_splits)
    next
      case False
      with IH that other show ?thesis by blast
    qed
    with IH keep show ?thesis by (auto simp: frame here split: if_splits)
  qed
qed simp

end

context route_hooks
begin

lemma agent_list_takes:
  assumes "conn_ok conn" "agent_list H msg conn w = (conn', w')"
    and "route (n_data w') h \<noteq> route (n_data w) h" "route (n_data w') h \<noteq> []"
  shows "may_take conn conn' w h (route (n_data w) h) \<and> route (n_data w') h = c_RelayID conn"
proof -
  let ?hs = "filter hostnameShape (map ra_Hostname (m_Agents msg))"
  obtain rt conn1 w1 where l: "list_hosts H ?hs [] conn w = (rt, conn1, w1)" by (cases "list_hosts H ?hs [] conn w")
  note spec = list_hosts_spec [OF l]
  have accepted: "\<not> length (m_Agents msg) > hk_maxList H" using assms(2,3) by (auto simp: agent_list_def split: if_splits)
  have conn': "conn' = conn1\<lparr>reported := fmfilter (\<lambda>h. h \<in> set ?hs) (reported conn1)\<rparr>" and w': "n_data w' = hk_bulk H (c_RelayID conn) rt (n_data w)"
    using assms(2) accepted l spec by (auto simp: agent_list_def Let_def send_def)
  have ok: "ValidRelayID (c_RelayID conn)" "list_all hostnameShape rt"
    using assms(1) spec by (auto simp: conn_ok_def list_all_iff)
  from assms(3,4) have h: "h \<in> set rt" "route (n_data w') h = c_RelayID conn" by (auto simp: w' bulk [OF ok] split: if_splits)
  with spec have "may_take conn conn1 w h (route (n_data w) h)" "h \<in> set ?hs" by auto
  then have "may_take conn conn' w h (route (n_data w) h)"
    by (auto simp: may_take_def reported_move_def conn' simp del: set_filter)
  with h show ?thesis by simp
qed

lemma route_event_effect:
  assumes "conn_ok conn" "chain_accepted H conn (m_RelayChain msg)" "hostnameShape (m_Hostname msg)"
    and "route (n_data (route_event H msg conn' w)) h \<noteq> route (n_data w) h"
  shows "h = m_Hostname msg" "route (n_data (route_event H msg conn' w)) h \<in> insert (c_RelayID conn) (fset (descendants conn))"
proof -
  let ?o = "hd (m_RelayChain msg)"
  have "?o = c_RelayID conn \<or> ?o |\<in>| descendants conn"
    using assms(2) by (cases "m_RelayChain msg") (auto simp: chain_accepted_def split: if_splits)
  moreover have ok: "ValidRelayID ?o" using calculation assms(1) by (auto simp: conn_ok_def)
  ultimately show "h = m_Hostname msg" "route (n_data (route_event H msg conn' w)) h \<in> insert (c_RelayID conn) (fset (descendants conn))"
    using assms(4) by (auto simp: route_event_def Let_def upsert [OF ok assms(3)] rest split: if_splits)
qed

lemma routing_takes:
  assumes "conn_ok conn" "chain_accepted H conn (m_RelayChain msg)" "eventShapeError H msg = None"
    and "applyEventRouting H msg conn w = (acc, conn', w')" "route (n_data w') h \<noteq> route (n_data w) h"
  shows "may_take conn conn' w h (route (n_data w) h) \<and> route (n_data w') h \<in> insert (c_RelayID conn) (fset (descendants conn))"
proof -
  have up: "m_Event msg = ''host.up'' \<or> m_Event msg = ''host.new''"
    using assms(4,5) by (auto simp: applyEventRouting_def Let_def rest emitConflict_def split: if_splits sum.splits option.splits)
  then have shape: "hostnameShape (m_Hostname msg)" using assms(3) by (auto simp: eventShapeError_def Let_def split: if_splits)
  note effect = route_event_effect [OF assms(1,2) shape]
  let ?det = "detectHostConflict H conn (m_Hostname msg) (rev (m_RelayChain msg)) w"
  show ?thesis
  proof (cases ?det)
    case None
    with assms(4) up have w': "conn' = conn" "w' = route_event H msg conn w" by (auto simp: applyEventRouting_def Let_def)
    with effect [of conn w h] assms(5) detect_None [OF None] show ?thesis by (auto simp: may_take_def)
  next
    case (Some c)
    obtain conn2 w2 where r: "reportConflictOnce c conn w = (conn2, w2)" by (cases "reportConflictOnce c conn w")
    note frame = report_frame [OF r] and det = detect_Some [OF Some]
    have "w' \<noteq> w2" using assms(5) frame(1) by auto
    moreover have "(acc, conn', w') = (if hc_OldRelay c = LocalOwner then (False, conn2, w2) else (True, conn2, route_event H msg conn2 w2))"
      using assms(4) up Some r by (auto simp: applyEventRouting_def Let_def)
    ultimately have w': "hc_OldRelay c \<noteq> LocalOwner" "conn' = conn2" "w' = route_event H msg conn2 w2"
      by (simp_all split: if_splits)
    with effect [of conn2 w2 h] assms(5)
    have h: "h = m_Hostname msg" "route (n_data w') h \<in> insert (c_RelayID conn) (fset (descendants conn))" by (auto simp: frame(1))
    from det(3) [OF w'(1)] have free: "\<not> connected_here h w" "hc_OldRelay c = route (n_data w) h" by (simp_all add: h)
    then have "reported_move conn' h (route (n_data w) h)" by (simp add: reported_move_def w' frame det h)
    with free h show ?thesis by (simp add: may_take_def)
  qed
qed

lemma event_takes:
  assumes "conn_ok conn" "handleEventForward H now msg conn w = (conn', w')" "route (n_data w') h \<noteq> route (n_data w) h"
  shows "may_take conn conn' w h (route (n_data w) h) \<and> route (n_data w') h \<in> insert (c_RelayID conn) (fset (descendants conn))"
proof (cases rule: event_cases [of H now msg conn w])
  case dropped
  with assms(2,3) show ?thesis by simp
next
  case (processed acc conn1 w1 w0)
  with routing_takes [OF assms(1) processed(2,3,8)] assms(2,3) show ?thesis
    by (simp add: may_take_def connected_here_def)
qed

lemma snapshot_takes:
  assumes "conn_ok conn" "handleTopologySnapshot H now msg conn w = (conn', w')"
    and "route (n_data w') h \<noteq> route (n_data w) h" "route (n_data w') h \<noteq> []"
  shows "may_take conn conn' w h (route (n_data w) h) \<and> route (n_data w') h \<in> insert (c_RelayID conn) (fset (descendants conn'))"
proof (cases rule: snapshot_cases [of H now msg conn w])
  case refused
  with assms(2,3) show ?thesis by simp
next
  case (applied relays byRelay w1 w0)
  note frame = claim_frame [OF applied(2)] and wr = write_routes_fold [OF applied(1) assms(1)]
  let ?f = "\<lambda>i. get_or [] byRelay i" and ?d = "write_relays H conn msg relays (n_data w)"
  have d: "route ?d = route (n_data w)" by (rule write_relays_route)
  have w': "route (n_data w') h = route (fold (\<lambda>i. hk_bulk H i (?f i)) (bulk_order conn relays) ?d) h"
    using assms(2) frame applied(4) apply_snapshot_route [of msg relays byRelay conn w1] by (simp add: applied(7) wr(1))
  have conn': "descendants conn' = relays"
    using assms(2) apply_snapshot_conn [of H msg relays byRelay conn w1] by (simp add: applied(7))
  have "\<exists>i. h \<in> set (?f i)"
    using fold_bulk_result [OF wr(3), of ?d h] assms(3,4) by (auto simp: w' d)
  then obtain i where i: "h \<in> set (?f i)" ..
  have "\<not> connected_here h w" "route (n_data w) h \<in> insert [] (insert (c_RelayID conn) (fset relays))"
    using announced_free [OF applied(1,3) i] frame applied(4,5) by (simp_all add: connected_here_def)
  moreover have "route (n_data w') h \<in> insert (c_RelayID conn) (fset relays)"
  proof -
    have "h \<in> set (?f (route (n_data w') h))"
      using fold_bulk_result [OF wr(3), of ?d h] assms(3,4) unfolding w' [symmetric] d by auto
    then obtain a where "a \<in> set (m_Agents msg)" "ra_RelayID a = route (n_data w') h"
      by (auto simp: validated(3) [OF applied(1)])
    with validated(5) [OF applied(1)] show ?thesis by fastforce
  qed
  ultimately show ?thesis by (auto simp: may_take_def conn')
qed

end

context route_hooks
begin

lemma hello_route: "route (n_data (snd (relay_hello H now msg conn w))) = route (n_data w)"
  by (simp add: relay_hello_def Let_def case_prod_beta send_def storeGroupVars_route rest split: option.split)

lemma link_state_data: "n_data (handleLinkState H now msg conn w) = n_data w"
  by (simp add: handleLinkState_def recordLinkState_def forwardEventUpstream_def Let_def)

text \<open>A message of a peer moves a host only into the subtree of that peer, and only a host it may take.\<close>

lemma message_takes:
  assumes "conn_ok conn" "handleRelayMessage H now msg conn w = (conn', w')"
    and "route (n_data w') h \<noteq> route (n_data w) h" "route (n_data w') h \<noteq> []"
  shows "may_take conn conn' w h (route (n_data w) h) \<and>
    (route (n_data w') h = c_RelayID conn \<or> route (n_data w') h |\<in>| descendants conn \<or> route (n_data w') h |\<in>| descendants conn')"
proof -
  have hello: "\<not> m_Type msg = ''relay_hello''" using assms(2,3) hello_route [of now msg conn w] by (auto simp: handleRelayMessage_def)
  consider "m_Type msg = ''topology_snapshot''" | "m_Type msg = ''event_forward''" | "m_Type msg = ''agent_list''"
    | "m_Type msg \<notin> set [''topology_snapshot'', ''event_forward'', ''agent_list'']" by auto
  then show ?thesis
  proof cases
    case 1
    then have "handleTopologySnapshot H now msg conn w = (conn', w')" using assms(2) by (simp add: handleRelayMessage_def)
    from snapshot_takes [OF assms(1) this assms(3,4)] show ?thesis by auto
  next
    case 2
    then have "handleEventForward H now msg conn w = (conn', w')" using assms(2) by (simp add: handleRelayMessage_def)
    from event_takes [OF assms(1) this assms(3)] show ?thesis by auto
  next
    case 3
    then have "agent_list H msg conn w = (conn', w')" using assms(2) by (simp add: handleRelayMessage_def)
    from agent_list_takes [OF assms(1) this assms(3,4)] show ?thesis by auto
  next
    case 4
    with hello assms(2,3) show ?thesis
      by (auto simp: handleRelayMessage_def Let_def link_state_data send_def split: if_splits)
  qed
qed

text \<open>The routing after an accepted snapshot whose relays are all registered.\<close>

lemma snapshot_exact:
  assumes "conn_ok conn" "handleTopologySnapshot H now msg conn w = (conn', w')" "rejected conn' = None"
    and "\<forall>r \<in> insert (c_RelayID conn) (fset (descendants conn) \<union> fset (descendants conn')).
      known (write_relays H conn msg (descendants conn') (n_data w)) r"
  shows "descendants conn' = fset_of_list (map te_RelayID (m_Relays msg))"
    and "a \<in> set (m_Agents msg) \<Longrightarrow> route (n_data w') (ra_Hostname a) = ra_RelayID a"
    and "h \<notin> ra_Hostname ` set (m_Agents msg) \<Longrightarrow>
      route (n_data w) h \<in> insert (c_RelayID conn) (fset (descendants conn) \<union> fset (descendants conn')) \<Longrightarrow> route (n_data w') h = []"
    and "h \<notin> ra_Hostname ` set (m_Agents msg) \<Longrightarrow>
      route (n_data w) h \<notin> insert (c_RelayID conn) (fset (descendants conn) \<union> fset (descendants conn')) \<Longrightarrow> route (n_data w') h = route (n_data w) h"
proof -
  have "\<exists>relays byRelay w1 w0. validateSnapshot H conn msg = Inr (relays, byRelay) \<and> claimDescendants (c_RelayID conn) relays w0 = (True, w1) \<and>
      n_data w0 = n_data w \<and> handleTopologySnapshot H now msg conn w = apply_snapshot H msg relays byRelay conn w1"
    by (cases rule: snapshot_cases [of H now msg conn w]) (use assms(2,3) in auto)
  then obtain relays byRelay w1 w0 where applied: "validateSnapshot H conn msg = Inr (relays, byRelay)"
    "claimDescendants (c_RelayID conn) relays w0 = (True, w1)" "n_data w0 = n_data w"
    "handleTopologySnapshot H now msg conn w = apply_snapshot H msg relays byRelay conn w1" by blast
  note frame = claim_frame [OF applied(2)] and wr = write_routes_fold [OF applied(1) assms(1)] and v = validated [OF applied(1)]
  let ?f = "\<lambda>i. get_or [] byRelay i" and ?d = "write_relays H conn msg relays (n_data w)" and ?ids = "bulk_order conn relays"
  have conn': "descendants conn' = relays"
    using assms(2) apply_snapshot_conn [of H msg relays byRelay conn w1] by (simp add: applied(4))
  have d: "route ?d = route (n_data w)" by (rule write_relays_route)
  have w': "route (n_data w') x = route (fold (\<lambda>i. hk_bulk H i (?f i)) ?ids ?d) x" for x
    using assms(2) frame applied(3) apply_snapshot_route [of msg relays byRelay conn w1] by (simp add: applied(4) wr(1))
  have ids: "\<forall>i \<in> set ?ids. ValidRelayID i \<and> list_all hostnameShape (?f i) \<and> known ?d i"
    using wr(3) assms(4) unfolding conn' wr(4) by auto
  show "descendants conn' = fset_of_list (map te_RelayID (m_Relays msg))" using v(1) conn' by simp
  show "route (n_data w') (ra_Hostname a) = ra_RelayID a" if a: "a \<in> set (m_Agents msg)"
    unfolding w'
  proof (rule fold_bulk_announced [OF ids wr(2)])
    show "ra_RelayID a \<in> set ?ids" using v(5) [OF a] unfolding wr(4) by auto
    show "ra_Hostname a \<in> set (?f (ra_RelayID a))" using a by (auto simp: v(3))
    show "\<forall>i \<in> set ?ids. ra_Hostname a \<in> set (?f i) \<longrightarrow> i = ra_RelayID a"
      using v(4) a by (auto simp: v(3) distinct_map dest: inj_onD)
  qed
  show "route (n_data w') h = []" if "h \<notin> ra_Hostname ` set (m_Agents msg)"
    "route (n_data w) h \<in> insert (c_RelayID conn) (fset (descendants conn) \<union> fset (descendants conn'))"
    unfolding w'
  proof (rule fold_bulk_dropped)
    show "\<forall>i \<in> set ?ids. ValidRelayID i \<and> list_all hostnameShape (?f i) \<and> known ?d i \<and> h \<notin> set (?f i)" using ids that(1) by (auto simp: v(3))
    show "route ?d h \<in> insert [] (set ?ids)" using that(2) unfolding d conn' wr(4) by auto
  qed
  show "route (n_data w') h = route (n_data w) h" if "h \<notin> ra_Hostname ` set (m_Agents msg)"
    "route (n_data w) h \<notin> insert (c_RelayID conn) (fset (descendants conn) \<union> fset (descendants conn'))"
    unfolding w' d [symmetric]
    by (rule fold_bulk_other) (use ids that in \<open>auto simp: v(3) d wr(4) conn'\<close>)
qed

end

section \<open>Invariants of a link\<close>

lemma close_reason_fits: "length (closeReason reason) \<le> 103"
  using rune_cut_le [of "to_valid False reason" 100] by (auto simp: closeReason_def Let_def)

lemma list_hosts_conn:
  "list_hosts H hs rt conn w = (rt', conn', w') \<Longrightarrow> descendants conn' = descendants conn \<and> c_RelayID conn' = c_RelayID conn"
proof (induction hs arbitrary: rt conn w)
  case (Cons h hs)
  then show ?case by (auto dest: report_frame(3,4) split: option.splits prod.splits)
qed simp

lemma routing_conn:
  "applyEventRouting H msg conn w = (acc, conn', w') \<Longrightarrow>
     descendants conn' = descendants conn \<and> c_RelayID conn' = c_RelayID conn \<and> n_upstream w' = n_upstream w \<and> n_local w' = n_local w"
  by (auto simp: applyEventRouting_def Let_def route_event_def on_data_def emitConflict_def dest: report_frame(3-6)
      split: if_splits option.splits prod.splits sum.splits)

lemma message_conn_ok:
  assumes "conn_ok conn" "handleRelayMessage H now msg conn w = (conn', w')"
  shows "conn_ok conn'"
proof -
  have same: "conn_ok c" if "descendants c = descendants conn" "c_RelayID c = c_RelayID conn" for c
    using assms(1) that by (simp add: conn_ok_def)
  have hello: "conn_ok (fst (relay_hello H now msg conn w))"
    by (rule same) (auto simp: relay_hello_def Let_def case_prod_beta reject_def rejectPermanent_def split: option.splits)
  have event: "conn_ok (fst (handleEventForward H now msg conn w))"
    by (cases rule: event_cases [of H now msg conn w]) (use assms(1) in \<open>auto intro: same dest: routing_conn\<close>)
  have agents: "conn_ok (fst (agent_list H msg conn w))"
  proof (rule same)
    obtain rt c v where l: "list_hosts H (filter hostnameShape (map ra_Hostname (m_Agents msg))) [] conn w = (rt, c, v)"
      by (cases "list_hosts H (filter hostnameShape (map ra_Hostname (m_Agents msg))) [] conn w")
    from list_hosts_conn [OF l] show "descendants (fst (agent_list H msg conn w)) = descendants conn"
      "c_RelayID (fst (agent_list H msg conn w)) = c_RelayID conn" using l by (auto simp: agent_list_def Let_def reject_def)
  qed
  have snapshot: "conn_ok (fst (handleTopologySnapshot H now msg conn w))"
  proof (cases rule: snapshot_cases [of H now msg conn w])
    case refused
    have "c_RelayID (fst (handleTopologySnapshot H now msg conn w)) = c_RelayID conn"
      by (auto simp: handleTopologySnapshot_def Let_def reject_def apply_snapshot_conn split: prod.splits sum.splits)
    with refused show ?thesis by (intro same) simp_all
  next
    case (applied relays byRelay w1 w0)
    with validated(2) [OF applied(1)] assms(1) show ?thesis by (auto simp: apply_snapshot_conn conn_ok_def)
  qed
  from assms hello event agents snapshot show ?thesis
    by (auto simp: handleRelayMessage_def Let_def split: if_splits)
qed

lemma served_conn_ok: "conn_ok conn \<Longrightarrow> serve_messages H ms conn w = (conn', w') \<Longrightarrow> conn_ok conn'"
  by (induction H ms conn w rule: serve_messages.induct) (auto split: prod.splits if_splits dest: message_conn_ok)

lemma new_conn_ok: "ValidRelayID relayID \<Longrightarrow> conn_ok (new_connection n relayID)"
  by (simp add: conn_ok_def new_connection_def)

section \<open>Next hops\<close>

lemma set_chain_lookup:
  "fmlookup (st_routes (set_chain e s)) h =
     (case fmlookup (st_routes s) h of
        None \<Rightarrow> None
      | Some r \<Rightarrow> Some (if h = rc_Hostname e \<and> rr_RelayID r = rc_RelayID e then r\<lparr>rr_RelayChain := rc_Chain e\<rparr> else r))"
  by (simp add: set_chain_def split: option.splits)

lemma chains_stored:
  assumes "distinct (map rc_Hostname cs)" "e \<in> set cs" "fmlookup (st_routes s) (rc_Hostname e) = Some r" "rr_RelayID r = rc_RelayID e"
  shows "fmlookup (st_routes (SetRelayRouteChains cs s)) (rc_Hostname e) = Some (r\<lparr>rr_RelayChain := rc_Chain e\<rparr>)"
proof -
  have other: "fmlookup (st_routes (fold set_chain ds t)) h = fmlookup (st_routes t) h" if "h \<notin> rc_Hostname ` set ds" for ds t h
    using that by (induction ds arbitrary: t) (auto simp: set_chain_lookup split: option.splits)
  show ?thesis using assms unfolding SetRelayRouteChains_def
  proof (induction cs arbitrary: s)
    case (Cons c cs)
    show ?case
    proof (cases "c = e")
      case True
      with Cons.prems have "rc_Hostname e \<notin> rc_Hostname ` set cs" by auto
      with True Cons.prems show ?thesis by (simp add: other set_chain_lookup)
    next
      case False
      with Cons.prems have "rc_Hostname c \<noteq> rc_Hostname e" by (auto dest: image_eqI)
      with False Cons show ?thesis by (simp add: set_chain_lookup)
    qed
  qed simp
qed

text \<open>The store after an accepted snapshot holds, for every announced host, its relay and the chain that starts with the peer.\<close>

lemma direct_routes_kept:
  assumes "\<And>h r. fmlookup (st_routes s) h = Some r \<Longrightarrow> rr_Hostname r = h"
  shows "fmlookup (st_routes (snd (BulkUpsertRelayRouting env i hs s))) h = Some r \<Longrightarrow> rr_Hostname r = h"
  using assms
  by (auto simp: BulkUpsertRelayRouting_def bindP_def gets_def prog_defs modify_def Let_def lookup_fold_routes lookup_drop_routes direct_route_def
      split: option.splits if_splits)

definition routes_named :: "'g store \<Rightarrow> bool" where
  "routes_named s \<longleftrightarrow> fmpred (\<lambda>h r. rr_Hostname r = h) (st_routes s)"

lemma routes_named_bulk: "routes_named s \<Longrightarrow> routes_named (snd (BulkUpsertRelayRouting env i hs s))"
  unfolding routes_named_def fmpred_iff using direct_routes_kept by blast

lemma routes_named_fold: "routes_named s \<Longrightarrow> routes_named (fold (\<lambda>i s. snd (BulkUpsertRelayRouting env i (f i) s)) ids s)"
  by (induction ids arbitrary: s) (simp_all add: routes_named_bulk)

lemma snapshot_group_vars_routes:
  "st_routes (n_data (applySnapshotGroupVars (server_hooks env cfg) conn msg w)) = st_routes (n_data w)"
proof -
  have one: "st_routes (n_data (snd (storeGroupVars (server_hooks env cfg) r c vars v))) = st_routes (n_data v)" for r c vars v
    using group_vars_frame [of "server_hooks env cfg" r c vars v] by (auto simp: server_hooks_def)
  have "st_routes (n_data (fold (\<lambda>r w. case te_GroupVars r of None \<Rightarrow> w
      | Some vars \<Rightarrow> snd (storeGroupVars (server_hooks env cfg) (te_RelayID r) (rev (te_RelayChain r)) vars w)) rs v)) = st_routes (n_data v)"
    for rs :: "RelayTopoEntry list" and v
    by (induction rs arbitrary: v) (simp_all add: one split: option.split)
  then show ?thesis by (simp add: applySnapshotGroupVars_def one split: option.split)
qed

lemma write_relays_routes: "st_routes (write_relays (server_hooks env cfg) conn msg relays s) = st_routes s"
proof -
  have "st_routes (fold (hk_register (server_hooks env cfg)) rs t) = st_routes t" for rs t
    by (induction rs arbitrary: t) (simp_all add: server_hooks_def)
  moreover have "st_routes (fold (\<lambda>i. hk_chain (server_hooks env cfg) i []) rs t) = st_routes t" for rs t
    by (induction rs arbitrary: t) (simp_all add: server_hooks_def)
  moreover have "st_routes (fold (\<lambda>r. hk_chain (server_hooks env cfg) (te_RelayID r) (te_RelayChain r)) rs t) = st_routes t"
    for rs :: "RelayTopoEntry list" and t
    by (induction rs arbitrary: t) (simp_all add: server_hooks_def)
  moreover have "st_routes (hk_chain (server_hooks env cfg) r c t) = st_routes t" for r c t by (simp add: server_hooks_def)
  ultimately show ?thesis by (simp add: write_relays_def)
qed

lemma server_hook_fields:
  "hk_chains (server_hooks env cfg) = SetRelayRouteChains"
  "hk_bulk (server_hooks env cfg) i hs = (\<lambda>s. snd (BulkUpsertRelayRouting env i hs s))"
  by (simp_all add: server_hooks_def)

lemma announced_next_hop:
  assumes "conn_ok conn" "handleTopologySnapshot (server_hooks env cfg) now msg conn w = (conn', w')" "rejected conn' = None"
    and "a \<in> set (m_Agents msg)" "GetRelayForHostname (ra_Hostname a) (n_data w') = ra_RelayID a" "routes_named (n_data w)"
  shows "GetNextHopForHostname (ra_Hostname a) (n_data w') = c_RelayID conn"
proof -
  let ?H = "server_hooks env cfg"
  have "\<exists>relays byRelay w1 w0. validateSnapshot ?H conn msg = Inr (relays, byRelay) \<and> claimDescendants (c_RelayID conn) relays w0 = (True, w1) \<and>
      n_data w0 = n_data w \<and> handleTopologySnapshot ?H now msg conn w = apply_snapshot ?H msg relays byRelay conn w1"
    by (cases rule: snapshot_cases [of ?H now msg conn w]) (use assms(2,3) in auto)
  then obtain relays byRelay w1 w0 where applied: "validateSnapshot ?H conn msg = Inr (relays, byRelay)"
    "claimDescendants (c_RelayID conn) relays w0 = (True, w1)" "n_data w0 = n_data w"
    "handleTopologySnapshot ?H now msg conn w = apply_snapshot ?H msg relays byRelay conn w1" by blast
  note wr = write_routes_fold [OF applied(1) assms(1)] and v = validated [OF applied(1)] and frame = claim_frame [OF applied(2)]
  define D where "D = write_routes ?H conn relays byRelay (write_relays ?H conn msg relays (n_data w))"
  have D: "D = fold (\<lambda>i s. snd (BulkUpsertRelayRouting env i (get_or [] byRelay i) s)) (bulk_order conn relays) (write_relays ?H conn msg relays (n_data w))"
    unfolding D_def wr(1) by (simp add: server_hook_fields)
  have named: "routes_named D"
    unfolding D by (rule routes_named_fold) (use assms(6) in \<open>simp add: routes_named_def write_relays_routes\<close>)
  have w': "st_routes (n_data w') = st_routes (SetRelayRouteChains (route_chains msg) D)"
    using assms(2) frame applied(3)
    by (auto simp: applied(4) apply_snapshot_def Let_def notifyTopologyChanged_def send_def snapshot_group_vars_routes D_def server_hook_fields sr.route_on_data)
  have "GetRelayForHostname (ra_Hostname a) D = ra_RelayID a"
    using assms(5) route_of_routes [OF w'] by (simp add: chains_route)
  note facts = v(5) [OF assms(4), unfolded chainOK_None]
  then have valid: "ValidRelayID (ra_RelayID a)" by (metis last_in_set list_all_iff)
  then obtain e where e: "fmlookup (st_routes D) (ra_Hostname a) = Some e" "rr_RelayID e = ra_RelayID a"
    using \<open>GetRelayForHostname (ra_Hostname a) D = ra_RelayID a\<close> ValidRelayID_nonempty [OF valid]
    by (auto simp: GetRelayForHostname_def split: option.splits if_splits)
  then have name: "rr_Hostname e = ra_Hostname a" using named by (auto simp: routes_named_def fmpred_iff)
  let ?rc = "\<lambda>a. \<lparr>rc_Hostname = ra_Hostname a, rc_RelayID = ra_RelayID a, rc_Chain = ra_RelayChain a, rc_Suspended = ra_Suspended a\<rparr>"
  have "fmlookup (st_routes (SetRelayRouteChains (route_chains msg) D)) (rc_Hostname (?rc a)) = Some (e\<lparr>rr_RelayChain := rc_Chain (?rc a)\<rparr>)"
    using v(4) assms(4) e by (intro chains_stored) (auto simp: route_chains_def comp_def)
  then have "fmlookup (st_routes (n_data w')) (ra_Hostname a) = Some (e\<lparr>rr_RelayChain := ra_RelayChain a\<rparr>)" by (simp add: w')
  with facts valid e name show ?thesis
    by (cases "ra_RelayChain a") (auto simp: GetNextHopForHostname_def GetRelayRoute_def validRoute_def NextHop_def)
qed

section \<open>Properties\<close>

text \<open>
  C13. No silent re-routing. Whatever message a child relay sends, a host only ever gets a route into the subtree of that
  child, never when its agent is connected here, and only if it had no route, was already in the subtree, or the move
  away from its previous relay has been recorded as a conflict of this link.
\<close>

theorem no_silent_rerouting:
  assumes "conn_ok conn" "handleRelayMessage (server_hooks env cfg) now msg conn w = (conn', w')"
    and "GetRelayForHostname h (n_data w') \<noteq> GetRelayForHostname h (n_data w)" "GetRelayForHostname h (n_data w') \<noteq> []"
  shows "may_take conn conn' w h (GetRelayForHostname h (n_data w)) \<and>
    (GetRelayForHostname h (n_data w') = c_RelayID conn \<or> GetRelayForHostname h (n_data w') |\<in>| descendants conn \<or>
     GetRelayForHostname h (n_data w') |\<in>| descendants conn')"
  using assms by (rule sr.message_takes)

definition ex_cfg_node :: node_cfg where
  "ex_cfg_node = \<lparr>cfg_ID = ''top'', cfg_Ancestors = [''root''], cfg_newID = (\<lambda>r. ''id-'' @ r), cfg_marshal = (\<lambda>_. Some ''{}''),
     cfg_timeOK = (\<lambda>_. True), cfg_order = keys, cfg_seenOrder = keys\<rparr>"

definition ex_tree :: "unit store node" where
  "ex_tree = \<lparr>n_data = ex_routed\<lparr>st_routes := fmupd ''web9'' (direct_route ''web9'' ''other'' 1) (st_routes ex_routed)\<rparr>,
     n_tasks = initial_tasks\<lparr>relayConnections := fmupd ''other'' 2 (fmupd ''edge'' 1 fmempty)\<rparr>, descendantOwner = fmempty,
     n_quotas = no_quotas, linkStates = fmempty, directSeen = fmempty, n_sent = [], n_upstream = [], n_local = [], n_conflicts = [], n_topoChanges = 0\<rparr>"

definition ex_conn :: RelayConnection where
  "ex_conn = (new_connection 1 ''edge'')\<lparr>helloDone := True\<rparr>"

definition ex_list :: RelayMessage where
  "ex_list = zero_relay_message\<lparr>m_Type := ''agent_list'',
     m_Agents := [\<lparr>ra_Hostname = ''web9'', ra_RelayID = [], ra_RelayChain = [], ra_Suspended = False\<rparr>]\<rparr>"

definition ex_snapshot :: "string \<Rightarrow> RelayMessage" where
  "ex_snapshot h = zero_relay_message\<lparr>m_Type := ''topology_snapshot'',
     m_Agents := [\<lparr>ra_Hostname = h, ra_RelayID = ''edge'', ra_RelayChain = [''edge''], ra_Suspended = False\<rparr>]\<rparr>"

lemma ex_conn_ok: "conn_ok ex_conn"
  by (simp add: conn_ok_def ex_conn_def new_connection_def) code_simp

theorem no_silent_rerouting_witness:
  "GetRelayForHostname ''web9'' (n_data (snd (handleRelayMessage (server_hooks ex_senv ex_cfg_node) 9 ex_list ex_conn ex_tree))) = ''edge'' \<and>
   reported_move (fst (handleRelayMessage (server_hooks ex_senv ex_cfg_node) 9 ex_list ex_conn ex_tree)) ''web9'' ''other''"
proof -
  let ?r = "handleRelayMessage (server_hooks ex_senv ex_cfg_node) 9 ex_list ex_conn ex_tree"
  have new: "GetRelayForHostname ''web9'' (n_data (snd ?r)) = ''edge''" by code_simp
  moreover have old: "GetRelayForHostname ''web9'' (n_data ex_tree) = ''other''" by code_simp
  ultimately have "may_take ex_conn (fst ?r) ex_tree ''web9'' ''other''"
    using no_silent_rerouting [OF ex_conn_ok, of ex_senv ex_cfg_node 9 ex_list ex_tree "fst ?r" "snd ?r" "''web9''"] by simp
  moreover have "descendants (fst ?r) = {||}" by code_simp
  ultimately show ?thesis using new by (simp add: may_take_def ex_conn_def new_connection_def)
qed

text \<open>
  A snapshot never takes hosts from somebody else. A host routed through a relay that is connected here or was declared
  by another child keeps its route whatever snapshot a child sends, and the snapshot never gives a route to a
  host whose agent is connected here.
\<close>

theorem snapshot_never_hijacks:
  assumes "conn_ok conn" "handleTopologySnapshot (server_hooks env cfg) now msg conn w = (conn', w')"
  shows "(elsewhere conn w (GetRelayForHostname h (n_data w)) \<longrightarrow> GetRelayForHostname h (n_data w') = GetRelayForHostname h (n_data w)) \<and>
    (connected_here h w \<longrightarrow> GetRelayForHostname h (n_data w') \<in> {[], GetRelayForHostname h (n_data w)})"
  using sr.snapshot_keeps_others [OF assms(1), where w = w and h = h and now = now and msg = msg and env = env and cfg = cfg] assms(2) by simp

theorem snapshot_never_hijacks_witness:
  "GetRelayForHostname ''web9'' (n_data (snd (handleTopologySnapshot (server_hooks ex_senv ex_cfg_node) 9 (ex_snapshot ''web9'') ex_conn ex_tree))) = ''other''"
proof -
  have old: "GetRelayForHostname ''web9'' (n_data ex_tree) = ''other''" by code_simp
  have "elsewhere ex_conn ex_tree ''other''" by (simp add: elsewhere_def IsRelayConnected_def ex_conn_def new_connection_def ex_tree_def)
  with snapshot_never_hijacks [OF ex_conn_ok, of ex_senv ex_cfg_node 9 "ex_snapshot ''web9''" ex_tree] old show ?thesis
    by (metis prod.collapse)
qed

text \<open>
  C14. An accepted snapshot is the truth of the subtree, provided that every relay of the subtree is registered once the handler
  has tried to register it (a registration that fails is only logged, and no route is written for that relay) and that
  the store files each route under its host: every announced host is routed to the relay that announces it, through
  the child that sent the snapshot; every other host of the subtree loses its route, and hosts outside of it keep theirs.
\<close>

theorem snapshot_routes_exact:
  assumes "conn_ok conn" "handleTopologySnapshot (server_hooks env cfg) now msg conn w = (conn', w')" "rejected conn' = None"
    and "routes_named (n_data w)"
    and "\<forall>r \<in> insert (c_RelayID conn) (fset (descendants conn) \<union> fset (descendants conn')).
      requireRelay r (write_relays (server_hooks env cfg) conn msg (descendants conn') (n_data w)) = None"
  shows "(\<forall>a \<in> set (m_Agents msg). GetRelayForHostname (ra_Hostname a) (n_data w') = ra_RelayID a \<and>
      GetNextHopForHostname (ra_Hostname a) (n_data w') = c_RelayID conn) \<and>
    (\<forall>h. h \<notin> ra_Hostname ` set (m_Agents msg) \<longrightarrow> GetRelayForHostname h (n_data w') =
      (if GetRelayForHostname h (n_data w) \<in> insert (c_RelayID conn) (fset (descendants conn) \<union> fset (descendants conn'))
       then [] else GetRelayForHostname h (n_data w)))"
  using sr.snapshot_exact [OF assms(1-3,5)] announced_next_hop [OF assms(1-3) _ _ assms(4)] by simp

theorem snapshot_routes_exact_witness:
  "GetNextHopForHostname ''web1'' (n_data (snd (handleTopologySnapshot (server_hooks ex_senv ex_cfg_node) 9 (ex_snapshot ''web1'') ex_conn ex_tree))) = ''edge'' \<and>
   GetRelayForHostname ''old'' (n_data (snd (handleTopologySnapshot (server_hooks ex_senv ex_cfg_node) 9 (ex_snapshot ''web1'') ex_conn ex_tree))) = []"
proof -
  let ?r = "handleTopologySnapshot (server_hooks ex_senv ex_cfg_node) 9 (ex_snapshot ''web1'') ex_conn ex_tree"
  have below: "descendants (fst ?r) = {||}" "descendants ex_conn = {||}" "c_RelayID ex_conn = ''edge''" by code_simp+
  have eq: "handleTopologySnapshot (server_hooks ex_senv ex_cfg_node) 9 (ex_snapshot ''web1'') ex_conn ex_tree = (fst ?r, snd ?r)" by simp
  have ok: "rejected (fst ?r) = None" by code_simp
  have named: "routes_named (n_data ex_tree)"
    by (simp add: routes_named_def ex_tree_def ex_routed_def newStore_def direct_route_def fmpred_iff)
  have "requireRelay ''edge'' (write_relays (server_hooks ex_senv ex_cfg_node) ex_conn (ex_snapshot ''web1'') {||} (n_data ex_tree)) = None" by code_simp
  then have known: "\<forall>r \<in> insert (c_RelayID ex_conn) (fset (descendants ex_conn) \<union> fset (descendants (fst ?r))).
      requireRelay r (write_relays (server_hooks ex_senv ex_cfg_node) ex_conn (ex_snapshot ''web1'') (descendants (fst ?r)) (n_data ex_tree)) = None"
    by (simp add: below)
  note exact = snapshot_routes_exact [OF ex_conn_ok eq ok named known]
  have "GetRelayForHostname ''old'' (n_data ex_tree) = ''edge''" by code_simp
  moreover have "m_Agents (ex_snapshot ''web1'') = [\<lparr>ra_Hostname = ''web1'', ra_RelayID = ''edge'', ra_RelayChain = [''edge''], ra_Suspended = False\<rparr>]"
    by (simp add: ex_snapshot_def)
  ultimately show ?thesis using exact by (simp add: below)
qed

text \<open>
  What an accepted event says, by kind. A conflict may name any well formed host: it reports a clash somewhere below and
  changes no route.
\<close>

definition event_ok :: "'d hooks \<Rightarrow> RelayConnection \<Rightarrow> 'd node \<Rightarrow> RelayMessage \<Rightarrow> bool" where
  "event_ok H conn w msg \<longleftrightarrow>
     (m_Event msg = ''relay.updated'' \<and> ValidRelayID (m_RelayID msg) \<and> hd (m_RelayChain msg) = m_RelayID msg \<and>
        (m_RelayID msg = c_RelayID conn \<or> m_RelayID msg |\<in>| descendants conn) \<and>
        (case m_GroupVars msg of None \<Rightarrow> True | Some vars \<Rightarrow> ValidateGroupVars (hk_marshal H) vars = None)) \<or>
     (m_Event msg \<in> {''host.up'', ''host.new'', ''host.down''} \<and> hostnameShape (m_Hostname msg) \<and>
        m_Status msg \<in> {''connected'', ''disconnected''} \<and>
        (m_EnrolledAt msg = [] \<or> m_Event msg = ''host.new'' \<and> hk_timeOK H (m_EnrolledAt msg)) \<and>
        \<not> connected_here (m_Hostname msg) w \<and> (m_Event msg = ''host.down'' \<longrightarrow> in_subtree H conn True (m_Hostname msg) w)) \<or>
     (m_Event msg \<in> {''host.suspended'', ''host.resumed''} \<and> hostnameShape (m_Hostname msg) \<and>
        m_Status msg \<in> {[], ''suspended'', ''resumed''} \<and> m_EnrolledAt msg = [] \<and>
        \<not> connected_here (m_Hostname msg) w \<and> in_subtree H conn False (m_Hostname msg) w) \<or>
     (m_Event msg = ''host.conflict'' \<and> hostnameShape (m_Hostname msg) \<and>
        (m_OldRelay msg = LocalOwner \<or> ValidRelayID (m_OldRelay msg)) \<and> (m_NewRelay msg = LocalOwner \<or> ValidRelayID (m_NewRelay msg)))"

lemma detect_free: "detectHostConflict H conn h chain w = None \<Longrightarrow> \<not> connected_here h w"
  by (auto simp: detectHostConflict_def split: if_splits)

lemma detect_free_move: "detectHostConflict H conn h chain w = Some c \<Longrightarrow> hc_OldRelay c \<noteq> LocalOwner \<Longrightarrow> \<not> connected_here h w"
  by (auto simp: detectHostConflict_def split: if_splits)

lemma routing_accepts:
  assumes "applyEventRouting H msg conn w = (True, conn', w')" "eventShapeError H msg = None"
  shows "event_ok H conn w msg"
proof -
  have kinds: "m_Event msg \<in> set [''host.up'', ''host.new'', ''host.down'', ''host.suspended'', ''host.resumed'', ''host.conflict'', ''relay.updated'']"
    using assms(1) by (auto simp: applyEventRouting_def Let_def split: if_splits)
  consider (announced) "m_Event msg = ''host.up'' \<or> m_Event msg = ''host.new''" | (down) "m_Event msg = ''host.down''"
    | (flag) "m_Event msg = ''host.suspended'' \<or> m_Event msg = ''host.resumed''" | (clash) "m_Event msg = ''host.conflict''"
    | (vars) "m_Event msg = ''relay.updated''" using kinds by auto
  then show ?thesis
  proof cases
    case announced
    then have "\<not> connected_here (m_Hostname msg) w"
      using assms(1) by (auto simp: applyEventRouting_def Let_def dest: detect_free detect_free_move split: option.splits prod.splits if_splits)
    with announced assms(2) show ?thesis by (auto simp: event_ok_def eventShapeError_def known_status_def Let_def split: if_splits)
  next
    case down
    with assms show ?thesis by (auto simp: event_ok_def applyEventRouting_def eventShapeError_def known_status_def Let_def split: if_splits)
  next
    case flag
    with assms show ?thesis by (auto simp: event_ok_def applyEventRouting_def eventShapeError_def known_status_def Let_def split: if_splits)
  next
    case clash
    with assms show ?thesis by (auto simp: event_ok_def eventShapeError_def Let_def split: if_splits)
  next
    case vars
    then show ?thesis using assms
      by (auto simp: event_ok_def applyEventRouting_def eventShapeError_def Let_def split: if_splits option.splits)
  qed
qed


definition ex_event :: RelayMessage where
  "ex_event = zero_relay_message\<lparr>m_Type := ''event_forward'', m_Event := ''host.up'', m_Hostname := ''web1'', m_Status := ''connected'',
     m_RelayChain := [''leaf'', ''edge'']\<rparr>"


text \<open>
  The end of a link that was replaced. A relay that reconnects before the old link ended is registered with the new one;
  when the old link finally ends, the relay is unregistered and its routes are cleared although the new link is up (an
  agent in the same situation stays registered).
\<close>

lemma resolve_relay_connections: "relayConnections (resolve_relay_tasks r s) = relayConnections s"
proof -
  have "relayConnections (relay_answer t m u) = relayConnections u" for t m u
    by (simp add: relay_answer_def UnregisterRelayTaskFuture_def offer_def releaseTask_def releaseLocked_def split: option.splits)
  then have "relayConnections (fold (\<lambda>t. relay_answer t (f t)) ts u) = relayConnections u" for f ts u
    by (induction ts arbitrary: u) simp_all
  then show ?thesis by (simp add: resolve_relay_tasks_def)
qed

theorem replaced_link_unregisters_relay:
  assumes "c_RelayID old = c_RelayID new"
  shows "fmlookup (relayConnections (n_tasks (registerRelayConnection H new (registerRelayConnection H old w)))) (c_RelayID new) = Some (c_No new) \<and>
    \<not> IsRelayConnected (c_RelayID new) (end_link H old (registerRelayConnection H new (registerRelayConnection H old w)))"
  using assms
  by (simp add: registerRelayConnection_def end_link_def unregisterRelayConnection_def notifyTopologyChanged_def releaseDescendants_def
      on_data_def IsRelayConnected_def resolve_relay_connections Let_def)

end
