(* ===== verification/Agent_Token.thy ===== *)
theory Agent_Token
  imports Complex_Main Store
begin

text \<open>
  Tokens of agents: signing and dual-key validation (\<open>internal/auth/jwt.go\<close>, \<open>internal/ws/jwt.go\<close>), what a
  handshake takes from the Authorization header (\<open>authenticateAgentRequest\<close> in \<open>internal/ws/handler.go\<close>), the keys
  of the server with their storage (\<open>ServerState\<close> in \<open>internal/handlers/register.go\<close>) and the times at which
  a connected agent gets a new token (\<open>internal/ws/renewal.go\<close>).

  The JWT library, RSA with its PEM and DER encodings and SHA-256 are parameters (\<open>AgentLib\<close>). A claim is a text, a
  number or another JSON value. Random values and the clock are arguments.
\<close>

section \<open>Library\<close>

datatype claim = CText string | CNumber rat | COther

type_synonym MapClaims = "(string, claim) fmap"

datatype pubkey = RSAPub string | OtherPub
datatype privkey = RSAPriv string | OtherPriv

text \<open>
  \<open>jwt_parse\<close> is \<open>jwt.Parse\<close>: the function that chooses the key from the algorithm of the header, the valid
  methods, the time and the token. A private key stands for itself; \<open>rsa_public\<close> gives its public part. The first
  argument of \<open>encryptOAEP\<close> and of \<open>rsa_GenerateKey\<close> is the randomness used.
\<close>

record AgentLib =
  jwt_sign :: "string \<Rightarrow> MapClaims \<Rightarrow> string res"
  jwt_parse :: "(string \<Rightarrow> string res) \<Rightarrow> string list \<Rightarrow> gotime \<Rightarrow> string \<Rightarrow> MapClaims res"
  pem_Encode :: "string \<Rightarrow> string \<Rightarrow> string"
  pem_Decode :: "string \<Rightarrow> string option"
  parsePKIX :: "string \<Rightarrow> pubkey res"
  marshalPKIX :: "string \<Rightarrow> string res"
  parsePKCS8 :: "string \<Rightarrow> privkey res"
  marshalPKCS8 :: "string \<Rightarrow> string res"
  rsa_GenerateKey :: "string \<Rightarrow> string res"
  rsa_public :: "string \<Rightarrow> string"
  encryptOAEP :: "string \<Rightarrow> string \<Rightarrow> string \<Rightarrow> string res"
  decryptOAEP :: "string \<Rightarrow> string \<Rightarrow> string res"

definition claim_text :: "MapClaims \<Rightarrow> string \<Rightarrow> string" where
  "claim_text c k = (case fmlookup c k of Some (CText s) \<Rightarrow> s | _ \<Rightarrow> [])"

definition claim_time :: "MapClaims \<Rightarrow> string \<Rightarrow> gotime option" where
  "claim_time c k =
     (case fmlookup c k of Some (CNumber e) \<Rightarrow> if e > 0 then Some (unix_time \<lfloor>e\<rfloor>) else None | _ \<Rightarrow> None)"

definition agentRole :: string where "agentRole = ''agent''"

definition agent_claims :: "string \<Rightarrow> string \<Rightarrow> string \<Rightarrow> gotime \<Rightarrow> duration \<Rightarrow> MapClaims" where
  "agent_claims sub role jti now ttl =
     fmap_of_list [(''sub'', CText sub), (''role'', CText role), (''jti'', CText jti),
       (''iat'', CNumber (of_int (unix_sec now))), (''exp'', CNumber (of_int (unix_sec (now + ttl))))]"

section \<open>Signing and verification\<close>

text \<open>The closure of \<open>parseJWT\<close>: an HMAC method gets the secret.\<close>

definition hmac_key :: "string \<Rightarrow> string \<Rightarrow> string res" where
  "hmac_key secret alg =
     (if alg \<in> {''HS256'', ''HS384'', ''HS512''} then Inr secret else Inl [ErrText ''unexpected signing method''])"

definition parseJWT :: "AgentLib \<Rightarrow> gotime \<Rightarrow> string \<Rightarrow> string \<Rightarrow> MapClaims res" where
  "parseJWT L now tokenStr secret = jwt_parse L (hmac_key secret) [''HS256''] now tokenStr"

type_synonym jwt_secrets = "string \<times> string \<times> gotime option"

record JWTService =
  js_secrets :: jwt_secrets
  js_ttl :: duration

definition NewJWTService :: "jwt_secrets \<Rightarrow> duration \<Rightarrow> JWTService" where
  "NewJWTService secrets ttl = \<lparr>js_secrets = secrets, js_ttl = (if ttl = 0 then 3600 * second else ttl)\<rparr>"

definition signWithRole :: "AgentLib \<Rightarrow> gotime \<Rightarrow> string \<Rightarrow> JWTService \<Rightarrow> string \<Rightarrow> string \<Rightarrow> duration \<Rightarrow> (string \<times> string) res" where
  "signWithRole L now uuid s sub role ttl =
     (case js_secrets s of (current, _, _) \<Rightarrow>
        if current = [] then Inl [ErrText ''jwt_secret_not_configured'']
        else and_then (jwt_sign L current (agent_claims sub role uuid now ttl)) (\<lambda>raw. Inr (raw, uuid)))"

definition Sign :: "AgentLib \<Rightarrow> gotime \<Rightarrow> string \<Rightarrow> JWTService \<Rightarrow> string \<Rightarrow> (string \<times> string) res" where
  "Sign L now uuid s hostname = signWithRole L now uuid s hostname agentRole (js_ttl s)"

text \<open>The previous secret counts until the deadline of the rotation.\<close>

definition in_grace :: "gotime \<Rightarrow> string \<Rightarrow> gotime option \<Rightarrow> bool" where
  "in_grace now previous deadline \<longleftrightarrow> previous \<noteq> [] \<and> (case deadline of None \<Rightarrow> False | Some d \<Rightarrow> now < d)"

definition Verify :: "AgentLib \<Rightarrow> gotime \<Rightarrow> JWTService \<Rightarrow> string \<Rightarrow> (MapClaims \<times> bool) res" where
  "Verify L now s tokenStr =
     (case js_secrets s of (current, previous, deadline) \<Rightarrow>
        if current = [] then Inl [ErrText ''jwt_secret_not_configured'']
        else case parseJWT L now tokenStr current of
          Inr c \<Rightarrow> Inr (c, False)
        | Inl err \<Rightarrow>
            if in_grace now previous deadline then
              (case parseJWT L now tokenStr previous of
                 Inr c2 \<Rightarrow> Inr (c2, True)
               | Inl _ \<Rightarrow> Inl (ErrText ''invalid_token'' # err))
            else Inl (ErrText ''invalid_token'' # err))"

definition ExtractSub :: "AgentLib \<Rightarrow> gotime \<Rightarrow> JWTService \<Rightarrow> string \<Rightarrow> (string \<times> bool) res" where
  "ExtractSub L now s tokenStr =
     and_then (Verify L now s tokenStr) (\<lambda>(claims, prev).
       if claim_text claims ''sub'' = [] then Inl [ErrText ''jwt_missing_sub''] else Inr (claim_text claims ''sub'', prev))"

text \<open>The same validation in the WebSocket package, where the secrets come from an injected function.\<close>

record jwtValidationResult =
  jr_Claims :: MapClaims
  jr_UsedPrevious :: bool

definition validateJWTDualKey :: "AgentLib \<Rightarrow> gotime \<Rightarrow> jwt_secrets option \<Rightarrow> string \<Rightarrow> jwtValidationResult res" where
  "validateJWTDualKey L now secretsFn tokenStr =
     (case secretsFn of
        None \<Rightarrow> Inl [ErrText ''jwt_secrets_not_configured'']
      | Some (current, previous, deadline) \<Rightarrow>
          if current = [] then Inl [ErrText ''jwt_secret_not_configured'']
          else case parseJWT L now tokenStr current of
            Inr claims \<Rightarrow> Inr \<lparr>jr_Claims = claims, jr_UsedPrevious = False\<rparr>
          | Inl err \<Rightarrow>
              if previous \<noteq> [] \<and> deadline \<noteq> None \<and> now < the deadline then
                (case parseJWT L now tokenStr previous of
                   Inr claims \<Rightarrow> Inr \<lparr>jr_Claims = claims, jr_UsedPrevious = True\<rparr>
                 | Inl _ \<Rightarrow> Inl (ErrText ''invalid_token'' # err))
              else Inl (ErrText ''invalid_token'' # err))"

definition Bearer :: string where "Bearer = ''Bearer ''"

definition ExtractJWTClaims :: "AgentLib \<Rightarrow> gotime \<Rightarrow> jwt_secrets option \<Rightarrow> string \<Rightarrow> (MapClaims \<times> bool) res" where
  "ExtractJWTClaims L now secretsFn authHeader =
     (if \<not> has_prefix authHeader Bearer \<or> length authHeader \<le> 7 then Inl [ErrText ''missing_bearer_token'']
      else and_then (validateJWTDualKey L now secretsFn (drop 7 authHeader)) (\<lambda>r. Inr (jr_Claims r, jr_UsedPrevious r)))"

record agentIdentity =
  id_Hostname :: string
  id_JTI :: string
  id_UsedPrevious :: bool
  id_Exp :: "gotime option"

definition authenticateAgentRequest :: "AgentLib \<Rightarrow> gotime \<Rightarrow> jwt_secrets option \<Rightarrow> string \<Rightarrow> agentIdentity res" where
  "authenticateAgentRequest L now secretsFn authHeader =
     (if secretsFn = None then Inl [ErrText ''jwt_not_configured'']
      else if \<not> has_prefix authHeader Bearer \<or> length authHeader \<le> length Bearer then Inl [ErrText ''missing_agent_credentials'']
      else case ExtractJWTClaims L now secretsFn authHeader of
        Inl valErr \<Rightarrow> Inl (ErrText ''jwt_invalid'' # valErr)
      | Inr (claims, prev) \<Rightarrow>
          if claim_text claims ''role'' \<noteq> agentRole then Inl [ErrText ''jwt_wrong_role'']
          else if claim_text claims ''sub'' = [] then Inl [ErrText ''jwt_missing_sub'']
          else Inr \<lparr>id_Hostname = claim_text claims ''sub'', id_JTI = claim_text claims ''jti'', id_UsedPrevious = prev,
                 id_Exp = claim_time claims ''exp''\<rparr>)"

definition extractHostnameFromRequest :: "AgentLib \<Rightarrow> gotime \<Rightarrow> jwt_secrets option \<Rightarrow> string \<Rightarrow> (string \<times> bool) res" where
  "extractHostnameFromRequest L now secretsFn authHeader =
     and_then (authenticateAgentRequest L now secretsFn authHeader) (\<lambda>i. Inr (id_Hostname i, id_UsedPrevious i))"

text \<open>The two implementations of the dual-key rule agree.\<close>

lemma dual_key_agree:
  "validateJWTDualKey L now (Some secrets) tok =
     and_then (Verify L now (NewJWTService secrets ttl) tok) (\<lambda>(c, prev). Inr \<lparr>jr_Claims = c, jr_UsedPrevious = prev\<rparr>)"
  by (cases secrets)
    (auto simp: validateJWTDualKey_def Verify_def NewJWTService_def and_then_def in_grace_def split: sum.splits option.splits)

text \<open>An identity comes from a token that one of the two secrets verifies, the previous one only during the grace.\<close>

lemma has_Bearer: "has_prefix authHeader Bearer \<Longrightarrow> \<exists>tok. authHeader = Bearer @ tok"
  by (auto simp: has_prefix_def) (metis append_take_drop_id)

lemma identity_from_claims:
  assumes "authenticateAgentRequest L now secretsFn authHeader = Inr i"
  obtains current previous deadline tok claims where "secretsFn = Some (current, previous, deadline)" "authHeader = Bearer @ tok"
    "current \<noteq> []"
    "if id_UsedPrevious i then in_grace now previous deadline \<and> parseJWT L now tok previous = Inr claims
     else parseJWT L now tok current = Inr claims"
    "claim_text claims ''role'' = agentRole" "id_Hostname i = claim_text claims ''sub''" "id_Hostname i \<noteq> []"
    "id_JTI i = claim_text claims ''jti''" "id_Exp i = claim_time claims ''exp''"
proof -
  obtain current previous deadline where s: "secretsFn = Some (current, previous, deadline)"
    using assms by (cases secretsFn) (auto simp: authenticateAgentRequest_def)
  obtain tok where h: "authHeader = Bearer @ tok"
    using assms has_Bearer by (auto simp: authenticateAgentRequest_def split: if_splits)
  obtain claims where "ExtractJWTClaims L now secretsFn authHeader = Inr (claims, id_UsedPrevious i)"
    and i: "claim_text claims ''role'' = agentRole" "id_Hostname i = claim_text claims ''sub''" "id_Hostname i \<noteq> []"
      "id_JTI i = claim_text claims ''jti''" "id_Exp i = claim_time claims ''exp''"
    using assms by (auto simp: authenticateAgentRequest_def split: if_splits sum.splits)
  then obtain r where "validateJWTDualKey L now secretsFn tok = Inr r" "jr_Claims r = claims" "jr_UsedPrevious r = id_UsedPrevious i"
    by (auto simp: ExtractJWTClaims_def and_then_def h Bearer_def split: if_splits sum.splits)
  then have "current \<noteq> []" "if id_UsedPrevious i then in_grace now previous deadline \<and> parseJWT L now tok previous = Inr claims
     else parseJWT L now tok current = Inr claims"
    by (auto simp: validateJWTDualKey_def s in_grace_def split: if_splits sum.splits option.splits)
  from that [OF s h this i] show thesis .
qed

text \<open>
  What is asked of the JWT library for one secret and one set of claims: a token signed with them is read back as
  these claims under the same secret, until it expires.
\<close>

definition hs256_keeps :: "AgentLib \<Rightarrow> string \<Rightarrow> MapClaims \<Rightarrow> bool" where
  "hs256_keeps L secret claims \<longleftrightarrow>
     (\<forall>raw kf methods now. jwt_sign L secret claims = Inr raw \<longrightarrow> ''HS256'' \<in> set methods \<longrightarrow> kf ''HS256'' = Inr secret
        \<longrightarrow> (case claim_time claims ''exp'' of None \<Rightarrow> True | Some t \<Rightarrow> now < t) \<longrightarrow> jwt_parse L kf methods now raw = Inr claims)"

lemma claims_read [simp]:
  "claim_text (agent_claims sub role jti now ttl) ''sub'' = sub" "claim_text (agent_claims sub role jti now ttl) ''role'' = role"
  "claim_text (agent_claims sub role jti now ttl) ''jti'' = jti"
  by (simp_all add: claim_text_def agent_claims_def)

lemma claims_exp:
  "claim_time (agent_claims sub role jti now ttl) ''exp'' =
     (if unix_sec (now + ttl) > 0 then Some (unix_time (unix_sec (now + ttl))) else None)"
  by (simp add: claim_time_def agent_claims_def)

lemma signed_token_accepted:
  assumes "hs256_keeps L secret (agent_claims h agentRole jti issued ttl)" "jwt_sign L secret (agent_claims h agentRole jti issued ttl) = Inr raw" "secret \<noteq> []" "raw \<noteq> []" "h \<noteq> []"
    and "now < unix_time (unix_sec (issued + ttl))"
  shows "authenticateAgentRequest L now (Some (secret, previous, deadline)) (Bearer @ raw) =
    Inr \<lparr>id_Hostname = h, id_JTI = jti, id_UsedPrevious = False, id_Exp = claim_time (agent_claims h agentRole jti issued ttl) ''exp''\<rparr>"
proof -
  have "parseJWT L now raw secret = Inr (agent_claims h agentRole jti issued ttl)"
    unfolding parseJWT_def using assms(1,2,6)
    by (auto simp: hs256_keeps_def hmac_key_def claims_exp)
  then show ?thesis
    using assms(3,4,5)
    by (simp add: authenticateAgentRequest_def ExtractJWTClaims_def and_then_def validateJWTDualKey_def has_prefix_def Bearer_def)
qed

section \<open>Renewal\<close>

text \<open>
  The jitter is computed in floating point and cut to whole nanoseconds; here the product is exact before the cut.
\<close>

definition go_trunc :: "rat \<Rightarrow> int" where
  "go_trunc r = (if r \<ge> 0 then \<lfloor>r\<rfloor> else \<lceil>r\<rceil>)"

definition minute :: duration where "minute = 60 * second"
definition hour :: duration where "hour = 3600 * second"
definition DefaultAgentJWTTTL :: duration where "DefaultAgentJWTTTL = 24 * hour"
definition MaxAgentJWTTTL :: duration where "MaxAgentJWTTTL = 7 * 24 * hour"
definition minAgentJWTTTL :: duration where "minAgentJWTTTL = 5 * minute"
definition minAgentJWTInterval :: duration where "minAgentJWTInterval = minute"

lemmas jwt_durations = minute_def hour_def DefaultAgentJWTTTL_def MaxAgentJWTTTL_def minAgentJWTTTL_def minAgentJWTInterval_def second_def

text \<open>Go's signed 64 bit arithmetic wraps around.\<close>

definition wrap64 :: "int \<Rightarrow> int" where
  "wrap64 x = (x + 2 ^ 63) mod 2 ^ 64 - 2 ^ 63"

definition ResolveAgentJWT :: "duration \<Rightarrow> duration \<Rightarrow> (duration \<times> duration) res" where
  "ResolveAgentJWT ttl0 interval0 =
     (let ttl = (if ttl0 = 0 then DefaultAgentJWTTTL else ttl0) in
      if ttl < minAgentJWTTTL \<or> ttl > MaxAgentJWTTTL then Inl [ErrText ''AGENT_JWT_TTL out of range'']
      else
        let interval = (if interval0 = 0 then ttl div 3 else interval0) in
        if interval < minAgentJWTInterval then Inl [ErrText ''AGENT_JWT_RENEW_INTERVAL too short'']
        else if wrap64 (interval * 2) > ttl then Inl [ErrText ''AGENT_JWT_RENEW_INTERVAL too long'']
        else Inr (ttl, interval))"

record renewalParams =
  rp_ttl :: duration
  rp_interval :: duration

definition SetRenewal :: "duration \<Rightarrow> duration \<Rightarrow> bool \<Rightarrow> renewalParams option" where
  "SetRenewal ttl interval has_fn =
     (if interval \<le> 0 \<or> \<not> has_fn then None else Some \<lparr>rp_ttl = ttl, rp_interval = interval\<rparr>)"

definition nextRenewalDelay :: "renewalParams \<Rightarrow> duration \<Rightarrow> rat \<Rightarrow> duration" where
  "nextRenewalDelay p remaining j =
     (let base0 = remaining - (rp_ttl p - rp_interval p);
          base1 = (if base0 < 0 then 0 else base0);
          base = (if base1 > rp_interval p then rp_interval p else base1);
          d = base + go_trunc (j * (1 / 10) * of_int (rp_interval p)) in
      if d < 0 then - d else d)"

definition firstSpread :: "renewalParams \<Rightarrow> duration \<Rightarrow> duration \<Rightarrow> rat \<Rightarrow> duration" where
  "firstSpread p remaining base u =
     (let room0 = remaining - rp_interval p div 4 - base;
          room = (if room0 > rp_interval p then rp_interval p else room0) in
      if room \<le> 0 then 0 else go_trunc (u * of_int room))"

definition retryDelay :: "renewalParams \<Rightarrow> rat \<Rightarrow> duration" where
  "retryDelay p j =
     (let d0 = rp_interval p div 10;
          d = (if d0 < 100000000 then 100000000 else d0) in
      d + go_trunc ((j + 1) / 2 * of_int d / 2))"

text \<open>The wait at the head of a round of \<open>runRenewal\<close>.\<close>

definition renewal_wait :: "renewalParams \<Rightarrow> bool \<Rightarrow> bool \<Rightarrow> duration \<Rightarrow> rat \<Rightarrow> rat \<Rightarrow> duration" where
  "renewal_wait p retry first remaining j u =
     (if retry then retryDelay p j
      else let d = nextRenewalDelay p remaining j in if first then d + firstSpread p remaining d u else d)"

text \<open>
  \<open>runRenewal\<close> over the rounds that the context allows: each round gives the time at which it starts, its random
  numbers, how long the renewal takes from the end of the wait, and what the renewal function returns. The result
  lists the waits; \<open>True\<close> when the loop ended by itself.
\<close>

datatype renew_outcome = Renewed gotime | RenewStop | RenewFailed

record renewal_round =
  ro_start :: gotime
  ro_j :: rat
  ro_u :: rat
  ro_outcome :: renew_outcome

fun renewal_loop :: "renewalParams \<Rightarrow> gotime \<Rightarrow> bool \<Rightarrow> bool \<Rightarrow> renewal_round list \<Rightarrow> duration list \<times> bool" where
  "renewal_loop p expiry retry first [] = ([], False)"
| "renewal_loop p expiry retry first (r # rs) =
     (let d = renewal_wait p retry first (expiry - ro_start r) (ro_j r) (ro_u r) in
      case ro_outcome r of
        Renewed newExp \<Rightarrow> (case renewal_loop p newExp False False rs of (ds, stopped) \<Rightarrow> (d # ds, stopped))
      | RenewStop \<Rightarrow> ([d], True)
      | RenewFailed \<Rightarrow> (case renewal_loop p expiry True False rs of (ds, stopped) \<Rightarrow> (d # ds, stopped)))"

definition runRenewal :: "renewalParams option \<Rightarrow> gotime \<Rightarrow> renewal_round list \<Rightarrow> duration list \<times> bool" where
  "runRenewal params expiry rounds = (case params of None \<Rightarrow> ([], True) | Some p \<Rightarrow> renewal_loop p expiry False True rounds)"

lemma go_trunc_le: "r \<le> of_int k \<Longrightarrow> 0 \<le> k \<Longrightarrow> go_trunc r \<le> k"
  by (auto simp: go_trunc_def floor_le_iff ceiling_le_iff)

lemma go_trunc_ge: "- of_int k \<le> r \<Longrightarrow> 0 \<le> k \<Longrightarrow> - k \<le> go_trunc r"
  by (auto simp: go_trunc_def le_floor_iff le_ceiling_iff)

lemma wrap64_id: "- (2 ^ 63) \<le> x \<Longrightarrow> x < 2 ^ 63 \<Longrightarrow> wrap64 x = x"
  by (simp add: wrap64_def)

lemma jitter_bound:
  assumes "\<bar>j\<bar> \<le> 1" "0 \<le> i"
  shows "\<bar>go_trunc (j * (1 / 10) * of_int i)\<bar> \<le> i div 10"
proof -
  have r: "\<bar>j * (1 / 10) * of_int i\<bar> \<le> of_int i / (10 :: rat)"
    using assms mult_right_mono [of "\<bar>j\<bar>" 1 "of_int i / (10 :: rat)"] by (simp add: abs_mult)
  have f: "\<lfloor>of_int i / (10 :: rat)\<rfloor> = i div 10" using floor_divide_of_int_eq [of i 10, where ?'a = rat] by simp
  show ?thesis
  proof (cases "0 \<le> j * (1 / 10) * of_int i")
    case True
    then have "go_trunc (j * (1 / 10) * of_int i) = \<lfloor>j * (1 / 10) * of_int i\<rfloor>" by (simp only: go_trunc_def if_True)
    moreover have "\<lfloor>j * (1 / 10) * of_int i\<rfloor> \<le> \<lfloor>of_int i / (10 :: rat)\<rfloor>" using r by (intro floor_mono) linarith
    moreover have "0 \<le> \<lfloor>j * (1 / 10) * of_int i\<rfloor>" using True by (simp only: zero_le_floor)
    ultimately show ?thesis using f by linarith
  next
    case False
    then have "go_trunc (j * (1 / 10) * of_int i) = - \<lfloor>- (j * (1 / 10) * of_int i)\<rfloor>"
      by (simp only: go_trunc_def if_False ceiling_def)
    moreover have "\<lfloor>- (j * (1 / 10) * of_int i)\<rfloor> \<le> \<lfloor>of_int i / (10 :: rat)\<rfloor>" using r by (intro floor_mono) linarith
    moreover have "0 \<le> \<lfloor>- (j * (1 / 10) * of_int i)\<rfloor>" using False by (simp only: zero_le_floor neg_0_le_iff_le)
    ultimately show ?thesis using f by linarith
  qed
qed

lemma next_delay_bounds:
  assumes "\<bar>j\<bar> \<le> 1" "0 \<le> rp_interval p" "remaining \<le> rp_ttl p"
  shows "0 \<le> nextRenewalDelay p remaining j"
    "nextRenewalDelay p remaining j \<le> max 0 (remaining - (rp_ttl p - rp_interval p)) + rp_interval p div 10"
  using jitter_bound [OF assms(1,2)] assms(2,3) by (auto simp: nextRenewalDelay_def Let_def max_def)

lemma first_spread_bounds:
  assumes "0 \<le> u" "u \<le> 1"
  shows "0 \<le> firstSpread p remaining base u" "firstSpread p remaining base u \<le> max 0 (remaining - rp_interval p div 4 - base)"
proof -
  have *: "0 \<le> go_trunc (u * of_int room) \<and> go_trunc (u * of_int room) \<le> room" if "0 < room" for room :: int
  proof -
    have "0 \<le> u * of_int room" using assms that by simp
    moreover have "u * of_int room \<le> of_int room" using assms that mult_right_mono [of u 1 "of_int room"] by simp
    ultimately have "0 \<le> \<lfloor>u * of_int room\<rfloor> \<and> \<lfloor>u * of_int room\<rfloor> \<le> room" by linarith
    with \<open>0 \<le> u * of_int room\<close> show ?thesis by (simp add: go_trunc_def)
  qed
  show "0 \<le> firstSpread p remaining base u" "firstSpread p remaining base u \<le> max 0 (remaining - rp_interval p div 4 - base)"
    using * [of "remaining - rp_interval p div 4 - base"] * [of "rp_interval p"] by (auto simp: firstSpread_def Let_def)
qed

lemma retry_bounds:
  assumes "\<bar>j\<bar> \<le> 1" "minAgentJWTInterval \<le> rp_interval p"
  shows "0 < retryDelay p j" "20 * retryDelay p j \<le> 3 * rp_interval p"
proof -
  let ?d = "rp_interval p div 10"
  have d: "100000000 < ?d" using assms(2) by (simp add: jwt_durations)
  have le: "(j + 1) / 2 * of_int ?d / 2 \<le> of_int ?d / (2 :: rat)"
    using assms(1) d mult_right_mono [of "(j + 1) / 2" 1 "of_int ?d / (2 :: rat)"] by simp
  have ge: "0 \<le> (j + 1) / 2 * of_int ?d / (2 :: rat)" using assms(1) d by simp
  have "\<lfloor>(j + 1) / 2 * of_int ?d / (2 :: rat)\<rfloor> \<le> \<lfloor>of_int ?d / (2 :: rat)\<rfloor>" by (rule floor_mono [OF le])
  moreover have "\<lfloor>of_int ?d / (2 :: rat)\<rfloor> = ?d div 2" using floor_divide_of_int_eq [of ?d 2, where ?'a = rat] by simp
  moreover have "0 \<le> \<lfloor>(j + 1) / 2 * of_int ?d / (2 :: rat)\<rfloor>" using ge by (simp only: zero_le_floor)
  moreover have "retryDelay p j = ?d + \<lfloor>(j + 1) / 2 * of_int ?d / (2 :: rat)\<rfloor>"
    using d ge by (simp only: retryDelay_def Let_def go_trunc_def) simp
  ultimately have "retryDelay p j \<le> ?d + ?d div 2" "0 < retryDelay p j" using d by linarith+
  then show "0 < retryDelay p j" "20 * retryDelay p j \<le> 3 * rp_interval p" by simp_all
qed

text \<open>
  C23. An agent gets its new token in time. With a validated configuration whose interval is below 2^62
  nanoseconds (146 years; see \<open>long_interval_accepted\<close> for longer ones) and more than half an interval of validity
  left when the connection starts, the first renewal of the connection, spread at random, is due before the token it
  presented expires, with room for a retry; each further renewal of a token with its full lifetime leaves room
  for at least five retries.
\<close>

theorem renewal_in_time:
  assumes cfg: "ResolveAgentJWT ttl0 interval0 = Inr (ttl, interval)" "interval0 < 2 ^ 62"
    and p: "SetRenewal ttl interval True = Some p"
    and rnd: "\<bar>j\<bar> \<le> 1" "0 \<le> u" "u < 1" "\<bar>j'\<bar> \<le> 1" and left: "interval div 2 < remaining" "remaining \<le> ttl"
  shows "0 \<le> renewal_wait p False True remaining j u \<and>
     renewal_wait p False True remaining j u + retryDelay p j' < remaining \<and>
     renewal_wait p False False ttl j u + 5 * retryDelay p j' < ttl"
proof -
  have pp: "rp_ttl p = ttl" "rp_interval p = interval" using p by (auto simp: SetRenewal_def split: if_splits)
  have i: "minAgentJWTInterval \<le> interval" "wrap64 (interval * 2) \<le> ttl" "ttl \<le> MaxAgentJWTTTL"
    and small: "interval < 2 ^ 62"
    using cfg by (auto simp: ResolveAgentJWT_def Let_def jwt_durations split: if_splits)
  from i(1) small have "wrap64 (interval * 2) = interval * 2" by (intro wrap64_id) (simp_all add: jwt_durations)
  with i have half: "2 * interval \<le> ttl" and pos: "100 < interval" by (simp_all add: jwt_durations)
  have r: "0 < retryDelay p j'" "20 * retryDelay p j' \<le> 3 * interval" using retry_bounds [OF rnd(4), of p] i(1) pp by simp_all
  have n: "0 \<le> nextRenewalDelay p remaining j" "nextRenewalDelay p remaining j \<le> max 0 (remaining - (ttl - interval)) + interval div 10"
    "nextRenewalDelay p ttl j \<le> interval + interval div 10"
    using next_delay_bounds [OF rnd(1), of p remaining] next_delay_bounds [OF rnd(1), of p ttl] pp pos left(2) by simp_all
  have s: "0 \<le> firstSpread p remaining (nextRenewalDelay p remaining j) u"
    "firstSpread p remaining (nextRenewalDelay p remaining j) u \<le> max 0 (remaining - interval div 4 - nextRenewalDelay p remaining j)"
    using first_spread_bounds [of u p] rnd(2,3) pp by simp_all
  have "nextRenewalDelay p remaining j \<le> remaining - interval div 4 \<or> remaining - interval div 4 < nextRenewalDelay p remaining j" by auto
  then have "renewal_wait p False True remaining j u + retryDelay p j' < remaining"
    using n s r half left pos by (auto simp: renewal_wait_def Let_def max_def split: if_splits)
  moreover have "renewal_wait p False False ttl j u + 5 * retryDelay p j' < ttl"
    using n(3) r half pos by (simp add: renewal_wait_def Let_def)
  moreover have "0 \<le> renewal_wait p False True remaining j u" using n(1) s(1) by (simp add: renewal_wait_def Let_def)
  ultimately show ?thesis by blast
qed

theorem renewal_in_time_witness:
  "renewal_wait \<lparr>rp_ttl = 24 * hour, rp_interval = 8 * hour\<rparr> False True (12 * hour) 1 0 +
     retryDelay \<lparr>rp_ttl = 24 * hour, rp_interval = 8 * hour\<rparr> 1 < 12 * hour"
proof -
  have "ResolveAgentJWT 0 0 = Inr (24 * hour, 8 * hour)"
    by (simp add: ResolveAgentJWT_def jwt_durations wrap64_def)
  moreover have "SetRenewal (24 * hour) (8 * hour) True = Some \<lparr>rp_ttl = 24 * hour, rp_interval = 8 * hour\<rparr>"
    by (simp add: SetRenewal_def jwt_durations)
  ultimately show ?thesis
    using renewal_in_time [of 0 0 "24 * hour" "8 * hour" _ 1 0 1 "12 * hour"] by (simp add: jwt_durations)
qed

text \<open>Without the bound the doubled interval wraps around and is accepted: no renewal before the expiry.\<close>

lemma long_interval_accepted:
  "ResolveAgentJWT 0 (1300000 * hour) = Inr (24 * hour, 1300000 * hour) \<and>
   renewal_wait \<lparr>rp_ttl = 24 * hour, rp_interval = 1300000 * hour\<rparr> False False (24 * hour) 0 0 > 24 * hour"
  by (simp add: ResolveAgentJWT_def jwt_durations wrap64_def renewal_wait_def nextRenewalDelay_def go_trunc_def)

text \<open>A loop ends by itself exactly when the renewal function says that the agent must not be renewed any more.\<close>

lemma renewal_loop_stops: "snd (renewal_loop p expiry retry first rs) \<longleftrightarrow> RenewStop \<in> ro_outcome ` set rs"
  by (induction rs arbitrary: expiry retry first) (auto simp: Let_def split_beta split: renew_outcome.splits)

end
