(* ===== verification/Agent_Access.thy ===== *)
theory Agent_Access
  imports Agent_Token Agent_Tasks
begin

text \<open>
  The life of an agent on the server: the keys of the server (\<open>ServerState\<close>, \<open>InitServerState\<close>), enrollment with
  its challenge (\<open>handlers/register.go\<close>), the check of a handshake against the store (\<open>server/helpers.go\<close>), the
  probe of a connection (\<open>ws/keepalive.go\<close>), the handshake itself (\<open>AgentHandler\<close> in \<open>ws/handler.go\<close>), new tokens
  and the rotation of the keys (\<open>handlers/security.go\<close>), revocation and deletion (\<open>handlers/admin.go\<close>).

  A handler is a function from the state of the node to its response and the new state; the decoded body of the
  request is an argument. The store and the dispatcher of hooks have been injected, as the server does before it
  serves; one call sees one time. Reading the store cannot fail (it is in memory), so the branches for such a
  failure have no counterpart. Interleaved handlers are the subject of Agent_Sessions.
\<close>

section \<open>State\<close>

record ServerState =
  ss_PrivateKey :: "string option"
  ss_PublicPEM :: string
  ss_PreviousPrivateKey :: "string option"
  ss_JWTSecret :: string
  ss_JWTPreviousSecret :: string
  ss_KeyRotationDeadline :: "gotime option"
  ss_AdminToken :: string
  ss_JWTttl :: duration

record pendingNonce =
  pn_nonce :: string
  pn_token :: string
  pn_expiresAt :: gotime

text \<open>What the probe of a connection remembers; the last sign of life of the peer.\<close>

record conn_life =
  cl_lastAlive :: gotime
  cl_doneAt :: "gotime option"
  cl_alive :: bool

text \<open>
  \<open>nd_sent\<close> lists the rekey frames written to agents (without a token for the plain signal), \<open>nd_closed\<close> the close
  codes, \<open>nd_dispatched\<close> the events given to the hooks.
\<close>

record 'g agent_node =
  nd_store :: "'g store"
  nd_tasks :: tasks
  nd_server :: ServerState
  nd_pending :: "(string, pendingNonce) fmap"
  nd_life :: "nat \<Rightarrow> conn_life"
  nd_sent :: "(string \<times> string option) list"
  nd_closed :: "(string \<times> nat) list"
  nd_dispatched :: "(string \<times> string \<times> string) list"

record probe_env =
  pe_arrived :: gotime
  pe_slots :: nat
  pe_ping :: bool
  pe_lastAlive :: gotime
  pe_end :: gotime

text \<open>
  What a call finds around it: the store's environment with the clock, the libraries, \<open>regexp.MatchString\<close>
  (\<open>None\<close> for a pattern that does not compile), the random values it draws, the master key, the outcome of a write on
  the socket, and what a probe observes.
\<close>

record 'g aenv =
  ae_st :: "'g senv"
  ae_lib :: AgentLib
  ae_match :: "string \<Rightarrow> string \<Rightarrow> bool option"
  ae_uuid :: string
  ae_nonce :: "string res"
  ae_rand :: string
  ae_secretRand :: "string res"
  ae_keyRand :: string
  ae_sealNonce :: "string \<Rightarrow> string"
  ae_masterKey :: string
  ae_written :: "goerr option"
  ae_keepalive :: "duration option"
  ae_probe :: probe_env
  ae_upgraded :: bool

definition ae_now :: "'g aenv \<Rightarrow> gotime" where
  "ae_now env = sv_now (ae_st env)"

type_synonym resp = "nat \<times> (string \<times> json) list"

definition refusal_resp :: "nat \<Rightarrow> string \<Rightarrow> resp" where
  "refusal_resp code msg = (code, [(''error'', JStr msg)])"

definition on_store :: "('g store, 'a) prog \<Rightarrow> ('g agent_node, 'a) prog" where
  "on_store p nd = (case p (nd_store nd) of (r, s) \<Rightarrow> (r, nd\<lparr>nd_store := s\<rparr>))"

definition GetJWTSecrets :: "ServerState \<Rightarrow> jwt_secrets" where
  "GetJWTSecrets ss = (ss_JWTSecret ss, ss_JWTPreviousSecret ss, ss_KeyRotationDeadline ss)"

definition effectiveJWTTTL :: "duration \<Rightarrow> duration" where
  "effectiveJWTTTL ttl = (if ttl \<le> 0 then DefaultAgentJWTTTL else ttl)"

definition ConfigureAgentJWT :: "duration \<Rightarrow> ServerState \<Rightarrow> ServerState" where
  "ConfigureAgentJWT ttl ss = ss\<lparr>ss_JWTttl := effectiveJWTTTL ttl\<rparr>"

definition ConfigureServer :: "string \<Rightarrow> string \<Rightarrow> ServerState \<Rightarrow> ServerState" where
  "ConfigureServer jwtSecret adminToken ss = ss\<lparr>ss_JWTSecret := jwtSecret, ss_AdminToken := adminToken\<rparr>"

definition adminTokenMatches :: "ServerState \<Rightarrow> string \<Rightarrow> bool" where
  "adminTokenMatches ss tok \<longleftrightarrow> ss_AdminToken ss \<noteq> [] \<and> tok = ss_AdminToken ss"

definition requireAdminAuth :: "string \<Rightarrow> 'g agent_node \<Rightarrow> resp option" where
  "requireAdminAuth authHeader nd =
     (if \<not> has_prefix authHeader Bearer then Some (refusal_resp 401 ''missing_authorization'')
      else if \<not> adminTokenMatches (nd_server nd) (drop 7 authHeader) then Some (refusal_resp 401 ''invalid_admin_token'')
      else None)"

section \<open>Secrets and keys of the server\<close>

definition persistConfigSecret :: "'g aenv \<Rightarrow> string \<Rightarrow> string \<Rightarrow> ('g store, unit) prog" where
  "persistConfigSecret env key plain =
     ConfigSet (ae_st env) key
       (if ae_masterKey env \<noteq> [] then SealSecret (sv_lib (ae_st env)) (ae_sealNonce env key) plain (ae_masterKey env) (ConfigAAD key) else plain)"

definition loadConfigSecret :: "'g aenv \<Rightarrow> string \<Rightarrow> 'g store \<Rightarrow> string res" where
  "loadConfigSecret env key s =
     (let stored = ConfigGet key s in
      if stored = [] then Inr []
      else if has_prefix stored EncPrefix then
        (if ae_masterKey env = [] then Inl [ErrText ''RSA_MASTER_KEY required'']
         else OpenSecret (sv_lib (ae_st env)) stored (ae_masterKey env) (ConfigAAD key))
      else Inr stored)"

definition encodeRSAKeyPair :: "AgentLib \<Rightarrow> string \<Rightarrow> (string \<times> string) res" where
  "encodeRSAKeyPair L priv =
     and_then (marshalPKCS8 L priv) (\<lambda>privDER.
     and_then (marshalPKIX L (rsa_public L priv)) (\<lambda>pubDER.
     Inr (pem_Encode L ''PRIVATE KEY'' privDER, pem_Encode L ''PUBLIC KEY'' pubDER)))"

definition decodeRSAPrivateKey :: "AgentLib \<Rightarrow> string \<Rightarrow> (string \<times> string) res" where
  "decodeRSAPrivateKey L privPEM =
     (case pem_Decode L privPEM of
        None \<Rightarrow> Inl [ErrText ''invalid PEM block'']
      | Some der \<Rightarrow>
          and_then (parsePKCS8 L der) (\<lambda>key. case key of
            OtherPriv \<Rightarrow> Inl [ErrText ''not an RSA private key'']
          | RSAPriv priv \<Rightarrow> and_then (marshalPKIX L (rsa_public L priv)) (\<lambda>pubDER. Inr (priv, pem_Encode L ''PUBLIC KEY'' pubDER))))"

definition mustEncodeRSAPrivPEM :: "AgentLib \<Rightarrow> string \<Rightarrow> string" where
  "mustEncodeRSAPrivPEM L priv = (case encodeRSAKeyPair L priv of Inl _ \<Rightarrow> [] | Inr (privPEM, _) \<Rightarrow> privPEM)"

definition encryptWithPublicKey :: "AgentLib \<Rightarrow> string \<Rightarrow> string \<Rightarrow> string \<Rightarrow> string res" where
  "encryptWithPublicKey L rnd plaintext pem =
     (case pem_Decode L pem of
        None \<Rightarrow> Inl [ErrText ''invalid PEM block'']
      | Some der \<Rightarrow>
          and_then (parsePKIX L der) (\<lambda>pub. case pub of
            OtherPub \<Rightarrow> Inl [ErrText ''not an RSA public key'']
          | RSAPub key \<Rightarrow> and_then (encryptOAEP L rnd key plaintext) (\<lambda>c. Inr (b64_encode c))))"

text \<open>\<open>InitServerState\<close> in its three parts: the JWT secrets with the deadline, the current and the previous RSA key.\<close>

definition init_jwt :: "'g aenv \<Rightarrow> ('g agent_node, unit) prog" where
  "init_jwt env nd =
     (case loadConfigSecret env ''jwt_secret_current'' (nd_store nd) of
        Inl e \<Rightarrow> (Inl e, nd)
      | Inr cur \<Rightarrow>
          bindP (if cur = [] then on_store (persistConfigSecret env ''jwt_secret_current'' (ss_JWTSecret (nd_server nd)))
                 else modify (\<lambda>nd. nd\<lparr>nd_server := (nd_server nd)\<lparr>ss_JWTSecret := cur\<rparr>\<rparr>)) (\<lambda>_ nd.
          case loadConfigSecret env ''jwt_secret_previous'' (nd_store nd) of
            Inl e \<Rightarrow> (Inl e, nd)
          | Inr prev \<Rightarrow>
              let deadlineStr = ConfigGet ''key_rotation_deadline'' (nd_store nd);
                  ss = (nd_server nd)\<lparr>ss_JWTPreviousSecret := prev\<rparr> in
              (Inr (), nd\<lparr>nd_server := (case (if deadlineStr \<noteq> [] then sv_parseTime (ae_st env) deadlineStr else None) of
                  None \<Rightarrow> ss | Some t \<Rightarrow> ss\<lparr>ss_KeyRotationDeadline := Some t\<rparr>)\<rparr>)) nd)"

definition init_rsa :: "'g aenv \<Rightarrow> ('g agent_node, unit) prog" where
  "init_rsa env nd =
     (case loadConfigSecret env ''rsa_key_current'' (nd_store nd) of
        Inl e \<Rightarrow> (Inl e, nd)
      | Inr pem \<Rightarrow>
          if pem = [] then
            bindP (of_res (rsa_GenerateKey (ae_lib env) (ae_keyRand env))) (\<lambda>priv.
            bindP (of_res (encodeRSAKeyPair (ae_lib env) priv)) (\<lambda>(privPEM, pubPEM).
            bindP (on_store (persistConfigSecret env ''rsa_key_current'' privPEM)) (\<lambda>_.
            modify (\<lambda>nd. nd\<lparr>nd_server := (nd_server nd)\<lparr>ss_PrivateKey := Some priv, ss_PublicPEM := pubPEM\<rparr>\<rparr>)))) nd
          else
            bindP (of_res (decodeRSAPrivateKey (ae_lib env) pem)) (\<lambda>(priv, pubPEM).
            modify (\<lambda>nd. nd\<lparr>nd_server := (nd_server nd)\<lparr>ss_PrivateKey := Some priv, ss_PublicPEM := pubPEM\<rparr>\<rparr>)) nd)"

definition init_rsa_previous :: "'g aenv \<Rightarrow> 'g agent_node \<Rightarrow> 'g agent_node" where
  "init_rsa_previous env nd =
     (case loadConfigSecret env ''rsa_key_previous'' (nd_store nd) of
        Inl _ \<Rightarrow> nd
      | Inr pem \<Rightarrow>
          if pem = [] then nd
          else case decodeRSAPrivateKey (ae_lib env) pem of
            Inl _ \<Rightarrow> nd
          | Inr (priv, _) \<Rightarrow> nd\<lparr>nd_server := (nd_server nd)\<lparr>ss_PreviousPrivateKey := Some priv\<rparr>\<rparr>)"

definition InitServerState :: "'g aenv \<Rightarrow> ('g agent_node, unit) prog" where
  "InitServerState env = bindP (init_jwt env) (\<lambda>_. bindP (init_rsa env) (\<lambda>_. modify (init_rsa_previous env)))"

section \<open>Enrollment\<close>

text \<open>\<open>strings.TrimSpace\<close> on UTF-8: the white space characters of Unicode.\<close>

definition white_space :: "string list" where
  "white_space =
    [[CHR 0x09], [CHR 0x0A], [CHR 0x0B], [CHR 0x0C], [CHR 0x0D], [CHR 0x20], [CHR 0xC2, CHR 0x85],
     [CHR 0xC2, CHR 0xA0], [CHR 0xE1, CHR 0x9A, CHR 0x80], [CHR 0xE2, CHR 0x80, CHR 0x80],
     [CHR 0xE2, CHR 0x80, CHR 0x81], [CHR 0xE2, CHR 0x80, CHR 0x82], [CHR 0xE2, CHR 0x80, CHR 0x83],
     [CHR 0xE2, CHR 0x80, CHR 0x84], [CHR 0xE2, CHR 0x80, CHR 0x85], [CHR 0xE2, CHR 0x80, CHR 0x86],
     [CHR 0xE2, CHR 0x80, CHR 0x87], [CHR 0xE2, CHR 0x80, CHR 0x88], [CHR 0xE2, CHR 0x80, CHR 0x89],
     [CHR 0xE2, CHR 0x80, CHR 0x8A], [CHR 0xE2, CHR 0x80, CHR 0xA8], [CHR 0xE2, CHR 0x80, CHR 0xA9],
     [CHR 0xE2, CHR 0x80, CHR 0xAF], [CHR 0xE2, CHR 0x81, CHR 0x9F], [CHR 0xE3, CHR 0x80, CHR 0x80]]"

fun trim_left :: "string list \<Rightarrow> string \<Rightarrow> string" where
  "trim_left ws [] = []"
| "trim_left ws (c # s) =
     (case find (has_prefix (c # s)) ws of None \<Rightarrow> c # s | Some w \<Rightarrow> trim_left ws (drop (length w - 1) s))"

definition TrimSpace :: "string \<Rightarrow> string" where
  "TrimSpace s = rev (trim_left (map rev white_space) (rev (trim_left white_space s)))"

definition nonceTTL :: duration where "nonceTTL = 60 * second"

definition storePendingNonce :: "gotime \<Rightarrow> string \<Rightarrow> string \<Rightarrow> string \<Rightarrow> 'g agent_node \<Rightarrow> 'g agent_node" where
  "storePendingNonce now hostname nonce token nd =
     nd\<lparr>nd_pending := fmupd hostname \<lparr>pn_nonce = nonce, pn_token = token, pn_expiresAt = now + nonceTTL\<rparr> (nd_pending nd)\<rparr>"

definition consumePendingNonce :: "gotime \<Rightarrow> string \<Rightarrow> 'g agent_node \<Rightarrow> (string \<times> string) option \<times> 'g agent_node" where
  "consumePendingNonce now hostname nd =
     (case fmlookup (nd_pending nd) hostname of
        None \<Rightarrow> (None, nd)
      | Some p \<Rightarrow>
          (if now > pn_expiresAt p then None else Some (pn_nonce p, pn_token p), nd\<lparr>nd_pending := fmdrop hostname (nd_pending nd)\<rparr>))"

definition PluginTokenCheckHostname :: "(string \<Rightarrow> string \<Rightarrow> bool option) \<Rightarrow> string \<Rightarrow> string \<Rightarrow> bool res" where
  "PluginTokenCheckHostname match pattern hostname =
     (if pattern = [] then Inr True
      else if match pattern hostname = None then Inl [ErrText ''invalid hostname pattern'']
      else case match (''^(?:'' @ pattern @ '')$'') hostname of
        None \<Rightarrow> Inl [ErrText ''invalid hostname pattern'']
      | Some matched \<Rightarrow> Inr matched)"

definition tokenHash :: "'g aenv \<Rightarrow> string \<Rightarrow> string" where
  "tokenHash env tokenPlain = hex_encode (sha256 (sv_lib (ae_st env)) tokenPlain)"

definition validateEnrollmentToken :: "'g aenv \<Rightarrow> string \<Rightarrow> string \<Rightarrow> 'g store \<Rightarrow> string + EnrollmentToken" where
  "validateEnrollmentToken env tokenPlain hostname s =
     (case GetEnrollmentTokenByHash (tokenHash env tokenPlain) s of
        None \<Rightarrow> Inl ''token_not_found''
      | Some tok \<Rightarrow>
          if (case et_ExpiresAt tok of None \<Rightarrow> False | Some t \<Rightarrow> ae_now env > t) then Inl ''token_expired''
          else if \<not> et_Reusable tok \<and> et_UseCount tok > 0 then Inl ''token_already_used''
          else case PluginTokenCheckHostname (ae_match env) (et_HostnamePattern tok) hostname of
            Inr True \<Rightarrow> Inr tok
          | _ \<Rightarrow> Inl ''hostname_not_allowed'')"

record RegisterRequest =
  rg_Hostname :: string
  rg_PublicKeyPEM :: string
  rg_EnrollmentToken :: string
  rg_ChallengeResponse :: string

definition dispatch :: "string \<Rightarrow> string \<Rightarrow> string \<Rightarrow> 'g agent_node \<Rightarrow> 'g agent_node" where
  "dispatch event hostname status nd = nd\<lparr>nd_dispatched := nd_dispatched nd @ [(event, hostname, status)]\<rparr>"

text \<open>The second phase, from the pending nonce on.\<close>

definition finish_enrollment :: "'g aenv \<Rightarrow> RegisterRequest \<Rightarrow> EnrollmentToken \<Rightarrow> string \<Rightarrow> 'g agent_node \<Rightarrow> resp \<times> 'g agent_node" where
  "finish_enrollment env req tok priv nd =
     (case consumePendingNonce (ae_now env) (rg_Hostname req) nd of
        (None, nd1) \<Rightarrow> (refusal_resp 403 ''challenge_expired_or_not_issued'', nd1)
      | (Some (nonce, token), nd1) \<Rightarrow>
          case b64_decode (rg_ChallengeResponse req) of
            None \<Rightarrow> (refusal_resp 403 ''challenge_response_invalid_encoding'', nd1)
          | Some cipher \<Rightarrow>
              case decryptOAEP (ae_lib env) priv cipher of
                Inl _ \<Rightarrow> (refusal_resp 403 ''challenge_response_decryption_failed'', nd1)
              | Inr decrypted \<Rightarrow>
                  if decrypted \<noteq> nonce @ token then (refusal_resp 403 ''challenge_response_mismatch'', nd1)
                  else case jwt_sign (ae_lib env) (ss_JWTSecret (nd_server nd))
                        (agent_claims (rg_Hostname req) agentRole (ae_uuid env) (ae_now env) (ss_JWTttl (nd_server nd))) of
                    Inl _ \<Rightarrow> (refusal_resp 500 ''jwt_generation_failed'', nd1)
                  | Inr raw \<Rightarrow>
                      case encryptWithPublicKey (ae_lib env) (ae_rand env) raw (rg_PublicKeyPEM req) of
                        Inl _ \<Rightarrow> (refusal_resp 400 ''invalid_public_key'', nd1)
                      | Inr enc \<Rightarrow>
                          case on_store (EnrollAgent (ae_st env) (et_ID tok) (rg_Hostname req) (rg_PublicKeyPEM req) (ae_uuid env)
                                 (''enrollment_token:'' @ et_ID tok)) nd1 of
                            (Inl err, nd2) \<Rightarrow>
                              (if errors_is err ErrAgentRevoked then refusal_resp 403 ''agent_revoked'' else refusal_resp 500 ''db_error'', nd2)
                          | (Inr _, nd2) \<Rightarrow>
                              ((200, [(''token_encrypted'', JStr enc), (''jwt_encrypted'', JStr enc),
                                 (''server_public_key_pem'', JStr (ss_PublicPEM (nd_server nd)))]),
                               dispatch ''host.new'' (rg_Hostname req) ''disconnected'' nd2))"

definition issue_challenge :: "'g aenv \<Rightarrow> RegisterRequest \<Rightarrow> 'g agent_node \<Rightarrow> resp \<times> 'g agent_node" where
  "issue_challenge env req nd =
     (case ae_nonce env of
        Inl _ \<Rightarrow> (refusal_resp 500 ''nonce_generation_failed'', nd)
      | Inr nonce \<Rightarrow>
          case encryptWithPublicKey (ae_lib env) (ae_rand env) nonce (rg_PublicKeyPEM req) of
            Inl _ \<Rightarrow> (refusal_resp 400 ''invalid_public_key'', nd)
          | Inr enc \<Rightarrow>
              ((200, [(''challenge'', JStr enc), (''server_public_key_pem'', JStr (ss_PublicPEM (nd_server nd)))]),
               storePendingNonce (ae_now env) (rg_Hostname req) nonce (rg_EnrollmentToken req) nd))"

definition registerAgentWithToken :: "'g aenv \<Rightarrow> RegisterRequest \<Rightarrow> 'g agent_node \<Rightarrow> resp \<times> 'g agent_node" where
  "registerAgentWithToken env req nd =
     (case validateEnrollmentToken env (rg_EnrollmentToken req) (rg_Hostname req) (nd_store nd) of
        Inl code \<Rightarrow> (refusal_resp (if code = ''db_error'' then 500 else 403) code, nd)
      | Inr tok \<Rightarrow>
          if IsAgentRevoked (rg_Hostname req) (nd_store nd) then (refusal_resp 403 ''agent_revoked'', nd)
          else case ss_PrivateKey (nd_server nd) of
            None \<Rightarrow> (refusal_resp 500 ''server_key_not_initialized'', nd)
          | Some priv \<Rightarrow>
              if rg_ChallengeResponse req \<noteq> [] then finish_enrollment env req tok priv nd else issue_challenge env req nd)"

definition RegisterAgent_handler :: "'g aenv \<Rightarrow> string \<Rightarrow> RegisterRequest option \<Rightarrow> 'g agent_node \<Rightarrow> resp \<times> 'g agent_node" where
  "RegisterAgent_handler env meth body nd =
     (if meth \<noteq> ''POST'' then ((405, []), nd)
      else case body of
        None \<Rightarrow> (refusal_resp 400 ''invalid_request'', nd)
      | Some req0 \<Rightarrow>
          let req = req0\<lparr>rg_Hostname := TrimSpace (rg_Hostname req0), rg_PublicKeyPEM := TrimSpace (rg_PublicKeyPEM req0)\<rparr> in
          if rg_Hostname req = [] \<or> rg_PublicKeyPEM req = [] then (refusal_resp 400 ''missing_fields'', nd)
          else if rg_EnrollmentToken req \<noteq> [] then registerAgentWithToken env req nd
          else (refusal_resp 403 ''enrollment_token_required'', nd))"

record AdminAuthorizeRequest =
  aa_Hostname :: string
  aa_PublicKeyPEM :: string
  aa_ApprovedBy :: string

definition AdminAuthorize :: "'g aenv \<Rightarrow> string \<Rightarrow> string \<Rightarrow> AdminAuthorizeRequest option \<Rightarrow> 'g agent_node \<Rightarrow> resp \<times> 'g agent_node" where
  "AdminAuthorize env meth authHeader body nd =
     (if meth \<noteq> ''POST'' then ((405, []), nd)
      else if authHeader = [] \<or> length authHeader < 7 \<or> \<not> has_prefix authHeader Bearer
      then (refusal_resp 401 ''missing_authorization'', nd)
      else if \<not> adminTokenMatches (nd_server nd) (drop 7 authHeader) then (refusal_resp 401 ''invalid_admin_token'', nd)
      else case body of
        None \<Rightarrow> (refusal_resp 400 ''invalid_request'', nd)
      | Some req \<Rightarrow>
          if TrimSpace (aa_Hostname req) = [] \<or> TrimSpace (aa_PublicKeyPEM req) = [] \<or> TrimSpace (aa_ApprovedBy req) = []
          then (refusal_resp 400 ''missing_fields'', nd)
          else case on_store (Store_AddAuthorizedKey (ae_st env) (aa_Hostname req) (aa_PublicKeyPEM req) (aa_ApprovedBy req)) nd of
            (Inl _, nd1) \<Rightarrow> (refusal_resp 500 ''db_error'', nd1)
          | (Inr _, nd1) \<Rightarrow> ((201, [(''hostname'', JStr (aa_Hostname req)), (''status'', JStr ''authorized'')]), nd1))"

section \<open>The check of a handshake\<close>

definition MaxConcurrentProbes :: nat where "MaxConcurrentProbes = 64"

text \<open>
  \<open>ProbeConnection\<close>. The environment gives the time of the call, the number of probes in flight, whether the ping
  could be written, the last sign of life when the wait is over and the time then. The probe starts at the time
  of the environment's clock, when the lock of an earlier probe has been obtained.
\<close>

definition ProbeConnection :: "'g aenv \<Rightarrow> string \<Rightarrow> 'g agent_node \<Rightarrow> bool \<times> 'g agent_node" where
  "ProbeConnection env hostname nd =
     (case GetConnection hostname (nd_tasks nd) of
        Inl _ \<Rightarrow> (False, nd)
      | Inr c \<Rightarrow>
          let pe = ae_probe env; life = nd_life nd c; started = ae_now env in
          if (case cl_doneAt life of None \<Rightarrow> False | Some t \<Rightarrow> t > pe_arrived pe) then (cl_alive life, nd)
          else if (case ae_keepalive env of None \<Rightarrow> False | Some interval \<Rightarrow> started - cl_lastAlive life < interval) then (True, nd)
          else if pe_slots pe \<ge> MaxConcurrentProbes then (True, nd)
          else
            let alive = (pe_ping pe \<and> pe_lastAlive pe \<ge> started) in
            (alive, nd\<lparr>nd_life := (nd_life nd)(c := life\<lparr>cl_alive := alive, cl_doneAt := Some (pe_end pe)\<rparr>),
               nd_tasks := (if alive then nd_tasks nd else (nd_tasks nd)\<lparr>closedConns := closedConns (nd_tasks nd) @ [c]\<rparr>)\<rparr>))"

definition agentRevokedCheck :: "'g aenv \<Rightarrow> string \<Rightarrow> string \<Rightarrow> 'g store \<Rightarrow> goerr option" where
  "agentRevokedCheck env hostname jti s =
     (if IsJTIBlacklisted jti s then Some [ErrText ''token_revoked'']
      else case GetAgent (ae_st env) hostname s of
        None \<Rightarrow> Some [ErrText ''unknown_agent'']
      | Some agent \<Rightarrow> if ar_Revoked agent then Some [ErrText ''token_revoked''] else None)"

definition agentJTICheck :: "'g aenv \<Rightarrow> string \<Rightarrow> string \<Rightarrow> 'g agent_node \<Rightarrow> goerr option \<times> 'g agent_node" where
  "agentJTICheck env hostname jti nd =
     (if IsJTIBlacklisted jti (nd_store nd) then (Some [ErrText ''token_revoked''], nd)
      else case GetAgent (ae_st env) hostname (nd_store nd) of
        None \<Rightarrow> (Some [ErrText ''unknown_agent''], nd)
      | Some agent \<Rightarrow>
          if ar_Revoked agent then (Some [ErrText ''token_revoked''], nd)
          else if ar_TokenJTI agent = jti then
            (None, if ar_PrevTokenJTI agent \<noteq> [] then snd (on_store (ConfirmTokenJTI (ae_st env) hostname jti) nd) else nd)
          else if ar_PrevTokenJTI agent \<noteq> [] \<and> ar_PrevTokenJTI agent = jti then
            (case GetConnection hostname (nd_tasks nd) of
               Inl _ \<Rightarrow> (None, nd)
             | Inr _ \<Rightarrow>
                 (case ProbeConnection env hostname nd of (alive, nd1) \<Rightarrow>
                    (if alive then Some [ErrText ''token_replaced''] else None, nd1)))
          else (Some [ErrText ''token_replaced''], nd))"

definition checkAgentJTI :: "'g aenv \<Rightarrow> string \<Rightarrow> string \<Rightarrow> 'g agent_node \<Rightarrow> goerr option \<times> 'g agent_node" where
  "checkAgentJTI env hostname jti nd =
     (if jti = [] then (Some [ErrText ''token_without_jti''], nd) else agentJTICheck env hostname jti nd)"

section \<open>New tokens\<close>

definition ErrRenewStop :: sentinel where "ErrRenewStop = ErrText ''agent jwt renewal stopped''"
definition errRekeyNotSent :: sentinel where "errRekeyNotSent = ErrText ''rekey not sent''"

definition signAgentJWT :: "'g aenv \<Rightarrow> string \<Rightarrow> string \<Rightarrow> duration \<Rightarrow> (string \<times> string) res" where
  "signAgentJWT env hostname jwtSecret ttl =
     (if ttl \<le> 0 then Inl [ErrText ''agent JWT lifetime must be positive'']
      else and_then (jwt_sign (ae_lib env) jwtSecret (agent_claims hostname agentRole (ae_uuid env) (ae_now env) ttl)) (\<lambda>raw.
        Inr (raw, ae_uuid env)))"

definition issueRekey :: "'g aenv \<Rightarrow> string \<Rightarrow> string \<Rightarrow> duration \<Rightarrow> ('g agent_node, gotime) prog" where
  "issueRekey env hostname jwtSecret jwtTTL nd =
     (case GetAgent (ae_st env) hostname (nd_store nd) of
        None \<Rightarrow> (Inl [ErrRenewStop], nd)
      | Some agent \<Rightarrow>
          if ar_Revoked agent then (Inl [ErrRenewStop], nd)
          else case signAgentJWT env hostname jwtSecret jwtTTL of
            Inl _ \<Rightarrow> (Inl [errRekeyNotSent], nd)
          | Inr (raw, newJTI) \<Rightarrow>
              case encryptWithPublicKey (ae_lib env) (ae_rand env) raw (ar_PublicKeyPEM agent) of
                Inl _ \<Rightarrow> (Inl [errRekeyNotSent], nd)
              | Inr enc \<Rightarrow>
                  case on_store (UpdateTokenJTIUnlessRevoked (ae_st env) hostname newJTI) nd of
                    (Inl err, nd1) \<Rightarrow> (Inl [if errors_is err ErrAgentRevoked then ErrRenewStop else errRekeyNotSent], nd1)
                  | (Inr False, nd1) \<Rightarrow> (Inl [ErrRenewStop], nd1)
                  | (Inr True, nd1) \<Rightarrow>
                      case SendToAgent (ae_written env) hostname None (nd_tasks nd1) of
                        (Inl _, t) \<Rightarrow> (Inl [errRekeyNotSent], nd1\<lparr>nd_tasks := t\<rparr>)
                      | (Inr _, t) \<Rightarrow>
                          (Inr (ae_now env + jwtTTL), nd1\<lparr>nd_tasks := t, nd_sent := nd_sent nd1 @ [(hostname, Some enc)]\<rparr>))"

definition sendRekeyToAgent :: "'g aenv \<Rightarrow> string \<Rightarrow> string \<Rightarrow> duration \<Rightarrow> 'g agent_node \<Rightarrow> bool \<times> 'g agent_node" where
  "sendRekeyToAgent env hostname jwtSecret jwtTTL nd =
     (case issueRekey env hostname jwtSecret jwtTTL nd of (r, nd') \<Rightarrow> (\<not> isl r, nd'))"

definition RekeyAgent :: "'g aenv \<Rightarrow> string \<Rightarrow> 'g agent_node \<Rightarrow> bool \<times> 'g agent_node" where
  "RekeyAgent env hostname nd = sendRekeyToAgent env hostname (ss_JWTSecret (nd_server nd)) (ss_JWTttl (nd_server nd)) nd"

definition RenewAgentJWT :: "'g aenv \<Rightarrow> string \<Rightarrow> ('g agent_node, gotime) prog" where
  "RenewAgentJWT env hostname nd = issueRekey env hostname (ss_JWTSecret (nd_server nd)) (ss_JWTttl (nd_server nd)) nd"

text \<open>
  \<open>AdminRotateKeys\<close>. The grace of the body: absent, unreadable or a duration. The rekey of each connected agent has
  an environment of its own.
\<close>

definition rotation_grace :: "duration \<Rightarrow> duration option option \<Rightarrow> resp + duration" where
  "rotation_grace ttl body =
     (let maxGrace = effectiveJWTTTL ttl;
          default = (if 24 * hour > maxGrace then maxGrace else 24 * hour) in
      case body of
        None \<Rightarrow> Inr default
      | Some None \<Rightarrow> Inl (refusal_resp 400 ''invalid_grace_duration'')
      | Some (Some d) \<Rightarrow> if d > maxGrace then Inl (refusal_resp 400 ''grace_exceeds_agent_jwt_ttl'') else Inr d)"

definition rotate_server :: "string \<Rightarrow> string \<Rightarrow> string \<Rightarrow> gotime \<Rightarrow> ServerState \<Rightarrow> ServerState" where
  "rotate_server secret priv pubPEM deadline ss =
     ss\<lparr>ss_JWTPreviousSecret := ss_JWTSecret ss, ss_JWTSecret := secret, ss_PreviousPrivateKey := ss_PrivateKey ss,
        ss_PrivateKey := Some priv, ss_PublicPEM := pubPEM, ss_KeyRotationDeadline := Some deadline\<rparr>"

text \<open>The writes of the rotation; a failed one is only logged.\<close>

definition persist_rotation :: "'g aenv \<Rightarrow> ServerState \<Rightarrow> string \<Rightarrow> string \<Rightarrow> gotime \<Rightarrow> 'g store \<Rightarrow> 'g store" where
  "persist_rotation env old secret privPEM deadline s =
     (let s1 = snd (persistConfigSecret env ''jwt_secret_previous'' (ss_JWTSecret old) s);
          s2 = snd (persistConfigSecret env ''jwt_secret_current'' secret s1);
          s3 = snd (ConfigSet (ae_st env) ''key_rotation_deadline'' (sv_formatTime (ae_st env) deadline) s2);
          oldPEM = (case ss_PrivateKey old of None \<Rightarrow> [] | Some k \<Rightarrow> mustEncodeRSAPrivPEM (ae_lib env) k);
          s4 = (if oldPEM \<noteq> [] then snd (persistConfigSecret env ''rsa_key_previous'' oldPEM s3) else s3) in
      snd (persistConfigSecret env ''rsa_key_current'' privPEM s4))"

fun rekey_all :: "(string \<Rightarrow> 'g aenv) \<Rightarrow> string \<Rightarrow> duration \<Rightarrow> string list \<Rightarrow> 'g agent_node \<Rightarrow> nat \<times> 'g agent_node" where
  "rekey_all envs secret ttl [] nd = (0, nd)"
| "rekey_all envs secret ttl (h # hs) nd =
     (case sendRekeyToAgent (envs h) h secret ttl nd of (sent, nd1) \<Rightarrow>
      case rekey_all envs secret ttl hs nd1 of (n, nd2) \<Rightarrow> (if sent then Suc n else n, nd2))"

definition GetConnectedHostnames :: "tasks \<Rightarrow> string list" where
  "GetConnectedHostnames t = keys (wsConnections t)"

definition sha256Hex :: "'g aenv \<Rightarrow> string \<Rightarrow> string" where
  "sha256Hex env s = hex_encode (sha256 (sv_lib (ae_st env)) s)"

definition AdminRotateKeys :: "'g aenv \<Rightarrow> (string \<Rightarrow> 'g aenv) \<Rightarrow> string \<Rightarrow> duration option option \<Rightarrow> 'g agent_node \<Rightarrow> resp \<times> 'g agent_node" where
  "AdminRotateKeys env envs authHeader grace nd =
     (case requireAdminAuth authHeader nd of Some r \<Rightarrow> (r, nd) | None \<Rightarrow>
      case rotation_grace (ss_JWTttl (nd_server nd)) grace of Inl r \<Rightarrow> (r, nd) | Inr d \<Rightarrow>
      case ae_secretRand env of Inl _ \<Rightarrow> (refusal_resp 500 ''key_generation_failed'', nd) | Inr bytes \<Rightarrow>
      case rsa_GenerateKey (ae_lib env) (ae_keyRand env) of Inl _ \<Rightarrow> (refusal_resp 500 ''key_generation_failed'', nd) | Inr priv \<Rightarrow>
      case encodeRSAKeyPair (ae_lib env) priv of Inl _ \<Rightarrow> (refusal_resp 500 ''key_generation_failed'', nd) | Inr (privPEM, pubPEM) \<Rightarrow>
        let secret = hex_encode bytes; deadline = ae_now env + d; old = nd_server nd;
            nd1 = nd\<lparr>nd_server := rotate_server secret priv pubPEM deadline old,
                     nd_store := persist_rotation env old secret privPEM deadline (nd_store nd)\<rparr>;
            hosts = GetConnectedHostnames (nd_tasks nd) in
        case rekey_all envs secret (ss_JWTttl old) hosts nd1 of (migrated, nd2) \<Rightarrow>
          ((200, [(''current_key_sha256'', JStr (sha256Hex env secret)), (''previous_key_sha256'', JStr (sha256Hex env (ss_JWTSecret old))),
             (''deadline'', JStr (sv_formatTime (ae_st env) deadline)), (''agents_migrated'', JNum (itoa migrated)),
             (''agents_total'', JNum (itoa (length hosts)))]), nd2))"

definition AdminSecurityKeysStatus :: "'g aenv \<Rightarrow> string \<Rightarrow> 'g agent_node \<Rightarrow> resp" where
  "AdminSecurityKeysStatus env authHeader nd =
     (case requireAdminAuth authHeader nd of Some r \<Rightarrow> r | None \<Rightarrow>
        let ss = nd_server nd in
        (200, [(''current_key_sha256'', JStr (sha256Hex env (ss_JWTSecret ss))),
          (''previous_key_sha256'', JStr (if ss_JWTPreviousSecret ss \<noteq> [] then sha256Hex env (ss_JWTPreviousSecret ss) else [])),
          (''deadline'', JStr (case ss_KeyRotationDeadline ss of None \<Rightarrow> [] | Some d \<Rightarrow> sv_formatTime (ae_st env) d)),
          (''rotation_active'', JBool (in_grace (ae_now env) (ss_JWTPreviousSecret ss) (ss_KeyRotationDeadline ss))),
          (''agents_total'', JNum (itoa (length (GetConnectedHostnames (nd_tasks nd)))))]))"

section \<open>Handshake\<close>

definition WSCloseRevoked :: nat where "WSCloseRevoked = 4001"
definition WSCloseNormal :: nat where "WSCloseNormal = 4000"

datatype handshake = HsUnauthorized | HsUpgradeFailed | HsClosedRevoked | HsServed "gotime option"

text \<open>Up to the upgrade: authentication and the check of the token identifier.\<close>

definition agent_handshake :: "'g aenv \<Rightarrow> string \<Rightarrow> 'g agent_node \<Rightarrow> agentIdentity option \<times> 'g agent_node" where
  "agent_handshake env authHeader nd =
     (case authenticateAgentRequest (ae_lib env) (ae_now env) (Some (GetJWTSecrets (nd_server nd))) authHeader of
        Inl _ \<Rightarrow> (None, nd)
      | Inr i \<Rightarrow>
          case checkAgentJTI env (id_Hostname i) (id_JTI i) nd of
            (Some _, nd1) \<Rightarrow> (None, nd1)
          | (None, nd1) \<Rightarrow> (Some i, nd1))"

text \<open>The revocation check replayed once the connection is registered.\<close>

definition replay_check :: "'g aenv \<Rightarrow> string \<Rightarrow> string \<Rightarrow> nat \<Rightarrow> 'g agent_node \<Rightarrow> bool \<times> 'g agent_node" where
  "replay_check env hostname jti conn nd =
     (case agentRevokedCheck env hostname jti (nd_store nd) of
        None \<Rightarrow> (True, nd)
      | Some _ \<Rightarrow>
          (False, nd\<lparr>nd_closed := nd_closed nd @ [(hostname, WSCloseRevoked)],
             nd_tasks := (let t = unregisterIfCurrent hostname conn (nd_tasks nd) in t\<lparr>closedConns := closedConns t @ [conn]\<rparr>)\<rparr>))"

text \<open>A token signed with the previous secret is replaced at once; the expiry from which the renewal counts.\<close>

definition opening_rekey :: "'g aenv \<Rightarrow> agentIdentity \<Rightarrow> 'g agent_node \<Rightarrow> bool \<times> 'g agent_node" where
  "opening_rekey env i nd =
     (if id_UsedPrevious i then
        (case RekeyAgent env (id_Hostname i) nd of (sent, nd1) \<Rightarrow>
           (sent, if \<not> sent \<and> ae_written env = None then nd1\<lparr>nd_sent := nd_sent nd1 @ [(id_Hostname i, None)]\<rparr> else nd1))
      else (False, nd))"

definition renewal_expiry :: "'g aenv \<Rightarrow> renewalParams option \<Rightarrow> agentIdentity \<Rightarrow> bool \<Rightarrow> gotime option" where
  "renewal_expiry env params i rekeyed =
     (case params of
        None \<Rightarrow> None
      | Some p \<Rightarrow> if rekeyed \<or> id_Exp i = None then Some (ae_now env + rp_ttl p) else id_Exp i)"

definition AgentHandler :: "'g aenv \<Rightarrow> renewalParams option \<Rightarrow> string \<Rightarrow> nat \<Rightarrow> 'g agent_node \<Rightarrow> handshake \<times> 'g agent_node" where
  "AgentHandler env params authHeader conn nd =
     (case agent_handshake env authHeader nd of
        (None, nd1) \<Rightarrow> (HsUnauthorized, nd1)
      | (Some i, nd1) \<Rightarrow>
          if \<not> ae_upgraded env then (HsUpgradeFailed, nd1)
          else
            let nd2 = nd1\<lparr>nd_tasks := RegisterConnection (id_Hostname i) conn (nd_tasks nd1)\<rparr> in
            case replay_check env (id_Hostname i) (id_JTI i) conn nd2 of
              (False, nd3) \<Rightarrow> (HsClosedRevoked, nd3)
            | (True, nd3) \<Rightarrow>
                case opening_rekey env i nd3 of (rekeyed, nd4) \<Rightarrow> (HsServed (renewal_expiry env params i rekeyed), nd4))"

section \<open>Revocation and deletion\<close>

definition close_agent :: "string \<Rightarrow> nat \<Rightarrow> 'g agent_node \<Rightarrow> bool \<times> 'g agent_node" where
  "close_agent hostname code nd =
     (case CloseAgent hostname (nd_tasks nd) of (was_open, t) \<Rightarrow>
        (was_open, nd\<lparr>nd_tasks := t, nd_closed := (if was_open then nd_closed nd @ [(hostname, code)] else nd_closed nd)\<rparr>))"

definition blacklist_time :: duration where "blacklist_time = 25 * hour"

definition AdminRevokeMinion :: "'g aenv \<Rightarrow> string \<Rightarrow> string \<Rightarrow> 'g agent_node \<Rightarrow> resp \<times> 'g agent_node" where
  "AdminRevokeMinion env authHeader hostname nd =
     (case requireAdminAuth authHeader nd of Some r \<Rightarrow> (r, nd) | None \<Rightarrow>
      if hostname = [] then (refusal_resp 400 ''missing_hostname'', nd)
      else case GetAgent (ae_st env) hostname (nd_store nd) of
        None \<Rightarrow> (refusal_resp 404 ''agent_not_found'', nd)
      | Some agent \<Rightarrow>
          case on_store (RevokeAgent (ae_st env) hostname (ar_TokenJTI agent) ''admin_revoke'' (ae_now env + blacklist_time)) nd of
            (Inl _, nd1) \<Rightarrow> (refusal_resp 500 ''db_error'', nd1)
          | (Inr False, nd1) \<Rightarrow> (refusal_resp 404 ''agent_not_found'', nd1)
          | (Inr True, nd1) \<Rightarrow>
              case close_agent hostname WSCloseRevoked nd1 of (disconnected, nd2) \<Rightarrow>
                let nd3 = snd (on_store (UpdateAgentStatus (ae_st env) hostname ''disconnected'' []) nd2) in
                ((200, [(''hostname'', JStr hostname), (''status'', JStr ''revoked''), (''ws_disconnected'', JBool disconnected)]),
                 dispatch ''host.revoked'' hostname ''revoked'' nd3))"

text \<open>The deletion after the revocation has been written.\<close>

definition delete_revoked :: "'g aenv \<Rightarrow> string \<Rightarrow> 'g agent_node \<Rightarrow> resp \<times> 'g agent_node" where
  "delete_revoked env hostname nd =
     (case on_store (Store_DeleteAgent (ae_st env) hostname) nd of
        (Inl _, nd1) \<Rightarrow> (refusal_resp 500 ''db_error'', snd (close_agent hostname WSCloseRevoked nd1))
      | (Inr False, nd1) \<Rightarrow> (refusal_resp 404 ''agent_not_found'', snd (close_agent hostname WSCloseRevoked nd1))
      | (Inr True, nd1) \<Rightarrow>
          case close_agent hostname WSCloseNormal nd1 of (was_open, nd2) \<Rightarrow>
          case (if isl (GetConnection hostname (nd_tasks nd2)) then (False, nd2) else close_agent hostname WSCloseNormal nd2) of
            (again, nd3) \<Rightarrow>
              ((200, [(''hostname'', JStr hostname), (''status'', JStr ''deleted''), (''ws_disconnected'', JBool (again \<or> was_open))]),
               dispatch ''host.deleted'' hostname ''deleted'' nd3))"

definition AdminDeleteMinion :: "'g aenv \<Rightarrow> string \<Rightarrow> string \<Rightarrow> 'g agent_node \<Rightarrow> resp \<times> 'g agent_node" where
  "AdminDeleteMinion env authHeader hostname nd =
     (case requireAdminAuth authHeader nd of Some r \<Rightarrow> (r, nd) | None \<Rightarrow>
      if hostname = [] then (refusal_resp 400 ''missing_hostname'', nd)
      else case GetAgent (ae_st env) hostname (nd_store nd) of
        None \<Rightarrow> (refusal_resp 404 ''agent_not_found'', nd)
      | Some agent \<Rightarrow>
          let until = ae_now env + blacklist_time in
          case on_store (RevokeAgent (ae_st env) hostname (ar_TokenJTI agent) ''admin_delete'' until) nd of
            (Inl _, nd1) \<Rightarrow> (refusal_resp 500 ''db_error'', nd1)
          | (Inr _, nd1) \<Rightarrow>
              if ar_PrevTokenJTI agent = [] then delete_revoked env hostname nd1
              else case on_store (AddToBlacklist (ae_st env) (ar_PrevTokenJTI agent) hostname
                      (sv_formatTime (ae_st env) until) (Some ''admin_delete'')) nd1 of
                (Inl _, nd2) \<Rightarrow> (refusal_resp 500 ''db_error'', snd (close_agent hostname WSCloseRevoked nd2))
              | (Inr _, nd2) \<Rightarrow> delete_revoked env hostname nd2)"

end
