(* ===== verification/Agent_Life.thy ===== *)
theory Agent_Life
  imports Agent_Access
begin

text \<open>
  What the definitions of Agent_Access achieve: who is let in, that enrollment needs a valid token and the answer
  to a fresh challenge, that the tokens the server hands out are the ones it accepts, that a new token never
  strands the agent, and what the defects of the exchange are.
\<close>

section \<open>The access data of a host in the store\<close>

text \<open>A write that is alone in its batch.\<close>

definition solo :: "'g senv \<Rightarrow> bool" where
  "solo env \<longleftrightarrow> sv_before env = [] \<and> sv_after env = [] \<and> sv_userPiggy env = None"

lemma mutate_solo:
  assumes "solo env" "mutate env p s = (r, s')"
  shows "st_agentVol s' = st_agentVol s"
    and "\<And>e. r = Inl e \<Longrightarrow> snap s' = snap s"
    and "\<And>x. r = Inr x \<Longrightarrow> \<exists>t. p (newTx (snap s) (e_opts (st_eng s)) (sv_now env)) = (Inr x, t) \<and> snap s' = next_model (Some (piggyback s)) (tx_m t)"
proof -
  let ?b = "[(sv_now env, mutation_of p)]" and ?pb = "Some (store_piggyback env s)"
  have pb: "store_piggyback env s = piggyback s" using assms(1) by (simp add: solo_def store_piggyback_def fun_eq_iff)
  have run: "mutate env p s = (case commit (sv_lib env) (sv_guard env) ?pb (st_eng s) (sv_now env) ?b (st_fs s) of
      ((results, e'), w') \<Rightarrow> let s' = s\<lparr>st_eng := e', st_fs := w'\<rparr> in
        (case results ! 0 of Some err \<Rightarrow> (Inl err, s')
         | None \<Rightarrow> (fst (p (newTx (snap s) (e_opts (st_eng s)) (sv_now env))), s'\<lparr>st_written := st_written s' @ [seq (snap s') + of_nat (sv_meanwhile env)]\<rparr>)))"
    using assms(1) by (auto simp: mutate_def solo_def Let_def snap_def Snapshot_def split: prod.split option.split)
  have "st_agentVol s' = st_agentVol s \<and> (case r of Inl e \<Rightarrow> snap s' = snap s
      | Inr x \<Rightarrow> \<exists>t. p (newTx (snap s) (e_opts (st_eng s)) (sv_now env)) = (Inr x, t) \<and> snap s' = next_model (Some (piggyback s)) (tx_m t))"
  proof (cases rule: commit_cases [of "sv_lib env" "sv_guard env" ?pb "st_eng s" "sv_now env" ?b "st_fs s"])
    case (refused err w1)
    then show ?thesis using assms(2) unfolding run refused(1) by (auto simp: Let_def snap_def Snapshot_def)
  next
    case none: (nothing g w1 work results)
    then have "results ! 0 \<noteq> None" using apply_batch_length [of "e_opts (st_eng s)" ?b "e_cur (st_eng s)"]
      by (auto simp: list_all_length)
    then show ?thesis using assms(2) unfolding run none(5) by (auto simp: Let_def snap_def Snapshot_def)
  next
    case (failed g w1 work results err w2)
    then have "failAllApplied err results ! 0 \<noteq> None" using apply_batch_length [of "e_opts (st_eng s)" ?b "e_cur (st_eng s)"]
      by (auto simp: failAllApplied_def split: option.splits)
    then show ?thesis using assms(2) unfolding run failed(6) by (auto simp: Let_def snap_def Snapshot_def)
  next
    case (written g w1 work results m' w2)
    obtain err where rm: "run_mutation (e_opts (st_eng s)) (sv_now env) (mutation_of p) (e_cur (st_eng s)) = (work, err)" "results = [err]"
      using written(3) by (auto split: prod.splits)
    with written(4) have "err = None" by (cases err) simp_all
    with rm obtain x t where t: "p (newTx (e_cur (st_eng s)) (e_opts (st_eng s)) (sv_now env)) = (Inr x, t)" "work = tx_m t"
      by (auto elim: run_mutation_success)
    with write_batch_success [OF written(5)] rm(2) \<open>err = None\<close> show ?thesis
      using assms(2) unfolding run written(6) by (auto simp: Let_def snap_def Snapshot_def pb)
  qed
  then show "st_agentVol s' = st_agentVol s" "\<And>e. r = Inl e \<Longrightarrow> snap s' = snap s"
    "\<And>x. r = Inr x \<Longrightarrow> \<exists>t. p (newTx (snap s) (e_opts (st_eng s)) (sv_now env)) = (Inr x, t) \<and> snap s' = next_model (Some (piggyback s)) (tx_m t)"
    by auto
qed

text \<open>Key, current and replaced token identifier, revocation.\<close>

definition access :: "Agent \<Rightarrow> string \<times> string \<times> string \<times> bool" where
  "access a = (ag_PublicKeyPEM a, ag_TokenJTI a, ag_PrevTokenJTI a, ag_Revoked a)"

definition access_in :: "string \<Rightarrow> model \<Rightarrow> (string \<times> string \<times> string \<times> bool) option" where
  "access_in h m = map_option access (fmlookup (Agents (payload m)) h)"

definition listed_in :: "string \<Rightarrow> model \<Rightarrow> bool" where
  "listed_in jti m \<longleftrightarrow> fmlookup (Blacklist (payload m)) jti \<noteq> None"

lemma access_next [simp]: "access_in h (next_model (Some (piggyback s)) m) = access_in h m"
  by (auto simp: access_in_def next_model_def piggybacked_def piggyback_def access_def split: option.split)
    (auto simp: access_def option.map_comp o_def split: option.split intro!: option.map_cong)

lemma listed_next [simp]: "listed_in jti (next_model (Some (piggyback s)) m) = listed_in jti m"
  by (simp add: listed_in_def next_model_def piggybacked_def piggyback_def)

lemma IsJTIBlacklisted_alt: "IsJTIBlacklisted jti s = listed_in jti (snap s)"
  by (simp add: IsJTIBlacklisted_def Snap_Blacklisted_def listed_in_def)

lemma IsAgentRevoked_alt: "IsAgentRevoked h s = (case access_in h (snap s) of None \<Rightarrow> False | Some (_, _, _, r) \<Rightarrow> r)"
  by (auto simp: IsAgentRevoked_def access_in_def access_def Snap_Agent_def split: option.split)

lemma GetAgent_None: "GetAgent env h s = None \<longleftrightarrow> access_in h (snap s) = None"
  by (simp add: GetAgent_def access_in_def Snap_Agent_def)

lemma GetAgent_Some:
  "GetAgent env h s = Some a \<Longrightarrow> access_in h (snap s) = Some (ar_PublicKeyPEM a, ar_TokenJTI a, ar_PrevTokenJTI a, ar_Revoked a)"
  by (auto simp: GetAgent_def access_in_def Snap_Agent_def access_def agentRecord_def Let_def split: option.splits)

text \<open>Agents are filed under their host name.\<close>

definition filed :: "model \<Rightarrow> bool" where
  "filed m \<longleftrightarrow> fmpred (\<lambda>k a. ag_Hostname a = k) (Agents (payload m))"

lemma filed_alt: "filed m \<longleftrightarrow> (\<forall>k. map_option ag_Hostname (fmlookup (Agents (payload m)) k) \<in> {None, Some k})"
proof -
  have "(\<forall>a. fmlookup (Agents (payload m)) k = Some a \<longrightarrow> ag_Hostname a = k) \<longleftrightarrow>
      map_option ag_Hostname (fmlookup (Agents (payload m)) k) \<in> {None, Some k}" for k
    by (cases "fmlookup (Agents (payload m)) k") simp_all
  then show ?thesis by (simp only: filed_def fmpred_iff)
qed

lemma filed_next [simp]: "filed (next_model (Some (piggyback s)) m) = filed m"
proof -
  have "map_option ag_Hostname (fmlookup (Agents (piggyback s (payload m))) k) = map_option ag_Hostname (fmlookup (Agents (payload m)) k)" for k
    by (cases "fmlookup (Agents (payload m)) k") (simp_all add: piggyback_def split: option.split)
  then show ?thesis by (simp add: filed_alt next_model_def piggybacked_def)
qed

lemma filedD: "filed m \<Longrightarrow> fmlookup (Agents (payload m)) h = Some a \<Longrightarrow> ag_Hostname a = h"
  by (auto simp: filed_def fmpred_iff)

text \<open>The agent of one host was written.\<close>

definition wrote :: "string \<Rightarrow> Agent \<Rightarrow> model \<Rightarrow> model \<Rightarrow> bool" where
  "wrote h a m m' \<longleftrightarrow> ag_Hostname a = h \<and> Agents (payload m') = fmupd h a (Agents (payload m))"

lemma wroteD:
  assumes "wrote h a m m'" "filed m"
  shows "filed m'" "access_in k m' = (if k = h then Some (access a) else access_in k m)"
  using assms by (auto simp: wrote_def filed_def access_in_def fmpred_iff)

lemma access_inE:
  assumes "access_in h m = Some (pem, cur, prev, r)"
  obtains a where "fmlookup (Agents (payload m)) h = Some a" "ag_PublicKeyPEM a = pem" "ag_TokenJTI a = cur" "ag_PrevTokenJTI a = prev" "ag_Revoked a = r"
  using assms by (auto simp: access_in_def access_def)

lemma access_in_cong: "Agents (payload m') = Agents (payload m) \<Longrightarrow> access_in k m' = access_in k m \<and> filed m' = filed m"
  by (simp add: access_in_def filed_def)

subsection \<open>The transactions that write agents\<close>

lemma update_agent_run:
  assumes "update_agent h f (newTx m opts now) = (Inr x, t)" "filed m" "\<And>a. ag_Hostname (f a) = ag_Hostname a"
  shows "case fmlookup (Agents (payload m)) h of
      None \<Rightarrow> \<not> x \<and> tx_m t = m
    | Some a \<Rightarrow> x \<and> wrote h (f a) m (tx_m t) \<and> Blacklist (payload (tx_m t)) = Blacklist (payload m)"
  using assms(1,2) filedD [of m h]
  by (auto simp: update_agent_def success_simps Tx_Agent_def newTx_def wrote_def assms(3) dest!: payload_PutAgent split: option.splits)

lemma enrolled_run:
  assumes "EnrollAgent_tx tid h pem jti ap now (newTx m opts now') = (Inr x, t)" "filed m"
  shows "(\<exists>a. wrote h a m (tx_m t) \<and> access a = (pem, jti, [], False)) \<and> Blacklist (payload (tx_m t)) = Blacklist (payload m) \<and>
     (\<forall>a. fmlookup (Agents (payload m)) h = Some a \<longrightarrow> \<not> ag_Revoked a)"
proof -
  from assms(1) obtain t1 t2 where use: "(if tid \<noteq> [] then use_token tid now else ret ()) (newTx m opts now') = (Inr (), t1)"
    and key: "PutAuthorizedKey t1 \<lparr>ak_Hostname = h, ak_PublicKeyPEM = pem, ak_ApprovedAt = now, ak_ApprovedBy = ap\<rparr> = (t2, None)"
    and put: "putEnrolledAgent h pem jti now t2 = (Inr (), t)"
    by (auto simp: EnrollAgent_tx_def AddAuthorizedKey_tx_def success_simps)
  have "Agents (payload (tx_m t1)) = Agents (payload m) \<and> Blacklist (payload (tx_m t1)) = Blacklist (payload m)"
    using use by (auto simp: use_token_def success_simps newTx_def dest!: payload_put_unique split: if_splits option.splits)
  with payload_PutAuthorizedKey [OF key] have 2: "Agents (payload (tx_m t2)) = Agents (payload m)" "Blacklist (payload (tx_m t2)) = Blacklist (payload m)"
    by simp_all
  let ?a = "case fmlookup (Agents (payload m)) h of None \<Rightarrow> zero_agent | Some a \<Rightarrow> a"
  let ?b = "?a\<lparr>ag_Hostname := h, ag_PublicKeyPEM := pem, ag_TokenJTI := jti, ag_PrevTokenJTI := [], ag_EnrolledAt := now, ag_LastSeen := Some now\<rparr>"
  have ok: "\<not> ag_Revoked ?a" "PutAgent t2 ?b = (t, None)"
    using put 2(1) by (auto simp: putEnrolledAgent_def success_simps Tx_Agent_def Let_def split: if_splits)
  with payload_PutAgent [OF ok(2)] 2 have "wrote h ?b m (tx_m t)" "Blacklist (payload (tx_m t)) = Blacklist (payload m)"
    by (simp_all add: wrote_def)
  moreover have "access ?b = (pem, jti, [], False)" using ok(1) by (simp add: access_def)
  ultimately show ?thesis using ok(1) by auto
qed

lemma update_unless_run:
  assumes "UpdateTokenJTIUnlessRevoked_tx h jti (newTx m opts now) = (Inr x, t)" "filed m"
  shows "case fmlookup (Agents (payload m)) h of
      None \<Rightarrow> \<not> x \<and> tx_m t = m
    | Some a \<Rightarrow> x \<and> \<not> ag_Revoked a \<and> wrote h (a\<lparr>ag_PrevTokenJTI := ag_TokenJTI a, ag_TokenJTI := jti\<rparr>) m (tx_m t) \<and>
        Blacklist (payload (tx_m t)) = Blacklist (payload m)"
  using assms filedD [of m h]
  by (auto simp: UpdateTokenJTIUnlessRevoked_tx_def success_simps Tx_Agent_def newTx_def wrote_def dest!: payload_PutAgent split: option.splits if_splits)

lemma confirm_run:
  assumes "ConfirmTokenJTI_tx h jti (newTx m opts now) = (Inr x, t)" "filed m"
  shows "tx_m t = m \<or> (\<exists>a. fmlookup (Agents (payload m)) h = Some a \<and> wrote h (a\<lparr>ag_PrevTokenJTI := []\<rparr>) m (tx_m t) \<and>
        Blacklist (payload (tx_m t)) = Blacklist (payload m))"
  using assms filedD [of m h]
  by (auto simp: ConfirmTokenJTI_tx_def success_simps Tx_Agent_def newTx_def wrote_def dest!: payload_PutAgent split: option.splits if_splits)

lemma revoke_run:
  assumes "RevokeAgent_tx h jti reason until now (newTx m opts now') = (Inr x, t)" "filed m"
  shows "case fmlookup (Agents (payload m)) h of
      None \<Rightarrow> \<not> x \<and> tx_m t = m
    | Some a \<Rightarrow> x \<and> wrote h (a\<lparr>ag_Revoked := True\<rparr>) m (tx_m t) \<and> (jti \<noteq> [] \<longrightarrow> listed_in jti (tx_m t))"
proof -
  from assms(1) obtain found t1 where u: "update_agent h (\<lambda>a. a\<lparr>ag_Revoked := True\<rparr>) (newTx m opts now') = (Inr found, t1)"
    and rest: "if found then (if jti = [] then t = t1 else \<exists>y. putBlacklist jti h reason now until t1 = (Inr y, t)) \<and> x else t = t1 \<and> \<not> x"
    by (auto simp: RevokeAgent_tx_def success_simps split: if_splits)
  show ?thesis
  proof (cases "fmlookup (Agents (payload m)) h")
    case None
    with update_agent_run [OF u assms(2)] rest show ?thesis by simp
  next
    case (Some a)
    with update_agent_run [OF u assms(2)] have w: "found" "wrote h (a\<lparr>ag_Revoked := True\<rparr>) m (tx_m t1)" by simp_all
    show ?thesis
    proof (cases "jti = []")
      case False
      with rest w(1) obtain y where "putBlacklist jti h reason now until t1 = (Inr y, t)" by auto
      from putBlacklist_success [OF this] obtain f where f: "payload (tx_m t) = Blacklist_update f (payload (tx_m t1))"
        and l: "listed_in jti (tx_m t)" by (auto simp: listed_in_def)
      from f have "Agents (payload (tx_m t)) = Agents (payload (tx_m t1))" by simp
      with w l rest Some show ?thesis by (simp add: wrote_def)
    qed (use rest w Some in \<open>simp add: wrote_def\<close>)
  qed
qed

subsection \<open>The operations of the store\<close>

lemma store_rekey:
  assumes "solo env" "filed (snap s)" "UpdateTokenJTIUnlessRevoked env h j s = (r, s')"
  shows "filed (snap s') \<and> (\<forall>i. listed_in i (snap s') = listed_in i (snap s)) \<and>
    (if r = Inr True then \<exists>pem cur prev. access_in h (snap s) = Some (pem, cur, prev, False) \<and>
         (\<forall>k. access_in k (snap s') = (if k = h then Some (pem, j, cur, False) else access_in k (snap s)))
     else \<forall>k. access_in k (snap s') = access_in k (snap s))"
proof (cases r)
  case (Inl e)
  then show ?thesis using mutate_solo(2) [OF assms(1) assms(3) [unfolded UpdateTokenJTIUnlessRevoked_def]] assms(2) by simp
next
  case (Inr x)
  then obtain t where t: "UpdateTokenJTIUnlessRevoked_tx h j (newTx (snap s) (e_opts (st_eng s)) (sv_now env)) = (Inr x, t)"
    "snap s' = next_model (Some (piggyback s)) (tx_m t)"
    using mutate_solo(3) [OF assms(1) assms(3) [unfolded UpdateTokenJTIUnlessRevoked_def]] by blast
  show ?thesis
  proof (cases "fmlookup (Agents (payload (snap s))) h")
    case None
    with update_unless_run [OF t(1) assms(2)] t(2) Inr assms(2) show ?thesis by simp
  next
    case (Some a)
    with update_unless_run [OF t(1) assms(2)]
    have a: "x" "\<not> ag_Revoked a" "wrote h (a\<lparr>ag_PrevTokenJTI := ag_TokenJTI a, ag_TokenJTI := j\<rparr>) (snap s) (tx_m t)"
      "Blacklist (payload (tx_m t)) = Blacklist (payload (snap s))" by simp_all
    from wroteD [OF a(3) assms(2)] a(1,2,4) Some t(2) Inr show ?thesis
      by (auto simp: listed_in_def [of _ "tx_m t"] access_in_def [of h "snap s"] access_def) (simp_all add: listed_in_def)
  qed
qed

lemma store_enroll:
  assumes "solo env" "filed (snap s)" "EnrollAgent env tid h pem j ap s = (r, s')"
  shows "filed (snap s') \<and> (\<forall>i. listed_in i (snap s') = listed_in i (snap s)) \<and>
    (if r = Inr () then (\<forall>k. access_in k (snap s') = (if k = h then Some (pem, j, [], False) else access_in k (snap s))) \<and>
         (\<forall>v. access_in h (snap s) = Some v \<longrightarrow> \<not> snd (snd (snd v)))
     else snap s' = snap s)"
proof -
  obtain r1 s1 where m: "mutate env (EnrollAgent_tx tid h pem j ap (nowUTC env)) s = (r1, s1)" by (meson surj_pair)
  have touch: "snap (touchAgent h st tm b s1) = snap s1" for st tm b by (simp add: touchAgent_def snap_def Let_def)
  from assms(3) m have r: "r = r1" "snap s' = snap s1"
    by (auto simp: EnrollAgent_def bindP_def modify_def touch split: sum.splits)
  show ?thesis
  proof (cases r1)
    case (Inl e)
    then show ?thesis using mutate_solo(2) [OF assms(1) m] assms(2) r by simp
  next
    case (Inr x)
    then obtain t where t: "EnrollAgent_tx tid h pem j ap (nowUTC env) (newTx (snap s) (e_opts (st_eng s)) (sv_now env)) = (Inr x, t)"
      "snap s1 = next_model (Some (piggyback s)) (tx_m t)"
      using mutate_solo(3) [OF assms(1) m] by blast
    from enrolled_run [OF t(1) assms(2)] obtain a where a: "wrote h a (snap s) (tx_m t)" "access a = (pem, j, [], False)"
      "Blacklist (payload (tx_m t)) = Blacklist (payload (snap s))"
      "\<forall>a. fmlookup (Agents (payload (snap s))) h = Some a \<longrightarrow> \<not> ag_Revoked a" by blast
    from wroteD [OF a(1) assms(2)] a t(2) r Inr show ?thesis
      by (auto simp: listed_in_def [of _ "tx_m t"] access_def access_in_def [of h "snap s"]) (simp_all add: listed_in_def)
  qed
qed

lemma store_confirm:
  assumes "solo env" "filed (snap s)" "ConfirmTokenJTI env h j s = (r, s')"
  shows "filed (snap s') \<and> (\<forall>i. listed_in i (snap s') = listed_in i (snap s)) \<and>
    (\<forall>k. access_in k (snap s') = access_in k (snap s) \<or>
       k = h \<and> (\<exists>pem cur prev rv. access_in h (snap s) = Some (pem, cur, prev, rv) \<and> access_in h (snap s') = Some (pem, cur, [], rv)))"
proof (cases "mutate env (ConfirmTokenJTI_tx h j) s = (r, s')")
  case False
  with assms(3) have "s' = s"
    by (auto simp: ConfirmTokenJTI_def bindP_gets ret_def split: option.splits if_splits)
  with assms(2) show ?thesis by simp
next
  case True
  show ?thesis
  proof (cases r)
    case (Inl e)
    then show ?thesis using mutate_solo(2) [OF assms(1) True] assms(2) by simp
  next
    case (Inr x)
    then obtain t where t: "ConfirmTokenJTI_tx h j (newTx (snap s) (e_opts (st_eng s)) (sv_now env)) = (Inr x, t)"
      "snap s' = next_model (Some (piggyback s)) (tx_m t)"
      using mutate_solo(3) [OF assms(1) True] by blast
    from confirm_run [OF t(1) assms(2)] show ?thesis
    proof (elim disjE exE conjE)
      assume "tx_m t = snap s"
      with t(2) assms(2) show ?thesis by simp
    next
      fix a assume a: "fmlookup (get_Agents (snap s)) h = Some a" "wrote h (a\<lparr>ag_PrevTokenJTI := []\<rparr>) (snap s) (tx_m t)"
        "get_Blacklist (tx_m t) = get_Blacklist (snap s)"
      from wroteD [OF a(2) assms(2)] a(1,3) t(2) show ?thesis
        by (auto simp: listed_in_def [of _ "tx_m t"] access_in_def [of h "snap s"] access_def) (simp_all add: listed_in_def)
    qed
  qed
qed

lemma store_revoke:
  assumes "solo env" "filed (snap s)" "RevokeAgent env h j reason until s = (r, s')"
  shows "filed (snap s') \<and>
    (if r = Inr True then (\<exists>pem cur prev rv. access_in h (snap s) = Some (pem, cur, prev, rv) \<and>
         (\<forall>k. access_in k (snap s') = (if k = h then Some (pem, cur, prev, True) else access_in k (snap s)))) \<and> (j \<noteq> [] \<longrightarrow> listed_in j (snap s'))
     else \<forall>k. access_in k (snap s') = access_in k (snap s))"
proof (cases r)
  case (Inl e)
  then show ?thesis using mutate_solo(2) [OF assms(1) assms(3) [unfolded RevokeAgent_def]] assms(2) by simp
next
  case (Inr x)
  then obtain t where t: "RevokeAgent_tx h j reason until (nowUTC env) (newTx (snap s) (e_opts (st_eng s)) (sv_now env)) = (Inr x, t)"
    "snap s' = next_model (Some (piggyback s)) (tx_m t)"
    using mutate_solo(3) [OF assms(1) assms(3) [unfolded RevokeAgent_def]] by blast
  show ?thesis
  proof (cases "fmlookup (Agents (payload (snap s))) h")
    case None
    with revoke_run [OF t(1) assms(2)] t(2) Inr assms(2) show ?thesis by simp
  next
    case (Some a)
    with revoke_run [OF t(1) assms(2)]
    have a: "x" "wrote h (a\<lparr>ag_Revoked := True\<rparr>) (snap s) (tx_m t)" "j \<noteq> [] \<longrightarrow> listed_in j (tx_m t)" by simp_all
    from wroteD [OF a(2) assms(2)] a(1,3) Some t(2) Inr show ?thesis
      by (auto simp: access_in_def [of h "snap s"] access_def)
  qed
qed

section \<open>Who is let in\<close>

lemma check_access:
  assumes "access_in h (snap (nd_store nd)) = Some (pem, cur, prev, rv)" "jti \<noteq> []"
  shows "fst (checkAgentJTI env h jti nd) = None \<longleftrightarrow> \<not> listed_in jti (snap (nd_store nd)) \<and> \<not> rv \<and>
     (cur = jti \<or> prev = jti \<and> (isl (GetConnection h (nd_tasks nd)) \<or> \<not> fst (ProbeConnection env h nd)))"
proof -
  obtain a where a: "GetAgent (ae_st env) h (nd_store nd) = Some a"
    using assms(1) GetAgent_None [of "ae_st env" h "nd_store nd"] by (cases "GetAgent (ae_st env) h (nd_store nd)") simp_all
  with GetAgent_Some [OF a] assms show ?thesis
    by (auto simp: checkAgentJTI_def agentJTICheck_def IsJTIBlacklisted_alt split: sum.splits prod.splits)
qed

lemma check_unknown: "access_in h (snap (nd_store nd)) = None \<Longrightarrow> fst (checkAgentJTI env h jti nd) \<noteq> None"
  using GetAgent_None [of "ae_st env" h "nd_store nd"] by (simp add: checkAgentJTI_def agentJTICheck_def)

lemma probe_dead:
  assumes "GetConnection h (nd_tasks nd) = Inr c" "ProbeConnection env h nd = (False, nd')"
  shows "\<not> cl_alive (nd_life nd' c)"
  using assms by (auto simp: ProbeConnection_def Let_def split: if_splits option.splits)

text \<open>
  C21. Who is let in. A handshake goes on only with a Bearer token that verifies under the current secret, or under
  the previous one before the deadline of the rotation, names the role of an agent and a host that is enrolled and
  not revoked, and carries the current identifier of that host, not blacklisted; the identifier it replaced is taken
  only when the host has no connection, or one that the probe has found dead.
\<close>

theorem handshake_accepted_only_if:
  assumes "agent_handshake env authHeader nd = (Some i, nd')"
  shows "\<exists>tok claims pem cur prev. authHeader = Bearer @ tok \<and>
     (if id_UsedPrevious i
      then in_grace (ae_now env) (ss_JWTPreviousSecret (nd_server nd)) (ss_KeyRotationDeadline (nd_server nd)) \<and>
        parseJWT (ae_lib env) (ae_now env) tok (ss_JWTPreviousSecret (nd_server nd)) = Inr claims
      else ss_JWTSecret (nd_server nd) \<noteq> [] \<and> parseJWT (ae_lib env) (ae_now env) tok (ss_JWTSecret (nd_server nd)) = Inr claims) \<and>
     claim_text claims ''role'' = agentRole \<and> claim_text claims ''sub'' = id_Hostname i \<and> claim_text claims ''jti'' = id_JTI i \<and> id_JTI i \<noteq> [] \<and>
     access_in (id_Hostname i) (snap (nd_store nd)) = Some (pem, cur, prev, False) \<and> \<not> IsJTIBlacklisted (id_JTI i) (nd_store nd) \<and>
     (id_JTI i = cur \<or> id_JTI i = prev \<and>
        (case GetConnection (id_Hostname i) (nd_tasks nd) of Inl _ \<Rightarrow> True | Inr c \<Rightarrow> \<not> cl_alive (nd_life nd' c)))"
proof -
  let ?h = "id_Hostname i" and ?j = "id_JTI i"
  from assms have auth: "authenticateAgentRequest (ae_lib env) (ae_now env) (Some (GetJWTSecrets (nd_server nd))) authHeader = Inr i"
    and chk: "checkAgentJTI env ?h ?j nd = (None, nd')"
    by (auto simp: agent_handshake_def split: sum.splits prod.splits option.splits)
  from chk have j: "?j \<noteq> []" by (auto simp: checkAgentJTI_def)
  from chk check_unknown [of ?h nd env ?j] have "access_in ?h (snap (nd_store nd)) \<noteq> None" by (metis fst_conv)
  then obtain pem cur prev rv where acc: "access_in ?h (snap (nd_store nd)) = Some (pem, cur, prev, rv)" by auto
  with check_access [OF acc j, of env] chk have ok: "\<not> listed_in ?j (snap (nd_store nd))" "\<not> rv"
    "cur = ?j \<or> prev = ?j \<and> (isl (GetConnection ?h (nd_tasks nd)) \<or> \<not> fst (ProbeConnection env ?h nd))" by simp_all
  obtain a where a: "GetAgent (ae_st env) ?h (nd_store nd) = Some a"
    using acc GetAgent_None [of "ae_st env" ?h "nd_store nd"] by (cases "GetAgent (ae_st env) ?h (nd_store nd)") simp_all
  have "\<not> cl_alive (nd_life nd' c)" if "GetConnection ?h (nd_tasks nd) = Inr c" "cur \<noteq> ?j" for c
  proof -
    from ok(3) that have p: "prev = ?j" "\<not> fst (ProbeConnection env ?h nd)" by auto
    then obtain nd1 where pr: "ProbeConnection env ?h nd = (False, nd1)" by (metis prod.collapse)
    with chk that p a GetAgent_Some [OF a] acc ok(1,2) j have "nd' = nd1"
      by (auto simp: checkAgentJTI_def agentJTICheck_def IsJTIBlacklisted_alt split: if_splits)
    with probe_dead [OF that(1) pr] show ?thesis by simp
  qed
  then have last: "?j = cur \<or> ?j = prev \<and> (case GetConnection ?h (nd_tasks nd) of Inl _ \<Rightarrow> True | Inr c \<Rightarrow> \<not> cl_alive (nd_life nd' c))"
    using ok(3) by (auto split: sum.splits)
  from auth obtain tok claims where "authHeader = Bearer @ tok" "ss_JWTSecret (nd_server nd) \<noteq> []"
    "if id_UsedPrevious i
     then in_grace (ae_now env) (ss_JWTPreviousSecret (nd_server nd)) (ss_KeyRotationDeadline (nd_server nd)) \<and>
       parseJWT (ae_lib env) (ae_now env) tok (ss_JWTPreviousSecret (nd_server nd)) = Inr claims
     else parseJWT (ae_lib env) (ae_now env) tok (ss_JWTSecret (nd_server nd)) = Inr claims"
    "claim_text claims ''role'' = agentRole" "?h = claim_text claims ''sub''" "?j = claim_text claims ''jti''"
    by (rule identity_from_claims) (auto simp: GetJWTSecrets_def)
  then show ?thesis using acc ok(1,2) j last
    by (intro exI [of _ tok] exI [of _ claims] exI [of _ pem] exI [of _ cur] exI [of _ prev]) (simp add: IsJTIBlacklisted_alt)
qed

section \<open>New tokens reach the agent or leave the old one valid\<close>

lemma on_store_run: "on_store p nd = (r, nd') \<longleftrightarrow> (\<exists>s. p (nd_store nd) = (r, s) \<and> nd' = nd\<lparr>nd_store := s\<rparr>)"
  by (auto simp: on_store_def split: prod.splits)

text \<open>The outcomes of \<open>issueRekey\<close> as far as store and frames are concerned.\<close>

lemma issueRekey_outcome:
  assumes "solo (ae_st env)" "filed (snap (nd_store nd))" "issueRekey env h secret ttl nd = (r, nd')"
  shows "filed (snap (nd_store nd')) \<and> (\<forall>i. listed_in i (snap (nd_store nd')) = listed_in i (snap (nd_store nd))) \<and>
    ((\<forall>k. access_in k (snap (nd_store nd')) = access_in k (snap (nd_store nd))) \<and> isl r \<and> nd_sent nd' = nd_sent nd \<or>
     (\<exists>pem cur prev raw enc. access_in h (snap (nd_store nd)) = Some (pem, cur, prev, False) \<and>
        (\<forall>k. access_in k (snap (nd_store nd')) = (if k = h then Some (pem, ae_uuid env, cur, False) else access_in k (snap (nd_store nd)))) \<and>
        jwt_sign (ae_lib env) secret (agent_claims h agentRole (ae_uuid env) (ae_now env) ttl) = Inr raw \<and>
        encryptWithPublicKey (ae_lib env) (ae_rand env) raw pem = Inr enc \<and>
        (if isl r then nd_sent nd' = nd_sent nd else nd_sent nd' = nd_sent nd @ [(h, Some enc)])))"
proof (cases "nd' = nd \<and> isl r")
  case True
  with assms(2) show ?thesis by auto
next
  case False
  obtain a raw enc r1 s1 where a: "GetAgent (ae_st env) h (nd_store nd) = Some a" and na: "\<not> ar_Revoked a"
    and sg: "jwt_sign (ae_lib env) secret (agent_claims h agentRole (ae_uuid env) (ae_now env) ttl) = Inr raw"
    and enc: "encryptWithPublicKey (ae_lib env) (ae_rand env) raw (ar_PublicKeyPEM a) = Inr enc"
    and w: "UpdateTokenJTIUnlessRevoked (ae_st env) h (ae_uuid env) (nd_store nd) = (r1, s1)"
    and rest: "if r1 = Inr True then
        nd_store nd' = s1 \<and> nd_sent nd' = (if isl r then nd_sent nd else nd_sent nd @ [(h, Some enc)])
      else isl r \<and> nd_store nd' = s1 \<and> nd_sent nd' = nd_sent nd"
    using assms(3) False
    by (auto simp: issueRekey_def signAgentJWT_def and_then_def on_store_run split: option.splits if_splits sum.splits prod.splits bool.splits)
  from store_rekey [OF assms(1,2) w] GetAgent_Some [OF a] na sg enc rest show ?thesis
    by (cases "r1 = Inr True") auto
qed

text \<open>A token of the host with this identifier, verified by the server's secrets, passes the whole handshake.\<close>

definition admits :: "'g aenv \<Rightarrow> 'g agent_node \<Rightarrow> string \<Rightarrow> string \<Rightarrow> bool" where
  "admits env nd h jti \<longleftrightarrow>
     (\<forall>authHeader i. authenticateAgentRequest (ae_lib env) (ae_now env) (Some (GetJWTSecrets (nd_server nd))) authHeader = Inr i \<longrightarrow>
        id_Hostname i = h \<longrightarrow> id_JTI i = jti \<longrightarrow> fst (agent_handshake env authHeader nd) = Some i)"

lemma admits_check: "fst (checkAgentJTI env h jti nd) = None \<Longrightarrow> admits env nd h jti"
  by (auto simp: admits_def agent_handshake_def split: prod.splits)

text \<open>
  C22. One renewal never strands the agent. The agent holds the token whose identifier the store has as the current
  one (so earlier renewals have reached it; two lost in a row do strand it, see \<open>lost_twice_strands\<close>), it is enrolled
  and not revoked, and neither its identifier nor the new one is blacklisted. However the renewal then ends (write
  refused, frame lost, or sent), a handshake with a verified token of the old identifier is accepted once the
  agent's connection is gone; when the frame was written, it carries the token whose identifier is now the current
  one, encrypted for the key of the agent, and a handshake with that token is accepted too; when the renewal fails
  nothing was sent. The write is alone in its batch.
\<close>

theorem renewal_never_strands:
  assumes "solo (ae_st env)" "filed (snap (nd_store nd))" "access_in h (snap (nd_store nd)) = Some (pem, cur, prev, False)"
    and "\<not> IsJTIBlacklisted cur (nd_store nd)" "\<not> IsJTIBlacklisted (ae_uuid env) (nd_store nd)" "cur \<noteq> []" "ae_uuid env \<noteq> []"
    and "issueRekey env h secret ttl nd = (r, nd')"
    and "nd_store nd2 = nd_store nd'" "isl (GetConnection h (nd_tasks nd2))"
  shows "admits env' nd2 h cur \<and>
    (if isl r then nd_sent nd' = nd_sent nd
     else (\<exists>raw enc. jwt_sign (ae_lib env) secret (agent_claims h agentRole (ae_uuid env) (ae_now env) ttl) = Inr raw \<and>
         encryptWithPublicKey (ae_lib env) (ae_rand env) raw pem = Inr enc \<and> nd_sent nd' = nd_sent nd @ [(h, Some enc)]) \<and>
       admits env' nd2 h (ae_uuid env))"
proof -
  have free: "\<not> listed_in cur (snap (nd_store nd2))" "\<not> listed_in (ae_uuid env) (snap (nd_store nd2))"
    using issueRekey_outcome [OF assms(1,2,8)] assms(4,5,9) by (auto simp: IsJTIBlacklisted_alt)
  from issueRekey_outcome [OF assms(1,2,8)] assms(3,9) consider
      (kept) "access_in h (snap (nd_store nd2)) = Some (pem, cur, prev, False)" "isl r" "nd_sent nd' = nd_sent nd"
    | (written) raw enc where "access_in h (snap (nd_store nd2)) = Some (pem, ae_uuid env, cur, False)"
        "jwt_sign (ae_lib env) secret (agent_claims h agentRole (ae_uuid env) (ae_now env) ttl) = Inr raw"
        "encryptWithPublicKey (ae_lib env) (ae_rand env) raw pem = Inr enc"
        "if isl r then nd_sent nd' = nd_sent nd else nd_sent nd' = nd_sent nd @ [(h, Some enc)]"
    by auto
  then show ?thesis
  proof cases
    case kept
    with check_access [OF kept(1) assms(6)] free show ?thesis by (simp add: admits_check)
  next
    case written
    with check_access [OF written(1) assms(6)] check_access [OF written(1) assms(7)] free assms(10) show ?thesis
      by (auto intro!: admits_check)
  qed
qed

text \<open>
  Two renewals in a row that are stored and not delivered do strand it: only one replaced identifier is kept, so
  the token the agent holds is refused.
\<close>

lemma lost_twice_strands:
  assumes "solo (ae_st env1)" "solo (ae_st env2)" "filed (snap (nd_store nd))" "access_in h (snap (nd_store nd)) = Some (pem, cur, prev, False)"
    and "issueRekey env1 h secret ttl nd = (Inl e1, nd1)" "access_in h (snap (nd_store nd1)) \<noteq> access_in h (snap (nd_store nd))"
    and "issueRekey env2 h secret ttl nd1 = (Inl e2, nd2)" "access_in h (snap (nd_store nd2)) \<noteq> access_in h (snap (nd_store nd1))"
    and "cur \<notin> {[], ae_uuid env1, ae_uuid env2}"
  shows "nd_sent nd2 = nd_sent nd \<and> fst (checkAgentJTI env' h cur nd2) \<noteq> None"
proof -
  note one = issueRekey_outcome [OF assms(1,3,5)]
  from one assms(4,6) have a1: "access_in h (snap (nd_store nd1)) = Some (pem, ae_uuid env1, cur, False)" "nd_sent nd1 = nd_sent nd"
    and f1: "filed (snap (nd_store nd1))" by auto
  from issueRekey_outcome [OF assms(2) f1 assms(7)] a1 assms(8)
  have a2: "access_in h (snap (nd_store nd2)) = Some (pem, ae_uuid env2, ae_uuid env1, False)" "nd_sent nd2 = nd_sent nd" by auto
  with check_access [OF a2(1), of cur env'] assms(9) show ?thesis by auto
qed

section \<open>Enrollment\<close>

definition answers :: "'g aenv \<Rightarrow> RegisterRequest \<Rightarrow> string \<Rightarrow> pendingNonce \<Rightarrow> bool" where
  "answers env req priv p \<longleftrightarrow> ae_now env \<le> pn_expiresAt p \<and>
     (case b64_decode (rg_ChallengeResponse req) of None \<Rightarrow> False
      | Some c \<Rightarrow> decryptOAEP (ae_lib env) priv c = Inr (pn_nonce p @ pn_token p))"

lemma finish_enrollment_outcome:
  assumes "solo (ae_st env)" "filed (snap (nd_store nd))" "finish_enrollment env req tok priv nd = (resp, nd')"
    and "snap (nd_store nd') \<noteq> snap (nd_store nd)"
  shows "\<exists>p. fmlookup (nd_pending nd) (rg_Hostname req) = Some p \<and> answers env req priv p \<and> fst resp = 200 \<and>
     nd_pending nd' = fmdrop (rg_Hostname req) (nd_pending nd) \<and>
     (\<forall>k. access_in k (snap (nd_store nd')) =
        (if k = rg_Hostname req then Some (rg_PublicKeyPEM req, ae_uuid env, [], False) else access_in k (snap (nd_store nd))))"
proof -
  obtain p c where p: "fmlookup (nd_pending nd) (rg_Hostname req) = Some p" "\<not> ae_now env > pn_expiresAt p"
      "b64_decode (rg_ChallengeResponse req) = Some c" "decryptOAEP (ae_lib env) priv c = Inr (pn_nonce p @ pn_token p)"
    and "\<exists>r s. EnrollAgent (ae_st env) (et_ID tok) (rg_Hostname req) (rg_PublicKeyPEM req) (ae_uuid env) (''enrollment_token:'' @ et_ID tok)
        (nd_store nd) = (r, s) \<and> nd_store nd' = s \<and> (isl r \<or> fst resp = 200) \<and> nd_pending nd' = fmdrop (rg_Hostname req) (nd_pending nd)"
    using assms(3,4)
    by (auto simp: finish_enrollment_def consumePendingNonce_def on_store_run dispatch_def
        split: option.splits sum.splits if_splits prod.splits)
  then obtain r s where r: "EnrollAgent (ae_st env) (et_ID tok) (rg_Hostname req) (rg_PublicKeyPEM req) (ae_uuid env) (''enrollment_token:'' @ et_ID tok)
        (nd_store nd) = (r, s)" "nd_store nd' = s" "isl r \<or> fst resp = 200" "nd_pending nd' = fmdrop (rg_Hostname req) (nd_pending nd)" by blast
  from store_enroll [OF assms(1,2) r(1)] r(2) assms(4) have "r = Inr ()" by (auto split: if_splits)
  with store_enroll [OF assms(1,2) r(1)] r p show ?thesis by (auto simp: answers_def)
qed

text \<open>
  The life of a server as far as challenges go: it starts with none pending, takes registration requests, and does
  anything else that leaves the pending challenges alone. The log is what it has issued: when, for which host, and
  the nonce and the token.
\<close>

type_synonym challenge_log = "(gotime \<times> string \<times> string \<times> string) list"

definition issued_challenge :: "'g aenv \<Rightarrow> RegisterRequest option \<Rightarrow> resp \<Rightarrow> challenge_log" where
  "issued_challenge env body resp =
     (case (body, ae_nonce env, resp) of
        (Some req, Inr nonce, (st, (name, _) # _)) \<Rightarrow>
          (if st = 200 \<and> name = ''challenge'' then [(ae_now env, TrimSpace (rg_Hostname req), nonce, rg_EnrollmentToken req)] else [])
      | _ \<Rightarrow> [])"

inductive registering :: "'g agent_node \<Rightarrow> challenge_log \<Rightarrow> bool" where
  start: "nd_pending nd = fmempty \<Longrightarrow> registering nd []"
| request: "registering nd issued \<Longrightarrow> RegisterAgent_handler env meth body nd = (resp, nd') \<Longrightarrow>
    registering nd' (issued @ issued_challenge env body resp)"
| other: "registering nd issued \<Longrightarrow> nd_pending nd' = nd_pending nd \<Longrightarrow> registering nd' issued"

definition pending_issued :: "(string, pendingNonce) fmap \<Rightarrow> challenge_log \<Rightarrow> bool" where
  "pending_issued P issued \<longleftrightarrow>
     (\<forall>h p. fmlookup P h = Some p \<longrightarrow> (\<exists>t. (t, h, pn_nonce p, pn_token p) \<in> set issued \<and> pn_expiresAt p = t + 60 * second))"

lemma pending_issued_mono: "pending_issued P issued \<Longrightarrow> P' = P \<or> P' = fmdrop h P \<Longrightarrow> pending_issued P' (issued @ issued')"
  by (fastforce simp: pending_issued_def split: if_splits)

lemma pending_issued_upd:
  "pending_issued P issued \<Longrightarrow>
     pending_issued (fmupd h \<lparr>pn_nonce = n, pn_token = k, pn_expiresAt = t + nonceTTL\<rparr> P) (issued @ [(t, h, n, k)])"
  by (fastforce simp: pending_issued_def nonceTTL_def)

lemma finish_pending: "finish_enrollment env req tok priv nd = (resp, nd') \<Longrightarrow>
    nd_pending nd' = nd_pending nd \<or> nd_pending nd' = fmdrop (rg_Hostname req) (nd_pending nd)"
  by (auto simp: finish_enrollment_def consumePendingNonce_def on_store_run dispatch_def
      split: option.splits sum.splits if_splits prod.splits)

lemma handler_pending:
  assumes "RegisterAgent_handler env meth body nd = (resp, nd')" "pending_issued (nd_pending nd) issued"
  shows "pending_issued (nd_pending nd') (issued @ issued_challenge env body resp)"
proof (cases "\<exists>h. nd_pending nd' = nd_pending nd \<or> nd_pending nd' = fmdrop h (nd_pending nd)")
  case True
  then show ?thesis using pending_issued_mono [OF assms(2)] by metis
next
  case False
  then obtain req where b: "body = Some req" using assms(1) by (cases body) (auto simp: RegisterAgent_handler_def split: if_splits)
  let ?h = "TrimSpace (rg_Hostname req)"
  let ?req = "req\<lparr>rg_Hostname := ?h, rg_PublicKeyPEM := TrimSpace (rg_PublicKeyPEM req)\<rparr>"
  have "registerAgentWithToken env ?req nd = (resp, nd')"
    using assms(1) b False by (auto simp: RegisterAgent_handler_def Let_def split: if_splits)
  then have "issue_challenge env ?req nd = (resp, nd')"
    using False by (auto simp: registerAgentWithToken_def split: sum.splits if_splits option.splits dest!: finish_pending)
  then obtain nonce ch attrs where n: "ae_nonce env = Inr nonce" "resp = (200, (''challenge'', ch) # attrs)"
    "nd' = storePendingNonce (ae_now env) ?h nonce (rg_EnrollmentToken req) nd"
    using False by (auto simp: issue_challenge_def split: sum.splits)
  then show ?thesis
    using pending_issued_upd [OF assms(2), of ?h nonce "rg_EnrollmentToken req" "ae_now env"]
    by (simp add: b issued_challenge_def storePendingNonce_def)
qed

lemma registering_pending: "registering nd issued \<Longrightarrow> pending_issued (nd_pending nd) issued"
proof (induction rule: registering.induct)
  case (request nd issued env meth body resp nd')
  then show ?case by (blast intro: handler_pending)
qed (simp_all add: pending_issued_def)

text \<open>What a valid enrollment token is.\<close>

lemma validateEnrollmentToken_Inr:
  "validateEnrollmentToken env plain h s = Inr tok \<longleftrightarrow>
     GetEnrollmentTokenByHash (tokenHash env plain) s = Some tok \<and> (case et_ExpiresAt tok of None \<Rightarrow> True | Some e \<Rightarrow> ae_now env \<le> e) \<and>
     (et_Reusable tok \<or> et_UseCount tok \<le> 0) \<and> PluginTokenCheckHostname (ae_match env) (et_HostnamePattern tok) h = Inr True"
  by (auto simp: validateEnrollmentToken_def split: option.splits sum.splits bool.splits)

text \<open>
  C20. Enrollment needs a token and the answer to a fresh challenge. At any moment of a server's life, a registration
  request changes the durable state only when the hash of its token is that of a stored enrollment token that has
  not expired, is reusable or unused and whose pattern allows the host; the host is not revoked; and its response
  decrypts under the key of the server to the nonce and the token of a challenge that this server issued for this
  host at most sixty seconds ago. That challenge is then used up, the answer is 200, the host has the key and token
  identifier of this request and no other host changed. The write is alone in its batch.
\<close>

theorem enrollment_needs_challenge:
  assumes "registering nd issued" "solo (ae_st env)" "filed (snap (nd_store nd))" "RegisterAgent_handler env meth body nd = (resp, nd')"
    and "snap (nd_store nd') \<noteq> snap (nd_store nd)"
  shows "\<exists>req h priv tok t nonce token cipher. meth = ''POST'' \<and> body = Some req \<and> h = TrimSpace (rg_Hostname req) \<and> h \<noteq> [] \<and>
     GetEnrollmentTokenByHash (tokenHash env (rg_EnrollmentToken req)) (nd_store nd) = Some tok \<and>
     (case et_ExpiresAt tok of None \<Rightarrow> True | Some e \<Rightarrow> ae_now env \<le> e) \<and> (et_Reusable tok \<or> et_UseCount tok \<le> 0) \<and>
     PluginTokenCheckHostname (ae_match env) (et_HostnamePattern tok) h = Inr True \<and> \<not> IsAgentRevoked h (nd_store nd) \<and>
     ss_PrivateKey (nd_server nd) = Some priv \<and> b64_decode (rg_ChallengeResponse req) = Some cipher \<and>
     decryptOAEP (ae_lib env) priv cipher = Inr (nonce @ token) \<and> (t, h, nonce, token) \<in> set issued \<and> ae_now env \<le> t + 60 * second \<and>
     fst resp = 200 \<and> fmlookup (nd_pending nd') h = None \<and>
     (\<forall>k. access_in k (snap (nd_store nd')) =
        (if k = h then Some (TrimSpace (rg_PublicKeyPEM req), ae_uuid env, [], False) else access_in k (snap (nd_store nd))))"
proof -
  obtain req0 where b: "body = Some req0" "meth = ''POST''"
    using assms(4,5) by (cases body) (auto simp: RegisterAgent_handler_def split: if_splits)
  let ?h = "TrimSpace (rg_Hostname req0)"
  let ?req = "req0\<lparr>rg_Hostname := ?h, rg_PublicKeyPEM := TrimSpace (rg_PublicKeyPEM req0)\<rparr>"
  have w: "?h \<noteq> []" "registerAgentWithToken env ?req nd = (resp, nd')"
    using assms(4,5) b by (auto simp: RegisterAgent_handler_def Let_def split: if_splits)
  have same: "snap (nd_store nd1) = snap (nd_store nd)" if "issue_challenge env ?req nd = (r, nd1)" for r nd1
    using that by (auto simp: issue_challenge_def storePendingNonce_def split: sum.splits)
  obtain tok priv where t: "validateEnrollmentToken env (rg_EnrollmentToken req0) ?h (nd_store nd) = Inr tok"
    "\<not> IsAgentRevoked ?h (nd_store nd)" "ss_PrivateKey (nd_server nd) = Some priv" "finish_enrollment env ?req tok priv nd = (resp, nd')"
    using w(2) assms(5) same
    by (auto simp: registerAgentWithToken_def split: sum.splits if_splits option.splits)
  from finish_enrollment_outcome [OF assms(2,3) t(4) assms(5)] obtain p where p: "fmlookup (nd_pending nd) ?h = Some p"
      "answers env ?req priv p" "fst resp = 200" "nd_pending nd' = fmdrop ?h (nd_pending nd)"
      "\<forall>k. access_in k (snap (nd_store nd')) = (if k = ?h then Some (TrimSpace (rg_PublicKeyPEM req0), ae_uuid env, [], False) else access_in k (snap (nd_store nd)))"
    by auto
  from registering_pending [OF assms(1)] p(1) obtain at0 where i: "(at0, ?h, pn_nonce p, pn_token p) \<in> set issued" "pn_expiresAt p = at0 + 60 * second"
    by (auto simp: pending_issued_def)
  from p(2) obtain c where "b64_decode (rg_ChallengeResponse req0) = Some c" "decryptOAEP (ae_lib env) priv c = Inr (pn_nonce p @ pn_token p)"
    "ae_now env \<le> pn_expiresAt p" by (auto simp: answers_def split: option.splits)
  with b w(1) t(1,2,3) p(3,4,5) i show ?thesis
    by (intro exI [of _ req0] exI [of _ ?h] exI [of _ priv] exI [of _ tok] exI [of _ at0] exI [of _ "pn_nonce p"] exI [of _ "pn_token p"] exI [of _ c])
      (simp add: validateEnrollmentToken_Inr)
qed

definition oaep_roundtrip :: "AgentLib \<Rightarrow> bool" where
  "oaep_roundtrip L \<longleftrightarrow> (\<forall>rnd priv m c. encryptOAEP L rnd (rsa_public L priv) m = Inr c \<longrightarrow> decryptOAEP L priv c = Inr m)"

text \<open>A public key in the form in which the agent sends it.\<close>

definition pem_of :: "AgentLib \<Rightarrow> string \<Rightarrow> string \<Rightarrow> bool" where
  "pem_of L priv pem \<longleftrightarrow> (case pem_Decode L pem of None \<Rightarrow> False | Some der \<Rightarrow> parsePKIX L der = Inr (RSAPub (rsa_public L priv)))"

lemma encrypt_for:
  assumes "pem_of L priv pem" "encryptWithPublicKey L rnd m pem = Inr enc"
  obtains c where "encryptOAEP L rnd (rsa_public L priv) m = Inr c" "enc = b64_encode c"
  using assms by (auto simp: pem_of_def encryptWithPublicKey_def and_then_def split: option.splits sum.splits)

lemma encrypt_pem: "pem_of L priv pem \<Longrightarrow> encryptOAEP L rnd (rsa_public L priv) m = Inr c \<Longrightarrow> encryptWithPublicKey L rnd m pem = Inr (b64_encode c)"
  by (auto simp: pem_of_def encryptWithPublicKey_def and_then_def split: option.splits)

lemma challenge_issued:
  assumes "RegisterAgent_handler env1 ''POST'' (Some req) nd = ((200, (''challenge'', JStr ch) # attrs), nd1)"
    and "TrimSpace (rg_Hostname req) = rg_Hostname req" "TrimSpace (rg_PublicKeyPEM req) = rg_PublicKeyPEM req" "rg_ChallengeResponse req = []"
  shows "\<exists>nonce priv. ae_nonce env1 = Inr nonce \<and> ss_PrivateKey (nd_server nd) = Some priv \<and>
     encryptWithPublicKey (ae_lib env1) (ae_rand env1) nonce (rg_PublicKeyPEM req) = Inr ch \<and> \<not> IsAgentRevoked (rg_Hostname req) (nd_store nd) \<and>
     nd1 = storePendingNonce (ae_now env1) (rg_Hostname req) nonce (rg_EnrollmentToken req) nd \<and>
     rg_Hostname req \<noteq> [] \<and> rg_PublicKeyPEM req \<noteq> [] \<and> rg_EnrollmentToken req \<noteq> []"
proof -
  have same: "req\<lparr>rg_Hostname := rg_Hostname req, rg_PublicKeyPEM := rg_PublicKeyPEM req\<rparr> = req" by simp
  show ?thesis using assms
    by (auto simp: RegisterAgent_handler_def Let_def same registerAgentWithToken_def issue_challenge_def refusal_resp_def
        split: if_splits sum.splits option.splits)
qed

text \<open>
  C19. The two sides of the enrollment fit. An agent was challenged, decrypts the challenge with its key and sends
  nonce and token back, encrypted for the server, within the minute and with its token still valid. When signing the
  agent's token, encrypting it under the agent's key (which a key too small for it refuses) and the store's write
  succeed, the answer is 200 and decrypts with the agent's key to that token, and a handshake with it is accepted, as
  this host, until it expires. The new identifier is not blacklisted, the write is alone in its batch, the server has
  both its keys, and of the libraries it is assumed that OAEP decryption inverts encryption and that the JWT library
  reads back the claims of this one token.
\<close>

theorem enrolled_agent_connects:
  assumes lib: "hs256_keeps L (ss_JWTSecret (nd_server nd))
        (agent_claims (rg_Hostname req) agentRole (ae_uuid env2) (ae_now env2) (ss_JWTttl (nd_server nd)))"
      "oaep_roundtrip L" "ae_lib env1 = L" "ae_lib env2 = L" "ae_lib env3 = L"
    and store: "solo (ae_st env2)" "filed (snap (nd_store nd))"
    and keys: "pem_of L agentKey (rg_PublicKeyPEM req)" "ss_PrivateKey (nd_server nd) = Some priv" "ss_JWTSecret (nd_server nd) \<noteq> []"
    and req: "TrimSpace (rg_Hostname req) = rg_Hostname req" "TrimSpace (rg_PublicKeyPEM req) = rg_PublicKeyPEM req" "rg_ChallengeResponse req = []"
    and phase1: "RegisterAgent_handler env1 ''POST'' (Some req) nd = ((200, (''challenge'', JStr ch) # attrs), nd1)"
    and agent: "b64_decode ch = Some c1" "decryptOAEP L agentKey c1 = Inr nonce"
      "encryptOAEP L rnd (rsa_public L priv) (nonce @ rg_EnrollmentToken req) = Inr c2" "c2 \<noteq> []"
    and phase2: "ae_now env2 \<le> ae_now env1 + nonceTTL"
      "validateEnrollmentToken env2 (rg_EnrollmentToken req) (rg_Hostname req) (nd_store nd) = Inr tok"
      "jwt_sign L (ss_JWTSecret (nd_server nd)) (agent_claims (rg_Hostname req) agentRole (ae_uuid env2) (ae_now env2) (ss_JWTttl (nd_server nd))) = Inr raw"
      "encryptOAEP L (ae_rand env2) (rsa_public L agentKey) raw = Inr c3"
      "EnrollAgent (ae_st env2) (et_ID tok) (rg_Hostname req) (rg_PublicKeyPEM req) (ae_uuid env2) (''enrollment_token:'' @ et_ID tok) (nd_store nd) = (Inr (), s2)"
    and fresh: "ae_uuid env2 \<noteq> []" "\<not> IsJTIBlacklisted (ae_uuid env2) (nd_store nd)" "raw \<noteq> []"
    and later: "ae_now env3 < unix_time (unix_sec (ae_now env2 + ss_JWTttl (nd_server nd)))"
  shows "\<exists>enc rest nd2 i nd3.
     RegisterAgent_handler env2 ''POST'' (Some (req\<lparr>rg_ChallengeResponse := b64_encode c2\<rparr>)) nd1 = ((200, (''token_encrypted'', JStr enc) # rest), nd2) \<and>
     map_option (decryptOAEP L agentKey) (b64_decode enc) = Some (Inr raw) \<and>
     agent_handshake env3 (Bearer @ raw) nd2 = (Some i, nd3) \<and> id_Hostname i = rg_Hostname req"
proof -
  let ?h = "rg_Hostname req" and ?pem = "rg_PublicKeyPEM req" and ?t = "rg_EnrollmentToken req"
  from challenge_issued [OF phase1 req] keys(2) lib(3) obtain n where ch: "encryptWithPublicKey L (ae_rand env1) n ?pem = Inr ch"
    and nr: "\<not> IsAgentRevoked ?h (nd_store nd)" and nd1: "nd1 = storePendingNonce (ae_now env1) ?h n ?t nd"
    and ne: "?h \<noteq> []" "?pem \<noteq> []" "?t \<noteq> []" by auto
  obtain c where "encryptOAEP L (ae_rand env1) (rsa_public L agentKey) n = Inr c" "ch = b64_encode c"
    using keys(1) ch by (rule encrypt_for)
  with lib(2) agent(1,2) have n: "n = nonce" by (auto simp: oaep_roundtrip_def)
  have dec: "decryptOAEP L priv c2 = Inr (nonce @ ?t)" using lib(2) agent(3) by (auto simp: oaep_roundtrip_def)
  have b64: "b64_encode c2 \<noteq> []" using agent(4) by (metis b64_roundtrip b64_encode.simps(1) option.inject)
  let ?nd2 = "dispatch ''host.new'' ?h ''disconnected'' (nd\<lparr>nd_pending := fmdrop ?h (fmupd ?h \<lparr>pn_nonce = nonce, pn_token = ?t, pn_expiresAt = ae_now env1 + nonceTTL\<rparr> (nd_pending nd)), nd_store := s2\<rparr>)"
  have fin: "finish_enrollment env2 (req\<lparr>rg_ChallengeResponse := b64_encode c2\<rparr>) tok priv nd1 =
      ((200, [(''token_encrypted'', JStr (b64_encode c3)), (''jwt_encrypted'', JStr (b64_encode c3)),
         (''server_public_key_pem'', JStr (ss_PublicPEM (nd_server nd)))]), ?nd2)"
    using phase2(1,3,5) dec lib(4) encrypt_pem [OF keys(1) phase2(4)]
    by (simp add: finish_enrollment_def consumePendingNonce_def nd1 n storePendingNonce_def on_store_def)
  have upd: "req\<lparr>rg_ChallengeResponse := x, rg_Hostname := ?h, rg_PublicKeyPEM := ?pem\<rparr> = req\<lparr>rg_ChallengeResponse := x\<rparr>" for x by simp
  have nd1_eq: "nd_store nd1 = nd_store nd" "nd_server nd1 = nd_server nd" by (simp_all add: nd1 storePendingNonce_def)
  have r2: "RegisterAgent_handler env2 ''POST'' (Some (req\<lparr>rg_ChallengeResponse := b64_encode c2\<rparr>)) nd1 =
      ((200, [(''token_encrypted'', JStr (b64_encode c3)), (''jwt_encrypted'', JStr (b64_encode c3)),
         (''server_public_key_pem'', JStr (ss_PublicPEM (nd_server nd)))]), ?nd2)"
    using ne req(1,2) b64 phase2(2) nr keys(2) fin nd1_eq
    by (simp add: RegisterAgent_handler_def Let_def registerAgentWithToken_def upd)
  from store_enroll [OF store phase2(5)] fresh(2) have acc: "access_in ?h (snap (nd_store ?nd2)) = Some (?pem, ae_uuid env2, [], False)"
    "\<not> listed_in (ae_uuid env2) (snap (nd_store ?nd2))" by (simp_all add: dispatch_def IsJTIBlacklisted_alt)
  with check_access [OF acc(1) fresh(1), of env3] have "fst (checkAgentJTI env3 ?h (ae_uuid env2) ?nd2) = None" by simp
  then obtain nd3 where chk: "checkAgentJTI env3 ?h (ae_uuid env2) ?nd2 = (None, nd3)"
    by (cases "checkAgentJTI env3 ?h (ae_uuid env2) ?nd2") simp
  have "authenticateAgentRequest L (ae_now env3) (Some (GetJWTSecrets (nd_server ?nd2))) (Bearer @ raw) =
      Inr \<lparr>id_Hostname = ?h, id_JTI = ae_uuid env2, id_UsedPrevious = False,
        id_Exp = claim_time (agent_claims ?h agentRole (ae_uuid env2) (ae_now env2) (ss_JWTttl (nd_server nd))) ''exp''\<rparr>"
    using signed_token_accepted [OF lib(1) phase2(3) keys(3) fresh(3) ne(1) later] by (simp add: GetJWTSecrets_def dispatch_def)
  then have hs: "agent_handshake env3 (Bearer @ raw) ?nd2 = (Some \<lparr>id_Hostname = ?h, id_JTI = ae_uuid env2, id_UsedPrevious = False,
        id_Exp = claim_time (agent_claims ?h agentRole (ae_uuid env2) (ae_now env2) (ss_JWTttl (nd_server nd))) ''exp''\<rparr>, nd3)"
    using chk lib(5) by (simp add: agent_handshake_def)
  have "map_option (decryptOAEP L agentKey) (b64_decode (b64_encode c3)) = Some (Inr raw)"
    using lib(2) phase2(4) by (simp add: oaep_roundtrip_def)
  with r2 hs show ?thesis by (intro exI conjI) (assumption | simp)+
qed

section \<open>A concrete run\<close>

text \<open>Libraries for which the hypotheses hold: one token, and an encryption that puts the key in front.\<close>

definition ex_agent_claims :: MapClaims where
  "ex_agent_claims = agent_claims ''web1'' agentRole ''u2'' (unix_time 100) (24 * hour)"

definition ex_alib :: AgentLib where
  "ex_alib = \<lparr>
     jwt_sign = (\<lambda>s c. if s = ''sec'' \<and> c = ex_agent_claims then Inr ''raw'' else Inl [ErrText ''sign'']),
     jwt_parse = (\<lambda>kf ms now tok. if tok = ''raw'' \<and> kf ''HS256'' = Inr ''sec'' \<and> ''HS256'' \<in> set ms \<and> now < unix_time 86500
       then Inr ex_agent_claims else Inl [ErrText ''parse'']),
     pem_Encode = (\<lambda>_ b. b), pem_Decode = Some, parsePKIX = (\<lambda>d. Inr (RSAPub d)), marshalPKIX = Inr, parsePKCS8 = (\<lambda>d. Inr (RSAPriv d)),
     marshalPKCS8 = Inr, rsa_GenerateKey = Inr, rsa_public = (\<lambda>k. ''pub'' @ k),
     encryptOAEP = (\<lambda>_ k m. Inr (k @ m)),
     decryptOAEP = (\<lambda>k c. if has_prefix c (''pub'' @ k) then Inr (drop (length (''pub'' @ k)) c) else Inl [ErrText ''decrypt''])\<rparr>"

lemma ex_alib_laws: "hs256_keeps ex_alib secret claims" "oaep_roundtrip ex_alib"
proof -
  have e: "claim_time ex_agent_claims ''exp'' = Some (unix_time 86500)"
    by (simp add: ex_agent_claims_def claims_exp hour_def second_def unix_sec_def unix_time_def)
  show "hs256_keeps ex_alib secret claims"
    by (auto simp: hs256_keeps_def ex_alib_def e split: if_splits)
  show "oaep_roundtrip ex_alib" by (auto simp: oaep_roundtrip_def ex_alib_def has_prefix_def)
qed

definition ex_asenv :: "gotime \<Rightarrow> unit senv" where
  "ex_asenv now = ex_senv\<lparr>sv_lib := ex_lib\<lparr>marshal_payload := (\<lambda>_. Inr ''p''), marshal_envelope := (\<lambda>_. Inr ''f''), rfc3339nano := (\<lambda>_. ''t'')\<rparr>, sv_now := now\<rparr>"

definition ex_aenv :: "gotime \<Rightarrow> string \<Rightarrow> unit aenv" where
  "ex_aenv now uuid = \<lparr>ae_st = ex_asenv now, ae_lib = ex_alib, ae_match = (\<lambda>p h. Some (h = ''web1'')), ae_uuid = uuid, ae_nonce = Inr ''nonce'',
     ae_rand = [], ae_secretRand = Inr ''s'', ae_keyRand = ''k'', ae_sealNonce = (\<lambda>_. ''0123456789ab''), ae_masterKey = ''mk'', ae_written = None,
     ae_keepalive = None, ae_probe = \<lparr>pe_arrived = now, pe_slots = 0, pe_ping = True, pe_lastAlive = now, pe_end = now\<rparr>, ae_upgraded = True\<rparr>"

lemma solo_ex [simp]: "solo (ae_st (ex_aenv now uuid))"
  by (simp add: solo_def ex_aenv_def ex_asenv_def ex_senv_def)

definition ex_etok :: EnrollmentToken where
  "ex_etok = \<lparr>et_ID = ''t1'', et_TokenHash = hex_encode ''secret'', et_HostnamePattern = ''web.*'', et_Reusable = True, et_UseCount = 0,
     et_LastUsedAt = None, et_CreatedAt = unix_time 1, et_ExpiresAt = None, et_CreatedBy = ''admin''\<rparr>"

definition ex_agent_ops :: "(gotime \<times> store_op) list" where
  "ex_agent_ops = [(unix_time 2, SCreateEnrollmentToken ex_etok)]"

definition ex_server :: ServerState where
  "ex_server = \<lparr>ss_PrivateKey = Some ''srv'', ss_PublicPEM = ''pubsrv'', ss_PreviousPrivateKey = None, ss_JWTSecret = ''sec'',
     ss_JWTPreviousSecret = [], ss_KeyRotationDeadline = None, ss_AdminToken = ''adm'', ss_JWTttl = 24 * hour\<rparr>"

definition ex_anode :: "(gotime \<times> store_op) list \<Rightarrow> unit agent_node" where
  "ex_anode ops = \<lparr>nd_store = newStore (ex_engine\<lparr>e_cur := fst (apply_batch ex_opts (store_batch ops) (raw_model newPayload 1 2))\<rparr>) ex_world,
     nd_tasks = initial_tasks, nd_server = ex_server, nd_pending = fmempty,
     nd_life = (\<lambda>_. \<lparr>cl_lastAlive = 0, cl_doneAt = None, cl_alive = True\<rparr>), nd_sent = [], nd_closed = [], nd_dispatched = []\<rparr>"

lemma ex_anode_filed: "list_all (\<lambda>(_, op). routine op) ops \<Longrightarrow> sorted (map fst ops) \<Longrightarrow> list_all (\<lambda>t. 0 \<le> t) (map fst ops) \<Longrightarrow> filed (snap (nd_store (ex_anode ops)))"
proof -
  assume a: "list_all (\<lambda>(_, op). routine op) ops" "sorted (map fst ops)" "list_all (\<lambda>t. 0 \<le> t) (map fst ops)"
  have "model_ok (last (0 # map fst ops)) (fst (apply_batch ex_opts (store_batch ops) (raw_model newPayload 1 2)))"
    using apply_batch_valid [OF store_batch_safe [OF a(1)], of 0 "raw_model newPayload 1 2" ex_opts] a(2,3) model_ok_empty [of 0 1 2]
    by (simp add: store_batch_times list_all_iff)
  then show ?thesis
    by (auto simp: ex_anode_def newStore_def snap_def Snapshot_def model_ok_def entries_ok_def filed_def fmpred_iff split: if_splits)
qed

definition ex_request :: "string \<Rightarrow> string \<Rightarrow> RegisterRequest" where
  "ex_request pem response = \<lparr>rg_Hostname = ''web1'', rg_PublicKeyPEM = pem, rg_EnrollmentToken = ''secret'', rg_ChallengeResponse = response\<rparr>"

abbreviation ex_fresh :: "unit agent_node" where
  "ex_fresh \<equiv> ex_anode ex_agent_ops"

lemma ex_selectors [simp]:
  "ae_st (ex_aenv now uuid) = ex_asenv now" "ae_lib (ex_aenv now uuid) = ex_alib" "ae_uuid (ex_aenv now uuid) = uuid"
  "ae_nonce (ex_aenv now uuid) = Inr ''nonce''" "ae_rand (ex_aenv now uuid) = []" "ae_now (ex_aenv now uuid) = now"
  "ae_written (ex_aenv now uuid) = None"
  "nd_server (ex_anode ops) = ex_server" "nd_pending (ex_anode ops) = fmempty" "nd_tasks (ex_anode ops) = initial_tasks" "nd_sent (ex_anode ops) = []"
  "ss_PrivateKey ex_server = Some ''srv''" "ss_PublicPEM ex_server = ''pubsrv''" "ss_JWTSecret ex_server = ''sec''" "ss_JWTttl ex_server = 24 * hour"
  "rg_Hostname (ex_request pem r) = ''web1''" "rg_PublicKeyPEM (ex_request pem r) = pem" "rg_EnrollmentToken (ex_request pem r) = ''secret''"
  "rg_ChallengeResponse (ex_request pem r) = r"
  by (simp_all add: ex_aenv_def ex_asenv_def ae_now_def ex_anode_def ex_server_def ex_request_def)

lemma ex_valid_token: "validateEnrollmentToken (ex_aenv now uuid) ''secret'' ''web1'' (nd_store ex_fresh) = Inr ex_etok"
proof -
  have "GetEnrollmentTokenByHash (hex_encode ''secret'') (nd_store ex_fresh) = Some ex_etok" by code_simp
  then show ?thesis
    by (simp add: validateEnrollmentToken_def tokenHash_def ex_aenv_def ex_asenv_def ex_senv_def ex_lib_def ex_etok_def PluginTokenCheckHostname_def)
qed

lemma ex_enroll: "fst (EnrollAgent (ex_asenv (unix_time 100)) ''t1'' ''web1'' ''pubagent'' ''u2'' ''enrollment_token:t1'' (nd_store ex_fresh)) = Inr ()"
  "fst (EnrollAgent (ex_asenv (unix_time 100)) ''t1'' ''web1'' ''pubother'' ''u2'' ''enrollment_token:t1'' (nd_store ex_fresh)) = Inr ()"
  by code_simp+

lemma ex_trim: "TrimSpace ''web1'' = ''web1''" "TrimSpace ''pubagent'' = ''pubagent''" "TrimSpace ''pubother'' = ''pubother''"
  by code_simp+

lemma ex_not_revoked: "\<not> IsAgentRevoked ''web1'' (nd_store ex_fresh)"
  by code_simp

lemma ex_filed: "filed (snap (nd_store ex_fresh))"
  by (rule ex_anode_filed) (simp_all add: ex_agent_ops_def unix_time_def second_def)

lemma ex_encrypt: "encryptWithPublicKey ex_alib r m pem = Inr (b64_encode (pem @ m))"
  by (simp add: encryptWithPublicKey_def ex_alib_def and_then_def)

definition ex_pending :: pendingNonce where
  "ex_pending = \<lparr>pn_nonce = ''nonce'', pn_token = ''secret'', pn_expiresAt = unix_time 90 + nonceTTL\<rparr>"

definition ex_challenged :: "unit agent_node" where
  "ex_challenged = ex_fresh\<lparr>nd_pending := fmupd ''web1'' ex_pending fmempty\<rparr>"

lemma ex_phase1:
  "RegisterAgent_handler (ex_aenv (unix_time 90) ''u1'') ''POST'' (Some (ex_request ''pubagent'' [])) ex_fresh =
    ((200, [(''challenge'', JStr (b64_encode ''pubagentnonce'')), (''server_public_key_pem'', JStr ''pubsrv'')]), ex_challenged)"
proof -
  have "ex_request ''pubagent'' []\<lparr>rg_Hostname := ''web1'', rg_PublicKeyPEM := ''pubagent''\<rparr> = ex_request ''pubagent'' []"
    by (simp add: ex_request_def)
  then show ?thesis
    by (simp add: RegisterAgent_handler_def Let_def ex_trim registerAgentWithToken_def ex_valid_token ex_not_revoked issue_challenge_def
        ex_encrypt storePendingNonce_def ex_challenged_def ex_pending_def)
qed

definition ex_answer :: string where
  "ex_answer = b64_encode (''pubsrv'' @ ''nonce'' @ ''secret'')"

lemma ex_decode: "decryptOAEP ex_alib ''srv'' (''pubsrv'' @ m) = Inr m"
  by (simp add: ex_alib_def has_prefix_def)

lemma ex_sign: "jwt_sign ex_alib ''sec'' (agent_claims ''web1'' agentRole ''u2'' (unix_time 100) (24 * hour)) = Inr ''raw''"
  by (simp add: ex_alib_def ex_agent_claims_def)

lemma ex_answer_nonempty: "ex_answer \<noteq> []"
  by code_simp

lemma ex_phase2:
  assumes "TrimSpace pem = pem" "pem \<noteq> []"
    and "fst (EnrollAgent (ex_asenv (unix_time 100)) ''t1'' ''web1'' pem ''u2'' ''enrollment_token:t1'' (nd_store ex_fresh)) = Inr ()"
  shows "RegisterAgent_handler (ex_aenv (unix_time 100) ''u2'') ''POST'' (Some (ex_request pem ex_answer)) ex_challenged =
    ((200, [(''token_encrypted'', JStr (b64_encode (pem @ ''raw''))), (''jwt_encrypted'', JStr (b64_encode (pem @ ''raw''))),
       (''server_public_key_pem'', JStr ''pubsrv'')]),
     dispatch ''host.new'' ''web1'' ''disconnected'' (ex_fresh\<lparr>nd_pending := fmempty,
       nd_store := snd (EnrollAgent (ex_asenv (unix_time 100)) ''t1'' ''web1'' pem ''u2'' ''enrollment_token:t1'' (nd_store ex_fresh))\<rparr>))"
proof -
  have r: "ex_request pem ex_answer\<lparr>rg_Hostname := ''web1'', rg_PublicKeyPEM := pem\<rparr> = ex_request pem ex_answer" by (simp add: ex_request_def)
  have e: "EnrollAgent (ex_asenv (unix_time 100)) ''t1'' ''web1'' pem ''u2'' ''enrollment_token:t1'' (nd_store ex_fresh) =
      (Inr (), snd (EnrollAgent (ex_asenv (unix_time 100)) ''t1'' ''web1'' pem ''u2'' ''enrollment_token:t1'' (nd_store ex_fresh)))"
    using assms(3) by (metis prod.collapse)
  have n: "nd_store ex_challenged = nd_store ex_fresh" "nd_server ex_challenged = ex_server"
    "nd_pending ex_challenged = fmupd ''web1'' ex_pending fmempty" by (simp_all add: ex_challenged_def)
  have c: "consumePendingNonce (unix_time 100) ''web1'' ex_challenged = (Some (''nonce'', ''secret''), ex_fresh\<lparr>nd_pending := fmempty\<rparr>)"
    by (simp add: consumePendingNonce_def n ex_pending_def nonceTTL_def unix_time_def second_def) (simp add: ex_challenged_def)
  have d: "b64_decode ex_answer = Some (''pubsrv'' @ ''nonce'' @ ''secret'')" unfolding ex_answer_def by (rule b64_roundtrip)
  have "finish_enrollment (ex_aenv (unix_time 100) ''u2'') (ex_request pem ex_answer) ex_etok ''srv'' ex_challenged =
    ((200, [(''token_encrypted'', JStr (b64_encode (pem @ ''raw''))), (''jwt_encrypted'', JStr (b64_encode (pem @ ''raw''))),
       (''server_public_key_pem'', JStr ''pubsrv'')]),
     dispatch ''host.new'' ''web1'' ''disconnected'' (ex_fresh\<lparr>nd_pending := fmempty,
       nd_store := snd (EnrollAgent (ex_asenv (unix_time 100)) ''t1'' ''web1'' pem ''u2'' ''enrollment_token:t1'' (nd_store ex_fresh))\<rparr>))"
    unfolding finish_enrollment_def
    by (simp only: ex_selectors c d ex_decode n option.case prod.case sum.case ex_sign ex_encrypt) (simp add: ex_etok_def on_store_def, subst e, simp)
  then show ?thesis
    using assms(1,2) ex_answer_nonempty
    by (simp add: RegisterAgent_handler_def Let_def ex_trim r registerAgentWithToken_def n ex_valid_token ex_not_revoked)
qed

definition ex_enrolled_node :: "string \<Rightarrow> unit agent_node" where
  "ex_enrolled_node pem = snd (RegisterAgent_handler (ex_aenv (unix_time 100) ''u2'') ''POST'' (Some (ex_request pem ex_answer)) ex_challenged)"

lemma ex_enroll_run:
  assumes "pem \<in> {''pubagent'', ''pubother''}"
  shows "EnrollAgent (ex_asenv (unix_time 100)) ''t1'' ''web1'' pem ''u2'' ''enrollment_token:t1'' (nd_store ex_fresh) =
    (Inr (), nd_store (ex_enrolled_node pem))"
    "RegisterAgent_handler (ex_aenv (unix_time 100) ''u2'') ''POST'' (Some (ex_request pem ex_answer)) ex_challenged =
    ((200, [(''token_encrypted'', JStr (b64_encode (pem @ ''raw''))), (''jwt_encrypted'', JStr (b64_encode (pem @ ''raw''))),
       (''server_public_key_pem'', JStr ''pubsrv'')]), ex_enrolled_node pem)"
    "nd_server (ex_enrolled_node pem) = ex_server" "nd_tasks (ex_enrolled_node pem) = initial_tasks"
proof -
  have f: "fst (EnrollAgent (ex_asenv (unix_time 100)) ''t1'' ''web1'' pem ''u2'' ''enrollment_token:t1'' (nd_store ex_fresh)) = Inr ()"
    and t: "TrimSpace pem = pem" "pem \<noteq> []" using assms ex_enroll ex_trim by auto
  note p = ex_phase2 [OF t f]
  show "RegisterAgent_handler (ex_aenv (unix_time 100) ''u2'') ''POST'' (Some (ex_request pem ex_answer)) ex_challenged =
    ((200, [(''token_encrypted'', JStr (b64_encode (pem @ ''raw''))), (''jwt_encrypted'', JStr (b64_encode (pem @ ''raw''))),
       (''server_public_key_pem'', JStr ''pubsrv'')]), ex_enrolled_node pem)"
    and "nd_server (ex_enrolled_node pem) = ex_server" "nd_tasks (ex_enrolled_node pem) = initial_tasks"
    using p by (simp_all add: ex_enrolled_node_def dispatch_def)
  have "nd_store (ex_enrolled_node pem) =
      snd (EnrollAgent (ex_asenv (unix_time 100)) ''t1'' ''web1'' pem ''u2'' ''enrollment_token:t1'' (nd_store ex_fresh))"
    using p by (simp add: ex_enrolled_node_def dispatch_def)
  with f show "EnrollAgent (ex_asenv (unix_time 100)) ''t1'' ''web1'' pem ''u2'' ''enrollment_token:t1'' (nd_store ex_fresh) =
    (Inr (), nd_store (ex_enrolled_node pem))" by (metis prod.collapse)
qed

lemma ex_enrolled_access:
  assumes "pem \<in> {''pubagent'', ''pubother''}"
  shows "access_in ''web1'' (snap (nd_store (ex_enrolled_node pem))) = Some (pem, ''u2'', [], False)"
    "\<not> listed_in ''u2'' (snap (nd_store (ex_enrolled_node pem)))"
proof -
  have s: "solo (ex_asenv (unix_time 100))" using solo_ex [of "unix_time 100" "''u2''"] by simp
  have "\<not> listed_in ''u2'' (snap (nd_store ex_fresh))" by code_simp
  with store_enroll [OF s ex_filed ex_enroll_run(1) [OF assms]]
  show "access_in ''web1'' (snap (nd_store (ex_enrolled_node pem))) = Some (pem, ''u2'', [], False)"
    "\<not> listed_in ''u2'' (snap (nd_store (ex_enrolled_node pem)))" by simp_all
qed

text \<open>
  The challenge does not bind the key: after a challenge for one key, the answer may enroll another one, whose
  private key nobody has shown to hold.
\<close>

lemma challenge_not_bound_to_key:
  "\<exists>nd1 nd2 resp1 resp2.
     RegisterAgent_handler (ex_aenv (unix_time 90) ''u1'') ''POST'' (Some (ex_request ''pubagent'' [])) ex_fresh = (resp1, nd1) \<and>
     RegisterAgent_handler (ex_aenv (unix_time 100) ''u2'') ''POST'' (Some (ex_request ''pubother'' ex_answer)) nd1 = (resp2, nd2) \<and>
     fst resp2 = 200 \<and> access_in ''web1'' (snap (nd_store nd2)) = Some (''pubother'', ''u2'', [], False)"
  using ex_phase1 ex_enroll_run(2) [of "''pubother''"] ex_enrolled_access(1) [of "''pubother''"] by auto

lemma ex_registering: "registering ex_challenged [(unix_time 90, ''web1'', ''nonce'', ''secret'')]"
  using registering.request [OF registering.start ex_phase1] by (simp add: issued_challenge_def ex_trim)

theorem enrollment_needs_challenge_witness:
  "fmlookup (nd_pending (ex_enrolled_node ''pubagent'')) ''web1'' = None \<and> unix_time 100 \<le> unix_time 90 + 60 * second"
proof -
  have f: "filed (snap (nd_store ex_challenged))" using ex_filed by (simp add: ex_challenged_def)
  have "access_in ''web1'' (snap (nd_store ex_fresh)) = None" by code_simp
  with ex_enrolled_access(1) [of "''pubagent''"] have "snap (nd_store (ex_enrolled_node ''pubagent'')) \<noteq> snap (nd_store ex_challenged)"
    by (auto simp: ex_challenged_def)
  from enrollment_needs_challenge [OF ex_registering solo_ex f ex_enroll_run(2) this, simplified] show ?thesis by (auto simp: ex_trim)
qed

theorem enrolled_agent_connects_witness:
  "\<exists>i nd3. agent_handshake (ex_aenv (unix_time 200) ''x'') (Bearer @ ''raw'') (ex_enrolled_node ''pubagent'') = (Some i, nd3) \<and> id_Hostname i = ''web1''"
proof -
  let ?req = "ex_request ''pubagent'' []"
  have r: "?req\<lparr>rg_ChallengeResponse := b64_encode (''pubsrv'' @ ''nonce'' @ ''secret'')\<rparr> = ex_request ''pubagent'' ex_answer"
    by (simp add: ex_request_def ex_answer_def)
  have k: "pem_of ex_alib ''agent'' ''pubagent''" by (simp add: pem_of_def ex_alib_def)
  have a: "decryptOAEP ex_alib ''agent'' ''pubagentnonce'' = Inr ''nonce''"
    "encryptOAEP ex_alib [] (rsa_public ex_alib ''srv'') (''nonce'' @ ''secret'') = Inr (''pubsrv'' @ ''nonce'' @ ''secret'')"
    "encryptOAEP ex_alib [] (rsa_public ex_alib ''agent'') ''raw'' = Inr ''pubagentraw''" by (simp_all add: ex_alib_def has_prefix_def)
  have n: "\<not> IsJTIBlacklisted ''u2'' (nd_store ex_fresh)" by code_simp
  have t: "unix_time 100 \<le> unix_time 90 + nonceTTL" "unix_time 200 < unix_time (unix_sec (unix_time 100 + 24 * hour))"
    by (simp_all add: nonceTTL_def unix_time_def second_def hour_def unix_sec_def)
  have e: "EnrollAgent (ex_asenv (unix_time 100)) (et_ID ex_etok) ''web1'' ''pubagent'' ''u2'' (''enrollment_token:'' @ et_ID ex_etok) (nd_store ex_fresh) =
      (Inr (), nd_store (ex_enrolled_node ''pubagent''))" using ex_enroll_run(1) [of "''pubagent''"] by (simp add: ex_etok_def)
  have "\<exists>enc rest nd2 i nd3. RegisterAgent_handler (ex_aenv (unix_time 100) ''u2'') ''POST''
        (Some (?req\<lparr>rg_ChallengeResponse := b64_encode (''pubsrv'' @ ''nonce'' @ ''secret'')\<rparr>)) ex_challenged =
        ((200, (''token_encrypted'', JStr enc) # rest), nd2) \<and>
      map_option (decryptOAEP ex_alib ''agent'') (b64_decode enc) = Some (Inr ''raw'') \<and>
      agent_handshake (ex_aenv (unix_time 200) ''x'') (Bearer @ ''raw'') nd2 = (Some i, nd3) \<and> id_Hostname i = rg_Hostname ?req"
    by (rule enrolled_agent_connects [OF ex_alib_laws _ _ _ _ ex_filed _ _ _ _ _ _ ex_phase1 b64_roundtrip a(1)])
      (use k a n t e ex_sign ex_valid_token ex_trim in \<open>simp_all only: ex_selectors solo_ex [of _ "[]", simplified ex_selectors], simp_all\<close>)
  then show ?thesis using ex_enroll_run(2) [of "''pubagent''"] unfolding r by auto
qed

lemma ex_identity:
  "authenticateAgentRequest ex_alib (unix_time 200) (Some (GetJWTSecrets ex_server)) (Bearer @ ''raw'') =
     Inr \<lparr>id_Hostname = ''web1'', id_JTI = ''u2'', id_UsedPrevious = False,
        id_Exp = claim_time (agent_claims ''web1'' agentRole ''u2'' (unix_time 100) (24 * hour)) ''exp''\<rparr>"
proof -
  have "unix_time 200 < unix_time (unix_sec (unix_time 100 + 24 * hour))"
    by (simp add: unix_time_def second_def hour_def unix_sec_def)
  then show ?thesis
    unfolding GetJWTSecrets_def by (subst signed_token_accepted [OF ex_alib_laws(1) ex_sign [folded ex_selectors(14)]]) simp_all
qed

theorem handshake_accepted_only_if_witness:
  "\<exists>i nd3 pem cur prev. agent_handshake (ex_aenv (unix_time 200) ''x'') (Bearer @ ''raw'') (ex_enrolled_node ''pubagent'') = (Some i, nd3) \<and>
     access_in (id_Hostname i) (snap (nd_store (ex_enrolled_node ''pubagent''))) = Some (pem, cur, prev, False)"
proof -
  let ?nd = "ex_enrolled_node ''pubagent''" and ?env = "ex_aenv (unix_time 200) ''x''"
  let ?i = "\<lparr>id_Hostname = ''web1'', id_JTI = ''u2'', id_UsedPrevious = False,
        id_Exp = claim_time (agent_claims ''web1'' agentRole ''u2'' (unix_time 100) (24 * hour)) ''exp''\<rparr>"
  have acc: "access_in ''web1'' (snap (nd_store ?nd)) = Some (''pubagent'', ''u2'', [], False)" "\<not> listed_in ''u2'' (snap (nd_store ?nd))"
    using ex_enrolled_access [of "''pubagent''"] by simp_all
  with check_access [OF acc(1), of "''u2''" ?env] have "fst (checkAgentJTI ?env ''web1'' ''u2'' ?nd) = None" by simp
  then obtain nd3 where chk: "checkAgentJTI ?env ''web1'' ''u2'' ?nd = (None, nd3)" by (cases "checkAgentJTI ?env ''web1'' ''u2'' ?nd") simp
  have "agent_handshake ?env (Bearer @ ''raw'') ?nd = (Some ?i, nd3)"
    using chk ex_identity ex_enroll_run(3) [of "''pubagent''"] by (simp add: agent_handshake_def)
  with handshake_accepted_only_if [OF this] show ?thesis by blast
qed

definition ex_online :: "unit agent_node" where
  "ex_online = (ex_anode [(unix_time 10, SEnrollAgent [] ''web1'' ''pubagent'' ''u1'' ''admin'')])
     \<lparr>nd_tasks := RegisterConnection ''web1'' 7 initial_tasks\<rparr>"

lemma ex_renewed: "\<not> isl (fst (issueRekey (ex_aenv (unix_time 100) ''u2'') ''web1'' ''sec'' (24 * hour) ex_online))"
  by code_simp

theorem renewal_never_strands_witness:
  "\<exists>nd2 i. nd2 = (snd (issueRekey (ex_aenv (unix_time 100) ''u2'') ''web1'' ''sec'' (24 * hour) ex_online))\<lparr>nd_tasks := initial_tasks\<rparr> \<and>
     admits (ex_aenv (unix_time 200) ''x'') nd2 ''web1'' ''u1'' \<and>
     fst (agent_handshake (ex_aenv (unix_time 200) ''x'') (Bearer @ ''raw'') nd2) = Some i \<and> id_JTI i = ''u2''"
proof -
  let ?env = "ex_aenv (unix_time 100) ''u2''" and ?env' = "ex_aenv (unix_time 200) ''x''"
  let ?r = "issueRekey ?env ''web1'' ''sec'' (24 * hour) ex_online"
  let ?nd2 = "(snd ?r)\<lparr>nd_tasks := initial_tasks\<rparr>"
  have st: "nd_store ex_online = nd_store (ex_anode [(unix_time 10, SEnrollAgent [] ''web1'' ''pubagent'' ''u1'' ''admin'')])"
    by (simp add: ex_online_def)
  have f: "filed (snap (nd_store ex_online))"
    unfolding st by (rule ex_anode_filed) (simp_all add: unix_time_def second_def)
  have acc: "access_in ''web1'' (snap (nd_store ex_online)) = Some (''pubagent'', ''u1'', [], False)" unfolding st by code_simp
  have bl: "\<not> IsJTIBlacklisted ''u1'' (nd_store ex_online)" "\<not> IsJTIBlacklisted ''u2'' (nd_store ex_online)" unfolding st by code_simp+
  have g: "isl (GetConnection ''web1'' (nd_tasks ?nd2))" by (simp add: GetConnection_def initial_tasks_def)
  have "admits ?env' ?nd2 ''web1'' ''u1'' \<and>
    (if isl (fst ?r) then nd_sent (snd ?r) = nd_sent ex_online
     else (\<exists>raw enc. jwt_sign (ae_lib ?env) ''sec'' (agent_claims ''web1'' agentRole (ae_uuid ?env) (ae_now ?env) (24 * hour)) = Inr raw \<and>
         encryptWithPublicKey (ae_lib ?env) (ae_rand ?env) raw ''pubagent'' = Inr enc \<and> nd_sent (snd ?r) = nd_sent ex_online @ [(''web1'', Some enc)]) \<and>
       admits ?env' ?nd2 ''web1'' (ae_uuid ?env))"
    by (rule renewal_never_strands [OF solo_ex f acc bl(1) _ _ _ _ _ g]) (use bl(2) in simp_all)
  then have adm: "admits ?env' ?nd2 ''web1'' ''u1''" "admits ?env' ?nd2 ''web1'' ''u2''" by (simp_all add: ex_renewed)
  let ?i = "\<lparr>id_Hostname = ''web1'', id_JTI = ''u2'', id_UsedPrevious = False,
        id_Exp = claim_time (agent_claims ''web1'' agentRole ''u2'' (unix_time 100) (24 * hour)) ''exp''\<rparr>"
  have sv: "nd_server ?nd2 = ex_server" by code_simp
  have "authenticateAgentRequest ex_alib (unix_time 200) (Some (GetJWTSecrets ex_server)) (Bearer @ ''raw'') = Inr ?i"
    by (rule ex_identity)
  with adm(2) have "fst (agent_handshake ?env' (Bearer @ ''raw'') ?nd2) = Some ?i" unfolding admits_def sv by simp
  with adm(1) show ?thesis by (intro exI [of _ ?nd2] exI [of _ ?i]) simp
qed

end
