(* ===== verification/Agent_Sessions.thy ===== *)
theory Agent_Sessions
  imports Agent_Life
begin

text \<open>
  Handshakes, revocations and deletions that run at the same time (\<open>AgentHandler\<close> in \<open>ws/handler.go\<close>,
  \<open>AdminRevokeMinion\<close> and \<open>AdminDeleteMinion\<close> in \<open>handlers/admin.go\<close>). A handler is a sequence of steps, one per
  call that takes a lock or writes the store, and the steps of all handlers interleave freely. A revocation that is
  written between the check of a handshake and the registration of its connection finds nothing to close; that is
  why the handshake replays the check, and here that this is enough.
\<close>

section \<open>Steps\<close>

text \<open>
  Around the node: the handshakes that have passed the check, those whose connection is registered but whose check
  has not been replayed (connection, host, token identifier), and the hosts that were revoked or deleted and
  whose connection the handler still has to close.
\<close>

record 'g sessions =
  se_node :: "'g agent_node"
  se_checked :: "(nat \<times> string \<times> string) set"
  se_registered :: "(nat \<times> string \<times> string) set"
  se_closing :: "string list"

text \<open>The store operations that bar no host; the flags of old revocations are repaired before the server listens.\<close>

fun quiet :: "store_op \<Rightarrow> bool" where
  "quiet (SDeleteAgent _) = False"
| "quiet (SRevokeAgent _ _ _ _) = False"
| "quiet SRepairRevokedFlags = False"
| "quiet _ = True"

definition put_store :: "'g store \<Rightarrow> 'g sessions \<Rightarrow> 'g sessions" where
  "put_store st s = s\<lparr>se_node := (se_node s)\<lparr>nd_store := st\<rparr>\<rparr>"

definition put_tasks :: "tasks \<Rightarrow> 'g sessions \<Rightarrow> 'g sessions" where
  "put_tasks t s = s\<lparr>se_node := (se_node s)\<lparr>nd_tasks := t\<rparr>\<rparr>"

inductive access_step :: "'g sessions \<Rightarrow> 'g sessions \<Rightarrow> bool" where
  as_checked: "solo (ae_st env) \<Longrightarrow> agent_handshake env auth (se_node s) = (Some i, nd)
    \<Longrightarrow> access_step s (s\<lparr>se_node := nd, se_checked := insert (c, id_Hostname i, id_JTI i) (se_checked s)\<rparr>)"
| as_refused: "solo (ae_st env) \<Longrightarrow> agent_handshake env auth (se_node s) = (None, nd) \<Longrightarrow> access_step s (s\<lparr>se_node := nd\<rparr>)"
| as_abandoned: "access_step s (s\<lparr>se_checked := se_checked s - {(c, h, j)}\<rparr>)"
| as_registered: "(c, h, j) \<in> se_checked s
    \<Longrightarrow> access_step s (put_tasks (RegisterConnection h c (nd_tasks (se_node s))) s
      \<lparr>se_checked := se_checked s - {(c, h, j)}, se_registered := insert (c, h, j) (se_registered s)\<rparr>)"
| as_replayed: "(c, h, j) \<in> se_registered s
    \<Longrightarrow> access_step s (s\<lparr>se_node := snd (replay_check env h j c (se_node s)), se_registered := se_registered s - {(c, h, j)}\<rparr>)"
| as_lost: "access_step s (put_tasks (unregisterIfCurrent h c (nd_tasks (se_node s))) s)"
| as_revoked: "solo env \<Longrightarrow> RevokeAgent env h j reason until (nd_store (se_node s)) = (r, st)
    \<Longrightarrow> access_step s (put_store st s\<lparr>se_closing := (if r = Inr True then h # se_closing s else se_closing s)\<rparr>)"
| as_deleted: "solo env \<Longrightarrow> Store_DeleteAgent env h (nd_store (se_node s)) = (r, st)
    \<Longrightarrow> access_step s (put_store st s\<lparr>se_closing := (if r = Inr True then h # se_closing s else se_closing s)\<rparr>)"
| as_closed: "access_step s (s\<lparr>se_node := snd (close_agent h code (se_node s)), se_closing := remove1 h (se_closing s)\<rparr>)"
| as_store: "solo env \<Longrightarrow> quiet op \<Longrightarrow> mutate env (store_body op now) (nd_store (se_node s)) = (r, st) \<Longrightarrow> access_step s (put_store st s)"
| as_other: "snap (nd_store nd) = snap (nd_store (se_node s)) \<Longrightarrow> wsConnections (nd_tasks nd) = wsConnections (nd_tasks (se_node s))
    \<Longrightarrow> access_step s (s\<lparr>se_node := nd\<rparr>)"

section \<open>What the steps do to the store and the connections\<close>

text \<open>A host that has no record, or a revoked one.\<close>

definition barred :: "string \<Rightarrow> 'g store \<Rightarrow> bool" where
  "barred h st \<longleftrightarrow> (case access_in h (snap st) of None \<Rightarrow> True | Some (_, _, _, rv) \<Rightarrow> rv)"

abbreviation admitted_host :: "Agent \<Rightarrow> bool" where
  "admitted_host a \<equiv> \<not> ag_Revoked a"

lemma host_sat_admitted: "host_sat h admitted_host t \<longleftrightarrow> filed (tx_m t) \<and> (\<exists>pem cur prev. access_in h (tx_m t) = Some (pem, cur, prev, False))"
  by (auto simp: host_sat_def filed_def access_in_def access_def split: option.split)

lemma barred_alt: "\<not> barred h st \<longleftrightarrow> (\<exists>pem cur prev. access_in h (snap st) = Some (pem, cur, prev, False))"
  by (auto simp: barred_def split: option.split)

lemma keeps_admitted: "quiet op \<Longrightarrow> keeps (host_sat h admitted_host) (store_body op now)"
proof (cases "writes_agents op")
  case True
  assume "quiet op"
  have "token_blind admitted_host" by (simp add: token_blind_def)
  with True \<open>quiet op\<close> show ?thesis
    by (cases op) (auto simp: UpdateTokenJTI_tx_def SetSuspended_tx_def intro!: keeps_void keeps_EnrollAgent keeps_putEnrolledAgent keeps_renewal
        keeps_agent_rewrites keeps_update_agent)
qed (simp add: keeps_host_others)

lemma quiet_bars_nobody:
  assumes "solo env" "quiet op" "filed (snap st)" "mutate env (store_body op now) st = (r, st')" "\<not> barred h st"
  shows "\<not> barred h st'"
proof (cases r)
  case (Inl e)
  with mutate_solo(2) [OF assms(1,4)] assms(5) show ?thesis by (simp add: barred_def)
next
  case (Inr x)
  with mutate_solo(3) [OF assms(1,4)] obtain t where t: "store_body op now (newTx (snap st) (e_opts (st_eng st)) (sv_now env)) = (Inr x, t)"
    "snap st' = next_model (Some (piggyback st)) (tx_m t)" by blast
  have "host_sat h admitted_host (newTx (snap st) (e_opts (st_eng st)) (sv_now env))"
    using assms(3,5) by (simp add: host_sat_admitted barred_alt newTx_def)
  from keepsD [OF keeps_admitted [OF assms(2)] this, of now] t show ?thesis
    by (simp add: host_sat_admitted barred_alt)
qed

text \<open>Every operation of a transaction files agents under their name.\<close>

lemma filed_run_op: "filed (tx_m t) \<Longrightarrow> filed (tx_m (run_op op t))"
proof (cases "\<exists>a h. op = OpPutAgent a \<or> op = OpDeleteAgent h")
  case True
  assume "filed (tx_m t)"
  with True show ?thesis by (auto simp: filed_def fmpred_iff PutAgent_def DeleteAgent_def split: option.splits if_splits)
next
  case False
  assume f: "filed (tx_m t)"
  from False have "Agents (payload (tx_m (run_op op t))) = Agents (payload (tx_m t))"
    by (cases op) (auto simp: Agents_frame Agents_PutRelayNode PurgeExpiredBlacklist_def Agents_purge DeleteRelayParentToken_def DeleteLinkToken_def
        Let_def split: option.split)
  with f show ?thesis by (simp add: filed_def)
qed

lemma filed_run_ops: "filed (tx_m t) \<Longrightarrow> filed (tx_m (run_ops ops t))"
  by (induction ops arbitrary: t) (simp_all add: filed_run_op)

lemma filed_mutate:
  assumes "solo env" "mutate env (store_body op now) st = (r, st')" "filed (snap st)"
  shows "filed (snap st')"
proof (cases r)
  case (Inl e)
  with mutate_solo(2) [OF assms(1,2)] assms(3) show ?thesis by simp
next
  case (Inr x)
  let ?t = "newTx (snap st) (e_opts (st_eng st)) (sv_now env)"
  from Inr mutate_solo(3) [OF assms(1,2)] obtain t where t: "store_body op now ?t = (Inr x, t)"
    "snap st' = next_model (Some (piggyback st)) (tx_m t)" by blast
  obtain ops where "fst (mutation_of (store_body op now) ?t) = run_ops ops ?t"
    using through_store_body [of op now] unfolding through_tx_def by blast
  with t have "t = run_ops ops ?t" by (simp add: mutation_of_def)
  with filed_run_ops [of ?t ops] assms(3) t(2) show ?thesis by (simp add: newTx_def)
qed

lemma delete_run:
  assumes "DeleteAgent_tx h (newTx m opts now) = (Inr x, t)"
  shows "Agents (payload (tx_m t)) = (if x then fmdrop h (Agents (payload m)) else Agents (payload m))"
proof -
  from assms obtain t1 where t1: "DeleteAgent (newTx m opts now) h = (t1, x)" "t = (if x then fst (DeleteAuthorizedKey t1 h) else t1)"
    by (auto simp: DeleteAgent_tx_def success_simps tx_val_def split: prod.splits if_splits)
  then show ?thesis by (auto simp: Agents_frame DeleteAgent_def newTx_def undo_simps split: option.splits)
qed

lemma store_delete:
  assumes "solo env" "filed (snap st)" "Store_DeleteAgent env h st = (r, st')"
  shows "filed (snap st') \<and> (\<forall>k. access_in k (snap st') = (if k = h \<and> r = Inr True then None else access_in k (snap st)))"
proof -
  obtain r1 st1 where m: "mutate env (DeleteAgent_tx h) st = (r1, st1)" by (meson surj_pair)
  have snap_vol: "snap (st1\<lparr>st_agentVol := v\<rparr>) = snap st1" for v by (simp add: snap_def)
  with assms(3) m have r: "r = r1" "snap st' = snap st1"
    by (auto simp: Store_DeleteAgent_def bindP_def modify_def ret_def split: sum.splits if_splits)
  show ?thesis
  proof (cases r1)
    case (Inl e)
    with mutate_solo(2) [OF assms(1) m] r assms(2) show ?thesis by simp
  next
    case (Inr x)
    with mutate_solo(3) [OF assms(1) m] obtain t where t: "DeleteAgent_tx h (newTx (snap st) (e_opts (st_eng st)) (sv_now env)) = (Inr x, t)"
      "snap st1 = next_model (Some (piggyback st)) (tx_m t)" by blast
    from delete_run [OF t(1)] assms(2) t(2) r Inr show ?thesis
      by (auto simp: access_in_def [of _ "tx_m t"] access_in_def [of _ "snap st"] filed_def [of "tx_m t"] filed_def [of "snap st"] fmpred_iff)
  qed
qed

lemma connections_answer: "wsConnections (answer k m t) = wsConnections t"
  by (auto simp: answer_def finishTask_def offer_def releaseTask_def releaseLocked_def split: prod.split option.split)

lemma connections_resolve [simp]: "wsConnections (ResolveFuturesForHostname h e t) = wsConnections t"
proof -
  have "wsConnections (fold (\<lambda>k. answer k (m k)) ks t) = wsConnections t" for m ks
    by (induction ks arbitrary: t) (simp_all add: connections_answer)
  then show ?thesis by (simp add: ResolveFuturesForHostname_def)
qed

lemma connections_close: "wsConnections (nd_tasks (snd (close_agent h code nd))) = fmdrop h (wsConnections (nd_tasks nd))"
  by (auto simp: close_agent_def CloseAgent_def undo_simps split: option.split)

lemma connections_lost: "fmlookup (wsConnections (unregisterIfCurrent h c t)) k = Some d \<Longrightarrow>
    fmlookup (wsConnections t) k = Some d \<and> (k = h \<longrightarrow> d \<noteq> c)"
  by (auto simp: unregisterIfCurrent_def UnregisterConnection_def split: option.splits if_splits)

lemma close_keeps_store [simp]: "nd_store (snd (close_agent h code nd)) = nd_store nd"
  by (simp add: close_agent_def split: prod.split)

lemma replay_keeps_store [simp]: "nd_store (snd (replay_check env h j c nd)) = nd_store nd"
  by (simp add: replay_check_def Let_def split: option.split)

lemma replay_connections:
  "fst (replay_check env h j c nd) \<Longrightarrow> snd (replay_check env h j c nd) = nd \<and> \<not> barred h (nd_store nd)"
  "\<not> fst (replay_check env h j c nd) \<Longrightarrow> wsConnections (nd_tasks (snd (replay_check env h j c nd))) = wsConnections (unregisterIfCurrent h c (nd_tasks nd))"
proof -
  show "snd (replay_check env h j c nd) = nd \<and> \<not> barred h (nd_store nd)" if "fst (replay_check env h j c nd)"
    using that GetAgent_Some [of "ae_st env" h "nd_store nd"]
    by (auto simp: replay_check_def agentRevokedCheck_def barred_def split: option.splits if_splits)
  show "wsConnections (nd_tasks (snd (replay_check env h j c nd))) = wsConnections (unregisterIfCurrent h c (nd_tasks nd))"
    if "\<not> fst (replay_check env h j c nd)"
    using that by (auto simp: replay_check_def Let_def split: option.splits)
qed

lemma replay_refuses: "barred h (nd_store nd) \<Longrightarrow> \<not> fst (replay_check env h j c nd)"
  using replay_connections(1) by blast

lemma handshake_keeps:
  assumes "solo (ae_st env)" "filed (snap (nd_store nd))" "agent_handshake env auth nd = (oi, nd')"
  shows "filed (snap (nd_store nd'))" "barred h (nd_store nd') = barred h (nd_store nd)"
    "wsConnections (nd_tasks nd') = wsConnections (nd_tasks nd)"
proof -
  have probe: "nd_store (snd (ProbeConnection env k nd)) = nd_store nd \<and> wsConnections (nd_tasks (snd (ProbeConnection env k nd))) = wsConnections (nd_tasks nd)" for k
    by (auto simp: ProbeConnection_def Let_def split: sum.split)
  from assms(3) have "nd' = nd \<or> (\<exists>k. nd' = snd (ProbeConnection env k nd)) \<or>
      (\<exists>k j r st. ConfirmTokenJTI (ae_st env) k j (nd_store nd) = (r, st) \<and> nd' = nd\<lparr>nd_store := st\<rparr>)"
    by (auto simp: agent_handshake_def checkAgentJTI_def agentJTICheck_def on_store_def split: sum.splits prod.splits option.splits if_splits)
      (metis snd_conv)+
  then have "filed (snap (nd_store nd')) \<and> barred h (nd_store nd') = barred h (nd_store nd) \<and> wsConnections (nd_tasks nd') = wsConnections (nd_tasks nd)"
  proof (elim disjE exE conjE)
    fix k j r st assume c: "ConfirmTokenJTI (ae_st env) k j (nd_store nd) = (r, st)" "nd' = nd\<lparr>nd_store := st\<rparr>"
    have "access_in h (snap st) = access_in h (snap (nd_store nd)) \<or> (\<exists>pem cur prev rv.
        access_in h (snap (nd_store nd)) = Some (pem, cur, prev, rv) \<and> access_in h (snap st) = Some (pem, cur, [], rv))"
      using store_confirm [OF assms(1,2) c(1)] by blast
    with store_confirm [OF assms(1,2) c(1)] c(2) show ?thesis by (auto simp: barred_def)
  qed (use assms(2) probe in auto)
  then show "filed (snap (nd_store nd'))" "barred h (nd_store nd') = barred h (nd_store nd)"
    "wsConnections (nd_tasks nd') = wsConnections (nd_tasks nd)" by simp_all
qed

section \<open>No connection outlives a revocation\<close>

text \<open>
  The invariant: a barred host that no handler is about to close has at most a connection whose check has still to
  be replayed.
\<close>

definition sessions_ok :: "'g sessions \<Rightarrow> bool" where
  "sessions_ok s \<longleftrightarrow> filed (snap (nd_store (se_node s))) \<and>
     (\<forall>h c. fmlookup (wsConnections (nd_tasks (se_node s))) h = Some c \<longrightarrow> barred h (nd_store (se_node s)) \<longrightarrow> h \<notin> set (se_closing s)
        \<longrightarrow> (\<exists>j. (c, h, j) \<in> se_registered s))"

lemma sessions_okI:
  assumes "filed (snap (nd_store (se_node s)))"
    and "\<And>h c. fmlookup (wsConnections (nd_tasks (se_node s))) h = Some c \<Longrightarrow> barred h (nd_store (se_node s)) \<Longrightarrow> h \<notin> set (se_closing s)
        \<Longrightarrow> \<exists>j. (c, h, j) \<in> se_registered s"
  shows "sessions_ok s"
  using assms by (simp add: sessions_ok_def)

lemma sessions_okD:
  assumes "sessions_ok s"
  shows "filed (snap (nd_store (se_node s)))"
    and "fmlookup (wsConnections (nd_tasks (se_node s))) h = Some c \<Longrightarrow> barred h (nd_store (se_node s)) \<Longrightarrow> h \<notin> set (se_closing s)
        \<Longrightarrow> \<exists>j. (c, h, j) \<in> se_registered s"
  using assms by (simp_all add: sessions_ok_def)

text \<open>A step that closes nothing and bars at most hosts that it leaves to be closed.\<close>

lemma sessions_ok_store:
  assumes "sessions_ok s" "filed (snap st)" "\<And>h. barred h st \<Longrightarrow> \<not> barred h (nd_store (se_node s)) \<Longrightarrow> h \<in> set hs" "set (se_closing s) \<subseteq> set hs"
  shows "sessions_ok (put_store st s\<lparr>se_closing := hs\<rparr>)"
  by (rule sessions_okI) (use assms in \<open>auto simp: put_store_def dest: sessions_okD(2)\<close>)

lemma access_step_ok:
  assumes "access_step s s'" "sessions_ok s"
  shows "sessions_ok s'"
  using assms(1)
proof cases
  case (as_checked env auth i nd c)
  show ?thesis unfolding as_checked(1)
    by (rule sessions_okI)
      (use handshake_keeps [OF as_checked(2) sessions_okD(1) [OF assms(2)] as_checked(3)] sessions_okD(2) [OF assms(2)] in auto)
next
  case (as_refused env auth nd)
  show ?thesis unfolding as_refused(1)
    by (rule sessions_okI)
      (use handshake_keeps [OF as_refused(2) sessions_okD(1) [OF assms(2)] as_refused(3)] sessions_okD(2) [OF assms(2)] in auto)
next
  case (as_registered c h j)
  show ?thesis unfolding as_registered(1)
    by (rule sessions_okI) (use sessions_okD [OF assms(2)] in \<open>auto simp: put_tasks_def RegisterConnection_def split: if_splits\<close>)
next
  case (as_replayed c h j env)
  note r = replay_connections [of env h j c "se_node s"]
  show ?thesis unfolding as_replayed(1)
  proof (rule sessions_okI)
    fix k d assume open_k: "fmlookup (wsConnections (nd_tasks (se_node (s\<lparr>se_node := snd (replay_check env h j c (se_node s)), se_registered := se_registered s - {(c, h, j)}\<rparr>)))) k = Some d"
      and b: "barred k (nd_store (se_node (s\<lparr>se_node := snd (replay_check env h j c (se_node s)), se_registered := se_registered s - {(c, h, j)}\<rparr>)))"
      and n: "k \<notin> set (se_closing (s\<lparr>se_node := snd (replay_check env h j c (se_node s)), se_registered := se_registered s - {(c, h, j)}\<rparr>))"
    have d: "fmlookup (wsConnections (nd_tasks (se_node s))) k = Some d" "k = h \<Longrightarrow> d \<noteq> c"
      using open_k b r connections_lost [of h c "nd_tasks (se_node s)" k d] by (cases "fst (replay_check env h j c (se_node s))"; simp)+
    then show "\<exists>j'. (d, k, j') \<in> se_registered (s\<lparr>se_node := snd (replay_check env h j c (se_node s)), se_registered := se_registered s - {(c, h, j)}\<rparr>)"
      using sessions_okD(2) [OF assms(2) d(1)] b n by auto
  qed (use sessions_okD(1) [OF assms(2)] in simp)
next
  case (as_lost h c)
  show ?thesis unfolding as_lost
    by (rule sessions_okI) (use sessions_okD [OF assms(2)] in \<open>auto simp: put_tasks_def dest: connections_lost\<close>)
next
  case (as_revoked env h j reason until r st)
  show ?thesis unfolding as_revoked(1)
    by (rule sessions_ok_store [OF assms(2)])
      (use store_revoke [OF as_revoked(2) sessions_okD(1) [OF assms(2)] as_revoked(3)] in \<open>auto simp: barred_def split: if_splits\<close>)
next
  case (as_deleted env h r st)
  show ?thesis unfolding as_deleted(1)
    by (rule sessions_ok_store [OF assms(2)])
      (use store_delete [OF as_deleted(2) sessions_okD(1) [OF assms(2)] as_deleted(3)] in \<open>auto simp: barred_def split: if_splits\<close>)
next
  case (as_closed h code)
  show ?thesis unfolding as_closed
    by (rule sessions_okI) (use sessions_okD [OF assms(2)] in \<open>auto simp: connections_close in_set_remove1 split: if_splits\<close>)
next
  case (as_store env op now r st)
  have "sessions_ok (put_store st s\<lparr>se_closing := se_closing s\<rparr>)"
    using quiet_bars_nobody [OF as_store(2,3) sessions_okD(1) [OF assms(2)] as_store(4)]
      filed_mutate [OF as_store(2,4) sessions_okD(1) [OF assms(2)]] by (intro sessions_ok_store [OF assms(2)]) auto
  then show ?thesis unfolding as_store(1) by (simp add: put_store_def)
next
  case (as_other nd)
  show ?thesis unfolding as_other(1)
    by (rule sessions_okI) (use as_other(2,3) sessions_okD [OF assms(2)] in \<open>auto simp: barred_def\<close>)
qed (use sessions_okD [OF assms(2)] in \<open>auto intro: sessions_okI\<close>)

lemma access_steps_ok: "access_step\<^sup>*\<^sup>* s s' \<Longrightarrow> sessions_ok s \<Longrightarrow> sessions_ok s'"
  by (induction rule: rtranclp_induct) (auto intro: access_step_ok)

text \<open>
  C24. No connection outlives a revocation. However handshakes, revocations, deletions and every other write of the
  store interleave: when the record of a host is revoked or gone and no handler is still about to close its
  connection, then the host has no connection, or one whose handshake has not yet replayed the check, and that
  replay ends the connection.
\<close>

theorem revoked_connection_cut:
  assumes "access_step\<^sup>*\<^sup>* s0 s" "filed (snap (nd_store (se_node s0)))" "wsConnections (nd_tasks (se_node s0)) = fmempty"
    and "barred h (nd_store (se_node s))" "h \<notin> set (se_closing s)" "fmlookup (wsConnections (nd_tasks (se_node s))) h = Some c"
  shows "\<exists>j. (c, h, j) \<in> se_registered s \<and> (\<forall>env. \<not> fst (replay_check env h j c (se_node s)) \<and>
      fmlookup (wsConnections (nd_tasks (snd (replay_check env h j c (se_node s))))) h = None)"
proof -
  have "sessions_ok s0" by (rule sessions_okI) (use assms(2,3) in simp_all)
  from sessions_okD(2) [OF access_steps_ok [OF assms(1) this] assms(6,4,5)] obtain j where j: "(c, h, j) \<in> se_registered s" by blast
  have "fmlookup (wsConnections (nd_tasks (snd (replay_check env h j c (se_node s))))) h = None" for env
  proof (cases "fmlookup (wsConnections (nd_tasks (snd (replay_check env h j c (se_node s))))) h")
    case (Some d)
    then have "fmlookup (wsConnections (unregisterIfCurrent h c (nd_tasks (se_node s)))) h = Some d"
      using replay_connections(2) [OF replay_refuses [OF assms(4)]] by metis
    from connections_lost [OF this] assms(6) have False by auto
    then show ?thesis ..
  qed simp
  with j replay_refuses [OF assms(4)] show ?thesis by blast
qed

section \<open>The handlers run by these steps\<close>

text \<open>
  The handlers of Agent_Access, run alone, are paths of the relation: no step of theirs is missing, and the
  handlers of revocation and deletion leave nothing to be closed.
\<close>

definition runs_to :: "'g sessions \<Rightarrow> 'g agent_node \<Rightarrow> string list \<Rightarrow> bool" where
  "runs_to s nd hs \<longleftrightarrow> (\<exists>s'. access_step\<^sup>*\<^sup>* s s' \<and> se_node s' = nd \<and> se_closing s' = hs)"

lemma runs_refl: "runs_to s (se_node s) (se_closing s)"
  by (auto simp: runs_to_def)

lemma runs_step: "access_step s s1 \<Longrightarrow> runs_to s1 nd hs \<Longrightarrow> runs_to s nd hs"
  by (auto simp: runs_to_def intro: converse_rtranclp_into_rtranclp)

lemma runs_ends:
  assumes "snap (nd_store nd) = snap (nd_store (se_node s))" "wsConnections (nd_tasks nd) = wsConnections (nd_tasks (se_node s))" "hs = se_closing s"
  shows "runs_to s nd hs"
  using runs_step [OF as_other [OF assms(1,2)] runs_refl] assms(3) by simp

lemma runs_close: "runs_to (s\<lparr>se_node := snd (close_agent h code (se_node s)), se_closing := remove1 h (se_closing s)\<rparr>) nd hs \<Longrightarrow> runs_to s nd hs"
  by (rule runs_step [OF as_closed])

lemma on_store_parts [simp]: "nd_tasks (snd (on_store p nd)) = nd_tasks nd" "nd_store (snd (on_store p nd)) = snd (p (nd_store nd))"
  by (simp_all add: on_store_def split: prod.split)

lemma put_store_twice: "put_store st (put_store st s\<lparr>se_closing := hs\<rparr>) = put_store st s\<lparr>se_closing := hs\<rparr>"
  by (cases s) (simp add: put_store_def)

lemma mutate_void: "snd (mutate env (void p) s) = snd (mutate env p s)"
proof -
  have "mutation_of (void p) = mutation_of p"
    by (auto simp: fun_eq_iff mutation_of_def void_def bindP_def ret_def split: prod.split sum.split)
  then show ?thesis by (simp add: mutate_def Let_def split: prod.split option.split)
qed

text \<open>A store operation that bars no host, whatever it returns.\<close>

lemma runs_store:
  assumes "solo env" "quiet op" "store_body op now = void p" "mutate env p (nd_store (se_node s)) = (r, st)" "runs_to (put_store st s) nd hs"
  shows "runs_to s nd hs"
proof (rule runs_step [OF as_store assms(5)])
  show "mutate env (store_body op now) (nd_store (se_node s)) = (fst (mutate env (store_body op now) (nd_store (se_node s))), st)"
    using mutate_void [of env p "nd_store (se_node s)"] assms(3,4) by (simp add: prod_eq_iff)
qed (use assms(1,2) in simp_all)

lemma snap_touch [simp]: "snap (snd (UpdateAgentStatus env h status seen st)) = snap st"
  by (simp add: UpdateAgentStatus_def bindP_gets modify_def ret_def touchAgent_def snap_def Let_def)

lemma revoke_runs:
  assumes "solo (ae_st env)" "AdminRevokeMinion env auth h (se_node s) = (resp, nd)"
  shows "runs_to s nd (se_closing s)"
proof (cases "requireAdminAuth auth (se_node s) = None \<and> h \<noteq> [] \<and> GetAgent (ae_st env) h (nd_store (se_node s)) \<noteq> None")
  case True
  then obtain a where a: "GetAgent (ae_st env) h (nd_store (se_node s)) = Some a" by auto
  obtain r st where rv: "RevokeAgent (ae_st env) h (ar_TokenJTI a) ''admin_revoke'' (ae_now env + blacklist_time) (nd_store (se_node s)) = (r, st)"
    by (meson surj_pair)
  let ?s1 = "put_store st s\<lparr>se_closing := (if r = Inr True then h # se_closing s else se_closing s)\<rparr>"
  let ?s2 = "?s1\<lparr>se_node := snd (close_agent h WSCloseRevoked (se_node ?s1)), se_closing := remove1 h (se_closing ?s1)\<rparr>"
  show ?thesis
  proof (rule runs_step [OF as_revoked [OF assms(1) rv]], cases "r = Inr True")
    case True
    have nd: "nd = dispatch ''host.revoked'' h ''revoked'' (snd (on_store (UpdateAgentStatus (ae_st env) h ''disconnected'' []) (se_node ?s2)))"
      using assms(2) a rv True \<open>requireAdminAuth auth (se_node s) = None \<and> _\<close>
      by (auto simp: AdminRevokeMinion_def on_store_def put_store_def Let_def simp del: close_keeps_store split: prod.splits)
    have "runs_to ?s2 nd (se_closing s)"
      using True by (intro runs_ends) (simp_all add: nd dispatch_def)
    then show "runs_to ?s1 nd (se_closing s)" by (rule runs_close)
  next
    case False
    then have "nd = se_node ?s1"
      using assms(2) a rv \<open>requireAdminAuth auth (se_node s) = None \<and> _\<close>
      by (auto simp: AdminRevokeMinion_def on_store_def put_store_def split: sum.splits bool.splits)
    with False runs_refl [of ?s1] show "runs_to ?s1 nd (se_closing s)" by simp
  qed
next
  case False
  with assms(2) have "nd = se_node s" by (auto simp: AdminRevokeMinion_def split: option.splits if_splits)
  with runs_refl [of s] show ?thesis by simp
qed

text \<open>The last part of a deletion, with the revocation still to be followed by a close.\<close>

lemma close_twice:
  "(if isl (GetConnection h (nd_tasks nd)) then (False, nd) else close_agent h code nd) = close_agent h code nd"
  by (auto simp: GetConnection_def close_agent_def CloseAgent_def split: option.split)

lemma delete_revoked_runs:
  assumes "solo (ae_st env)" "delete_revoked env h (se_node s) = (resp, nd)"
  shows "runs_to s nd (remove1 h (se_closing s))"
proof -
  obtain r st where d: "Store_DeleteAgent (ae_st env) h (nd_store (se_node s)) = (r, st)" by (meson surj_pair)
  let ?s1 = "put_store st s\<lparr>se_closing := (if r = Inr True then h # se_closing s else se_closing s)\<rparr>"
  let ?close = "\<lambda>code s. s\<lparr>se_node := snd (close_agent h code (se_node s)), se_closing := remove1 h (se_closing s)\<rparr>"
  show ?thesis
  proof (rule runs_step [OF as_deleted [OF assms(1) d]], cases "r = Inr True")
    case True
    let ?s3 = "?close WSCloseNormal (?close WSCloseNormal ?s1)"
    have nd: "nd = dispatch ''host.deleted'' h ''deleted'' (se_node ?s3)"
      using assms(2) d True by (auto simp: delete_revoked_def on_store_def put_store_def close_twice split: prod.splits)
    have "runs_to ?s3 nd (remove1 h (se_closing s))"
      using True by (intro runs_ends) (simp_all add: nd dispatch_def)
    then show "runs_to ?s1 nd (remove1 h (se_closing s))" by (rule runs_close [OF runs_close])
  next
    case False
    let ?s2 = "?close WSCloseRevoked ?s1"
    have "nd = se_node ?s2"
      using assms(2) d False by (auto simp: delete_revoked_def on_store_def put_store_def split: sum.splits bool.splits prod.splits)
    with False runs_close [OF runs_refl [of ?s2]] show "runs_to ?s1 nd (remove1 h (se_closing s))" by simp
  qed
qed

lemma blacklist_runs:
  assumes "solo env" "AddToBlacklist env jti h expires (Some reason) (nd_store (se_node s)) = (r, st)" "runs_to (put_store st s) nd hs"
  shows "runs_to s nd hs"
proof (cases "sv_parseTime env expires")
  case None
  with assms(2) have "put_store st s = s" by (simp add: AddToBlacklist_def raise_def put_store_def)
  with assms(3) show ?thesis by simp
next
  case (Some t)
  with assms(2) have m: "mutate env (store_body (SAddToBlacklist jti h reason t) (nowUTC env)) (nd_store (se_node s)) = (r, st)"
    by (simp add: AddToBlacklist_def)
  show ?thesis by (rule runs_step [OF as_store [OF assms(1) _ m] assms(3)]) simp
qed

text \<open>The deletion once the revocation is written: the replaced token is blacklisted first.\<close>

lemma delete_after_revoke:
  assumes "solo (ae_st env)"
    and "(if prev = [] then delete_revoked env h (se_node s)
      else case on_store (AddToBlacklist (ae_st env) prev h expires (Some reason)) (se_node s) of
        (Inl _, nd2) \<Rightarrow> (refusal_resp 500 ''db_error'', snd (close_agent h WSCloseRevoked nd2))
      | (Inr _, nd2) \<Rightarrow> delete_revoked env h nd2) = (resp, nd)"
  shows "runs_to s nd (remove1 h (se_closing s))"
proof (cases "prev = []")
  case True
  with assms(2) show ?thesis by (intro delete_revoked_runs [OF assms(1)]) simp
next
  case False
  obtain r st where ab: "AddToBlacklist (ae_st env) prev h expires (Some reason) (nd_store (se_node s)) = (r, st)" by (meson surj_pair)
  let ?s2 = "put_store st s"
  have "runs_to ?s2 nd (remove1 h (se_closing ?s2))"
  proof (cases r)
    case (Inl e)
    with False assms(2) ab have "nd = snd (close_agent h WSCloseRevoked (se_node ?s2))"
      by (auto simp: on_store_def put_store_def)
    then show ?thesis by (rule_tac runs_close [where h = h and code = WSCloseRevoked], rule_tac runs_ends) simp_all
  next
    case (Inr u)
    with False assms(2) ab show ?thesis by (intro delete_revoked_runs [OF assms(1)]) (simp add: on_store_def put_store_def)
  qed
  from blacklist_runs [OF assms(1) ab this] show ?thesis by (simp add: put_store_def)
qed

lemma delete_runs:
  assumes "solo (ae_st env)" "AdminDeleteMinion env auth h (se_node s) = (resp, nd)"
  shows "\<exists>hs. runs_to s nd hs \<and> set hs \<subseteq> set (se_closing s)"
proof (cases "requireAdminAuth auth (se_node s) = None \<and> h \<noteq> [] \<and> GetAgent (ae_st env) h (nd_store (se_node s)) \<noteq> None")
  case ready: True
  then obtain a where a: "GetAgent (ae_st env) h (nd_store (se_node s)) = Some a" by auto
  obtain r st where rv: "RevokeAgent (ae_st env) h (ar_TokenJTI a) ''admin_delete'' (ae_now env + blacklist_time) (nd_store (se_node s)) = (r, st)"
    by (meson surj_pair)
  let ?s1 = "put_store st s\<lparr>se_closing := (if r = Inr True then h # se_closing s else se_closing s)\<rparr>"
  have "\<exists>hs. runs_to ?s1 nd hs \<and> set hs \<subseteq> set (se_closing s)"
  proof (cases r)
    case (Inl e)
    with assms(2) a rv ready have "nd = se_node ?s1" by (auto simp: AdminDeleteMinion_def on_store_def put_store_def Let_def)
    with Inl runs_refl [of ?s1] show ?thesis by (intro exI [of _ "se_closing s"]) simp
  next
    case (Inr b)
    with assms(2) a rv ready have "(if ar_PrevTokenJTI a = [] then delete_revoked env h (se_node ?s1)
        else case on_store (AddToBlacklist (ae_st env) (ar_PrevTokenJTI a) h (sv_formatTime (ae_st env) (ae_now env + blacklist_time))
            (Some ''admin_delete'')) (se_node ?s1) of
          (Inl _, nd2) \<Rightarrow> (refusal_resp 500 ''db_error'', snd (close_agent h WSCloseRevoked nd2))
        | (Inr _, nd2) \<Rightarrow> delete_revoked env h nd2) = (resp, nd)"
      by (cases "ar_PrevTokenJTI a = []") (simp_all add: AdminDeleteMinion_def on_store_def put_store_def Let_def)
    from delete_after_revoke [OF assms(1) this] show ?thesis
      by (rule_tac exI [of _ "remove1 h (se_closing ?s1)"]) (simp add: set_remove1_subset)
  qed
  with runs_step [OF as_revoked [OF assms(1) rv]] show ?thesis by blast
next
  case False
  with assms(2) have "nd = se_node s" by (auto simp: AdminDeleteMinion_def split: option.splits if_splits)
  with runs_refl [of s] show ?thesis by auto
qed

lemma send_connections: "wsConnections (snd (SendToAgent w h t ts)) = wsConnections ts"
  by (auto simp: SendToAgent_def of_err_def ret_def raise_def split: sum.splits option.splits)

lemma rekey_runs:
  assumes "solo (ae_st env)" "issueRekey env h secret ttl (se_node s) = (r, nd)"
  shows "runs_to s nd (se_closing s)"
proof (cases "nd = se_node s")
  case True
  with runs_refl [of s] show ?thesis by simp
next
  case False
  with assms(2) obtain raw jti where "signAgentJWT env h secret ttl = Inr (raw, jti)"
    by (auto simp: issueRekey_def split: option.splits if_splits sum.splits)
  obtain r2 st where u: "mutate (ae_st env) (UpdateTokenJTIUnlessRevoked_tx h jti) (nd_store (se_node s)) = (r2, st)" by (meson surj_pair)
  with False assms(2) \<open>signAgentJWT env h secret ttl = _\<close>
  have "nd_store nd = st" "wsConnections (nd_tasks nd) = wsConnections (nd_tasks (se_node s))"
    using send_connections [of "ae_written env" h None "nd_tasks (se_node s)"]
    by (auto simp: issueRekey_def on_store_def UpdateTokenJTIUnlessRevoked_def split: option.splits if_splits sum.splits bool.splits prod.splits)
  then have "runs_to (put_store st s) nd (se_closing s)" by (intro runs_ends) (simp_all add: put_store_def)
  from runs_store [OF assms(1) _ _ u this, of "SUpdateTokenJTIUnlessRevoked h jti"] show ?thesis by simp
qed

lemma runs_trans: "access_step\<^sup>*\<^sup>* s s1 \<Longrightarrow> runs_to s1 nd hs \<Longrightarrow> runs_to s nd hs"
  by (auto simp: runs_to_def intro: rtranclp_trans)

lemma opening_runs:
  assumes "solo (ae_st env)" "opening_rekey env i (se_node s) = (b, nd)"
  shows "runs_to s nd (se_closing s)"
proof (cases "id_UsedPrevious i")
  case True
  obtain r nd1 where k: "issueRekey env (id_Hostname i) (ss_JWTSecret (nd_server (se_node s))) (ss_JWTttl (nd_server (se_node s))) (se_node s) = (r, nd1)"
    by (meson surj_pair)
  obtain s1 where s1: "access_step\<^sup>*\<^sup>* s s1" "se_node s1 = nd1" "se_closing s1 = se_closing s"
    using rekey_runs [OF assms(1) k] by (auto simp: runs_to_def)
  have "snap (nd_store nd) = snap (nd_store nd1) \<and> wsConnections (nd_tasks nd) = wsConnections (nd_tasks nd1)"
    using assms(2) True k by (auto simp: opening_rekey_def RekeyAgent_def sendRekeyToAgent_def split: if_splits)
  with s1 show ?thesis by (intro runs_trans [OF s1(1)] runs_ends) simp_all
next
  case False
  with assms(2) have "nd = se_node s" by (simp add: opening_rekey_def)
  with runs_refl [of s] show ?thesis by simp
qed

lemma handler_runs:
  assumes "solo (ae_st env)" "AgentHandler env params auth c (se_node s) = (out, nd)"
  shows "runs_to s nd (se_closing s)"
proof (cases "agent_handshake env auth (se_node s)")
  case (Pair oi nd1)
  show ?thesis
  proof (cases oi)
    case None
    with assms(2) Pair have "nd = nd1" by (simp add: AgentHandler_def)
    with None runs_step [OF as_refused [OF assms(1)] runs_refl] Pair show ?thesis by fastforce
  next
    case (Some i)
    let ?x = "(c, id_Hostname i, id_JTI i)"
    let ?s1 = "s\<lparr>se_node := nd1, se_checked := insert ?x (se_checked s)\<rparr>"
    let ?s2 = "put_tasks (RegisterConnection (id_Hostname i) c (nd_tasks (se_node ?s1))) ?s1
      \<lparr>se_checked := se_checked ?s1 - {?x}, se_registered := insert ?x (se_registered ?s1)\<rparr>"
    let ?s3 = "?s2\<lparr>se_node := snd (replay_check env (id_Hostname i) (id_JTI i) c (se_node ?s2)), se_registered := se_registered ?s2 - {?x}\<rparr>"
    have step1: "access_step s ?s1" using Pair Some by (intro as_checked [OF assms(1)]) simp
    have step2: "access_step ?s1 ?s2" by (rule as_registered) simp
    have step3: "access_step ?s2 ?s3" by (rule as_replayed) simp
    have "runs_to ?s1 nd (se_closing s)"
    proof (cases "ae_upgraded env")
      case True
      obtain ok nd3 where rc: "replay_check env (id_Hostname i) (id_JTI i) c (se_node ?s2) = (ok, nd3)" by (meson surj_pair)
      have "runs_to ?s3 nd (se_closing ?s3)"
      proof (cases ok)
        case True
        with assms(2) Pair Some \<open>ae_upgraded env\<close> rc obtain b where "opening_rekey env i (se_node ?s3) = (b, nd)"
          unfolding AgentHandler_def by (auto simp: put_tasks_def Let_def split: prod.splits)
        then show ?thesis by (rule opening_runs [OF assms(1)])
      next
        case False
        with assms(2) Pair Some \<open>ae_upgraded env\<close> rc have "nd = se_node ?s3"
          unfolding AgentHandler_def by (auto simp: put_tasks_def Let_def)
        with runs_refl [of ?s3] show ?thesis by simp
      qed
      from runs_step [OF step2 runs_step [OF step3 this]] show ?thesis by (simp add: put_tasks_def)
    next
      case False
      with assms(2) Pair Some have "nd = nd1" by (simp add: AgentHandler_def)
      with runs_refl [of ?s1] show ?thesis by simp
    qed
    from runs_step [OF step1 this] show ?thesis .
  qed
qed

section \<open>A run\<close>

text \<open>A handshake passes its check; the host is revoked and its (absent) connection closed; then the handshake registers.\<close>

abbreviation ex_before :: "unit agent_node" where
  "ex_before \<equiv> ex_anode [(unix_time 10, SEnrollAgent [] ''web1'' ''pubagent'' ''u2'' ''admin'')]"

definition ex_revoked_store :: "unit store" where
  "ex_revoked_store = snd (RevokeAgent (ex_asenv (unix_time 210)) ''web1'' ''u2'' ''lost'' (unix_time 400) (nd_store ex_before))"

definition ex_sessions :: "unit agent_node \<Rightarrow> unit sessions" where
  "ex_sessions nd = \<lparr>se_node = nd, se_checked = {}, se_registered = {}, se_closing = []\<rparr>"

definition ex_late :: "unit sessions" where
  "ex_late = \<lparr>se_node = ex_before\<lparr>nd_store := ex_revoked_store, nd_tasks := RegisterConnection ''web1'' 9 initial_tasks\<rparr>,
     se_checked = {}, se_registered = {(9, ''web1'', ''u2'')}, se_closing = []\<rparr>"

lemma ex_before_access: "access_in ''web1'' (snap (nd_store ex_before)) = Some (''pubagent'', ''u2'', [], False)"
  "\<not> listed_in ''u2'' (snap (nd_store ex_before))"
  by code_simp+

lemma ex_before_filed: "filed (snap (nd_store ex_before))"
  by (rule ex_anode_filed) (simp_all add: unix_time_def second_def)

lemma ex_revoke_run: "RevokeAgent (ex_asenv (unix_time 210)) ''web1'' ''u2'' ''lost'' (unix_time 400) (nd_store ex_before) = (Inr True, ex_revoked_store)"
proof -
  have "fst (RevokeAgent (ex_asenv (unix_time 210)) ''web1'' ''u2'' ''lost'' (unix_time 400) (nd_store ex_before)) = Inr True" by code_simp
  then show ?thesis by (simp add: ex_revoked_store_def prod_eq_iff)
qed

lemma ex_revoked_barred: "barred ''web1'' ex_revoked_store"
proof -
  have "solo (ex_asenv (unix_time 210))" using solo_ex [of "unix_time 210" "''u2''"] by simp
  from store_revoke [OF this ex_before_filed ex_revoke_run] ex_before_access(1) show ?thesis by (auto simp: barred_def)
qed

lemma ex_before_handshake:
  "\<exists>i. agent_handshake (ex_aenv (unix_time 200) ''x'') (Bearer @ ''raw'') ex_before = (Some i, ex_before) \<and> id_Hostname i = ''web1'' \<and> id_JTI i = ''u2''"
proof -
  let ?env = "ex_aenv (unix_time 200) ''x''"
  obtain a where a: "GetAgent (ae_st ?env) ''web1'' (nd_store ex_before) = Some a"
    using ex_before_access(1) GetAgent_None [of "ae_st ?env" "''web1''" "nd_store ex_before"]
    by (cases "GetAgent (ae_st ?env) ''web1'' (nd_store ex_before)") simp_all
  from GetAgent_Some [OF a] ex_before_access(1) have "ar_TokenJTI a = ''u2''" "ar_PrevTokenJTI a = []" "\<not> ar_Revoked a" by simp_all
  with a ex_before_access(2) have chk: "checkAgentJTI ?env ''web1'' ''u2'' ex_before = (None, ex_before)"
    by (simp add: checkAgentJTI_def agentJTICheck_def IsJTIBlacklisted_alt)
  have "unix_time 200 < unix_time (unix_sec (unix_time 100 + 24 * hour))"
    by (simp add: unix_time_def second_def hour_def unix_sec_def)
  then have "\<exists>i. authenticateAgentRequest ex_alib (unix_time 200) (Some (GetJWTSecrets ex_server)) (Bearer @ ''raw'') = Inr i \<and> id_Hostname i = ''web1'' \<and> id_JTI i = ''u2''"
    unfolding GetJWTSecrets_def by (subst signed_token_accepted [OF ex_alib_laws(1) ex_sign [folded ex_selectors(14)]]) simp_all
  with chk show ?thesis by (auto simp: agent_handshake_def)
qed

lemma close_absent: "fmlookup (wsConnections (nd_tasks nd)) h = None \<Longrightarrow> close_agent h code nd = (False, nd)"
  by (simp add: close_agent_def CloseAgent_def)

lemma ex_late_reached: "access_step\<^sup>*\<^sup>* (ex_sessions ex_before) ex_late"
proof -
  obtain i where i: "agent_handshake (ex_aenv (unix_time 200) ''x'') (Bearer @ ''raw'') ex_before = (Some i, ex_before)"
    "id_Hostname i = ''web1''" "id_JTI i = ''u2''" using ex_before_handshake by blast
  have solo: "solo (ex_asenv (unix_time 210))" "solo (ae_st (ex_aenv (unix_time 200) ''x''))" using solo_ex by simp_all
  let ?s1 = "(ex_sessions ex_before)\<lparr>se_checked := {(9, ''web1'', ''u2'')}\<rparr>"
  let ?s2 = "(ex_sessions (ex_before\<lparr>nd_store := ex_revoked_store\<rparr>))\<lparr>se_checked := {(9, ''web1'', ''u2'')}, se_closing := [''web1'']\<rparr>"
  let ?s3 = "?s2\<lparr>se_closing := []\<rparr>"
  have "access_step (ex_sessions ex_before) ?s1"
    using as_checked [OF solo(2), of _ "ex_sessions ex_before" i ex_before 9] i by (simp add: ex_sessions_def)
  moreover have "access_step ?s1 ?s2"
    using as_revoked [OF solo(1), of "''web1''" "''u2''" "''lost''" "unix_time 400" ?s1] ex_revoke_run by (simp add: ex_sessions_def put_store_def)
  moreover have "access_step ?s2 ?s3"
    using as_closed [of ?s2 "''web1''" WSCloseRevoked] by (simp add: ex_sessions_def close_absent initial_tasks_def)
  moreover have "access_step ?s3 ex_late"
    using as_registered [of 9 "''web1''" "''u2''" ?s3] by (simp add: ex_sessions_def ex_late_def put_tasks_def)
  ultimately show ?thesis by (meson r_into_rtranclp rtranclp_trans)
qed

theorem revoked_connection_cut_witness:
  "\<not> fst (replay_check (ex_aenv (unix_time 211) ''x'') ''web1'' ''u2'' 9 (se_node ex_late))"
proof -
  have "\<exists>j. (9, ''web1'', j) \<in> se_registered ex_late \<and> (\<forall>env. \<not> fst (replay_check env ''web1'' j 9 (se_node ex_late)) \<and>
      fmlookup (wsConnections (nd_tasks (snd (replay_check env ''web1'' j 9 (se_node ex_late))))) ''web1'' = None)"
    by (rule revoked_connection_cut [OF ex_late_reached])
      (simp_all add: ex_sessions_def ex_late_def ex_before_filed ex_revoked_barred RegisterConnection_def initial_tasks_def)
  then show ?thesis by (auto simp: ex_late_def)
qed
end
