(* ===== verification/Plugin_Auth.thy ===== *)
theory Plugin_Auth
  imports Agent_Access Dial_Policy
begin

text \<open>
  Authentication of the callers of the API (\<open>handlers/plugin_auth.go\<close>, \<open>handlers/clientip.go\<close>, \<open>PluginTokenCheckIP\<close> of
  \<open>storage/store_plugin_tokens.go\<close>): plugin tokens, and the address of the client behind trusted reverse proxies.

  The parsers of addresses are those of the record \<open>NetLib\<close>; the text of an address is a parameter as well.
\<close>

section \<open>The address of the client\<close>

record http_request =
  hr_Authorization :: string
  hr_RemoteAddr :: string
  hr_ForwardedFor :: "string list"
  hr_ClientHost :: string
  hr_RelayHops :: string
  hr_hostname :: string

record proxy_config =
  pc_net :: NetLib
  pc_ipString :: "ip \<Rightarrow> string"
  pc_trusted :: "IPNet list"

text \<open>\<open>ParseTrustedProxyCIDRs\<close>; the mask of an IPv4 network has four bytes.\<close>

fun parse_trusted :: "NetLib \<Rightarrow> string list \<Rightarrow> IPNet list \<Rightarrow> IPNet list res" where
  "parse_trusted N [] out = Inr out"
| "parse_trusted N (p # ps) out =
     (let part = TrimSpace p in
      if part = [] then parse_trusted N ps out
      else case nl_ParseCIDR N part of
        None \<Rightarrow> Inl [ErrText ''invalid CIDR'']
      | Some (_, n) \<Rightarrow>
          if mask_ones (n_Mask n) = 0 then Inl [ErrText ''trusts every address'']
          else if length (n_Mask n) = 16 \<and> To4 (n_IP n) \<noteq> None \<and> mask_ones (n_Mask n) \<le> 96 then Inl [ErrText ''trusts every IPv4 address'']
          else parse_trusted N ps (out @ [n]))"

definition ParseTrustedProxyCIDRs :: "NetLib \<Rightarrow> string \<Rightarrow> IPNet list res" where
  "ParseTrustedProxyCIDRs N lst = parse_trusted N (split_on (CHR '','') lst) []"

definition isTrustedProxy :: "proxy_config \<Rightarrow> ip option \<Rightarrow> bool" where
  "isTrustedProxy P a = (case a of None \<Rightarrow> False | Some i \<Rightarrow> list_ex (\<lambda>n. net_Contains n i) (pc_trusted P))"

definition stripPort :: "NetLib \<Rightarrow> string \<Rightarrow> string" where
  "stripPort N addr = (case nl_SplitHostPort N addr of None \<Rightarrow> addr | Some (host, _) \<Rightarrow> host)"

definition forwarded_entries :: "string list \<Rightarrow> string list" where
  "forwarded_entries hs = concat (map (\<lambda>h. map TrimSpace (split_on (CHR '','') h)) hs)"

text \<open>The walk over the entries, from the right: the list is reversed.\<close>

fun walk :: "proxy_config \<Rightarrow> string \<Rightarrow> string list \<Rightarrow> string" where
  "walk P peer [] = peer"
| "walk P peer (e # es) =
     (case nl_ParseIP (pc_net P) (stripPort (pc_net P) e) of
        None \<Rightarrow> peer
      | Some a \<Rightarrow> if isTrustedProxy P (Some a) then walk P peer es else pc_ipString P a)"

definition clientAddr :: "proxy_config \<Rightarrow> http_request \<Rightarrow> string \<times> string" where
  "clientAddr P r =
     (let peer0 = stripPort (pc_net P) (hr_RemoteAddr r);
          peerIP = nl_ParseIP (pc_net P) peer0;
          peer = (case peerIP of None \<Rightarrow> peer0 | Some a \<Rightarrow> pc_ipString P a) in
      if \<not> isTrustedProxy P peerIP then (peer, peer)
      else (walk P peer (rev (forwarded_entries (hr_ForwardedFor r))), peer))"

definition extractClientIP :: "proxy_config \<Rightarrow> http_request \<Rightarrow> string" where
  "extractClientIP P r = fst (clientAddr P r)"

section \<open>Plugin tokens\<close>

fun check_cidrs :: "NetLib \<Rightarrow> ip \<Rightarrow> string list \<Rightarrow> bool res" where
  "check_cidrs N a [] = Inr False"
| "check_cidrs N a (c # cs) =
     (let cidr = TrimSpace c in
      if cidr = [] then check_cidrs N a cs
      else case nl_ParseCIDR N cidr of
        None \<Rightarrow> Inl [ErrText ''invalid CIDR'']
      | Some (_, network) \<Rightarrow> if net_Contains network a then Inr True else check_cidrs N a cs)"

definition PluginTokenCheckIP :: "NetLib \<Rightarrow> string \<Rightarrow> string \<Rightarrow> bool res" where
  "PluginTokenCheckIP N allowedIPs remoteAddr =
     (if allowedIPs = [] then Inr True
      else case nl_ParseIP N (stripPort N remoteAddr) of
        None \<Rightarrow> Inl [ErrText ''invalid remote IP'']
      | Some a \<Rightarrow> check_cidrs N a (split_on (CHR '','') allowedIPs))"

definition requirePluginAuth :: "'g aenv \<Rightarrow> proxy_config \<Rightarrow> http_request \<Rightarrow> 'g store \<Rightarrow> (resp + PluginToken \<times> string) \<times> 'g store" where
  "requirePluginAuth env P r s =
     (if \<not> has_prefix (hr_Authorization r) Bearer \<or> drop 7 (hr_Authorization r) = [] then (Inl (refusal_resp 401 ''missing_authorization''), s)
      else case GetPluginTokenByHash (tokenHash env (drop 7 (hr_Authorization r))) s of
        None \<Rightarrow> (Inl (refusal_resp 403 ''token_not_found''), s)
      | Some tok \<Rightarrow>
          if pt_Revoked tok then (Inl (refusal_resp 403 ''token_revoked''), s)
          else if (case pt_ExpiresAt tok of None \<Rightarrow> False | Some t \<Rightarrow> ae_now env > t) then (Inl (refusal_resp 403 ''token_expired''), s)
          else
            let clientIP = fst (clientAddr P r) in
            case (if pt_AllowedIPs tok \<noteq> [] then PluginTokenCheckIP (pc_net P) (pt_AllowedIPs tok) clientIP else Inr True) of
              Inl _ \<Rightarrow> (Inl (refusal_resp 403 ''ip_validation_error''), s)
            | Inr False \<Rightarrow> (Inl (refusal_resp 403 ''ip_not_allowed''), s)
            | Inr True \<Rightarrow>
                case (if pt_AllowedHostnamePattern tok \<noteq> [] then PluginTokenCheckHostname (ae_match env) (pt_AllowedHostnamePattern tok) (hr_ClientHost r)
                      else Inr True) of
                  Inl _ \<Rightarrow> (Inl (refusal_resp 403 ''hostname_validation_error''), s)
                | Inr False \<Rightarrow> (Inl (refusal_resp 403 ''hostname_not_allowed''), s)
                | Inr True \<Rightarrow> (Inr (tok, clientIP), snd (TouchPluginToken (ae_st env) (pt_ID tok) clientIP s)))"

section \<open>Forged addresses\<close>

lemma split_on_nonempty: "split_on c s \<noteq> []"
  by (cases s) (auto split: list.split)

lemma split_on_append: "split_on c (f @ c # h) = split_on c f @ split_on c h"
proof (induction f)
  case (Cons x f)
  with split_on_nonempty [of c f] show ?case by (cases "split_on c f") auto
qed simp

text \<open>An entry at which the walk ends: no address, or one that is not a trusted proxy.\<close>

definition decides :: "proxy_config \<Rightarrow> string \<Rightarrow> bool" where
  "decides P e \<longleftrightarrow> \<not> isTrustedProxy P (nl_ParseIP (pc_net P) (stripPort (pc_net P) e))"

lemma walk_decided: "list_ex (decides P) es \<Longrightarrow> walk P peer (es @ fs) = walk P peer es"
  by (induction es) (auto simp: decides_def isTrustedProxy_def split: option.splits)

text \<open>
  A forged X-Forwarded-For is ignored. A peer that is not a trusted proxy is its own client, whatever the header
  says; behind trusted proxies, what the caller puts in front of the entries the proxies have added (in header
  lines before it or in the same line) does not change the client, as soon as one of the added entries is not
  itself the address of a trusted proxy.
\<close>

theorem forged_forwarding_ignored:
  "(\<not> isTrustedProxy P (nl_ParseIP (pc_net P) (stripPort (pc_net P) (hr_RemoteAddr r)))
      \<longrightarrow> fst (clientAddr P r) = snd (clientAddr P r) \<and> clientAddr P (r\<lparr>hr_ForwardedFor := hs\<rparr>) = clientAddr P r) \<and>
   (list_ex (decides P) (forwarded_entries [added])
      \<longrightarrow> clientAddr P (r\<lparr>hr_ForwardedFor := forged @ [front @ CHR '','' # added]\<rparr>) = clientAddr P (r\<lparr>hr_ForwardedFor := [added]\<rparr>))"
proof (intro conjI impI)
  assume "list_ex (decides P) (forwarded_entries [added])"
  then have "list_ex (decides P) (rev (forwarded_entries [added]))" by (auto simp: list_ex_iff)
  then show "clientAddr P (r\<lparr>hr_ForwardedFor := forged @ [front @ CHR '','' # added]\<rparr>) = clientAddr P (r\<lparr>hr_ForwardedFor := [added]\<rparr>)"
    by (simp add: clientAddr_def Let_def forwarded_entries_def split_on_append rev_map [symmetric] walk_decided)
qed (simp_all add: clientAddr_def Let_def)

definition ex_proxy_net :: NetLib where
  "ex_proxy_net = \<lparr>nl_ParseIP = (\<lambda>s. if s = ''10.0.0.1'' then Some [10, 0, 0, 1] else if s = ''192.0.2.7'' then Some [192, 0, 2, 7] else None),
     nl_ParseCIDR = (\<lambda>_. None), nl_SplitHostPort = (\<lambda>_. None), nl_lookupIP = (\<lambda>_. Inr []), nl_socket = (\<lambda>_ _. []), nl_connect = (\<lambda>_. False),
     nl_ctxErr = (\<lambda>_. False)\<rparr>"

definition ex_proxies :: proxy_config where
  "ex_proxies = \<lparr>pc_net = ex_proxy_net, pc_ipString = (\<lambda>a. if a = [10, 0, 0, 1] then ''10.0.0.1'' else ''192.0.2.7''),
     pc_trusted = [\<lparr>n_IP = [10, 0, 0, 0], n_Mask = [255, 0, 0, 0]\<rparr>]\<rparr>"

definition ex_http :: http_request where
  "ex_http = \<lparr>hr_Authorization = ''Bearer secret'', hr_RemoteAddr = ''10.0.0.1'', hr_ForwardedFor = [], hr_ClientHost = [], hr_RelayHops = [],
     hr_hostname = ''web1''\<rparr>"

theorem forged_forwarding_ignored_witness:
  "clientAddr ex_proxies (ex_http\<lparr>hr_ForwardedFor := [''127.0.0.1,192.0.2.7'']\<rparr>) = (''192.0.2.7'', ''10.0.0.1'')"
proof -
  have d: "list_ex (decides ex_proxies) (forwarded_entries [''192.0.2.7''])" by code_simp
  have "clientAddr ex_proxies (ex_http\<lparr>hr_ForwardedFor := [''192.0.2.7'']\<rparr>) = (''192.0.2.7'', ''10.0.0.1'')" by code_simp
  with forged_forwarding_ignored [THEN conjunct2, rule_format, OF d, where r = ex_http and forged = "[]" and front = "''127.0.0.1''"] show ?thesis by simp
qed
end
