(* ===== verification/Exec_Tasks.thy ===== *)
theory Exec_Tasks
  imports Plugin_Auth Group_Vars
begin

text \<open>
  Tasks through the API and down the tree: the handlers of \<open>handlers/exec.go\<close>, the router to child relays
  (\<open>proxy/router.go\<close>) and, on the child, the execution of what a parent sends (\<open>forward/forward.go\<close>).

  A handler is a function from the node to its answer and the new node. While it waits, the rest of the server goes
  on: \<open>xe_meanwhile\<close> is whatever happens to the node until the wait is over, and \<open>xe_ends\<close> the branch its \<open>select\<close>
  takes when several are ready. The decoded body of a request is an argument, \<open>None\<close> when it does not decode.
  The router and the store have been injected, as the server does before it serves. Integers are those of a 64 bit
  machine where they can overflow.
\<close>

section \<open>State\<close>

datatype wait_end = WResult | WTimer | WCancel

record TaskMessage =
  tm_Type :: string
  tm_TaskID :: string
  tm_Hostname :: string
  tm_Cmd :: string
  tm_Stdin :: string
  tm_Timeout :: int
  tm_Become :: bool
  tm_BecomeMethod :: string
  tm_Dest :: string
  tm_Src :: string
  tm_Data :: string
  tm_Mode :: string
  tm_RC :: int
  tm_Stdout :: string
  tm_Stderr :: string
  tm_Truncated :: bool
  tm_Error :: string

definition zero_task :: TaskMessage where
  "zero_task = \<lparr>tm_Type = [], tm_TaskID = [], tm_Hostname = [], tm_Cmd = [], tm_Stdin = [], tm_Timeout = 0, tm_Become = False,
     tm_BecomeMethod = [], tm_Dest = [], tm_Src = [], tm_Data = [], tm_Mode = [], tm_RC = 0, tm_Stdout = [], tm_Stderr = [],
     tm_Truncated = False, tm_Error = []\<rparr>"

text \<open>What has been written to an agent (the fields of the message) or to a child relay.\<close>

datatype task_sent = SentAgent string "(string \<times> json) list" | SentRelay string TaskMessage

record 'g xnode =
  xn_node :: "'g agent_node"
  xn_out :: "task_sent list"

record 'g xenv =
  xe_ae :: "'g aenv"
  xe_proxies :: proxy_config
  xe_meanwhile :: "'g xnode \<Rightarrow> 'g xnode"
  xe_ends :: wait_end
  xe_text :: "goerr \<Rightarrow> string"

definition on_tasks :: "(tasks, 'a) prog \<Rightarrow> 'g xnode \<Rightarrow> 'a res \<times> 'g xnode" where
  "on_tasks p x = (case p (nd_tasks (xn_node x)) of (r, t) \<Rightarrow> (r, x\<lparr>xn_node := (xn_node x)\<lparr>nd_tasks := t\<rparr>\<rparr>))"

definition upd_tasks :: "(tasks \<Rightarrow> tasks) \<Rightarrow> 'g xnode \<Rightarrow> 'g xnode" where
  "upd_tasks f x = x\<lparr>xn_node := (xn_node x)\<lparr>nd_tasks := f (nd_tasks (xn_node x))\<rparr>\<rparr>"

abbreviation x_tasks :: "'g xnode \<Rightarrow> tasks" where "x_tasks x \<equiv> nd_tasks (xn_node x)"
abbreviation x_store :: "'g xnode \<Rightarrow> 'g store" where "x_store x \<equiv> nd_store (xn_node x)"

definition int_text :: "int \<Rightarrow> string" where
  "int_text i = (if i < 0 then CHR ''-'' # itoa (nat (- i)) else itoa (nat i))"

definition i64 :: "int \<Rightarrow> int" where
  "i64 i = sint (word_of_int i :: 64 word)"

text \<open>The text of an error; the errors of the socket are a parameter.\<close>

definition err_text :: "'g xenv \<Rightarrow> goerr \<Rightarrow> string" where
  "err_text env e =
     (if errors_is e ErrAgentBusy then ''agent_busy''
      else if errors_is e ErrTooManyTasks then ''too_many_tasks''
      else if errors_is e ErrMemoryBudget then ''memory_budget_exhausted''
      else case e of [ErrText t] \<Rightarrow> t | _ \<Rightarrow> xe_text env e)"

section \<open>Answers\<close>

text \<open>Status, \<open>Retry-After\<close> and body.\<close>

type_synonym answer = "nat \<times> nat option \<times> (string \<times> json) list"

definition reply :: "resp \<Rightarrow> answer" where
  "reply r = (fst r, None, snd r)"

definition fail :: "nat \<Rightarrow> string \<Rightarrow> answer" where
  "fail code msg = (code, None, [(''error'', JStr msg)])"

definition writeAdmissionCode :: "string \<Rightarrow> answer" where
  "writeAdmissionCode code =
     (if code = ''too_many_tasks'' then (429, Some (RetryAfterSeconds [ErrTooManyTasks]), [(''error'', JStr code)])
      else if code = ''memory_budget_exhausted'' then (503, Some (RetryAfterSeconds [ErrMemoryBudget]), [(''error'', JStr code)])
      else (429, Some (RetryAfterSeconds [ErrAgentBusy]), [(''error'', JStr code)]))"

definition writeAdmissionError :: "'g xenv \<Rightarrow> goerr \<Rightarrow> answer option" where
  "writeAdmissionError env e = (if IsAdmissionError e then Some (writeAdmissionCode (err_text env e)) else None)"

definition writeAgentError :: "string \<Rightarrow> answer" where
  "writeAgentError e =
     (if e = ''agent_disconnected'' then fail 503 ''agent_disconnected''
      else if e = ''agent_busy'' \<or> e = ''too_many_tasks'' \<or> e = ''memory_budget_exhausted'' then writeAdmissionCode e
      else fail 500 e)"

definition writeProxyExecError :: "string \<Rightarrow> answer" where
  "writeProxyExecError e =
     (if contains e ''too_many_tasks'' then writeAdmissionCode ''too_many_tasks''
      else if contains e ''memory_budget_exhausted'' then writeAdmissionCode ''memory_budget_exhausted''
      else if contains e ''agent_busy'' then writeAdmissionCode ''agent_busy''
      else if contains e ''timeout'' then fail 504 ''task_timeout''
      else if contains e ''agent_suspended'' then fail 503 ''agent_suspended''
      else if contains e ''agent_state_unavailable'' then fail 503 ''agent_state_unavailable''
      else if contains e ''relay_offline'' \<or> contains e ''relay_disconnected'' \<or> contains e ''dispatch_failed'' then fail 503 ''relay_offline''
      else fail 503 e)"

section \<open>Requests\<close>

record ExecRequest =
  ex_TaskID :: "string option"
  ex_Cmd :: string
  ex_Stdin :: "string option"
  ex_Timeout :: int
  ex_Become :: bool
  ex_BecomeMethod :: string

record UploadRequest =
  up_TaskID :: "string option"
  up_Dest :: string
  up_Data :: string
  up_Mode :: string

record FetchRequest =
  fe_TaskID :: "string option"
  fe_Src :: string

definition fileMaxBytes :: nat where "fileMaxBytes = 500 * 1024"
definition timeoutMarginSec :: int where "timeoutMarginSec = 5"
definition DefaultMaxHops :: int where "DefaultMaxHops = 8"
definition file_timeout :: int where "file_timeout = 60"

definition validateExecRequest :: "ExecRequest \<Rightarrow> string + ExecRequest" where
  "validateExecRequest b =
     (if TrimSpace (ex_Cmd b) = [] then Inl ''cmd must not be empty''
      else Inr (b\<lparr>ex_Timeout := (if ex_Timeout b \<le> 0 then 30 else ex_Timeout b),
        ex_BecomeMethod := (if ex_BecomeMethod b = [] then ''sudo'' else ex_BecomeMethod b)\<rparr>))"

definition validateUploadRequest :: "UploadRequest \<Rightarrow> string + UploadRequest" where
  "validateUploadRequest b =
     (if TrimSpace (up_Dest b) = [] then Inl ''dest must not be empty''
      else if TrimSpace (up_Data b) = [] then Inl ''data must not be empty''
      else Inr (b\<lparr>up_Mode := (if up_Mode b = [] then ''0644'' else up_Mode b)\<rparr>))"

definition validateFetchRequest :: "FetchRequest \<Rightarrow> string + FetchRequest" where
  "validateFetchRequest b = (if TrimSpace (fe_Src b) = [] then Inl ''src must not be empty'' else Inr b)"

definition task_id :: "'g xenv \<Rightarrow> string option \<Rightarrow> string" where
  "task_id env tid = (case tid of None \<Rightarrow> ae_uuid (xe_ae env) | Some t \<Rightarrow> if t = [] then ae_uuid (xe_ae env) else t)"

definition isLocalAgent :: "string \<Rightarrow> tasks \<Rightarrow> bool" where
  "isLocalAgent hostname t = (\<not> isl (GetConnection hostname t))"

definition checkAgentOnline :: "string \<Rightarrow> tasks \<Rightarrow> goerr option" where
  "checkAgentOnline hostname t =
     (if hostname = [] then Some [ErrText ''hostname must not be empty'']
      else if isl (GetConnection hostname t) then Some [ErrText ''agent_offline''] else None)"

definition refuseIfSuspended :: "string \<Rightarrow> 'g store \<Rightarrow> answer option" where
  "refuseIfSuspended hostname s = (if IsAgentSuspended hostname s then Some (fail 503 ''agent_suspended'') else None)"

text \<open>\<open>strconv.Atoi\<close>: an optional sign and decimal digits, in the range of an \<open>int\<close>.\<close>

definition Atoi :: "string \<Rightarrow> int option" where
  "Atoi s =
     (let (neg, ds) = (case s of c # r \<Rightarrow> if c = CHR ''-'' then (True, r) else if c = CHR ''+'' then (False, r) else (False, s) | [] \<Rightarrow> (False, s));
          v = (if neg then - int (dec_value ds) else int (dec_value ds)) in
      if ds \<noteq> [] \<and> list_all is_digit ds \<and> - (2 ^ 63) \<le> v \<and> v < 2 ^ 63 then Some v else None)"

text \<open>The budget left after the check of the incoming header, \<open>None\<close> when it is used up.\<close>

definition relay_hops :: "string \<Rightarrow> int option" where
  "relay_hops hopStr =
     (if hopStr = [] then Some DefaultMaxHops
      else case Atoi hopStr of None \<Rightarrow> Some DefaultMaxHops | Some n \<Rightarrow> if n \<le> 0 then None else Some (n - 1))"

section \<open>A task on an agent of this node\<close>

text \<open>The duration of a wait in nanoseconds, as \<open>time.Duration\<close> computes it.\<close>

definition wait_time :: "int \<Rightarrow> duration" where
  "wait_time timeout = i64 (i64 (timeout + timeoutMarginSec) * second)"

text \<open>A wait on a channel: what it receives, or the branch that ended it.\<close>

definition await :: "'g xenv \<Rightarrow> nat \<Rightarrow> 'g xnode \<Rightarrow> (wait_end + Message) \<times> 'g xnode" where
  "await env c x =
     (let x1 = xe_meanwhile env x in
      case (xe_ends env, channels (x_tasks x1) c) of
        (WResult, m # _) \<Rightarrow> (Inr m, upd_tasks (receive c) x1)
      | (WCancel, _) \<Rightarrow> (Inl WCancel, x1)
      | _ \<Rightarrow> (Inl WTimer, x1))"

definition write_agent :: "'g xenv \<Rightarrow> string \<Rightarrow> string \<Rightarrow> (string \<times> json) list \<Rightarrow> 'g xnode \<Rightarrow> unit res \<times> 'g xnode" where
  "write_agent env hostname taskID msg x =
     on_tasks (SendToAgent (ae_written (xe_ae env)) hostname (Some taskID))
       (if isl (GetConnection hostname (x_tasks x)) then x else x\<lparr>xn_out := xn_out x @ [SentAgent hostname msg]\<rparr>)"

definition sendTaskAndWait :: "'g xenv \<Rightarrow> string \<Rightarrow> string \<Rightarrow> (string \<times> json) list \<Rightarrow> 'g xnode \<Rightarrow> (goerr \<times> string + Message) \<times> 'g xnode" where
  "sendTaskAndWait env hostname taskID msg x =
     (case on_tasks (RegisterFuture taskID hostname) x of
        (Inl e, x1) \<Rightarrow> (Inl (e, err_text env e), x1)
      | (Inr c, x1) \<Rightarrow>
          case write_agent env hostname taskID msg x1 of
            (Inl e, x2) \<Rightarrow> (Inl (ErrText ''send_failed'' # e, ''send_failed: '' @ err_text env e), upd_tasks (UnregisterFuture taskID) x2)
          | (Inr _, x2) \<Rightarrow>
              case await env c x2 of
                (Inl _, x3) \<Rightarrow> (Inl ([ErrText ''timeout''], ''timeout''), upd_tasks (UnregisterFuture taskID) x3)
              | (Inr m, x3) \<Rightarrow> (Inr m, x3))"

text \<open>The end of the three handlers: the agent is not suspended and online, the task is sent, the outcome is answered.\<close>

definition local_task :: "'g xenv \<Rightarrow> string \<Rightarrow> string \<Rightarrow> (string \<times> json) list \<Rightarrow> (Message \<Rightarrow> (string \<times> json) list) \<Rightarrow> 'g xnode \<Rightarrow> answer \<times> 'g xnode" where
  "local_task env hostname taskID msg render x =
     (case refuseIfSuspended hostname (x_store x) of Some a \<Rightarrow> (a, x) | None \<Rightarrow>
      if checkAgentOnline hostname (x_tasks x) \<noteq> None then (fail 503 ''agent_offline'', x)
      else case sendTaskAndWait env hostname taskID msg x of
        (Inl (e, txt), x1) \<Rightarrow>
          (case writeAdmissionError env e of
             Some a \<Rightarrow> (a, x1)
           | None \<Rightarrow> (if contains txt ''timeout'' then fail 504 ''task_timeout'' else fail 503 txt, x1))
      | (Inr m, x1) \<Rightarrow> (if g_Error m \<noteq> [] then writeAgentError (g_Error m) else (200, None, render m), x1))"

definition exec_message :: "gotime \<Rightarrow> string \<Rightarrow> ExecRequest \<Rightarrow> (string \<times> json) list" where
  "exec_message now taskID b =
     [(''task_id'', JStr taskID), (''type'', JStr ''exec''), (''cmd'', JStr (ex_Cmd b)), (''timeout'', JNum (int_text (ex_Timeout b))),
      (''become'', JBool (ex_Become b)), (''become_method'', JStr (ex_BecomeMethod b)),
      (''expires_at'', JNum (int_text (i64 (unix_sec now + ex_Timeout b))))] @
     (case ex_Stdin b of None \<Rightarrow> [] | Some s \<Rightarrow> [(''stdin'', JStr s)])"

definition upload_message :: "string \<Rightarrow> UploadRequest \<Rightarrow> (string \<times> json) list" where
  "upload_message taskID b =
     [(''task_id'', JStr taskID), (''type'', JStr ''put_file''), (''dest'', JStr (up_Dest b)), (''data'', JStr (up_Data b)), (''mode'', JStr (up_Mode b))]"

definition fetch_message :: "string \<Rightarrow> FetchRequest \<Rightarrow> (string \<times> json) list" where
  "fetch_message taskID b = [(''task_id'', JStr taskID), (''type'', JStr ''fetch_file''), (''src'', JStr (fe_Src b))]"

definition exec_result :: "Message \<Rightarrow> (string \<times> json) list" where
  "exec_result m = [(''rc'', JNum (int_text (g_RC m))), (''stdout'', JStr (g_Stdout m)), (''stderr'', JStr (g_Stderr m)), (''truncated'', JBool (g_Truncated m))]"

definition upload_result :: "Message \<Rightarrow> (string \<times> json) list" where
  "upload_result m = [(''rc'', JNum (int_text (g_RC m)))]"

definition fetch_result :: "Message \<Rightarrow> (string \<times> json) list" where
  "fetch_result m = [(''rc'', JNum (int_text (g_RC m))), (''data'', JStr (g_Data m))]"

section \<open>A task for a child relay\<close>

definition GetRelay :: "string \<Rightarrow> 'g store \<Rightarrow> string option" where
  "GetRelay hostname s = (let r = GetNextHopForHostname hostname s in if r = [] then None else Some r)"

definition relay_connected :: "string \<Rightarrow> tasks \<Rightarrow> bool" where
  "relay_connected relayID t \<longleftrightarrow> fmlookup (relayConnections t) relayID \<noteq> None"

text \<open>
  \<open>DispatchToRelay\<close> with the message it writes and the text of its error; a write is attempted when the relay is connected
  and the task is admitted.
\<close>

definition dispatch_relay :: "'g xenv \<Rightarrow> string \<Rightarrow> TaskMessage \<Rightarrow> 'g xnode \<Rightarrow> (goerr \<times> string + nat) \<times> 'g xnode" where
  "dispatch_relay env relayID m x =
     (let t = x_tasks x;
          attempted = (relay_connected relayID t \<and> \<not> isl (fst (RegisterRelayTaskFuture (tm_TaskID m) t))) in
      case on_tasks (DispatchToRelay (ae_written (xe_ae env)) relayID (tm_TaskID m)) x of
        (r, x1) \<Rightarrow>
          (case r of
             Inl e \<Rightarrow> Inl (e, (if attempted then ''DispatchToRelay write: '' else []) @ err_text env e)
           | Inr c \<Rightarrow> Inr c,
           if attempted then x1\<lparr>xn_out := xn_out x1 @ [SentRelay relayID m]\<rparr> else x1))"

text \<open>The part the three pull functions share: dispatch, wait, take the entry out of the table.\<close>

definition pull :: "'g xenv \<Rightarrow> string \<Rightarrow> TaskMessage \<Rightarrow> 'g xnode \<Rightarrow> (string + Message) \<times> 'g xnode" where
  "pull env relayID m x =
     (case dispatch_relay env relayID m x of
        (Inl (_, txt), x1) \<Rightarrow> (Inl (''dispatch_failed: '' @ txt), x1)
      | (Inr c, x1) \<Rightarrow>
          (case await env c x1 of
             (Inr r, x2) \<Rightarrow> (if g_Error r \<noteq> [] then Inl (g_Error r) else Inr r, upd_tasks (UnregisterRelayTaskFuture (tm_TaskID m)) x2)
           | (Inl WCancel, x2) \<Rightarrow> (Inl ''context_cancelled'', upd_tasks (UnregisterRelayTaskFuture (tm_TaskID m)) x2)
           | (Inl _, x2) \<Rightarrow> (Inl ''timeout'', upd_tasks (UnregisterRelayTaskFuture (tm_TaskID m)) x2)))"

definition exec_dispatch :: "string \<Rightarrow> string \<Rightarrow> ExecRequest \<Rightarrow> TaskMessage" where
  "exec_dispatch hostname taskID b =
     zero_task\<lparr>tm_Type := ''task_dispatch'', tm_TaskID := taskID, tm_Hostname := hostname, tm_Cmd := ex_Cmd b,
       tm_Stdin := (case ex_Stdin b of None \<Rightarrow> [] | Some s \<Rightarrow> s), tm_Timeout := ex_Timeout b, tm_Become := ex_Become b,
       tm_BecomeMethod := ex_BecomeMethod b\<rparr>"

definition pullExec :: "'g xenv \<Rightarrow> string \<Rightarrow> string \<Rightarrow> string \<Rightarrow> ExecRequest \<Rightarrow> 'g xnode \<Rightarrow> (string + Message) \<times> 'g xnode" where
  "pullExec env relayID hostname taskID b = pull env relayID (exec_dispatch hostname taskID b)"

definition upload_dispatch :: "string \<Rightarrow> string \<Rightarrow> UploadRequest \<Rightarrow> TaskMessage" where
  "upload_dispatch hostname taskID b =
     zero_task\<lparr>tm_Type := ''file_upload'', tm_TaskID := taskID, tm_Hostname := hostname, tm_Dest := up_Dest b, tm_Data := up_Data b, tm_Mode := up_Mode b\<rparr>"

definition pullUpload :: "'g xenv \<Rightarrow> string \<Rightarrow> string \<Rightarrow> string \<Rightarrow> UploadRequest \<Rightarrow> 'g xnode \<Rightarrow> (string + Message) \<times> 'g xnode" where
  "pullUpload env relayID hostname taskID b x =
     (case pull env relayID (upload_dispatch hostname taskID b) x of
        (Inr r, x1) \<Rightarrow> (if g_RC r \<noteq> 0 then Inl (''upload_failed: rc='' @ int_text (g_RC r)) else Inr r, x1)
      | (Inl e, x1) \<Rightarrow> (Inl e, x1))"

definition fetch_dispatch :: "string \<Rightarrow> string \<Rightarrow> FetchRequest \<Rightarrow> TaskMessage" where
  "fetch_dispatch hostname taskID b =
     zero_task\<lparr>tm_Type := ''file_fetch'', tm_TaskID := taskID, tm_Hostname := hostname, tm_Src := fe_Src b\<rparr>"

definition pullFetch :: "'g xenv \<Rightarrow> string \<Rightarrow> string \<Rightarrow> string \<Rightarrow> FetchRequest \<Rightarrow> 'g xnode \<Rightarrow> (string + Message) \<times> 'g xnode" where
  "pullFetch env relayID hostname taskID b = pull env relayID (fetch_dispatch hostname taskID b)"

text \<open>\<open>RouteExec\<close>, \<open>RouteUpload\<close> and \<open>RouteFetch\<close>: the same resolution around their pull.\<close>

definition route_to :: "string \<Rightarrow> (string \<Rightarrow> 'g xnode \<Rightarrow> (string + Message) \<times> 'g xnode) \<Rightarrow> 'g xnode \<Rightarrow> (string + Message) \<times> 'g xnode" where
  "route_to hostname p x =
     (case GetRelay hostname (x_store x) of
        None \<Rightarrow> (Inl ''host_not_found'', x)
      | Some relayID \<Rightarrow> if \<not> relay_connected relayID (x_tasks x) then (Inl (''relay_offline: '' @ relayID), x) else p relayID x)"

definition RouteExec :: "'g xenv \<Rightarrow> string \<Rightarrow> string \<Rightarrow> ExecRequest \<Rightarrow> 'g xnode \<Rightarrow> (string + Message) \<times> 'g xnode" where
  "RouteExec env hostname taskID b = route_to hostname (\<lambda>r. pullExec env r hostname taskID b)"

definition RouteUpload :: "'g xenv \<Rightarrow> string \<Rightarrow> string \<Rightarrow> UploadRequest \<Rightarrow> 'g xnode \<Rightarrow> (string + Message) \<times> 'g xnode" where
  "RouteUpload env hostname taskID b = route_to hostname (\<lambda>r. pullUpload env r hostname taskID b)"

definition RouteFetch :: "'g xenv \<Rightarrow> string \<Rightarrow> string \<Rightarrow> FetchRequest \<Rightarrow> 'g xnode \<Rightarrow> (string + Message) \<times> 'g xnode" where
  "RouteFetch env hostname taskID b = route_to hostname (\<lambda>r. pullFetch env r hostname taskID b)"

section \<open>The handlers\<close>

definition plugin_auth :: "'g xenv \<Rightarrow> http_request \<Rightarrow> 'g xnode \<Rightarrow> answer option \<times> 'g xnode" where
  "plugin_auth env r x =
     (case requirePluginAuth (xe_ae env) (xe_proxies env) r (x_store x) of
        (res, s) \<Rightarrow> (case res of Inl e \<Rightarrow> Some (reply e) | Inr _ \<Rightarrow> None, x\<lparr>xn_node := (xn_node x)\<lparr>nd_store := s\<rparr>\<rparr>))"

text \<open>
  The choice the handlers make after the checks of the request: a live connection of the host on this node first,
  then the route, for which the hop budget must not be used up; a host without a route is treated as local.
\<close>

definition route_or_local :: "http_request \<Rightarrow> ('g xnode \<Rightarrow> (string + Message) \<times> 'g xnode) \<Rightarrow> (Message \<Rightarrow> (string \<times> json) list)
    \<Rightarrow> ('g xnode \<Rightarrow> answer \<times> 'g xnode) \<Rightarrow> 'g xnode \<Rightarrow> answer \<times> 'g xnode" where
  "route_or_local r route render run_here x =
     (if isLocalAgent (hr_hostname r) (x_tasks x) then run_here x
      else if relay_hops (hr_RelayHops r) = None then (fail 508 ''relay_loop_detected'', x)
      else if GetRelay (hr_hostname r) (x_store x) = None then run_here x
      else case route x of
        (Inl e, x1) \<Rightarrow> (writeProxyExecError e, x1)
      | (Inr m, x1) \<Rightarrow> ((200, None, render m), x1))"

definition ExecCommand :: "'g xenv \<Rightarrow> http_request \<Rightarrow> ExecRequest option \<Rightarrow> 'g xnode \<Rightarrow> answer \<times> 'g xnode" where
  "ExecCommand env r body x =
     (case plugin_auth env r x of (Some a, x1) \<Rightarrow> (a, x1) | (None, x1) \<Rightarrow>
      case body of None \<Rightarrow> (fail 400 ''invalid_json'', x1) | Some b0 \<Rightarrow>
      case validateExecRequest b0 of Inl e \<Rightarrow> (fail 400 e, x1) | Inr b \<Rightarrow>
        let taskID = task_id env (ex_TaskID b); h = hr_hostname r in
        route_or_local r (RouteExec env h taskID b) exec_result
          (local_task env h taskID (exec_message (ae_now (xe_ae env)) taskID b) exec_result) x1)"

definition UploadFile :: "'g xenv \<Rightarrow> http_request \<Rightarrow> UploadRequest option \<Rightarrow> 'g xnode \<Rightarrow> answer \<times> 'g xnode" where
  "UploadFile env r body x =
     (case plugin_auth env r x of (Some a, x1) \<Rightarrow> (a, x1) | (None, x1) \<Rightarrow>
      case body of None \<Rightarrow> (fail 400 ''invalid_json'', x1) | Some b0 \<Rightarrow>
      case validateUploadRequest b0 of Inl e \<Rightarrow> (fail 400 e, x1) | Inr b \<Rightarrow>
      case b64_decode (up_Data b) of None \<Rightarrow> (fail 400 ''invalid_base64'', x1) | Some decoded \<Rightarrow>
        if length decoded > fileMaxBytes
        then ((413, None, [(''error'', JStr ''payload_too_large''), (''max_bytes'', JNum (itoa fileMaxBytes))]), x1)
        else
          let taskID = task_id env (up_TaskID b); h = hr_hostname r in
          route_or_local r (RouteUpload env h taskID b) (\<lambda>_. [(''rc'', JNum ''0'')])
            (local_task env h taskID (upload_message taskID b) upload_result) x1)"

definition FetchFile :: "'g xenv \<Rightarrow> http_request \<Rightarrow> FetchRequest option \<Rightarrow> 'g xnode \<Rightarrow> answer \<times> 'g xnode" where
  "FetchFile env r body x =
     (case plugin_auth env r x of (Some a, x1) \<Rightarrow> (a, x1) | (None, x1) \<Rightarrow>
      case body of None \<Rightarrow> (fail 400 ''invalid_json'', x1) | Some b0 \<Rightarrow>
      case validateFetchRequest b0 of Inl e \<Rightarrow> (fail 400 e, x1) | Inr b \<Rightarrow>
        let taskID = task_id env (fe_TaskID b); h = hr_hostname r in
        route_or_local r (RouteFetch env h taskID b) fetch_result
          (local_task env h taskID (fetch_message taskID b) fetch_result) x1)"

section \<open>On the child: tasks of the parent\<close>

definition defaultExecTimeout :: int where "defaultExecTimeout = 30"

definition task_error :: "string \<Rightarrow> TaskMessage" where
  "task_error e = zero_task\<lparr>tm_Error := e\<rparr>"

definition resultMsg :: "Message \<Rightarrow> TaskMessage" where
  "resultMsg r = zero_task\<lparr>tm_RC := g_RC r, tm_Stdout := g_Stdout r, tm_Stderr := g_Stderr r, tm_Truncated := g_Truncated r,
     tm_Data := g_Data r, tm_Error := g_Error r\<rparr>"

definition exec_type :: "string \<Rightarrow> bool" where
  "exec_type ty \<longleftrightarrow> ty = ''task_forward'' \<or> ty = ''task_dispatch''"

definition waitFor :: "TaskMessage \<Rightarrow> duration" where
  "waitFor m = (if exec_type (tm_Type m) then wait_time (if tm_Timeout m \<le> 0 then defaultExecTimeout else tm_Timeout m) else 60 * second)"

definition agentMessage :: "gotime \<Rightarrow> TaskMessage \<Rightarrow> (string \<times> json) list option" where
  "agentMessage now m =
     (if exec_type (tm_Type m) then
        let timeout = (if tm_Timeout m \<le> 0 then defaultExecTimeout else tm_Timeout m) in
        Some ([(''task_id'', JStr (tm_TaskID m)), (''type'', JStr ''exec''), (''cmd'', JStr (tm_Cmd m)), (''timeout'', JNum (int_text timeout)),
          (''become'', JBool (tm_Become m)), (''become_method'', JStr (tm_BecomeMethod m)),
          (''expires_at'', JNum (int_text (i64 (unix_sec now + timeout))))] @
          (if tm_Stdin m \<noteq> [] then [(''stdin'', JStr (tm_Stdin m))] else []))
      else if tm_Type m = ''file_upload'' then
        Some [(''task_id'', JStr (tm_TaskID m)), (''type'', JStr ''put_file''), (''dest'', JStr (tm_Dest m)), (''data'', JStr (tm_Data m)),
          (''mode'', JStr (if tm_Mode m = [] then ''0644'' else tm_Mode m))]
      else if tm_Type m = ''file_fetch'' then
        Some [(''task_id'', JStr (tm_TaskID m)), (''type'', JStr ''fetch_file''), (''src'', JStr (tm_Src m))]
      else None)"

definition runLocal :: "'g xenv \<Rightarrow> TaskMessage \<Rightarrow> 'g xnode \<Rightarrow> TaskMessage \<times> 'g xnode" where
  "runLocal env m x =
     (case agentMessage (ae_now (xe_ae env)) m of None \<Rightarrow> (task_error ''invalid_task'', x) | Some msg \<Rightarrow>
      case on_tasks (RegisterFuture (tm_TaskID m) (tm_Hostname m)) x of
        (Inl e, x1) \<Rightarrow> (task_error (err_text env e), x1)
      | (Inr c, x1) \<Rightarrow>
          case write_agent env (tm_Hostname m) (tm_TaskID m) msg x1 of
            (Inl e, x2) \<Rightarrow> (task_error ''send_failed'', upd_tasks (UnregisterFuture (tm_TaskID m)) x2)
          | (Inr _, x2) \<Rightarrow>
              (case await env c x2 of
                 (Inr r, x3) \<Rightarrow> (resultMsg r, x3)
               | (Inl WCancel, x3) \<Rightarrow> (task_error ''context_cancelled'', upd_tasks (UnregisterFuture (tm_TaskID m)) x3)
               | (Inl _, x3) \<Rightarrow> (task_error ''timeout'', upd_tasks (UnregisterFuture (tm_TaskID m)) x3)))"

definition forward_run :: "'g xenv \<Rightarrow> TaskMessage \<Rightarrow> 'g xnode \<Rightarrow> TaskMessage \<times> 'g xnode" where
  "forward_run env m x =
     (if \<not> (exec_type (tm_Type m) \<or> tm_Type m = ''file_upload'' \<or> tm_Type m = ''file_fetch'') then (task_error ''invalid_task'', x)
      else if isLocalAgent (tm_Hostname m) (x_tasks x) then
        (if IsAgentSuspended (tm_Hostname m) (x_store x) then (task_error ''agent_suspended'', x) else runLocal env m x)
      else
        let hop = GetNextHopForHostname (tm_Hostname m) (x_store x) in
        if hop = [] then (task_error ''host_not_found'', x)
        else if \<not> relay_connected hop (x_tasks x) then (task_error ''relay_offline'', x)
        else case dispatch_relay env hop m x of
          (Inl (e, txt), x1) \<Rightarrow> (task_error (if IsAdmissionError e then txt else ''dispatch_failed''), x1)
        | (Inr c, x1) \<Rightarrow>
            (case await env c x1 of
               (Inr r, x2) \<Rightarrow> (resultMsg r, x2)
             | (Inl WCancel, x2) \<Rightarrow> (task_error ''context_cancelled'', upd_tasks (UnregisterRelayTaskFuture (tm_TaskID m)) x2)
             | (Inl _, x2) \<Rightarrow> (task_error ''timeout'', upd_tasks (UnregisterRelayTaskFuture (tm_TaskID m)) x2)))"

text \<open>\<open>Handle\<close>: what is sent back to the parent. A message that does not decode keeps what could be read of it.\<close>

definition Handle :: "'g xenv \<Rightarrow> bool \<Rightarrow> TaskMessage \<Rightarrow> 'g xnode \<Rightarrow> TaskMessage option \<times> 'g xnode" where
  "Handle env decoded m x =
     (if \<not> decoded \<or> tm_TaskID m = [] \<or> tm_Hostname m = [] then
        (if tm_TaskID m \<noteq> [] then Some (zero_task\<lparr>tm_Type := ''task_result'', tm_TaskID := tm_TaskID m, tm_Error := ''invalid_task''\<rparr>) else None, x)
      else case forward_run env m x of
        (res, x1) \<Rightarrow> (Some (res\<lparr>tm_Type := ''task_result'', tm_TaskID := tm_TaskID m\<rparr>), x1))"
end
