(* ===== verification/Exec_Flow.thy ===== *)
theory Exec_Flow
  imports Exec_Tasks Agent_Life
begin

text \<open>
  What the definitions of Exec_Tasks achieve: a task is written only for an authorised caller and to the place the
  connection and routing tables name; through a child relay an agent gets the same message and the caller the same
  answer as directly; and a call that has returned holds no slot.
\<close>

declare contains.simps [simp del]

section \<open>What is written, and for whom\<close>

datatype api_call = ApiExec "ExecRequest option" | ApiUpload "UploadRequest option" | ApiFetch "FetchRequest option"

definition serve :: "'g xenv \<Rightarrow> http_request \<Rightarrow> api_call \<Rightarrow> 'g xnode \<Rightarrow> answer \<times> 'g xnode" where
  "serve env r call x =
     (case call of ApiExec b \<Rightarrow> ExecCommand env r b x | ApiUpload b \<Rightarrow> UploadFile env r b x | ApiFetch b \<Rightarrow> FetchFile env r b x)"

text \<open>The token of the request, as the store has it, allows this caller now.\<close>

definition authorised :: "'g xenv \<Rightarrow> http_request \<Rightarrow> 'g store \<Rightarrow> bool" where
  "authorised env r s \<longleftrightarrow> (\<exists>tok plain. hr_Authorization r = Bearer @ plain \<and> plain \<noteq> [] \<and>
     GetPluginTokenByHash (tokenHash (xe_ae env) plain) s = Some tok \<and> \<not> pt_Revoked tok \<and>
     (case pt_ExpiresAt tok of None \<Rightarrow> True | Some t \<Rightarrow> ae_now (xe_ae env) \<le> t) \<and>
     (pt_AllowedIPs tok = [] \<or> PluginTokenCheckIP (pc_net (xe_proxies env)) (pt_AllowedIPs tok) (fst (clientAddr (xe_proxies env) r)) = Inr True) \<and>
     (pt_AllowedHostnamePattern tok = [] \<or>
        PluginTokenCheckHostname (ae_match (xe_ae env)) (pt_AllowedHostnamePattern tok) (hr_ClientHost r) = Inr True))"

lemma drop_Bearer: "drop 7 (Bearer @ tok) = tok"
proof -
  have "length Bearer = 7" by (simp add: Bearer_def)
  then show ?thesis by (metis append_eq_conv_conj)
qed

lemma plugin_auth_ok:
  assumes "plugin_auth env r x = (None, x1)"
  shows "authorised env r (x_store x)" "x_tasks x1 = x_tasks x" "xn_out x1 = xn_out x"
    "snap (x_store x1) = snap (x_store x)" "st_routes (x_store x1) = st_routes (x_store x)"
proof -
  obtain res s where run: "requirePluginAuth (xe_ae env) (xe_proxies env) r (x_store x) = (Inr res, s)"
    "x1 = x\<lparr>xn_node := (xn_node x)\<lparr>nd_store := s\<rparr>\<rparr>"
    using assms by (auto simp: plugin_auth_def split: prod.splits sum.splits)
  from run(1) obtain tok where tok: "has_prefix (hr_Authorization r) Bearer" "drop 7 (hr_Authorization r) \<noteq> []"
    "GetPluginTokenByHash (tokenHash (xe_ae env) (drop 7 (hr_Authorization r))) (x_store x) = Some tok" "\<not> pt_Revoked tok"
    "\<not> (case pt_ExpiresAt tok of None \<Rightarrow> False | Some t \<Rightarrow> ae_now (xe_ae env) > t)"
    "(if pt_AllowedIPs tok \<noteq> [] then PluginTokenCheckIP (pc_net (xe_proxies env)) (pt_AllowedIPs tok) (fst (clientAddr (xe_proxies env) r)) else Inr True) = Inr True"
    "(if pt_AllowedHostnamePattern tok \<noteq> [] then PluginTokenCheckHostname (ae_match (xe_ae env)) (pt_AllowedHostnamePattern tok) (hr_ClientHost r)
       else Inr True) = Inr True" "s = snd (TouchPluginToken (ae_st (xe_ae env)) (pt_ID tok) (fst (clientAddr (xe_proxies env) r)) (x_store x))"
    by (auto simp: requirePluginAuth_def Let_def split: if_splits option.splits sum.splits bool.splits)
  have "hr_Authorization r = Bearer @ drop 7 (hr_Authorization r)" using has_Bearer [OF tok(1)] by (auto simp only: drop_Bearer)
  then show "authorised env r (x_store x)" unfolding authorised_def
    by (rule_tac exI [of _ tok], rule_tac exI [of _ "drop 7 (hr_Authorization r)"])
      (use tok in \<open>auto split: option.splits if_splits\<close>)
  show "x_tasks x1 = x_tasks x" "xn_out x1 = xn_out x" "snap (x_store x1) = snap (x_store x)" "st_routes (x_store x1) = st_routes (x_store x)"
    using tok(8) run(2) by (auto simp: TouchPluginToken_def bindP_gets raise_def modify_def snap_def)
qed

lemma same_routes: "st_routes s1 = st_routes s \<Longrightarrow> GetNextHopForHostname h s1 = GetNextHopForHostname h s"
  by (simp add: GetNextHopForHostname_def GetRelayRoute_def)

lemma same_suspension: "snap s1 = snap s \<Longrightarrow> IsAgentSuspended h s1 = IsAgentSuspended h s"
  by (simp add: IsAgentSuspended_def)

text \<open>What happens during a wait is not logged as written by this call.\<close>

definition unlogged :: "'g xenv \<Rightarrow> bool" where
  "unlogged env \<longleftrightarrow> (\<forall>x. xn_out (xe_meanwhile env x) = xn_out x)"

lemma on_tasks_parts [simp]:
  "xn_out (snd (on_tasks p x)) = xn_out x" "x_store (snd (on_tasks p x)) = x_store x" "x_tasks (snd (on_tasks p x)) = snd (p (x_tasks x))"
  "fst (on_tasks p x) = fst (p (x_tasks x))"
  by (simp_all add: on_tasks_def split: prod.split)

lemma on_tasksD: "on_tasks p x = (r, x') \<Longrightarrow> xn_out x' = xn_out x \<and> x_store x' = x_store x \<and> p (x_tasks x) = (r, x_tasks x')"
  by (auto simp: on_tasks_def split: prod.splits)

lemma upd_tasks_parts [simp]: "xn_out (upd_tasks f x) = xn_out x" "x_tasks (upd_tasks f x) = f (x_tasks x)" "x_store (upd_tasks f x) = x_store x"
  by (simp_all add: upd_tasks_def)

lemma await_out: "unlogged env \<Longrightarrow> await env c x = (r, x') \<Longrightarrow> xn_out x' = xn_out x"
  by (auto simp: await_def unlogged_def Let_def split: wait_end.splits list.splits)

lemma register_connections: "wsConnections (snd (RegisterFuture tid h t)) = wsConnections t"
  by (auto simp: RegisterFuture_def bindP_def admitTask_def new_channel_def Let_def releaseTask_def releaseLocked_def
      split: prod.splits sum.splits option.splits if_splits)

lemma write_agent_out:
  "write_agent env h tid msg x = (r, x') \<Longrightarrow> xn_out x' = (if isLocalAgent h (x_tasks x) then xn_out x @ [SentAgent h msg] else xn_out x)"
  by (auto simp: write_agent_def isLocalAgent_def on_tasks_def split: prod.splits)

lemma send_out:
  assumes "unlogged env" "sendTaskAndWait env h tid msg x = (r, x')"
  shows "xn_out x' = xn_out x \<or> xn_out x' = xn_out x @ [SentAgent h msg]"
proof -
  obtain r1 x1 where 1: "on_tasks (RegisterFuture tid h) x = (r1, x1)" by (meson surj_pair)
  obtain r2 x2 where 2: "write_agent env h tid msg x1 = (r2, x2)" by (meson surj_pair)
  have "xn_out x1 = xn_out x" using on_tasksD [OF 1] by simp
  with write_agent_out [OF 2] assms(2) 1 2 await_out [OF assms(1)] show ?thesis
    by (fastforce simp: sendTaskAndWait_def split: sum.splits prod.splits if_splits)
qed

lemma local_task_out:
  assumes "unlogged env" "local_task env h tid msg render x = (a, x')"
  shows "xn_out x' = xn_out x \<or> xn_out x' = xn_out x @ [SentAgent h msg] \<and> isLocalAgent h (x_tasks x) \<and> \<not> IsAgentSuspended h (x_store x)"
  using assms(2) send_out [OF assms(1)]
  by (auto simp: local_task_def refuseIfSuspended_def checkAgentOnline_def isLocalAgent_def split: if_splits option.splits prod.splits sum.splits)

lemma dispatch_out:
  "dispatch_relay env rel m x = (r, x') \<Longrightarrow> xn_out x' = xn_out x \<or> xn_out x' = xn_out x @ [SentRelay rel m]"
  by (auto simp: dispatch_relay_def Let_def dest: on_tasksD split: prod.splits if_splits)

lemma pull_out:
  assumes "unlogged env" "pull env rel m x = (r, x')"
  shows "xn_out x' = xn_out x \<or> xn_out x' = xn_out x @ [SentRelay rel m]"
proof -
  obtain r1 x1 where 1: "dispatch_relay env rel m x = (r1, x1)" by (meson surj_pair)
  from dispatch_out [OF this] assms(2) 1 await_out [OF assms(1)] show ?thesis
    by (fastforce simp: pull_def split: sum.splits prod.splits wait_end.splits)
qed

lemma route_out:
  assumes "route_to h p x = (r, x')" "\<And>rel r x'. p rel x = (r, x') \<Longrightarrow> xn_out x' = xn_out x \<or> xn_out x' = xn_out x @ [SentRelay rel (m rel)]"
  shows "xn_out x' = xn_out x \<or> (\<exists>rel. xn_out x' = xn_out x @ [SentRelay rel (m rel)] \<and> GetNextHopForHostname h (x_store x) = rel \<and>
    relay_connected rel (x_tasks x))"
  using assms(1) assms(2) [of "GetNextHopForHostname h (x_store x)" r x']
  by (auto simp: route_to_def GetRelay_def Let_def split: if_splits)

text \<open>What one call may add to the log, for its host and in the state it finds.\<close>

definition sent_properly :: "http_request \<Rightarrow> 'g xnode \<Rightarrow> task_sent \<Rightarrow> bool" where
  "sent_properly r x t \<longleftrightarrow> (case t of
     SentAgent h msg \<Rightarrow> h = hr_hostname r \<and> isLocalAgent h (x_tasks x) \<and> \<not> IsAgentSuspended h (x_store x)
   | SentRelay rel m \<Rightarrow> tm_Hostname m = hr_hostname r \<and> \<not> isLocalAgent (hr_hostname r) (x_tasks x) \<and>
       GetNextHopForHostname (hr_hostname r) (x_store x) = rel \<and> relay_connected rel (x_tasks x) \<and> relay_hops (hr_RelayHops r) \<noteq> None)"

lemma choice_out:
  assumes "route_or_local r route render run_here x = (a, x')"
    and "\<And>a x'. run_here x = (a, x') \<Longrightarrow> xn_out x' = xn_out x \<or>
      xn_out x' = xn_out x @ [SentAgent (hr_hostname r) msg] \<and> isLocalAgent (hr_hostname r) (x_tasks x) \<and> \<not> IsAgentSuspended (hr_hostname r) (x_store x)"
    and "\<And>e x'. route x = (e, x') \<Longrightarrow> xn_out x' = xn_out x \<or> (\<exists>rel m. tm_Hostname m = hr_hostname r \<and> xn_out x' = xn_out x @ [SentRelay rel m] \<and>
      GetNextHopForHostname (hr_hostname r) (x_store x) = rel \<and> relay_connected rel (x_tasks x))"
  shows "xn_out x' = xn_out x \<or> (\<exists>t. xn_out x' = xn_out x @ [t] \<and> sent_properly r x t)"
proof (cases "isLocalAgent (hr_hostname r) (x_tasks x) \<or> relay_hops (hr_RelayHops r) = None \<or> GetRelay (hr_hostname r) (x_store x) = None")
  case True
  then have "run_here x = (a, x') \<or> x' = x" using assms(1) by (auto simp: route_or_local_def split: if_splits)
  with assms(2) [of a x'] show ?thesis by (auto simp: sent_properly_def)
next
  case False
  then obtain e where "route x = (e, x')" using assms(1) by (auto simp: route_or_local_def split: if_splits prod.splits sum.splits)
  with assms(3) [OF this] False show ?thesis by (fastforce simp: sent_properly_def)
qed

lemma dispatch_fields [simp]:
  "tm_TaskID (exec_dispatch h t b) = t" "tm_TaskID (upload_dispatch h t u) = t" "tm_TaskID (fetch_dispatch h t f) = t"
  "tm_Hostname (exec_dispatch h t b) = h" "tm_Hostname (upload_dispatch h t u) = h" "tm_Hostname (fetch_dispatch h t f) = h"
  by (simp_all add: exec_dispatch_def upload_dispatch_def fetch_dispatch_def)

definition call_task :: "'g xenv \<Rightarrow> api_call \<Rightarrow> string" where
  "call_task env call = task_id env (case call of ApiExec (Some b) \<Rightarrow> ex_TaskID b | ApiUpload (Some b) \<Rightarrow> up_TaskID b | ApiFetch (Some b) \<Rightarrow> fe_TaskID b | _ \<Rightarrow> None)"

text \<open>What the three handlers have in common after the checks of the request.\<close>

lemma serve_cases:
  assumes "serve env r call x = (a, x')" "plugin_auth env r x = (None, x1)" "x' \<noteq> x1"
  obtains msg p m render render' where
    "route_or_local r (route_to (hr_hostname r) p) render (local_task env (hr_hostname r) (call_task env call) msg render') x1 = (a, x')"
    "tm_TaskID m = call_task env call" "tm_Hostname m = hr_hostname r" "\<And>rel y. snd (p rel y) = snd (pull env rel m y)"
proof (cases call)
  case (ApiExec body)
  with assms obtain b0 b where "body = Some b0" "validateExecRequest b0 = Inr b" and run: "route_or_local r
      (RouteExec env (hr_hostname r) (task_id env (ex_TaskID b)) b) exec_result (local_task env (hr_hostname r) (task_id env (ex_TaskID b))
        (exec_message (ae_now (xe_ae env)) (task_id env (ex_TaskID b)) b) exec_result) x1 = (a, x')"
    by (auto simp: serve_def ExecCommand_def Let_def split: option.splits sum.splits)
  then have tid: "task_id env (ex_TaskID b) = call_task env call" using ApiExec by (auto simp: validateExecRequest_def call_task_def split: if_splits)
  show thesis
    by (rule that [OF run [unfolded tid RouteExec_def], of "exec_dispatch (hr_hostname r) (call_task env call) b"]) (simp_all add: pullExec_def)
next
  case (ApiUpload body)
  with assms obtain b0 b where "body = Some b0" "validateUploadRequest b0 = Inr b" and run: "route_or_local r
      (RouteUpload env (hr_hostname r) (task_id env (up_TaskID b)) b) (\<lambda>_. [(''rc'', JNum ''0'')]) (local_task env (hr_hostname r)
        (task_id env (up_TaskID b)) (upload_message (task_id env (up_TaskID b)) b) upload_result) x1 = (a, x')"
    by (auto simp: serve_def UploadFile_def Let_def split: option.splits sum.splits if_splits)
  then have tid: "task_id env (up_TaskID b) = call_task env call" using ApiUpload by (auto simp: validateUploadRequest_def call_task_def split: if_splits)
  show thesis
    by (rule that [OF run [unfolded tid RouteUpload_def], of "upload_dispatch (hr_hostname r) (call_task env call) b"])
      (simp_all add: pullUpload_def split: prod.split sum.split)
next
  case (ApiFetch body)
  with assms obtain b0 b where "body = Some b0" "validateFetchRequest b0 = Inr b" and run: "route_or_local r
      (RouteFetch env (hr_hostname r) (task_id env (fe_TaskID b)) b) fetch_result (local_task env (hr_hostname r) (task_id env (fe_TaskID b))
        (fetch_message (task_id env (fe_TaskID b)) b) fetch_result) x1 = (a, x')"
    by (auto simp: serve_def FetchFile_def Let_def split: option.splits sum.splits)
  then have tid: "task_id env (fe_TaskID b) = call_task env call" using ApiFetch by (auto simp: validateFetchRequest_def call_task_def split: if_splits)
  show thesis
    by (rule that [OF run [unfolded tid RouteFetch_def], of "fetch_dispatch (hr_hostname r) (call_task env call) b"]) (simp_all add: pullFetch_def)
qed

lemma serve_choice:
  assumes "unlogged env" "serve env r call x = (a, x')" "plugin_auth env r x = (None, x1)"
  shows "xn_out x' = xn_out x1 \<or> (\<exists>t. xn_out x' = xn_out x1 @ [t] \<and> sent_properly r x1 t)"
proof (cases "x' = x1")
  case False
  from serve_cases [OF assms(2,3) False] obtain msg p m render render' where c:
    "route_or_local r (route_to (hr_hostname r) p) render (local_task env (hr_hostname r) (call_task env call) msg render') x1 = (a, x')"
    "tm_Hostname m = hr_hostname r" "\<And>rel y. snd (p rel y) = snd (pull env rel m y)" by metis
  have p: "xn_out y' = xn_out y \<or> xn_out y' = xn_out y @ [SentRelay rel m]" if "p rel y = (e, y')" for rel e y y'
    using that c(3) [of rel y] pull_out [OF assms(1), of rel m y] by (metis prod.collapse snd_conv)
  show ?thesis by (rule choice_out [OF c(1) local_task_out [OF assms(1)]]) (use c(2) in \<open>auto dest!: route_out [OF _ p]\<close>)
qed simp

text \<open>
  C25. Where tasks go. A call of the API writes at most one message, and only for a caller whose plugin token is
  registered, not revoked, not expired and valid for the address and host name of the caller. The message goes to the
  agent of the host when it is connected to this node and not suspended; only when the host has no connection here does
  it go to a child relay, the connected next hop of the route of the host, and not when the hop budget is used up.
\<close>

theorem task_sent_only_if:
  assumes "unlogged env" "serve env r call x = (a, x')" "xn_out x' \<noteq> xn_out x"
  shows "\<exists>t. xn_out x' = xn_out x @ [t] \<and> authorised env r (x_store x) \<and> sent_properly r x t"
proof -
  obtain o1 x1 where auth: "plugin_auth env r x = (o1, x1)" by (meson surj_pair)
  show ?thesis
  proof (cases o1)
    case (Some e)
    with auth assms(2) have "x' = x1" by (cases call) (simp_all add: serve_def ExecCommand_def UploadFile_def FetchFile_def)
    with auth assms(3) show ?thesis by (auto simp: plugin_auth_def split: prod.splits)
  next
    case None
    note ok = plugin_auth_ok [OF auth [unfolded None]]
    have "sent_properly r x t" if "sent_properly r x1 t" for t
      using that same_suspension [OF ok(4)] same_routes [OF ok(5)] ok(2) by (auto simp: sent_properly_def split: task_sent.splits)
    with serve_choice [OF assms(1,2) auth [unfolded None]] ok(1,3) assms(3) show ?thesis by auto
  qed
qed

section \<open>Through a relay as directly\<close>

text \<open>What the parent makes of the result that a child sent, and that result as the waiter of the parent receives it.\<close>

definition upstream :: "TaskMessage \<Rightarrow> Message" where
  "upstream m = zero_message\<lparr>g_TaskID := tm_TaskID m, g_RC := tm_RC m, g_Stdout := tm_Stdout m, g_Stderr := tm_Stderr m,
     g_Truncated := tm_Truncated m, g_Data := tm_Data m, g_Error := tm_Error m\<rparr>"

definition via_parent :: "(Message \<Rightarrow> (string \<times> json) list) \<Rightarrow> Message \<Rightarrow> answer" where
  "via_parent render r = (if g_Error r \<noteq> [] then writeProxyExecError (g_Error r) else (200, None, render r))"

text \<open>The parent answers this when the wait of its dispatch receives the result.\<close>

lemma parent_answers:
  assumes "\<not> isLocalAgent (hr_hostname r) (x_tasks x)" "relay_hops (hr_RelayHops r) \<noteq> None" "GetRelay (hr_hostname r) (x_store x) = Some rel"
    and "relay_connected rel (x_tasks x)" "dispatch_relay env rel m x = (Inr c, x1)" "await env c x1 = (Inr res, x2)"
  shows "fst (route_or_local r (route_to (hr_hostname r) (\<lambda>rel. pull env rel m)) render run_here x) = via_parent render res"
  using assms by (auto simp: route_or_local_def route_to_def pull_def via_parent_def)

text \<open>The errors of a result that mean the same on both ways.\<close>

definition plain_errors :: "string list" where
  "plain_errors = [[], ''agent_disconnected'', ''agent_busy'', ''too_many_tasks'', ''memory_budget_exhausted'']"

lemma proxy_texts:
  "writeProxyExecError ''agent_disconnected'' = writeAgentError ''agent_disconnected''"
  "writeProxyExecError ''agent_busy'' = writeAdmissionCode ''agent_busy''" "writeAgentError ''agent_busy'' = writeAdmissionCode ''agent_busy''"
  "writeProxyExecError ''too_many_tasks'' = writeAdmissionCode ''too_many_tasks''" "writeAgentError ''too_many_tasks'' = writeAdmissionCode ''too_many_tasks''"
  "writeProxyExecError ''memory_budget_exhausted'' = writeAdmissionCode ''memory_budget_exhausted''"
  "writeAgentError ''memory_budget_exhausted'' = writeAdmissionCode ''memory_budget_exhausted''"
  "writeProxyExecError ''agent_suspended'' = fail 503 ''agent_suspended''" "writeProxyExecError ''timeout'' = fail 504 ''task_timeout''"
  "contains ''timeout'' ''timeout''"
  by code_simp+

lemma plain_same:
  assumes "e \<in> set plain_errors" "e \<noteq> []"
  shows "writeProxyExecError e = writeAgentError e"
proof -
  from assms have "e = ''agent_disconnected'' \<or> e = ''agent_busy'' \<or> e = ''too_many_tasks'' \<or> e = ''memory_budget_exhausted''"
    by (simp add: plain_errors_def)
  then show ?thesis by (elim disjE) (simp_all only: proxy_texts)
qed

lemma admission_texts:
  "IsAdmissionError e \<Longrightarrow> err_text env e \<in> {''agent_busy'', ''too_many_tasks'', ''memory_budget_exhausted''}"
  by (auto simp: IsAdmissionError_def err_text_def)

lemma admission_same:
  assumes "IsAdmissionError e"
  shows "writeProxyExecError (err_text env e) = writeAdmissionCode (err_text env e)"
proof -
  from admission_texts [OF assms, of env]
  have "err_text env e = ''agent_busy'' \<or> err_text env e = ''too_many_tasks'' \<or> err_text env e = ''memory_budget_exhausted''" by blast
  then show ?thesis by (elim disjE) (simp_all only: proxy_texts)
qed

lemma register_errors: "RegisterFuture tid h t = (Inl e, t') \<Longrightarrow> IsAdmissionError e"
  by (auto simp: RegisterFuture_def bindP_def admitTask_def Let_def IsAdmissionError_def errors_is_def split: prod.splits sum.splits if_splits)

lemma written_agent:
  assumes "ae_written (xe_ae env) = None" "isLocalAgent h (x_tasks x)"
  shows "\<exists>x'. write_agent env h tid msg x = (Inr (), x')"
  using assms by (auto simp: write_agent_def on_tasks_def SendToAgent_def isLocalAgent_def of_err_def ret_def split: prod.splits sum.splits)

lemma register_local: "on_tasks (RegisterFuture tid h) x = (r, x1) \<Longrightarrow> isLocalAgent h (x_tasks x1) = isLocalAgent h (x_tasks x)"
  using register_connections [of tid h "x_tasks x"] by (auto simp: isLocalAgent_def GetConnection_def on_tasks_def split: prod.splits)

text \<open>On the node of the agent, the task of a parent and the task of a caller of its own API take the same steps.\<close>

lemma run_like_send:
  assumes "agentMessage (ae_now (xe_ae env)) m = Some msg" "tm_Hostname m = h" "tm_TaskID m = tid"
    and "isLocalAgent h (x_tasks y)" "ae_written (xe_ae env) = None" "xe_ends env \<noteq> WCancel" "runLocal env m y = (res, y')"
  obtains (refused) e where "sendTaskAndWait env h tid msg y = (Inl (e, err_text env e), y')" "IsAdmissionError e" "res = task_error (err_text env e)"
    | (timeout) "sendTaskAndWait env h tid msg y = (Inl ([ErrText ''timeout''], ''timeout''), y')" "res = task_error ''timeout''"
    | (result) r c z where "sendTaskAndWait env h tid msg y = (Inr r, y')" "await env c z = (Inr r, y')" "res = resultMsg r"
proof -
  obtain r1 y1 where 1: "on_tasks (RegisterFuture tid h) y = (r1, y1)" by (meson surj_pair)
  show thesis
  proof (cases r1)
    case (Inl e)
    from Inl 1 have adm: "IsAdmissionError e" using on_tasksD [OF 1] register_errors by blast
    from assms(7) Inl 1 assms(1-3) have "res = task_error (err_text env e)" "y' = y1" by (auto simp: runLocal_def)
    with Inl 1 adm show thesis by (intro refused [of e]) (simp_all add: sendTaskAndWait_def)
  next
    case (Inr c)
    from register_local [OF 1] assms(4) obtain y2 where 2: "write_agent env h tid msg y1 = (Inr (), y2)"
      using written_agent [OF assms(5)] by blast
    obtain r3 y3 where 3: "await env c y2 = (r3, y3)" by (meson surj_pair)
    show thesis
    proof (cases r3)
      case wait: (Inl w)
      with 3 assms(6) have "w = WTimer" by (auto simp: await_def Let_def split: wait_end.splits list.splits)
      with assms(7) wait Inr 1 2 3 assms(1-3) have "res = task_error ''timeout''" "y' = upd_tasks (UnregisterFuture tid) y3"
        by (auto simp: runLocal_def)
      with wait Inr 1 2 3 show thesis by (intro timeout) (simp_all add: sendTaskAndWait_def)
    next
      case got: (Inr r)
      with assms(7) Inr 1 2 3 assms(1-3) have "res = resultMsg r" "y' = y3" by (auto simp: runLocal_def)
      with got Inr 1 2 3 show thesis by (intro result [of r c y2]) (simp_all add: sendTaskAndWait_def)
    qed
  qed
qed

lemma forwarded_like_local:
  assumes "agentMessage (ae_now (xe_ae env)) m = Some msg" "tm_Hostname m = h" "tm_TaskID m = tid" "h \<noteq> []"
    and "isLocalAgent h (x_tasks y)" "ae_written (xe_ae env) = None" "xe_ends env \<noteq> WCancel"
    and "\<And>c z r z'. await env c z = (Inr r, z') \<Longrightarrow> g_Error r \<in> set plain_errors"
    and "\<And>r. render (upstream (resultMsg r)) = render r" "forward_run env m y = (res, y')"
  shows "local_task env h tid msg render y = (via_parent render (upstream res), y')"
proof -
  have ty: "exec_type (tm_Type m) \<or> tm_Type m = ''file_upload'' \<or> tm_Type m = ''file_fetch''"
    using assms(1) by (auto simp: agentMessage_def Let_def split: if_splits)
  have online: "checkAgentOnline h (x_tasks y) = None" using assms(4,5) by (simp add: checkAgentOnline_def isLocalAgent_def)
  have err: "via_parent render (upstream (task_error e)) = writeProxyExecError e" if "e \<noteq> []" for e
    using that by (simp add: via_parent_def upstream_def task_error_def zero_task_def)
  show ?thesis
  proof (cases "IsAgentSuspended h (x_store y)")
    case True
    with assms(2,5,10) ty have "res = task_error ''agent_suspended'' \<and> y' = y" by (auto simp: forward_run_def)
    with True err [of "''agent_suspended''"] show ?thesis by (simp add: local_task_def refuseIfSuspended_def proxy_texts)
  next
    case False
    with assms(2,5,10) ty have run: "runLocal env m y = (res, y')" by (auto simp: forward_run_def)
    show ?thesis
    proof (cases rule: run_like_send [OF assms(1-3,5-7) run, case_names refused timeout result])
      case (refused e)
      with False online err [of "err_text env e"] admission_same [of e env] admission_texts [of e env] show ?thesis
        by (auto simp: local_task_def refuseIfSuspended_def writeAdmissionError_def)
    next
      case timeout
      with False online err [of "''timeout''"] show ?thesis
        by (simp add: local_task_def refuseIfSuspended_def writeAdmissionError_def IsAdmissionError_def errors_is_def proxy_texts)
    next
      case (result r c z)
      have "g_Error (upstream (resultMsg r)) = g_Error r" by (simp add: upstream_def resultMsg_def)
      with result False online plain_same [OF assms(8) [OF result(2)]] show ?thesis
        by (simp add: local_task_def refuseIfSuspended_def via_parent_def assms(9))
    qed
  qed
qed


section \<open>A call that has returned holds no slot\<close>

text \<open>Every admitted task is one somebody waits for.\<close>

definition slots_waited :: "tasks \<Rightarrow> bool" where
  "slots_waited s \<longleftrightarrow> (\<forall>t. fmlookup (admitted s) t \<noteq> None \<longrightarrow> fmlookup (pendingTasks s) t \<noteq> None \<or> fmlookup (relayPendingTasks s) t \<noteq> None)"

lemma slots_same:
  "slots_waited s \<Longrightarrow> admitted s' = admitted s \<Longrightarrow> pendingTasks s' = pendingTasks s \<Longrightarrow> relayPendingTasks s' = relayPendingTasks s \<Longrightarrow> slots_waited s'"
  by (simp add: slots_waited_def)

lemma slots_answer: "slots_waited s \<Longrightarrow> slots_waited (answer t m s)"
  by (auto simp: slots_waited_def)

lemma slots_relay_unregister: "slots_waited s \<Longrightarrow> slots_waited (UnregisterRelayTaskFuture t s)"
  by (auto simp: slots_waited_def UnregisterRelayTaskFuture_def)

lemma slots_relay_answer: "slots_waited s \<Longrightarrow> slots_waited (relay_answer t m s)"
  by (auto simp: relay_answer_def intro: slots_same [OF slots_relay_unregister] split: option.split)

lemma slots_resolve: "slots_waited s \<Longrightarrow> slots_waited (ResolveFuturesForHostname h e s)"
  unfolding ResolveFuturesForHostname_def by (rule fold_keeps [where P = slots_waited]) (rule slots_answer)

lemma slots_unregister: "slots_waited s \<Longrightarrow> slots_waited (UnregisterConnection h s)"
  unfolding UnregisterConnection_def by (rule slots_resolve, erule slots_same) simp_all

lemma admit_cases:
  assumes "admitTask t h s = (r, s')"
  shows "pendingTasks s' = pendingTasks s \<and> relayPendingTasks s' = relayPendingTasks s \<and>
    (case r of Inl _ \<Rightarrow> admitted s' = fmdrop t (admitted s) | Inr _ \<Rightarrow> \<exists>a. admitted s' = fmupd t a (admitted s))"
  using assms by (auto simp: admitTask_def Let_def split: if_splits)

lemma slots_future: "slots_waited s \<Longrightarrow> slots_waited (snd (RegisterFuture t h s))" "slots_waited s \<Longrightarrow> slots_waited (snd (RegisterRelayTaskFuture t s))"
  by (auto simp: RegisterFuture_def RegisterRelayTaskFuture_def bindP_def new_channel_def slots_waited_def dest!: admit_cases
      split: prod.splits sum.splits if_splits) (metis option.distinct(1))+

lemma slots_dispatch: "slots_waited s \<Longrightarrow> slots_waited (snd (DispatchToRelay w r t s))"
proof -
  assume ok: "slots_waited s"
  have own: "slots_waited (s'\<lparr>relayTaskOwner := x\<rparr>)" if "slots_waited s'" for s' x using that by (rule slots_same) simp_all
  show ?thesis using ok slots_future(2) [OF ok, of t]
    by (auto simp: DispatchToRelay_def bindP_def Let_def intro: own slots_relay_unregister [OF own] split: prod.splits sum.splits option.splits)
qed

lemma slots_append: "slots_waited s \<Longrightarrow> slots_waited (append_stdout t c s)"
  by (cases "fmlookup (admitted s) t") (auto simp: append_unknown append_known slots_waited_def)

lemma slots_step: "task_step ord s s' \<Longrightarrow> slots_waited s \<Longrightarrow> slots_waited s'"
proof (induction rule: task_step.induct)
  case (st_unregister s t)
  then show ?case by (auto simp: slots_waited_def UnregisterFuture_def)
next
  case (st_message s m)
  then show ?case by (simp add: HandleMessage_def Let_def slots_answer slots_append)
next
  case (st_connect s h c)
  then show ?case by (elim slots_same) (simp_all add: RegisterConnection_def)
next
  case (st_disconnect s h c)
  then show ?case by (simp add: unregisterIfCurrent_def slots_unregister split: option.splits)
next
  case (st_close s h)
  have "slots_waited (s\<lparr>wsConnections := x, closedConns := y\<rparr>)" for x y using st_close by (rule slots_same) simp_all
  with st_close show ?case by (simp add: CloseAgent_def slots_resolve split: option.splits)
next
  case (st_send s w h t)
  have "slots_waited (s\<lparr>taskHostnames := x\<rparr>)" for x using st_send by (rule slots_same) simp_all
  with st_send show ?case by (simp add: SendToAgent_def prog_defs split: option.splits sum.splits)
next
  case (st_relay_result s r m)
  then show ?case by (simp add: task_result_def Let_def slots_relay_answer)
next
  case (st_relay_gone s r)
  then show ?case unfolding resolve_relay_tasks_def by (intro fold_keeps [where P = slots_waited] slots_relay_answer)
next
  case (st_receive s c)
  then show ?case by (elim slots_same) (simp_all add: receive_def)
qed (simp_all add: slots_future slots_unregister slots_dispatch slots_relay_unregister)

lemma slots_run: "(task_step ord)\<^sup>*\<^sup>* (started p i b) s \<Longrightarrow> slots_waited s"
proof (induction rule: rtranclp_induct)
  case base
  then show ?case by (simp add: started_def SetTaskLimits_def initial_tasks_def slots_waited_def)
qed (auto intro: slots_step)

text \<open>A step of the others that does not use the identifier of this task.\<close>

definition other_step :: "string \<Rightarrow> tasks \<Rightarrow> tasks \<Rightarrow> bool" where
  "other_step tid s s' \<longleftrightarrow> task_step True s s' \<and> fmlookup (pendingTasks s') tid \<in> {None, fmlookup (pendingTasks s) tid} \<and>
     fmlookup (relayPendingTasks s') tid \<in> {None, fmlookup (relayPendingTasks s) tid}"

lemma others_keep:
  assumes "(other_step tid)\<^sup>*\<^sup>* s s'" "channels_ok s" "slots_waited s"
  shows "channels_ok s' \<and> slots_waited s' \<and> fmlookup (pendingTasks s') tid \<in> {None, fmlookup (pendingTasks s) tid} \<and>
     fmlookup (relayPendingTasks s') tid \<in> {None, fmlookup (relayPendingTasks s) tid}"
  using assms by (induction rule: rtranclp_induct) (auto simp: other_step_def intro: channels_step slots_step)

abbreviation no_slot :: "string \<Rightarrow> 'g xnode \<Rightarrow> bool" where
  "no_slot tid x \<equiv> fmlookup (admitted (x_tasks x)) tid = None"

text \<open>A wait that received the answer: the slot was released before the answer was delivered.\<close>

lemma received_released:
  assumes "channels_ok s" "slots_waited s" "waiting s (k, tid) = Some c" "waiting s (\<not> k, tid) = None"
    and "(other_step tid)\<^sup>*\<^sup>* s s'" "channels s' c \<noteq> []"
  shows "fmlookup (admitted s') tid = None"
proof -
  from others_keep [OF assms(5,1,2)] have ok: "channels_ok s'" "slots_waited s'"
    "fmlookup (pendingTasks s') tid \<in> {None, fmlookup (pendingTasks s) tid}"
    "fmlookup (relayPendingTasks s') tid \<in> {None, fmlookup (relayPendingTasks s) tid}" by simp_all
  have "waiting s' (k, tid) \<noteq> Some c" using waiting_open [OF ok(1), of "(k, tid)" c] assms(6) by auto
  with ok(3,4) assms(3,4) have "fmlookup (pendingTasks s') tid = None \<and> fmlookup (relayPendingTasks s') tid = None"
    by (cases k) (auto simp: waiting_def)
  with ok(2) show ?thesis by (auto simp: slots_waited_def)
qed

lemma register_state:
  assumes "RegisterFuture tid h s = (r, s1)" "fresh_id tid s" "channels_ok s" "slots_waited s"
  shows "case r of Inl _ \<Rightarrow> fmlookup (admitted s1) tid = None
    | Inr c \<Rightarrow> waiting s1 (True, tid) = Some c \<and> waiting s1 (False, tid) = None \<and> channels_ok s1 \<and> slots_waited s1"
proof -
  obtain r0 s0 where a: "admitTask tid h s = (r0, s0)" by (meson surj_pair)
  have "channels_ok s1" "slots_waited s1" using channels_future(1) [OF assms(3)] slots_future(1) [OF assms(4)] assms(1) by (metis snd_conv)+
  then show ?thesis using assms(1,2) a admit_cases [OF a]
    by (auto simp: RegisterFuture_def bindP_def new_channel_def waiting_def fresh_id_def split: sum.splits)
qed

lemma send_frees:
  assumes "\<And>z. (other_step tid)\<^sup>*\<^sup>* (x_tasks z) (x_tasks (xe_meanwhile env z))"
    and "fresh_id tid (x_tasks x)" "channels_ok (x_tasks x)" "slots_waited (x_tasks x)" "sendTaskAndWait env h tid msg x = (r, x')"
  shows "no_slot tid x'"
proof -
  obtain r1 x1 where 1: "on_tasks (RegisterFuture tid h) x = (r1, x1)" by (meson surj_pair)
  obtain r2 x2 where 2: "write_agent env h tid msg x1 = (r2, x2)" by (meson surj_pair)
  note reg = register_state [OF on_tasksD [OF 1, THEN conjunct2, THEN conjunct2] assms(2-4)]
  show ?thesis
  proof (cases r1)
    case (Inl e)
    with reg assms(5) 1 show ?thesis by (auto simp: sendTaskAndWait_def)
  next
    case (Inr c)
    with reg have st: "waiting (x_tasks x1) (True, tid) = Some c" "waiting (x_tasks x1) (False, tid) = None" "channels_ok (x_tasks x1)" "slots_waited (x_tasks x1)"
      by simp_all
    have step2: "task_step True (x_tasks x1) (x_tasks x2)"
      using 2 st_send [of True "x_tasks x1" "ae_written (xe_ae env)" h "Some tid"] by (auto simp: write_agent_def on_tasks_def split: prod.splits if_splits)
    have same: "waiting (x_tasks x2) k = waiting (x_tasks x1) k" for k
      using 2 by (auto simp: write_agent_def on_tasks_def SendToAgent_def prog_defs waiting_def split: prod.splits if_splits sum.splits option.splits)
    obtain r3 x3 where 3: "await env c x2 = (r3, x3)" by (meson surj_pair)
    show ?thesis
    proof (cases "\<exists>m. r2 = Inr () \<and> r3 = Inr m")
      case True
      then have got: "x3 = upd_tasks (receive c) (xe_meanwhile env x2)" "channels (x_tasks (xe_meanwhile env x2)) c \<noteq> []" "x' = x3"
        using 3 Inr 1 2 assms(5) by (auto simp: await_def Let_def sendTaskAndWait_def split: wait_end.splits list.splits)
      have "fmlookup (admitted (x_tasks (xe_meanwhile env x2))) tid = None"
        by (rule received_released [OF channels_step [OF step2 st(3)] slots_step [OF step2 st(4)], of True])
          (use st same got assms(1) in simp_all)
      with got show ?thesis by (simp add: receive_def)
    next
      case False
      with Inr 1 2 3 assms(5) have "\<exists>z. x' = upd_tasks (UnregisterFuture tid) z"
        by (auto simp: sendTaskAndWait_def split: sum.splits)
      then show ?thesis by (auto simp: UnregisterFuture_def)
    qed
  qed
qed

lemma dispatch_refused:
  assumes "DispatchToRelay w rel tid s = (Inl e, s1)" "fresh_id tid s"
  shows "fmlookup (admitted s1) tid = None"
  using assms
  by (auto simp: DispatchToRelay_def RegisterRelayTaskFuture_def bindP_def new_channel_def fresh_id_def UnregisterRelayTaskFuture_def Let_def
      dest!: admit_cases split: prod.splits sum.splits option.splits)

lemma pull_frees:
  assumes "fresh_id (tm_TaskID m) (x_tasks x)" "pull env rel m x = (r, x')"
  shows "no_slot (tm_TaskID m) x'"
proof -
  obtain r1 x1 where 1: "dispatch_relay env rel m x = (r1, x1)" by (meson surj_pair)
  show ?thesis
  proof (cases r1)
    case (Inl e)
    with 1 assms(1) have "fmlookup (admitted (x_tasks x1)) (tm_TaskID m) = None"
      by (auto simp: dispatch_relay_def Let_def dest!: on_tasksD intro: dispatch_refused split: prod.splits sum.splits if_splits)
    with Inl 1 assms(2) show ?thesis by (auto simp: pull_def split: prod.splits)
  next
    case (Inr c)
    with 1 assms(2) have "\<exists>z. x' = upd_tasks (UnregisterRelayTaskFuture (tm_TaskID m)) z"
      by (auto simp: pull_def split: prod.splits sum.splits wait_end.splits)
    then show ?thesis by (auto simp: UnregisterRelayTaskFuture_def)
  qed
qed

lemma choice_frees:
  assumes "route_or_local r (route_to h p) render (local_task env h tid msg render') x = (a, x')" "fresh_id tid (x_tasks x)"
    and "channels_ok (x_tasks x)" "slots_waited (x_tasks x)"
    and "\<And>z. (other_step tid)\<^sup>*\<^sup>* (x_tasks z) (x_tasks (xe_meanwhile env z))" "\<And>rel e x'. p rel x = (e, x') \<Longrightarrow> no_slot tid x'"
  shows "no_slot tid x'"
proof -
  have here: "no_slot tid y" if "local_task env h tid msg render' x = (b, y)" for b y
    using that assms(2) send_frees [OF assms(5,2-4)]
    by (auto simp: local_task_def fresh_id_def split: option.splits if_splits prod.splits sum.splits)
  have there: "no_slot tid y" if "route_to h p x = (b, y)" for b y
    using that assms(2,6) by (auto simp: route_to_def fresh_id_def split: option.splits if_splits)
  show ?thesis using assms(1,2) here there by (auto simp: route_or_local_def fresh_id_def split: if_splits prod.splits sum.splits)
qed

text \<open>
  C27. No slot is leaked. When a call of the API has returned (with a result, an error of the agent, a time-out, a failed
  write or a refusal), its task holds no slot of the admission any more, whatever the agents, the relays and the other
  calls did in the meantime, as long as no other call uses the same task identifier.
\<close>

theorem call_frees_slot:
  assumes "(task_step True)\<^sup>*\<^sup>* (started p i b) (x_tasks x)" "fresh_id (call_task env call) (x_tasks x)"
    and "\<And>z. (other_step (call_task env call))\<^sup>*\<^sup>* (x_tasks z) (x_tasks (xe_meanwhile env z))" "serve env r call x = (a, x')"
  shows "fmlookup (admitted (x_tasks x')) (call_task env call) = None"
proof -
  note ok = channels_run [OF assms(1)] slots_run [OF assms(1)]
  obtain o1 x1 where auth: "plugin_auth env r x = (o1, x1)" by (meson surj_pair)
  then have t: "x_tasks x1 = x_tasks x" by (auto simp: plugin_auth_def split: prod.splits)
  show ?thesis
  proof (cases "x' = x1 \<or> o1 \<noteq> None")
    case True
    then have "x' = x1" using assms(4) auth by (cases call) (auto simp: serve_def ExecCommand_def UploadFile_def FetchFile_def)
    with t assms(2) show ?thesis by (simp add: fresh_id_def)
  next
    case False
    then have "o1 = None" "x' \<noteq> x1" by blast+
    with auth have "plugin_auth env r x = (None, x1)" "x' \<noteq> x1" by simp_all
    from serve_cases [OF assms(4) this] obtain msg p m render render' where c:
      "route_or_local r (route_to (hr_hostname r) p) render (local_task env (hr_hostname r) (call_task env call) msg render') x1 = (a, x')"
      "tm_TaskID m = call_task env call" "\<And>rel y. snd (p rel y) = snd (pull env rel m y)" by metis
    have "no_slot (call_task env call) y" if "p rel x1 = (e, y)" for rel e y
      using that c(2,3) pull_frees [of m x1 env rel] assms(2) t by (metis prod.collapse snd_conv)
    with t ok assms(2,3) show ?thesis by (intro choice_frees [OF c(1)]) auto
  qed
qed

section \<open>Defects\<close>

text \<open>
  The error of an offline relay carries its name, and errors are classified by the words they contain: the name of a relay can
  turn an offline relay into a time-out.
\<close>

lemma offline_relay_as_timeout:
  "ValidRelayID ''dc-timeout-1'' \<and> writeProxyExecError (''relay_offline: '' @ ''dc-timeout-1'') = fail 504 ''task_timeout'' \<and>
   writeProxyExecError (''relay_offline: '' @ ''dc-1'') = fail 503 ''relay_offline''"
  by code_simp

text \<open>The limit of a task has no upper bound: with a large one the wait overflows and is over at once.\<close>

lemma long_timeout_overflows:
  "wait_time 9223372036 < 0 \<and> wait_time 3600 = 3605 * second"
  by code_simp

section \<open>A call\<close>

definition ex_plugin :: PluginToken where
  "ex_plugin = \<lparr>pt_ID = ''p1'', pt_TokenHash = hex_encode ''secret'', pt_Description = [], pt_Role = ''plugin'', pt_AllowedIPs = [],
     pt_AllowedHostnamePattern = [], pt_CreatedAt = unix_time 10, pt_ExpiresAt = None, pt_Revoked = False, pt_LastUsedAt = None, pt_LastUsedIP = []\<rparr>"

definition ex_xnode :: "unit xnode" where
  "ex_xnode = \<lparr>xn_node = (ex_anode [(unix_time 10, SCreatePluginToken ex_plugin), (unix_time 11, SEnrollAgent [] ''web1'' ''pubagent'' ''u2'' ''admin'')])
      \<lparr>nd_tasks := RegisterConnection ''web1'' 7 (started 0 0 0)\<rparr>, xn_out = []\<rparr>"

definition ex_xenv :: "unit xenv" where
  "ex_xenv = \<lparr>xe_ae = ex_aenv (unix_time 20) ''t1'', xe_proxies = ex_proxies, xe_meanwhile = (\<lambda>x. x), xe_ends = WTimer, xe_text = (\<lambda>_. [])\<rparr>"

definition ex_fetch :: api_call where
  "ex_fetch = ApiFetch (Some \<lparr>fe_TaskID = None, fe_Src = ''/etc/motd''\<rparr>)"

definition ex_exec :: ExecRequest where
  "ex_exec = \<lparr>ex_TaskID = None, ex_Cmd = ''id'', ex_Stdin = None, ex_Timeout = 5, ex_Become = False, ex_BecomeMethod = ''sudo''\<rparr>"

lemma ex_fetch_sent: "xn_out (snd (serve ex_xenv ex_http ex_fetch ex_xnode)) = [SentAgent ''web1''
    [(''task_id'', JStr ''t1''), (''type'', JStr ''fetch_file''), (''src'', JStr ''/etc/motd'')]]"
  by code_simp

theorem task_sent_only_if_witness: "authorised ex_xenv ex_http (x_store ex_xnode)"
proof -
  have "unlogged ex_xenv" by (simp add: unlogged_def ex_xenv_def)
  moreover have "serve ex_xenv ex_http ex_fetch ex_xnode = (fst (serve ex_xenv ex_http ex_fetch ex_xnode), snd (serve ex_xenv ex_http ex_fetch ex_xnode))"
    by simp
  moreover have "xn_out (snd (serve ex_xenv ex_http ex_fetch ex_xnode)) \<noteq> xn_out ex_xnode" unfolding ex_fetch_sent by (simp add: ex_xnode_def)
  ultimately show ?thesis using task_sent_only_if by blast
qed


theorem call_frees_slot_witness: "fmlookup (admitted (x_tasks (snd (serve ex_xenv ex_http ex_fetch ex_xnode)))) ''t1'' = None"
proof -
  have tid: "call_task ex_xenv ex_fetch = ''t1''" by (simp add: call_task_def ex_fetch_def task_id_def ex_xenv_def)
  have t: "x_tasks ex_xnode = RegisterConnection ''web1'' 7 (started 0 0 0)" by (simp add: ex_xnode_def)
  have run: "(task_step True)\<^sup>*\<^sup>* (started 0 0 0) (x_tasks ex_xnode)" unfolding t by (rule r_into_rtranclp, rule st_connect)
  have fresh: "fresh_id (call_task ex_xenv ex_fetch) (x_tasks ex_xnode)"
    unfolding t by (simp add: fresh_id_def RegisterConnection_def started_def SetTaskLimits_def initial_tasks_def)
  have others: "(other_step (call_task ex_xenv ex_fetch))\<^sup>*\<^sup>* (x_tasks z) (x_tasks (xe_meanwhile ex_xenv z))" for z by (simp add: ex_xenv_def)
  from call_frees_slot [OF run fresh others, of ex_http] show ?thesis unfolding tid by (metis prod.collapse)
qed
end
