(* ===== verification/Json_Pieces.thy ===== *)
theory Json_Pieces
  imports Agent_Tasks
begin

unbundle bit_operations_syntax

text \<open>
  The answer of a command written piece by piece (\<open>writeExecResult\<close> and \<open>writeJSONString\<close> in \<open>handlers/exec.go\<close>): the
  output of a command is escaped in pieces of 64 KiB instead of at once. Here that the pieces make up the text that
  \<open>json.Marshal\<close> gives for the whole string, also where the output is not valid UTF-8.

  \<open>json.Marshal\<close> goes through a string unit by unit: a unit is a well-formed UTF-8 sequence, or one byte that is not part of
  one. How it writes a unit is a parameter.
\<close>

section \<open>Units of a string\<close>

text \<open>The number of bytes \<open>utf8.DecodeRuneInString\<close> consumes: the first byte fixes the range of the second and the number of the others.\<close>

definition cont_char :: "char \<Rightarrow> bool" where
  "cont_char c \<longleftrightarrow> (let n = of_char c :: nat in 0x80 \<le> n \<and> n \<le> 0xBF)"

definition second_range :: "nat \<Rightarrow> nat \<times> nat" where
  "second_range b = (if b = 0xE0 then (0xA0, 0xBF) else if b = 0xED then (0x80, 0x9F) else if b = 0xF0 then (0x90, 0xBF)
     else if b = 0xF4 then (0x80, 0x8F) else (0x80, 0xBF))"

definition seq_length :: "nat \<Rightarrow> nat" where
  "seq_length b = (if 0xC2 \<le> b \<and> b \<le> 0xDF then 2 else if 0xE0 \<le> b \<and> b \<le> 0xEF then 3 else if 0xF0 \<le> b \<and> b \<le> 0xF4 then 4 else 1)"

definition well_formed :: "char \<Rightarrow> string \<Rightarrow> bool" where
  "well_formed c rest \<longleftrightarrow> (let b = of_char c :: nat; n = seq_length b in
     n \<le> Suc (length rest) \<and> list_all cont_char (take (n - 1) rest) \<and>
     (n = 1 \<or> (case rest of [] \<Rightarrow> False | d # _ \<Rightarrow> fst (second_range b) \<le> (of_char d :: nat) \<and> (of_char d :: nat) \<le> snd (second_range b))))"

definition rune_width :: "char \<Rightarrow> string \<Rightarrow> nat" where
  "rune_width c rest = (if well_formed c rest then seq_length (of_char c) else 1)"

lemma seq_length_pos: "1 \<le> seq_length b" "seq_length b \<le> 4"
  by (auto simp: seq_length_def)

function units :: "string \<Rightarrow> string list" where
  "units [] = []"
| "units (c # s) = take (rune_width c s) (c # s) # units (drop (rune_width c s) (c # s))"
  by pat_completeness auto

termination
proof (relation "measure length")
  fix c :: char and s :: string
  have "1 \<le> rune_width c s" using seq_length_pos by (simp add: rune_width_def)
  then show "(drop (rune_width c s) (c # s), c # s) \<in> measure length" by (cases "rune_width c s") auto
qed simp

text \<open>The content of the JSON string of \<open>json.Marshal\<close>, between the quotes.\<close>

definition escaped :: "(string \<Rightarrow> string) \<Rightarrow> string \<Rightarrow> string" where
  "escaped esc s = concat (map esc (units s))"

section \<open>Writing by pieces\<close>

text \<open>A writer: what has been written, and whether the next writes succeed (all of them when the list is used up).\<close>

record writer =
  wr_out :: string
  wr_script :: "bool list"

definition emit :: "string \<Rightarrow> (writer, unit) prog" where
  "emit b w =
     (case wr_script w of
        False # bs \<Rightarrow> (Inl [ErrText ''write''], w\<lparr>wr_script := bs\<rparr>)
      | _ \<Rightarrow> (Inr (), \<lparr>wr_out = wr_out w @ b, wr_script = tl (wr_script w)\<rparr>))"

definition piece :: nat where "piece = 65536"

definition cut :: "nat \<Rightarrow> string \<Rightarrow> nat" where
  "cut p s = (let n = length s in if n > p then (let m = rune_cut s p in if m = 0 then p else m) else n)"

lemma cut_pos: "0 < p \<Longrightarrow> s \<noteq> [] \<Longrightarrow> 0 < cut p s"
  by (auto simp: cut_def Let_def)

function write_pieces :: "nat \<Rightarrow> (string \<Rightarrow> string) \<Rightarrow> string \<Rightarrow> (writer, unit) prog" where
  "write_pieces p esc s =
     (if s = [] \<or> p = 0 then ret ()
      else bindP (emit (escaped esc (take (cut p s) s))) (\<lambda>_. write_pieces p esc (drop (cut p s) s)))"
  by pat_completeness auto

termination
proof (relation "measure (\<lambda>(p, esc, s). length s)")
  fix p :: nat and esc :: "string \<Rightarrow> string" and s :: string
  assume "\<not> (s = [] \<or> p = 0)"
  with cut_pos [of p s] show "((p, esc, drop (cut p s) s), p, esc, s) \<in> measure (\<lambda>(p, esc, s). length s)" by auto
qed simp

declare write_pieces.simps [simp del] units.simps(2) [simp del]

definition quote :: string where "quote = [CHR 0x22]"

definition writeJSONString :: "(string \<Rightarrow> string) \<Rightarrow> string \<Rightarrow> (writer, unit) prog" where
  "writeJSONString esc s = bindP (emit quote) (\<lambda>_. bindP (write_pieces piece esc s) (\<lambda>_. emit quote))"

text \<open>The fixed parts of the answer; the integer and the boolean as \<open>%d\<close> and \<open>%t\<close> print them.\<close>

definition key :: "string \<Rightarrow> string" where "key k = quote @ k @ quote @ '':''"

definition writeExecResult :: "(string \<Rightarrow> string) \<Rightarrow> string \<Rightarrow> string \<Rightarrow> string \<Rightarrow> bool \<Rightarrow> (writer, unit) prog" where
  "writeExecResult esc rc out err truncated =
     bindP (emit (''{'' @ key ''rc'' @ rc @ '','' @ key ''stdout'')) (\<lambda>_.
     bindP (writeJSONString esc out) (\<lambda>_.
     bindP (emit ('','' @ key ''stderr'')) (\<lambda>_.
     bindP (writeJSONString esc err) (\<lambda>_.
     emit ('','' @ key ''truncated'' @ (if truncated then ''true'' else ''false'') @ ''}'' @ [CHR 0x0A])))))"

section \<open>Pieces and the whole\<close>

lemma and_top_bits: "(n :: nat) AND 0xC0 = 64 * (n div 64 mod 4)"
proof -
  have "(0xC0 :: nat) = push_bit 6 (mask 2)" by (simp add: push_bit_eq_mult mask_eq_exp_minus_1)
  moreover have "64 * (n div 64 mod 4) = push_bit 6 (take_bit 2 (drop_bit 6 n))"
    by (simp add: push_bit_eq_mult take_bit_eq_mod drop_bit_eq_div)
  moreover have "n AND push_bit 6 (mask 2) = push_bit 6 (take_bit 2 (drop_bit 6 n))"
    by (rule bit_eqI) (auto simp: bit_simps)
  ultimately show ?thesis by simp
qed

lemma cont_RuneStart: "RuneStart c \<longleftrightarrow> \<not> cont_char c"
proof -
  obtain n where n: "(of_char c :: nat) = n" "n < 256" by simp
  have "n div 64 < 4" using n(2) by (simp add: div_less_iff_less_mult)
  then have "n div 64 mod 4 = n div 64" by simp
  moreover have "64 * (n div 64) = 128 \<longleftrightarrow> 128 \<le> n \<and> n < 192"
    using div_mult_mod_eq [of n 64] mod_less_divisor [of 64 n] by (simp, linarith)
  ultimately show ?thesis by (auto simp: RuneStart_def cont_char_def Let_def and_top_bits n(1))
qed

lemma cont_width: "cont_char c \<Longrightarrow> rune_width c s = 1"
  by (auto simp: cont_char_def rune_width_def seq_length_def Let_def)

text \<open>What follows does not change a unit when it does not go on with a continuation byte, or when the unit has all the bytes it may need.\<close>

lemma well_formed_append:
  assumes "b = [] \<or> \<not> cont_char (hd b) \<or> 3 \<le> length s"
  shows "well_formed c (s @ b) = well_formed c s"
proof (cases "seq_length (of_char c) \<le> Suc (length s)")
  case True
  then have "take (seq_length (of_char c) - 1) (s @ b) = take (seq_length (of_char c) - 1) s" by simp
  with True show ?thesis using seq_length_pos(1) [of "of_char c"]
    by (cases s; cases "seq_length (of_char c) = 1") (simp_all add: well_formed_def Let_def)
next
  case False
  with assms seq_length_pos(2) [of "of_char c"] have b: "b = [] \<or> \<not> cont_char (hd b)" by auto
  show ?thesis
  proof (cases b)
    case (Cons d ds)
    with False have "d \<in> set (take (seq_length (of_char c) - 1) (s @ b))" by (auto simp: take_append take_Cons' split: if_splits)
    with b Cons False show ?thesis by (auto simp: well_formed_def Let_def list_all_iff)
  qed simp
qed

lemma width_append: "b = [] \<or> \<not> cont_char (hd b) \<or> 3 \<le> length s \<Longrightarrow> rune_width c (s @ b) = rune_width c s"
  by (simp add: rune_width_def well_formed_append)

lemma width_le: "rune_width c s \<le> Suc (length s)"
  by (auto simp: rune_width_def well_formed_def Let_def)

lemma prefix_parts: "n \<le> Suc (length s) \<Longrightarrow> take n (c # s @ b) = take n (c # s) \<and> drop n (c # s @ b) = drop n (c # s) @ b"
  by (cases n) simp_all

lemma units_conts: "list_all cont_char s \<Longrightarrow> units (s @ b) = units s @ units b"
  by (induction s) (simp_all add: units.simps(2) cont_width)

lemma units_append: "b = [] \<or> \<not> cont_char (hd b) \<Longrightarrow> units (a @ b) = units a @ units b"
proof (induction a rule: units.induct)
  case (2 c s)
  moreover have "rune_width c (s @ b) = rune_width c s" using 2(2) by (intro width_append) auto
  ultimately show ?case using prefix_parts [OF width_le] by (simp add: units.simps(2) [of c])
qed simp

text \<open>The cut inside a long run of continuation bytes.\<close>

lemma units_run:
  assumes "list_all cont_char s" "3 \<le> length s"
  shows "units ((c # s) @ b) = units (c # s) @ units b"
proof -
  have w: "rune_width c (s @ b) = rune_width c s" using assms(2) by (intro width_append) simp
  have "list_all cont_char (drop (rune_width c s) (c # s))" if "1 \<le> rune_width c s"
    using assms(1) that by (cases "rune_width c s") (auto simp: list_all_iff dest: in_set_dropD)
  moreover have "1 \<le> rune_width c s" using seq_length_pos by (simp add: rune_width_def)
  ultimately show ?thesis using prefix_parts [OF width_le] by (simp add: units.simps(2) [of c] w units_conts)
qed

lemma rune_cut_zero: "rune_cut s n = 0 \<Longrightarrow> n < length s \<Longrightarrow> list_all cont_char (take n (tl s))"
proof (induction s n rule: rune_cut.induct)
  case (2 s n)
  then have "cont_char (s ! Suc n)" "rune_cut s n = 0" by (auto simp: cont_RuneStart split: if_splits)
  moreover have "take (Suc n) (tl s) = take n (tl s) @ [s ! Suc n]" using 2(3) by (cases s) (auto simp: take_Suc_conv_app_nth)
  ultimately show ?case using 2 by (simp add: cont_RuneStart)
qed simp

lemma rune_cut_start: "rune_cut s n = Suc m \<Longrightarrow> \<not> cont_char (s ! Suc m)"
  by (induction s n rule: rune_cut.induct) (auto simp: cont_RuneStart split: if_splits)

lemma cut_units:
  assumes "3 < p"
  shows "units s = units (take (cut p s) s) @ units (drop (cut p s) s)"
proof (cases "length s > p")
  case True
  show ?thesis
  proof (cases "rune_cut s p")
    case 0
    with True obtain c r where s: "s = c # r" by (cases s) auto
    have "list_all cont_char (take (p - 1) r)"
      using rune_cut_zero [OF 0 True] s set_take_subset_set_take [of "p - 1" p r] by (auto simp: list_all_iff)
    moreover have "take p s = c # take (p - 1) r" using s assms by (cases p) auto
    moreover have "cut p s = p" using 0 True by (simp add: cut_def)
    moreover have "3 \<le> length (take (p - 1) r)" using True s assms by simp
    ultimately show ?thesis using units_run [of "take (p - 1) r" c "drop p s"] append_take_drop_id [of p s] by metis
  next
    case (Suc m)
    then have c: "cut p s = Suc m" using True by (simp add: cut_def)
    have "Suc m \<le> p" using rune_cut_le [of s p] Suc by simp
    then have "hd (drop (Suc m) s) = s ! Suc m" using True by (simp add: hd_drop_conv_nth)
    with rune_cut_start [OF Suc] units_append [of "drop (Suc m) s" "take (Suc m) s"] c show ?thesis by simp
  qed
qed (simp add: cut_def)

lemma cut_escaped: "3 < p \<Longrightarrow> escaped esc s = escaped esc (take (cut p s) s) @ escaped esc (drop (cut p s) s)"
  using cut_units [of p s] unfolding escaped_def by (metis concat_append map_append)

text \<open>A writer on which no write fails.\<close>

lemma emit_ok: "wr_script w = [] \<Longrightarrow> emit b w = (Inr (), w\<lparr>wr_out := wr_out w @ b\<rparr>)"
  by (simp add: emit_def)

lemma pieces_ok:
  "3 < p \<Longrightarrow> wr_script w = [] \<Longrightarrow> write_pieces p esc s w = (Inr (), w\<lparr>wr_out := wr_out w @ escaped esc s\<rparr>)"
proof (induction p esc s arbitrary: w rule: write_pieces.induct)
  case (1 p esc s)
  show ?case
  proof (cases "s = []")
    case True
    then show ?thesis by (subst write_pieces.simps) (simp add: ret_def escaped_def)
  next
    case False
    then have go: "\<not> (s = [] \<or> p = 0)" using 1(2) by simp
    let ?w = "w\<lparr>wr_out := wr_out w @ escaped esc (take (cut p s) s)\<rparr>"
    have "write_pieces p esc (drop (cut p s) s) ?w = (Inr (), ?w\<lparr>wr_out := wr_out ?w @ escaped esc (drop (cut p s) s)\<rparr>)"
      by (rule 1(1) [OF go 1(2)]) (simp add: 1(3))
    then show ?thesis using go cut_escaped [OF 1(2), of esc s]
      by (subst write_pieces.simps) (simp add: bindP_def emit_ok [OF 1(3)])
  qed
qed

lemma string_ok: "wr_script w = [] \<Longrightarrow> writeJSONString esc s w = (Inr (), w\<lparr>wr_out := wr_out w @ quote @ escaped esc s @ quote\<rparr>)"
  by (simp add: writeJSONString_def bindP_def emit_ok pieces_ok piece_def)

text \<open>
  C28. Pieces make up the whole. When no write fails, writing the answer of a command piece by piece writes exactly the JSON
  text of the answer, with the output escaped as \<open>json.Marshal\<close> escapes the whole string: for any bytes, also where a cut falls
  into a sequence that is not well-formed or into a long run of continuation bytes.
\<close>

theorem pieces_make_whole:
  assumes "wr_script w = []"
  shows "writeExecResult esc rc out err truncated w = (Inr (), w\<lparr>wr_out := wr_out w @
     ''{'' @ key ''rc'' @ rc @ '','' @ key ''stdout'' @ quote @ escaped esc out @ quote @ '','' @ key ''stderr'' @ quote @ escaped esc err @ quote @
     '','' @ key ''truncated'' @ (if truncated then ''true'' else ''false'') @ ''}'' @ [CHR 0x0A]\<rparr>)"
  using assms by (simp add: writeExecResult_def bindP_def emit_ok string_ok)

theorem pieces_make_whole_witness:
  "wr_out (snd (writeExecResult (\<lambda>u. if u = quote then [CHR 0x5C, CHR 0x22] else u) ''0'' (''a'' @ quote) [] False \<lparr>wr_out = [], wr_script = []\<rparr>)) =
   ''{'' @ key ''rc'' @ ''0,'' @ key ''stdout'' @ quote @ ''a'' @ [CHR 0x5C, CHR 0x22] @ quote @ '','' @ key ''stderr'' @ quote @ quote @ '','' @ key ''truncated'' @
   ''false}'' @ [CHR 0x0A]"
proof -
  have "escaped (\<lambda>u. if u = quote then [CHR 0x5C, CHR 0x22] else u) (''a'' @ quote) = ''a'' @ [CHR 0x5C, CHR 0x22]"
    "escaped (\<lambda>u. if u = quote then [CHR 0x5C, CHR 0x22] else u) [] = []" by code_simp+
  then show ?thesis by (subst pieces_make_whole) simp_all
qed
end
