(* ===== verification/Spec2Isabelle.thy ===== *)
theory Spec2Isabelle
  imports Group_Commit Lock_Lease Link_Trust Dial_Policy Relay_Tree Agent_Sessions Exec_Flow Json_Pieces
begin

text \<open>
  Verification of the Ansible-SecAgent relay server (Go, under \<open>src/GO/cmd/secagent-server/internal\<close>).

  The program. A relay server connects Ansible to agents that dial in over WebSocket. Everything it must not lose
  (enrolled agents, keys, tokens, revocations, the relay tree, link keys) is one in-memory model that is written, as
  one authenticated file \<open>relay.state\<close>, by an engine that groups concurrent mutations into one atomic file
  replacement. Several instances may share the state directory: a lock file with a lease elects the one master
  that may write. Relays form a tree; the root signs the tokens relays present to each other and tells the tree
  which tokens are revoked and which key is current. Ansible calls the HTTP API with a plugin token; a task goes to the
  agent when it is connected here, else to the child relay its host is routed through, which executes it the same way.

  Theories, bottom up, and the sources they model (under \<open>internal/\<close>):
  \<^item> Prelude, Effects, Encoding: Go conventions (errors, times, counters, maps, loops), state-passing programs
    with their triples, hexadecimal and base64.
  \<^item> State_Model (\<open>state/model.go\<close>): the entities, the unique indexes and every check of a load.
  \<^item> State_Tx (\<open>state/tx.go\<close>): the transaction with its undo log, every operation, rollback and finish.
  \<^item> State_FS (\<open>state/fs.go\<close>, parts of \<open>file.go\<close>): the directory, in which each call may fail, the bytes of a
    file are kept by a crash only after a sync of the file, and its names only after a sync of the directory
    (\<open>disk\<close> lists the directories a crash may go back to, \<open>crash_of\<close> damages what was not synchronised); atomic
    replacement, creation and backups, step by step.
  \<^item> State_File (\<open>state/file.go\<close>, \<open>crypto/\<close>): envelope, authentication, sealed secrets, loading with fallback.
  \<^item> State_Engine (\<open>state/engine.go\<close>, \<open>snapshot.go\<close>): open, commit of a batch, snapshots; Group_Commit: the queue of
    writers as a step relation.
  \<^item> Lock_Lease (\<open>lock/\<close>): calibration, candidacy, heartbeat, write guard, release, probe; other instances are
    arbitrary changes of the lock file between the calls.
  \<^item> Store_Tx, Store_History, Store_Security, Store (\<open>storage/\<close>): every mutation as a program over the transaction,
    sequences of mutations, the security mutations one by one, and the store itself with its volatile data and the
    routing table.
  \<^item> Link_Token (\<open>auth/linkjwt.go\<close>): link tokens, revocation lists, key rotations, and what is accepted.
  \<^item> Link_Trust (\<open>repeater/linktrust.go\<close>, \<open>server/linktrust_adapters.go\<close>): the trust of a relay, kept in the store.
  \<^item> Dial_Policy (\<open>repeater/dialpolicy.go\<close>): the category of an address and the dialler that checks what it connects to.
  \<^item> Agent_Tasks (\<open>ws/admission.go\<close>, the task tables of \<open>ws/handler.go\<close> and \<open>ws/relay_handler.go\<close>): admission of
    tasks, buffered output, the futures that wait for results.
  \<^item> Quotas (\<open>ws/event_quota.go\<close>, \<open>ws/snapshot_quota.go\<close>), Group_Vars (\<open>config/groupvars.go\<close>): what a relay may send
    and how often.
  \<^item> Relay_Link, Relay_Tree (\<open>ws/relay_handler.go\<close>, \<open>ws/link.go\<close>, the hooks of \<open>server/\<close>): every message a child relay
    sends, on the routing table of the store; the theorems are in Relay_Tree.
  \<^item> Agent_Token (\<open>auth/jwt.go\<close>, \<open>ws/jwt.go\<close>, \<open>ws/renewal.go\<close>, lifetimes in \<open>server/config.go\<close>): signing, validation under
    two secrets, and the delays of the renewal loop.
  \<^item> Agent_Access (\<open>handlers/register.go\<close>, \<open>handlers/security.go\<close>, \<open>AgentHandler\<close> of \<open>ws/handler.go\<close>, revocation and
    deletion in \<open>handlers/admin.go\<close>, the checks of \<open>server/helpers.go\<close>): enrollment with its challenge, handshakes, key
    rotation and renewal, each handler as a function on the node; Agent_Life: what they achieve one after the
    other; Agent_Sessions: handlers that interleave, as a step relation.
  \<^item> Plugin_Auth (\<open>handlers/plugin_auth.go\<close>, \<open>handlers/clientip.go\<close>): plugin tokens and the address of a caller.
  \<^item> Exec_Tasks (\<open>handlers/exec.go\<close>, \<open>proxy/router.go\<close>, \<open>forward/forward.go\<close>): the task handlers of the API, the router
    to child relays, and the child that executes; Exec_Flow: the theorems.
  \<^item> Json_Pieces (\<open>writeExecResult\<close> of \<open>handlers/exec.go\<close>): the answer of a command written by pieces.

  Interfaces. A locale states what one part relies on of another and is interpreted on the model of the provider:
  the sections of the transaction (\<open>map_field\<close>, \<open>index_field\<close>, \<open>unique_section\<close>, in State_Tx), the storage of the link
  trust (\<open>link_store\<close>, interpreted on the data store as \<open>srv\<close>), the windowed counters of the two quotas
  (\<open>windowed_table\<close>, as \<open>ev\<close> and \<open>sn\<close>) and the callbacks of a relay link (\<open>route_hooks\<close>, interpreted on the hooks
  the server installs as \<open>sr\<close>).

  What is shown. A mutation is acknowledged only when no crash can undo it, and what was written loads again up to the
  check of its secrets; a crash or a failed call at any point leaves the old or the new state; every transaction is undone exactly and what passes
  its checks is valid; the queue answers every request once and in order; an instance that lost the lock writes
  nothing (the theorem of this theory joins lock, engine and store); revocations persist through every history
  of store operations and reach link tokens; enrollment and key rotation are atomic; the trust of a relay follows
  only what the trusted key signed; a link is only dialled to permitted addresses; task
  limits hold under every interleaving and each result or disconnection reaches exactly its waiters; a child relay
  cannot take over hosts or relays it does not own, and only events that can be true pass; an enrollment needs the
  answer to a challenge issued in the last minute and gives a token that connects, a handshake is accepted only with a current token of
  an unrevoked host, one renewal, however it ends, does not lock out the agent that holds the current token, and no connection outlives a revocation whatever
  interleaves; a task is sent only for an authorised caller and to the place the tables name, has the same effect and
  answer through a relay as directly, holds no slot once its call has returned, and its output is written as the JSON
  text of the whole.

  Parameters. Code outside the repository is an argument: the JSON coders, SHA-256, HMAC, AES-GCM, HKDF, Ed25519
  and the JWT library (the records \<open>Lib\<close>, \<open>LinkLib\<close>, \<open>FrameLib\<close>, \<open>AgentLib\<close>, the address parsers in \<open>NetLib\<close>, the fields of \<open>senv\<close> and of the lock
  configuration). What a theorem needs of them is a hypothesis, and the witness of the theorem gives functions for
  which it holds. Of the JSON and JWT libraries these hypotheses speak of the one file or token at hand (\<open>json_keeps\<close>,
  \<open>hs256_keeps\<close>), since neither library keeps every value. Commits of other callers between a commit and the
  reading of its counter are a number in the environment of the store (\<open>sv_meanwhile\<close>). The clock, random values and the results of system calls are arguments or scripts.

  Bounds. Loops over lists and maps are structural. The loops that wait (Acquire, Maintain, Probe) take the number
  of rounds as fuel; \<open>probe_concludes\<close> and \<open>acquire_free_lock\<close> say how many are enough. The content check of the
  lock retries a fixed number of times, as in the code. Write counters are 64 bit words and wrap.

  Not modelled. The WebSocket loops and goroutines around the modelled decisions, HTTP routing and rendering, the
  command line, hooks (external processes), TLS set-up, and the minion, which runs the tasks: these are I/O, timers and
  processes around the modelled state. Logging is left out everywhere. Also left out: the listing handlers of the
  administration, which only read the modelled store, the socket side of a repeater (dialling again after a loss) and
  the offline tools that rewrite a state file under another key.
\<close>

section \<open>The lock guards the state\<close>

text \<open>\<open>CheckOwnership\<close> as the write guard of the engine (\<open>SetWriteGuard\<close>); the lock is the state of the guard.\<close>

definition lock_guard :: "LockCfg \<Rightarrow> lockw guard" where
  "lock_guard cfg w = (case CheckOwnership cfg w of (Inl e, w') \<Rightarrow> (Some e, w') | (Inr _, w') \<Rightarrow> (None, w'))"

lemma lock_guard_refuses: "isl (fst (CheckOwnership cfg w)) \<Longrightarrow> \<exists>e w'. lock_guard cfg w = (Some e, w')"
  by (auto simp: lock_guard_def isl_def split: prod.splits)

lemma mutate_refused:
  assumes "sv_guard env = Some g" "g (gst (st_fs s)) = (Some err, h)"
  shows "isl (fst (mutate env p s)) \<and> st_eng (snd (mutate env p s)) = st_eng s \<and>
    files (st_fs (snd (mutate env p s))) = files (st_fs s) \<and> trace (st_fs (snd (mutate env p s))) = trace (st_fs s)"
  using assms by (simp add: mutate_def commit_def call_guard_def nth_append Let_def)

text \<open>
  C7. An evicted master writes nothing. Once another instance has replaced the lock file, no store operation of the old
  master succeeds, whatever it did in between to its lock and whatever the others do short of publishing its id: the
  state it serves stays as it was and no file of the state directory is touched.
\<close>

theorem evicted_master_writes_nothing:
  assumes "holds_lock cfg h lw" "\<not> carries cfg c" "sv_guard env = Some (lock_guard cfg)"
    and "gst (st_fs s) = fold (run_master_op cfg) ops (fold env_step [EnvRemove, EnvCreate ino c] lw)"
  shows "isl (fst (mutate env p s)) \<and> st_eng (snd (mutate env p s)) = st_eng s \<and>
    files (st_fs (snd (mutate env p s))) = files (st_fs s) \<and> trace (st_fs (snd (mutate env p s))) = trace (st_fs s)"
proof -
  have "isl (fst (CheckOwnership cfg (gst (st_fs s))))"
    unfolding assms(4) by (rule fenced_refuses [OF fenced_master_ops [OF takeover_fenced [OF assms(1,2)]]])
  then obtain e w' where "lock_guard cfg (gst (st_fs s)) = (Some e, w')" using lock_guard_refuses by blast
  from mutate_refused [OF assms(3) this] show ?thesis .
qed

definition ex_locked_env :: "lockw senv" where
  "ex_locked_env = \<lparr>sv_lib = ex_lib, sv_guard = Some (lock_guard (ex_cfg ''a'')), sv_userPiggy = None, sv_before = [], sv_after = [], sv_now = 9, sv_meanwhile = 0,
     sv_marshal = (\<lambda>_. None), sv_unmarshal = (\<lambda>_. None), sv_parseTime = (\<lambda>_. None), sv_formatTime = (\<lambda>_. [])\<rparr>"

definition ex_evicted :: "lockw store" where
  "ex_evicted = newStore ex_engine (start (fmap_of_list [(StateFile, (''file 1'', True))]) []
     (fold (run_master_op (ex_cfg ''a'')) [DoBeat, DoCheck] (fold env_step [EnvRemove, EnvCreate 5 ''bM''] ex_master)))"

theorem evicted_master_writes_nothing_witness:
  "isl (fst (mutate ex_locked_env (RevokeAgent_tx ''web1'' ''jti1'' ''lost'' 100 9) ex_evicted))"
proof -
  have "holds_lock (ex_cfg ''a'') 0 ex_master" "\<not> carries (ex_cfg ''a'') ''bM''"
    by (simp_all add: holds_lock_def ex_master_def ex_lockw_def ex_cfg_def foreign_script_def carries_def parseContent_def
        ex_unmarshal_def zero_content_def)
  moreover have "sv_guard ex_locked_env = Some (lock_guard (ex_cfg ''a''))"
    "gst (st_fs ex_evicted) = fold (run_master_op (ex_cfg ''a'')) [DoBeat, DoCheck] (fold env_step [EnvRemove, EnvCreate 5 ''bM''] ex_master)"
    by (simp_all only: ex_locked_env_def ex_evicted_def newStore_def start_def senv.simps store.simps fsw.simps)
  ultimately show ?thesis by (rule evicted_master_writes_nothing [THEN conjunct1])
qed

end
